(* ===== verification/Prelude.thy ===== *)
theory Prelude
  imports Main "HOL-Library.Word"
begin

text \<open>
  Shared ground of the development: the fragment of Go's standard library the modelled
  functions use (byte strings and their helpers, decimal conversion, fixed-width integer
  wrap-around), the result type of fallible calls, and the generic list and map lemmas the
  component theories rely on.

  A Go \<open>string\<close> is a sequence of bytes, here a \<open>char list\<close>. \<open>strings.ToLower\<close> and
  \<open>strings.TrimSpace\<close> are given on the ASCII bytes, which is what the identifiers,
  addresses and cron expressions of the program consist of.
\<close>

named_theorems go_defs \<open>definitions of the standard-library fragment\<close>
named_theorems frame \<open>what an operation leaves unchanged\<close>

section \<open>Results of fallible calls\<close>

text \<open>
  A Go pair \<open>(value, error)\<close> is a sum: \<open>Inl e\<close> when the error is not nil, \<open>Inr v\<close> otherwise.
\<close>

definition is_ok :: "'e + 'a \<Rightarrow> bool" where
  "is_ok r = (case r of Inl _ \<Rightarrow> False | Inr _ \<Rightarrow> True)"

lemma is_ok_simps [simp]: "\<not> is_ok (Inl e)" "is_ok (Inr v)"
  by (simp_all add: is_ok_def)

lemma is_ok_iff: "is_ok r \<longleftrightarrow> (\<exists>v. r = Inr v)"
  by (cases r) auto

section \<open>Byte strings\<close>

definition has_prefix :: "string \<Rightarrow> string \<Rightarrow> bool" where
  "has_prefix s p = (take (length p) s = p)"

definition has_suffix :: "string \<Rightarrow> string \<Rightarrow> bool" where
  "has_suffix s p = (length p \<le> length s \<and> drop (length s - length p) s = p)"

definition trim_suffix :: "string \<Rightarrow> string \<Rightarrow> string" where
  "trim_suffix s p = (if has_suffix s p then take (length s - length p) s else s)"

lemma has_prefix_append [simp]: "has_prefix (p @ s) p"
  by (simp add: has_prefix_def)

lemma has_prefix_iff: "has_prefix s p \<longleftrightarrow> (\<exists>t. s = p @ t)"
  unfolding has_prefix_def by (metis append_eq_conv_conj append_take_drop_id)

lemma has_suffix_append [simp]: "has_suffix (s @ p) p"
  by (simp add: has_suffix_def)

lemma has_suffix_iff: "has_suffix s p \<longleftrightarrow> (\<exists>t. s = t @ p)"
proof
  assume "has_suffix s p"
  then show "\<exists>t. s = t @ p"
    unfolding has_suffix_def by (metis append_take_drop_id)
qed auto

lemma trim_suffix_append [simp]: "trim_suffix (s @ p) p = s"
  by (simp add: trim_suffix_def)

definition lower_char :: "char \<Rightarrow> char" where
  "lower_char c = (let n = of_char c :: nat in if 65 \<le> n \<and> n \<le> 90 then char_of (n + 32) else c)"

definition to_lower :: "string \<Rightarrow> string" where
  "to_lower s = map lower_char s"

definition is_space :: "char \<Rightarrow> bool" where
  "is_space c = (let n = of_char c :: nat in n = 32 \<or> (9 \<le> n \<and> n \<le> 13))"

definition trim_space :: "string \<Rightarrow> string" where
  "trim_space s = rev (dropWhile is_space (rev (dropWhile is_space s)))"

lemma length_to_lower [simp]: "length (to_lower s) = length s"
  by (simp add: to_lower_def)

lemma lower_char_idem [simp]: "lower_char (lower_char c) = lower_char c"
  by (auto simp: lower_char_def Let_def)

lemma to_lower_idem [simp]: "to_lower (to_lower s) = to_lower s"
  by (simp add: to_lower_def)

lemma to_lower_append: "to_lower (s @ t) = to_lower s @ to_lower t"
  by (simp add: to_lower_def)

lemma to_lower_Nil [simp]: "to_lower s = [] \<longleftrightarrow> s = []"
  by (simp add: to_lower_def)

text \<open>\<open>strings.Cut\<close> with a one-byte separator: before, after, found.\<close>

fun cut :: "char \<Rightarrow> string \<Rightarrow> string \<times> string \<times> bool" where
  "cut c [] = ([], [], False)"
| "cut c (x # xs) =
     (if x = c then ([], xs, True)
      else case cut c xs of (a, b, f) \<Rightarrow> (x # a, b, f))"

lemma cut_found: "cut c s = (a, b, True) \<Longrightarrow> s = a @ c # b \<and> c \<notin> set a"
  by (induction s arbitrary: a) (auto split: if_splits prod.splits)

lemma cut_not_found: "cut c s = (a, b, False) \<Longrightarrow> a = s \<and> b = [] \<and> c \<notin> set s"
  by (induction s arbitrary: a) (auto split: if_splits prod.splits)

lemma cut_append [simp]: "c \<notin> set a \<Longrightarrow> cut c (a @ c # b) = (a, b, True)"
  by (induction a) auto

lemma cut_absent: "c \<notin> set s \<Longrightarrow> cut c s = (s, [], False)"
  by (induction s) auto

text \<open>\<open>strings.IndexByte\<close> and the loops that look for the first separator.\<close>

fun index_byte :: "char \<Rightarrow> string \<Rightarrow> nat option" where
  "index_byte c [] = None"
| "index_byte c (x # xs) = (if x = c then Some 0 else map_option Suc (index_byte c xs))"

lemma index_byte_append [simp]: "c \<notin> set a \<Longrightarrow> index_byte c (a @ c # b) = Some (length a)"
  by (induction a) auto

lemma index_byte_None: "index_byte c s = None \<longleftrightarrow> c \<notin> set s"
  by (induction s) auto

lemma index_byte_Some:
  "index_byte c s = Some i \<Longrightarrow> s = take i s @ c # drop (Suc i) s \<and> c \<notin> set (take i s) \<and> i < length s"
  by (induction s arbitrary: i) (auto split: if_splits)

text \<open>\<open>strings.Split\<close> with a one-byte separator and \<open>strings.Fields\<close>.\<close>

fun split_char :: "char \<Rightarrow> string \<Rightarrow> string list" where
  "split_char c [] = [[]]"
| "split_char c (x # xs) =
     (if x = c then [] # split_char c xs
      else case split_char c xs of [] \<Rightarrow> [[x]] | p # ps \<Rightarrow> (x # p) # ps)"

lemma split_char_nonempty [simp]: "split_char c s \<noteq> []"
  by (cases s) (auto split: list.splits)

lemma split_char_absent: "c \<notin> set s \<Longrightarrow> split_char c s = [s]"
  by (induction s) auto

lemma split_char_append: "c \<notin> set a \<Longrightarrow> split_char c (a @ c # b) = a # split_char c b"
  by (induction a) auto

lemma split_char_parts: "p \<in> set (split_char c s) \<Longrightarrow> c \<notin> set p"
  by (induction s arbitrary: p) (auto split: if_splits list.splits)

lemma fields_shrinks:
  assumes "t = dropWhile is_space s" and "t \<noteq> []"
  shows "length (dropWhile (\<lambda>c. \<not> is_space c) t) < length s"
proof -
  have "\<not> is_space (hd t)" using assms hd_dropWhile by blast
  then have "length (dropWhile (\<lambda>c. \<not> is_space c) t) < length t"
    using assms(2) by (cases t) (auto simp: le_imp_less_Suc length_dropWhile_le)
  also have "length t \<le> length s" using assms(1) by (simp add: length_dropWhile_le)
  finally show ?thesis .
qed

function fields :: "string \<Rightarrow> string list" where
  "fields s =
     (let t = dropWhile is_space s
      in if t = [] then []
         else takeWhile (\<lambda>c. \<not> is_space c) t # fields (dropWhile (\<lambda>c. \<not> is_space c) t))"
  by pat_completeness auto

termination
  by (relation "measure length") (use fields_shrinks in auto)

declare fields.simps [simp del]

fun join :: "string \<Rightarrow> string list \<Rightarrow> string" where
  "join sep [] = []"
| "join sep [x] = x"
| "join sep (x # y # zs) = x @ sep @ join sep (y # zs)"

section \<open>Decimal conversion\<close>

definition digit_char :: "nat \<Rightarrow> char" where
  "digit_char d = char_of (48 + d)"

definition is_digit :: "char \<Rightarrow> bool" where
  "is_digit c = (let n = of_char c :: nat in 48 \<le> n \<and> n \<le> 57)"

definition digit_val :: "char \<Rightarrow> nat" where
  "digit_val c = of_char c - 48"

lemma digit_char_val [simp]: "d < 10 \<Longrightarrow> digit_val (digit_char d) = d"
  by (simp add: digit_val_def digit_char_def)

lemma digit_char_is_digit [simp]: "d < 10 \<Longrightarrow> is_digit (digit_char d)"
  by (simp add: is_digit_def digit_char_def)

lemma digit_chars [simp]:
  "digit_char 0 = CHR ''0''" "digit_char (Suc 0) = CHR ''1''" "digit_char 1 = CHR ''1''"
  "digit_char 2 = CHR ''2''" "digit_char 3 = CHR ''3''" "digit_char 4 = CHR ''4''"
  "digit_char 5 = CHR ''5''" "digit_char 6 = CHR ''6''" "digit_char 7 = CHR ''7''"
  "digit_char 8 = CHR ''8''" "digit_char 9 = CHR ''9''"
  by (simp_all add: digit_char_def char_of_eq_iff take_bit_Suc)

text \<open>\<open>strconv.Itoa\<close> on a natural number, and on an integer.\<close>

fun itoa :: "nat \<Rightarrow> string" where
  "itoa n = (if n < 10 then [digit_char n] else itoa (n div 10) @ [digit_char (n mod 10)])"

declare itoa.simps [simp del]

definition itoa_int :: "int \<Rightarrow> string" where
  "itoa_int i = (if i < 0 then CHR ''-'' # itoa (nat (- i)) else itoa (nat i))"

fun digits_val :: "nat \<Rightarrow> string \<Rightarrow> nat option" where
  "digits_val acc [] = Some acc"
| "digits_val acc (c # cs) = (if is_digit c then digits_val (acc * 10 + digit_val c) cs else None)"

text \<open>
  \<open>strconv.Atoi\<close>: an optional sign, then at least one decimal digit, and the value has to
  fit in 64 bits.
\<close>

definition atoi :: "string \<Rightarrow> int option" where
  "atoi s =
     (let (neg, ds) = (case s of [] \<Rightarrow> (False, [])
                       | c # cs \<Rightarrow> if c = CHR ''-'' then (True, cs)
                                   else if c = CHR ''+'' then (False, cs) else (False, s))
      in if ds = [] then None
         else case digits_val 0 ds of
                None \<Rightarrow> None
              | Some n \<Rightarrow>
                  (let v = (if neg then - int n else int n)
                   in if - (2 ^ 63) \<le> v \<and> v < 2 ^ 63 then Some v else None))"

lemma digits_val_append:
  "digits_val acc (xs @ ys) = (case digits_val acc xs of None \<Rightarrow> None | Some a \<Rightarrow> digits_val a ys)"
  by (induction xs arbitrary: acc) auto

lemma itoa_nonempty [simp]: "itoa n \<noteq> []"
  by (subst itoa.simps) simp

lemma itoa_digits: "c \<in> set (itoa n) \<Longrightarrow> is_digit c"
proof (induction n rule: itoa.induct)
  case (1 n)
  then show ?case
    by (cases "n < 10") (auto simp: itoa.simps [of n])
qed

lemma digits_val_itoa: "digits_val 0 (itoa n) = Some n"
proof (induction n rule: itoa.induct)
  case (1 n)
  show ?case
  proof (cases "n < 10")
    case True
    then show ?thesis by (simp add: itoa.simps [of n])
  next
    case False
    with "1.IH" show ?thesis
      by (simp add: itoa.simps [of n] digits_val_append)
  qed
qed

lemma is_digit_no_sign: "is_digit c \<Longrightarrow> c \<noteq> CHR ''-'' \<and> c \<noteq> CHR ''+'' \<and> c \<noteq> CHR ''/''"
  by (auto simp: is_digit_def Let_def)

lemma slash_notin_itoa [simp]: "CHR ''/'' \<notin> set (itoa n)"
  using itoa_digits is_digit_no_sign by blast

lemma atoi_itoa:
  assumes "n < 2 ^ 63"
  shows "atoi (itoa n) = Some (int n)"
proof -
  obtain c cs where e: "itoa n = c # cs" by (cases "itoa n") auto
  then have "is_digit c" using itoa_digits [of c n] by simp
  then have ns: "c \<noteq> CHR ''-''" "c \<noteq> CHR ''+''" using is_digit_no_sign by auto
  have v: "digits_val 0 (c # cs) = Some n" using digits_val_itoa [of n] e by simp
  have b: "int n < 2 ^ 63" using assms by (metis of_nat_less_iff of_nat_numeral of_nat_power)
  have "- (2 ^ 63) \<le> int n" by (rule order_trans [of _ 0]) auto
  with ns v b show ?thesis
    unfolding e atoi_def by (simp del: digits_val.simps)
qed

lemma itoa_inj: "itoa m = itoa n \<longleftrightarrow> m = n"
  by (metis digits_val_itoa option.inject)

lemma itoa_int_nonempty [simp]: "itoa_int i \<noteq> []"
  by (simp add: itoa_int_def)

lemma slash_notin_itoa_int [simp]: "CHR ''/'' \<notin> set (itoa_int i)"
  by (simp add: itoa_int_def)

lemma minus_notin_itoa: "itoa n \<noteq> CHR ''-'' # xs"
  using itoa_digits [of "CHR ''-''" n] is_digit_no_sign [of "CHR ''-''"] by auto

lemma itoa_int_inj: "itoa_int i = itoa_int j \<longleftrightarrow> i = j"
  by (auto simp: itoa_int_def itoa_inj minus_notin_itoa minus_notin_itoa [symmetric] split: if_splits)

lemma atoi_itoa_int:
  assumes "- (2 ^ 63) \<le> i" and "i < 2 ^ 63"
  shows "atoi (itoa_int i) = Some i"
proof (cases "i < 0")
  case True
  then have "atoi (CHR ''-'' # itoa (nat (- i))) = Some i"
    using assms by (simp add: atoi_def digits_val_itoa)
  with True show ?thesis by (simp add: itoa_int_def)
next
  case False
  then have "nat i < 2 ^ 63" using assms(2) by (simp add: nat_less_iff)
  then have "atoi (itoa (nat i)) = Some (int (nat i))" by (rule atoi_itoa)
  with False show ?thesis by (simp add: itoa_int_def)
qed

section \<open>Durations\<close>

text \<open>
  \<open>time.ParseDuration\<close> into nanoseconds: an optional sign, then \<open>0\<close> or terms of a decimal number and
  a unit; a fraction is cut to whole nanoseconds and the sum has to fit in 63 bits.
\<close>

definition unit_ns :: "string \<Rightarrow> nat option" where
  "unit_ns u =
     (if u = ''ns'' then Some 1
      else if u = ''us'' then Some 1000
      else if u = ''ms'' then Some 1000000
      else if u = ''s'' then Some 1000000000
      else if u = ''m'' then Some 60000000000
      else if u = ''h'' then Some 3600000000000
      else None)"

definition digits_nat :: "string \<Rightarrow> nat" where
  "digits_nat s = (case digits_val 0 s of None \<Rightarrow> 0 | Some n \<Rightarrow> n)"

definition fraction_part :: "string \<Rightarrow> string \<times> string" where
  "fraction_part s =
     (case s of
        [] \<Rightarrow> ([], [])
      | c # r \<Rightarrow> if c = CHR ''.'' then (takeWhile is_digit r, dropWhile is_digit r) else ([], s))"

lemma fraction_part_length: "length (snd (fraction_part s)) \<le> length s"
  by (cases s) (auto simp: fraction_part_def intro: le_SucI length_dropWhile_le)

function duration_terms :: "string \<Rightarrow> nat \<Rightarrow> nat option" where
  "duration_terms s acc =
     (if s = [] then Some acc
      else let ip = takeWhile is_digit s; fr = fraction_part (dropWhile is_digit s);
               fp = fst fr; r = snd fr;
               u = takeWhile (\<lambda>c. c \<noteq> CHR ''.'' \<and> \<not> is_digit c) r
           in if (ip = [] \<and> fp = []) \<or> u = [] then None
              else case unit_ns u of
                     None \<Rightarrow> None
                   | Some k \<Rightarrow>
                       (let v = acc + digits_nat ip * k + digits_nat fp * k div 10 ^ length fp
                        in if v > 2 ^ 63 then None else duration_terms (drop (length u) r) v))"
  by pat_completeness auto

termination
proof (relation "measure (\<lambda>(s, _). length s)", goal_cases)
  case (2 s acc ip fr fp r u k v)
  have "length r \<le> length s"
    using fraction_part_length [of "dropWhile is_digit s"] length_dropWhile_le [of is_digit s] 2 by simp
  moreover have "0 < length u" "0 < length s" using 2 by auto
  ultimately have "length r - length u < length s" by linarith
  then show ?case by simp
qed simp

declare duration_terms.simps [simp del]

definition ParseDuration :: "string \<Rightarrow> int option" where
  "ParseDuration s =
     (let (neg, r) = (case s of [] \<Rightarrow> (False, [])
                      | c # cs \<Rightarrow> if c = CHR ''-'' then (True, cs)
                                  else if c = CHR ''+'' then (False, cs) else (False, s))
      in if r = ''0'' then Some 0
         else if r = [] then None
         else case duration_terms r 0 of
                None \<Rightarrow> None
              | Some d \<Rightarrow> if neg then Some (- int d) else if d > 2 ^ 63 - 1 then None else Some (int d))"

section \<open>Fixed-width integers\<close>

text \<open>Go's \<open>int\<close> on the supported platforms: 64 bits, two's complement, wrap-around.\<close>

definition wrap64 :: "int \<Rightarrow> int" where
  "wrap64 v = (v + 2 ^ 63) mod 2 ^ 64 - 2 ^ 63"

lemma wrap64_id: "- (2 ^ 63) \<le> v \<Longrightarrow> v < 2 ^ 63 \<Longrightarrow> wrap64 v = v"
  by (simp add: wrap64_def)

lemma wrap64_over: "2 ^ 63 \<le> v \<Longrightarrow> v < 2 ^ 63 + 2 ^ 64 \<Longrightarrow> wrap64 v = v - 2 ^ 64"
proof -
  assume a: "(2::int) ^ 63 \<le> v" "v < 2 ^ 63 + 2 ^ 64"
  have "(v + 2 ^ 63) mod 2 ^ 64 = (v + 2 ^ 63 - 2 ^ 64) mod 2 ^ 64"
    by (rule minus_mod_self2 [symmetric])
  also have "\<dots> = v + 2 ^ 63 - 2 ^ 64" using a by (intro mod_pos_pos_trivial) auto
  finally show ?thesis by (simp add: wrap64_def)
qed

section \<open>Lists and maps\<close>

lemma filter_out_length: "length (filter P xs) + length (filter (\<lambda>x. \<not> P x) xs) = length xs"
  by (induction xs) auto

text \<open>
  Association lists that hold one entry per key once \<open>first_entries\<close> has dropped the shadowed ones.
\<close>

fun kv_set :: "'k \<Rightarrow> 'v \<Rightarrow> ('k \<times> 'v) list \<Rightarrow> ('k \<times> 'v) list" where
  "kv_set k v [] = [(k, v)]"
| "kv_set k v ((a, b) # kvs) = (if a = k then (k, v) # kvs else (a, b) # kv_set k v kvs)"

definition kv_del :: "'k \<Rightarrow> ('k \<times> 'v) list \<Rightarrow> ('k \<times> 'v) list" where
  "kv_del k kvs = filter (\<lambda>e. fst e \<noteq> k) kvs"

fun first_entries :: "('k \<times> 'v) list \<Rightarrow> ('k \<times> 'v) list" where
  "first_entries [] = []"
| "first_entries (e # es) = e # filter (\<lambda>x. fst x \<noteq> fst e) (first_entries es)"

lemma map_of_kv_set [simp]: "map_of (kv_set k v kvs) = (map_of kvs)(k \<mapsto> v)"
  by (induction k v kvs rule: kv_set.induct) (auto simp: fun_eq_iff)

lemma map_of_filter_keys: "map_of (filter (\<lambda>e. P (fst e)) kvs) = (\<lambda>k. if P k then map_of kvs k else None)"
  by (induction kvs) (auto simp: fun_eq_iff)

lemma map_of_kv_del [simp]: "map_of (kv_del k kvs) = (map_of kvs)(k := None)"
  unfolding kv_del_def map_of_filter_keys [where P = "\<lambda>x. x \<noteq> k"] by auto

lemma first_entries_distinct: "distinct (map fst (first_entries kvs))"
proof (induction kvs)
  case (Cons e es)
  then show ?case by (auto simp: distinct_map intro: inj_on_subset)
qed simp

lemma first_entries_map_of: "(k, v) \<in> set (first_entries kvs) \<longleftrightarrow> map_of kvs k = Some v"
  by (induction kvs) auto

lemma distinct_fst_filter: "distinct (map fst xs) \<Longrightarrow> distinct (map fst (filter P xs))"
  by (induction xs) auto

lemma map_of_rev_distinct: "distinct (map fst xs) \<Longrightarrow> map_of (rev xs) = map_of xs"
  by (rule map_of_inject_set [THEN iffD2]) (auto simp: rev_map [symmetric])

end
