(* ===== verification/Keys.thy ===== *)
theory Keys
  imports Prelude
begin

text \<open>
  The data model of the control plane and the layout of its keys in etcd:
  \<open>internal/controller/manifest.go\<close> (manifests, scoped and unscoped kinds, validation, the
  on-host identity of a resource) and \<open>internal/controller/keys.go\<close> (one function per key or
  prefix), with \<open>parseDesiredKey\<close> of \<open>store.go\<close>, which turns a watched key back into its parts.
  The lemmas show that the layout is read back exactly and that no two resources share a key.
\<close>

section \<open>Kinds and manifests\<close>

datatype kind =
    KindDeployment | KindStatefulset | KindIngress | KindJob | KindCronJob | KindAsset | KindRegistry

text \<open>A \<open>Kind\<close> is a string in the code; the valid ones are these seven spellings.\<close>

fun kind_str :: "kind \<Rightarrow> string" where
  "kind_str KindDeployment = ''deployment''"
| "kind_str KindStatefulset = ''statefulset''"
| "kind_str KindIngress = ''ingress''"
| "kind_str KindJob = ''job''"
| "kind_str KindCronJob = ''cronjob''"
| "kind_str KindAsset = ''asset''"
| "kind_str KindRegistry = ''registry''"

definition validKinds :: "kind list" where
  "validKinds = [KindDeployment, KindStatefulset, KindIngress, KindJob, KindCronJob, KindAsset,
     KindRegistry]"

definition IsScoped :: "kind \<Rightarrow> bool" where
  "IsScoped k = (k \<in> {KindDeployment, KindStatefulset, KindIngress, KindJob, KindCronJob})"

definition IsOptionallyScoped :: "kind \<Rightarrow> bool" where
  "IsOptionallyScoped k = (k = KindAsset)"

text \<open>
  The lookup \<open>validKinds[k]\<close> of a raw string, and \<open>ParseKind\<close>: the singular first, then with one
  trailing \<open>s\<close> removed.
\<close>

definition valid_kind :: "string \<Rightarrow> kind option" where
  "valid_kind s = List.find (\<lambda>k. kind_str k = s) validKinds"

definition ParseKind :: "string \<Rightarrow> kind option" where
  "ParseKind s =
     (let k = to_lower s
      in case valid_kind k of
           Some c \<Rightarrow> Some c
         | None \<Rightarrow> valid_kind (trim_suffix k ''s''))"

datatype json =
    JNull | JBool bool | JNum int | JStr string | JList "json list" | JObj "(string \<times> json) list"

record metadata =
  created_at :: int
  updated_at :: int
  revision :: int

text \<open>A \<open>Manifest\<close>; its kind is the raw string the wire carried.\<close>

record manifest =
  m_kind :: string
  m_scope :: string
  m_name :: string
  m_spec :: json
  m_metadata :: "metadata option"

definition AppID :: "string \<Rightarrow> string \<Rightarrow> string" where
  "AppID scope nm = (if scope = [] then nm else scope @ ''-'' @ nm)"

datatype manifest_error = NameRequired | UnknownKind string | ScopeRequired | ScopeNotSupported

definition Validate :: "manifest \<Rightarrow> manifest_error + kind" where
  "Validate m =
     (if m_name m = [] then Inl NameRequired
      else case ParseKind (m_kind m) of
             None \<Rightarrow> Inl (UnknownKind (m_kind m))
           | Some k \<Rightarrow>
               if IsScoped k \<and> m_scope m = [] then Inl ScopeRequired
               else if \<not> IsScoped k \<and> \<not> IsOptionallyScoped k \<and> m_scope m \<noteq> [] then Inl ScopeNotSupported
               else Inr k)"

section \<open>Keys\<close>

definition DesiredPrefix :: "string \<Rightarrow> string" where
  "DesiredPrefix k = ''/desired/'' @ k @ ''s/''"

definition ScopedPrefix :: "string \<Rightarrow> string \<Rightarrow> string" where
  "ScopedPrefix k scope = DesiredPrefix k @ scope @ ''/''"

text \<open>\<open>IsScoped\<close> of a raw kind string is a map lookup: false for every string that is not a kind.\<close>

definition is_scoped_str :: "string \<Rightarrow> bool" where
  "is_scoped_str s = (case valid_kind s of None \<Rightarrow> False | Some k \<Rightarrow> IsScoped k)"

definition DesiredKey :: "string \<Rightarrow> string \<Rightarrow> string \<Rightarrow> string" where
  "DesiredKey k scope nm =
     (if is_scoped_str k then ScopedPrefix k scope @ nm else DesiredPrefix k @ nm)"

definition AllDesiredPrefix :: string where
  "AllDesiredPrefix = ''/desired/''"

definition StatusKey :: "string \<Rightarrow> string \<Rightarrow> string" where
  "StatusKey k nm = ''/status/'' @ k @ ''s/'' @ nm"

definition ConfigPrefix :: "string \<Rightarrow> string \<Rightarrow> string" where
  "ConfigPrefix scope nm = ''/config/'' @ scope @ ''/'' @ (if nm = [] then ''_'' else nm) @ ''/''"

definition ConfigKey :: "string \<Rightarrow> string \<Rightarrow> string \<Rightarrow> string" where
  "ConfigKey scope nm key = ConfigPrefix scope nm @ key"

definition ConfigScopeRoot :: "string \<Rightarrow> string" where
  "ConfigScopeRoot scope = ''/config/'' @ scope @ ''/''"

definition FrozenKey :: "string \<Rightarrow> string \<Rightarrow> string \<Rightarrow> string" where
  "FrozenKey k scope nm =
     (if scope = [] then ''/frozen/'' @ k @ ''s/'' @ nm
      else ''/frozen/'' @ k @ ''s/'' @ scope @ ''/'' @ nm)"

definition FrozenScopeRoot :: "string \<Rightarrow> string" where
  "FrozenScopeRoot scope = ''/frozen/'' @ scope @ ''/''"

definition PodIPAddrKey :: "string \<Rightarrow> string" where
  "PodIPAddrKey ip = ''/podips/addr/'' @ ip"

definition PodIPPodPrefix :: "string \<Rightarrow> string \<Rightarrow> string" where
  "PodIPPodPrefix scope nm = ''/podips/pod/'' @ scope @ ''/'' @ nm @ ''/''"

definition PodIPPodKey :: "string \<Rightarrow> string \<Rightarrow> int \<Rightarrow> string" where
  "PodIPPodKey scope nm ordinal = PodIPPodPrefix scope nm @ itoa_int ordinal"

definition PATsPrefix :: string where
  "PATsPrefix = ''/pats/''"

definition PATKey :: "string \<Rightarrow> string" where
  "PATKey i = PATsPrefix @ i"

definition WirePeersPrefix :: string where
  "WirePeersPrefix = ''/wire/peers/''"

definition WirePeerKey :: "string \<Rightarrow> string" where
  "WirePeerKey address = WirePeersPrefix @ address"

text \<open>\<open>parseDesiredKey\<close>: both searches stop at the first slash and refuse an empty side.\<close>

definition split_slash :: "string \<Rightarrow> (string \<times> string) option" where
  "split_slash s =
     (case index_byte CHR ''/'' s of
        None \<Rightarrow> None
      | Some i \<Rightarrow> if i = 0 \<or> length s - 1 \<le> i then None else Some (take i s, drop (Suc i) s))"

definition parseDesiredKey :: "string \<Rightarrow> (kind \<times> string \<times> string) option" where
  "parseDesiredKey key =
     (if length key \<le> length AllDesiredPrefix then None
      else case split_slash (drop (length AllDesiredPrefix) key) of
             None \<Rightarrow> None
           | Some (kindPlural, rest) \<Rightarrow>
               (case ParseKind kindPlural of
                  None \<Rightarrow> None
                | Some k \<Rightarrow>
                    if \<not> IsScoped k then Some (k, [], rest)
                    else (case split_slash rest of
                            None \<Rightarrow> None
                          | Some (scope, nm) \<Rightarrow> Some (k, scope, nm))))"

section \<open>Kinds are read back\<close>

lemma valid_kind_str [simp]: "valid_kind (kind_str k) = Some k"
  by (cases k) (simp_all add: valid_kind_def validKinds_def)

lemma valid_kind_Some: "valid_kind s = Some k \<longleftrightarrow> s = kind_str k"
proof
  assume "valid_kind s = Some k"
  then show "s = kind_str k"
    unfolding valid_kind_def by (metis (mono_tags, lifting) find_Some_iff)
qed simp

lemma kind_str_lower [simp]: "to_lower (kind_str k) = kind_str k"
  by (cases k) (simp_all add: to_lower_def lower_char_def)

lemma kind_plural_invalid: "valid_kind (kind_str k @ ''s'') = None"
  by (cases k) (simp_all add: valid_kind_def validKinds_def)

lemma ParseKind_singular [simp]: "ParseKind (kind_str k) = Some k"
  by (simp add: ParseKind_def Let_def)

lemma ParseKind_plural [simp]: "ParseKind (kind_str k @ ''s'') = Some k"
proof -
  have "to_lower (kind_str k @ ''s'') = kind_str k @ ''s''"
    by (simp add: to_lower_append) (simp add: to_lower_def lower_char_def)
  then show ?thesis by (simp add: ParseKind_def Let_def kind_plural_invalid)
qed

lemma kind_str_inj: "kind_str j = kind_str k \<longleftrightarrow> j = k"
  by (metis option.inject valid_kind_str)

lemma kind_str_no_slash [simp]: "CHR ''/'' \<notin> set (kind_str k)"
  by (cases k) simp_all

lemma kind_str_nonempty [simp]: "kind_str k \<noteq> []"
  by (cases k) simp_all

lemma is_scoped_kind_str [simp]: "is_scoped_str (kind_str k) = IsScoped k"
  by (simp add: is_scoped_str_def)

section \<open>Keys are read back\<close>

lemma split_slash_append [simp]:
  "CHR ''/'' \<notin> set a \<Longrightarrow> a \<noteq> [] \<Longrightarrow> b \<noteq> [] \<Longrightarrow> split_slash (a @ CHR ''/'' # b) = Some (a, b)"
  by (auto simp: split_slash_def)

lemma split_slash_Some:
  "split_slash s = Some (a, b) \<Longrightarrow> s = a @ CHR ''/'' # b \<and> CHR ''/'' \<notin> set a \<and> a \<noteq> [] \<and> b \<noteq> []"
  by (auto simp: split_slash_def split: option.splits if_splits dest: index_byte_Some)

lemma parseDesiredKey_scoped:
  assumes "IsScoped k" and "CHR ''/'' \<notin> set scope" and "scope \<noteq> []" and "nm \<noteq> []"
  shows "parseDesiredKey (DesiredKey (kind_str k) scope nm) = Some (k, scope, nm)"
proof -
  let ?tl = "scope @ CHR ''/'' # nm"
  have key: "DesiredKey (kind_str k) scope nm = ''/desired/'' @ (kind_str k @ ''s'') @ CHR ''/'' # ?tl"
    using assms(1) by (simp add: DesiredKey_def ScopedPrefix_def DesiredPrefix_def)
  have kp: "CHR ''/'' \<notin> set (kind_str k @ ''s'')" by simp
  have "split_slash ((kind_str k @ ''s'') @ CHR ''/'' # ?tl) = Some (kind_str k @ ''s'', ?tl)"
    using kp by (intro split_slash_append) auto
  then show ?thesis
    unfolding key using assms by (simp add: parseDesiredKey_def AllDesiredPrefix_def)
qed

lemma parseDesiredKey_unscoped:
  assumes "\<not> IsScoped k" and "nm \<noteq> []"
  shows "parseDesiredKey (DesiredKey (kind_str k) scope nm) = Some (k, [], nm)"
proof -
  have key: "DesiredKey (kind_str k) scope nm = ''/desired/'' @ (kind_str k @ ''s'') @ CHR ''/'' # nm"
    using assms(1) by (simp add: DesiredKey_def DesiredPrefix_def)
  have kp: "CHR ''/'' \<notin> set (kind_str k @ ''s'')" by simp
  have "split_slash ((kind_str k @ ''s'') @ CHR ''/'' # nm) = Some (kind_str k @ ''s'', nm)"
    using kp assms(2) by (intro split_slash_append) auto
  then show ?thesis
    unfolding key using assms by (simp add: parseDesiredKey_def AllDesiredPrefix_def)
qed

lemma Validate_Inr:
  "Validate m = Inr k \<longleftrightarrow>
     m_name m \<noteq> [] \<and> ParseKind (m_kind m) = Some k \<and> (IsScoped k \<longrightarrow> m_scope m \<noteq> []) \<and>
     (\<not> IsScoped k \<and> \<not> IsOptionallyScoped k \<longrightarrow> m_scope m = [])"
  by (auto simp: Validate_def split: option.splits)

section \<open>Properties\<close>

text \<open>
  The watch key of every manifest the store accepts is read back to its kind, scope and name:
  \<open>parseDesiredKey (DesiredKey m)\<close> returns exactly what \<open>Put\<close> stored, with the scope dropped for a
  kind that is not scoped. The scope holds no slash (a name may).
\<close>

theorem desired_key_roundtrip:
  assumes "Validate m = Inr k" and "m_kind m = kind_str k" and "CHR ''/'' \<notin> set (m_scope m)"
  shows "parseDesiredKey (DesiredKey (m_kind m) (m_scope m) (m_name m)) =
    Some (k, if IsScoped k then m_scope m else [], m_name m)"
  using assms parseDesiredKey_scoped [of k "m_scope m" "m_name m"]
    parseDesiredKey_unscoped [of k "m_name m" "m_scope m"]
  by (auto simp: Validate_Inr)

definition web_manifest :: manifest where
  "web_manifest = \<lparr>m_kind = ''deployment'', m_scope = ''prod'', m_name = ''web'', m_spec = JNull,
     m_metadata = None\<rparr>"

theorem desired_key_roundtrip_witness:
  "Validate web_manifest = Inr KindDeployment \<and>
   parseDesiredKey (DesiredKey ''deployment'' ''prod'' ''web'') = Some (KindDeployment, ''prod'', ''web'')"
proof -
  have v: "Validate web_manifest = Inr KindDeployment"
    by (simp add: Validate_Inr web_manifest_def IsScoped_def ParseKind_singular [of KindDeployment, simplified])
  have k: "m_kind web_manifest = kind_str KindDeployment" and s: "CHR ''/'' \<notin> set (m_scope web_manifest)"
    by (simp_all add: web_manifest_def)
  show ?thesis
    using v desired_key_roundtrip [OF v k s] by (simp add: web_manifest_def IsScoped_def)
qed

text \<open>
  For the kinds whose scope must be given or must be empty, the desired key identifies the
  resource: two accepted manifests with the same key are of the same kind, scope and name, so no
  apply overwrites another resource.
\<close>

theorem desired_key_identifies:
  assumes "Validate m = Inr k" and "m_kind m = kind_str k" and "CHR ''/'' \<notin> set (m_scope m)"
    and "Validate m' = Inr k'" and "m_kind m' = kind_str k'" and "CHR ''/'' \<notin> set (m_scope m')"
    and "\<not> IsOptionallyScoped k"
    and "DesiredKey (m_kind m) (m_scope m) (m_name m) = DesiredKey (m_kind m') (m_scope m') (m_name m')"
  shows "k = k' \<and> m_scope m = m_scope m' \<and> m_name m = m_name m'"
proof -
  have rt: "parseDesiredKey (DesiredKey (m_kind x) (m_scope x) (m_name x)) =
      Some (j, if IsScoped j then m_scope x else [], m_name x)"
    if "Validate x = Inr j" "m_kind x = kind_str j" "CHR ''/'' \<notin> set (m_scope x)" for x j
    using that parseDesiredKey_scoped [of j "m_scope x" "m_name x"]
      parseDesiredKey_unscoped [of j "m_name x" "m_scope x"]
    by (auto simp: Validate_Inr)
  have "Some (k, if IsScoped k then m_scope m else [], m_name m) =
      Some (k', if IsScoped k' then m_scope m' else [], m_name m')"
    unfolding rt [OF assms(1-3), symmetric] rt [OF assms(4-6), symmetric] by (simp only: assms(8))
  then have "k = k' \<and> (if IsScoped k then m_scope m else []) = (if IsScoped k' then m_scope m' else []) \<and>
      m_name m = m_name m'"
    by (elim option.inject [THEN iffD1, elim_format] Pair_inject, intro conjI)
  then have "k = k'" "m_name m = m_name m'"
    and sc: "(if IsScoped k then m_scope m else []) = (if IsScoped k' then m_scope m' else [])"
    by blast+
  moreover have "m_scope m = m_scope m'"
    using sc \<open>k = k'\<close> assms(1,4,7) by (cases "IsScoped k") (simp_all add: Validate_Inr)
  ultimately show ?thesis by simp
qed

theorem desired_key_identifies_witness:
  "Validate web_manifest = Inr KindDeployment \<and>
   {nm. DesiredKey ''deployment'' ''prod'' ''web'' = DesiredKey ''deployment'' ''prod'' nm \<and> nm \<noteq> []} = {''web''}"
proof -
  have v: "Validate (web_manifest\<lparr>m_name := n\<rparr>) = Inr KindDeployment" if "n \<noteq> []" for n
    using that
    by (simp add: Validate_Inr web_manifest_def IsScoped_def ParseKind_singular [of KindDeployment, simplified])
  have w: "web_manifest\<lparr>m_name := ''web''\<rparr> = web_manifest" by (simp add: web_manifest_def)
  have "nm = ''web''"
    if "DesiredKey ''deployment'' ''prod'' ''web'' = DesiredKey ''deployment'' ''prod'' nm" "nm \<noteq> []" for nm
    using desired_key_identifies [of web_manifest KindDeployment "web_manifest\<lparr>m_name := nm\<rparr>" KindDeployment]
      v [of "''web''"] v [OF that(2)] that w
    by (simp add: web_manifest_def IsOptionallyScoped_def)
  then have "{nm. DesiredKey ''deployment'' ''prod'' ''web'' = DesiredKey ''deployment'' ''prod'' nm \<and> nm \<noteq> []} = {''web''}"
    by blast
  then show ?thesis using v [of "''web''"] w by simp
qed

text \<open>
  An asset may carry a scope, and the scope is not part of its key: two accepted assets of the
  same name in different scopes share one key, so the second apply replaces the first, and the
  watch reports either with no scope.
\<close>

theorem scoped_assets_share_a_key:
  "\<exists>m m'. Validate m = Inr KindAsset \<and> Validate m' = Inr KindAsset \<and> m_scope m \<noteq> m_scope m' \<and>
     DesiredKey (m_kind m) (m_scope m) (m_name m) = DesiredKey (m_kind m') (m_scope m') (m_name m') \<and>
     parseDesiredKey (DesiredKey (m_kind m) (m_scope m) (m_name m)) = Some (KindAsset, [], m_name m)"
proof -
  let ?m = "web_manifest\<lparr>m_kind := ''asset'', m_name := ''cfg''\<rparr>"
  let ?m' = "?m\<lparr>m_scope := ''dev''\<rparr>"
  have p: "ParseKind ''asset'' = Some KindAsset" using ParseKind_singular [of KindAsset] by simp
  have "Validate ?m = Inr KindAsset" "Validate ?m' = Inr KindAsset"
    using p by (simp_all add: Validate_Inr web_manifest_def IsScoped_def IsOptionallyScoped_def)
  moreover have "is_scoped_str ''asset'' = False"
    using is_scoped_kind_str [of KindAsset] by (simp add: IsScoped_def)
  ultimately show ?thesis
    using parseDesiredKey_unscoped [of KindAsset "''cfg''" "''prod''"]
    by (intro exI [of _ ?m] exI [of _ ?m'])
       (simp add: web_manifest_def DesiredKey_def IsScoped_def)
qed

text \<open>
  The on-host identity of a resource is not injective: whatever the scope, a hyphen inside it
  gives another scope and name with the same \<open>AppID\<close>.
\<close>

theorem app_id_collision:
  assumes "a \<noteq> []"
  shows "AppID (a @ ''-'' @ b) nm = AppID a (b @ ''-'' @ nm)"
  using assms by (simp add: AppID_def)

theorem app_id_collision_witness: "AppID ''clowk-lp'' ''web'' = AppID ''clowk'' ''lp-web''"
  using app_id_collision [of "''clowk''" "''lp''" "''web''"] by simp

text \<open>
  The prefix meant for wiping the freeze annotations of a scope covers none of them: no frozen
  key of that scope starts with \<open>FrozenScopeRoot\<close>, unless the scope is spelled like a kind's plural.
\<close>

theorem frozen_scope_root_misses:
  assumes "scope \<noteq> []" and "CHR ''/'' \<notin> set scope" and "scope \<noteq> kind_str k @ ''s''"
  shows "\<not> has_prefix (FrozenKey (kind_str k) scope nm) (FrozenScopeRoot scope)"
proof
  assume "has_prefix (FrozenKey (kind_str k) scope nm) (FrozenScopeRoot scope)"
  then obtain t where "(kind_str k @ ''s'') @ CHR ''/'' # scope @ CHR ''/'' # nm = scope @ CHR ''/'' # t"
    using assms(1) by (auto simp: has_prefix_iff FrozenKey_def FrozenScopeRoot_def)
  then have "cut CHR ''/'' ((kind_str k @ ''s'') @ CHR ''/'' # scope @ CHR ''/'' # nm) =
      cut CHR ''/'' (scope @ CHR ''/'' # t)" by simp
  moreover have "CHR ''/'' \<notin> set (kind_str k @ ''s'')" by simp
  ultimately have "kind_str k @ ''s'' = scope"
    unfolding cut_append [OF assms(2)] by (subst (asm) cut_append) simp_all
  with assms(3) show False by simp
qed

theorem frozen_scope_root_misses_witness:
  "\<not> has_prefix (FrozenKey ''statefulset'' ''prod'' ''db'') (FrozenScopeRoot ''prod'')"
  using frozen_scope_root_misses [of "''prod''" KindStatefulset "''db''"] by simp

end
