(* ===== verification/Etcd.thy ===== *)
theory Etcd
  imports Keys
begin

text \<open>
  The persisted documents and the etcd client the stores call. The client is third-party code
  (\<open>go.etcd.io/etcd/client/v3\<close>): it is a record of operations that every definition of the
  stores takes as an argument. What etcd documents of them is the interface \<open>etcd_api\<close>: a view of
  the state as a map from keys to documents, and one law per operation. An operation that returns
  an error returns no new state: the caller goes on with the one it had. \<open>kv_client\<close> is the
  reference instance, the same key-value map the in-memory store of the repository's tests
  (\<open>memstore_test.go\<close>) is built on.
\<close>

section \<open>Documents\<close>

text \<open>\<open>WirePeer\<close> of \<open>wire.go\<close>.\<close>

record wire_peer =
  wp_public_key :: string
  wp_address :: string
  wp_endpoint :: string
  wp_added_at :: int

text \<open>\<open>PAT\<close> of \<open>pat.go\<close>; the zero time is 0.\<close>

record pat =
  pt_id :: string
  pt_hash :: string
  pt_scopes :: "string list"
  pt_name :: string
  pt_created :: int
  pt_last_used :: int

text \<open>\<open>ReleaseRecord\<close> and \<open>DeploymentStatus\<close> of \<open>handlers.go\<close>.\<close>

datatype release_status = ReleaseRunning | ReleaseSucceeded | ReleaseFailed

record release_record =
  rr_id :: string
  rr_rolled_back_from :: string
  rr_spec_hash :: string
  rr_image :: string
  rr_build_id :: string
  rr_status :: release_status
  rr_pre_exit :: int
  rr_exit :: int
  rr_post_exit :: int
  rr_error :: string
  rr_snapshot :: "json option"

text \<open>\<open>InitFailure\<close> of \<open>init_containers.go\<close> and \<open>ReplicaReadinessStatus\<close>.\<close>

record init_failure =
  if_replica_id :: string
  if_init_name :: string
  if_exit_code :: int
  if_attempts :: int

record readiness_status =
  rs_container :: string
  rs_replica_id :: string
  rs_ready :: bool
  rs_startup_passed :: bool
  rs_phase :: string
  rs_reason :: string
  rs_last_transition :: int

record deployment_status =
  ds_image :: string
  ds_spec_hash :: string
  ds_replicas :: int
  ds_releases :: "release_record list"
  ds_init_failures :: "init_failure list"
  ds_readiness :: "(string \<times> readiness_status) list"
  ds_last_error :: string
  ds_last_at :: int

definition empty_status :: deployment_status where
  "empty_status = \<lparr>ds_image = [], ds_spec_hash = [], ds_replicas = 0, ds_releases = [],
     ds_init_failures = [], ds_readiness = [], ds_last_error = [], ds_last_at = 0\<rparr>"

text \<open>\<open>JobRun\<close>, \<open>JobStatus\<close> and \<open>CronJobStatus\<close>; times are nanoseconds, the zero time is 0.\<close>

datatype run_status = RunRunning | RunSucceeded | RunFailed

record job_run =
  jr_id :: string
  jr_started :: int
  jr_ended :: int
  jr_exit :: int
  jr_status :: run_status
  jr_error :: string

record job_status =
  js_schedule :: string
  js_image :: string
  js_history :: "job_run list"
  js_last_run :: "int option"

text \<open>\<open>IngressStatus\<close> of \<open>handlers_service.go\<close>.\<close>

record ingress_status =
  ig_plugin :: string
  ig_data :: "(string \<times> json) list"
  ig_last_error :: string
  ig_last_at :: int

definition empty_ingress_status :: ingress_status where
  "empty_ingress_status = \<lparr>ig_plugin = [], ig_data = [], ig_last_error = [], ig_last_at = 0\<rparr>"

text \<open>\<open>AssetStatus\<close> of \<open>handlers_asset.go\<close>: digests and errors by key.\<close>

record asset_status =
  as_files :: "(string \<times> string) list"
  as_errors :: "(string \<times> string) list"
  as_at :: int

text \<open>\<open>Trigger\<close> of \<open>trigger.go\<close>.\<close>

record trigger =
  tg_id :: string
  tg_repo :: string
  tg_branch :: string
  tg_allow_scopes :: "string list"
  tg_enabled :: bool
  tg_created_at :: int
  tg_last_fired_at :: "int option"
  tg_last_built :: "(string \<times> string) list"

text \<open>
  Values are JSON texts in etcd; a document is what such a text decodes to. Decoding a document of
  another shape is a decode error of the reader.
\<close>

datatype doc =
    DText string | DManifest manifest | DFrozen "string list" | DPeer wire_peer | DPat pat
  | DStatus deployment_status | DJobStatus job_status | DIngressStatus ingress_status
  | DAssetStatus asset_status | DTrigger trigger

section \<open>The client\<close>

type_synonym key = string

datatype etcd_cmp = CreateRevZero key | ValueIs key doc

datatype etcd_op = OpPut key doc | OpDelete key

record 's etcd =
  etcd_get :: "'s \<Rightarrow> key \<Rightarrow> string + doc option"
  etcd_list :: "'s \<Rightarrow> string \<Rightarrow> string + (key \<times> doc) list"
  etcd_revision :: "'s \<Rightarrow> key \<Rightarrow> int"
  etcd_put :: "'s \<Rightarrow> key \<Rightarrow> doc \<Rightarrow> string + 's"
  etcd_delete :: "'s \<Rightarrow> key \<Rightarrow> string + ('s \<times> nat)"
  etcd_delete_prefix :: "'s \<Rightarrow> string \<Rightarrow> string + ('s \<times> nat)"
  etcd_txn :: "'s \<Rightarrow> etcd_cmp list \<Rightarrow> etcd_op list \<Rightarrow> etcd_op list \<Rightarrow> string + ('s \<times> bool)"

type_synonym kv = "key \<rightharpoonup> doc"

text \<open>
  The documented meaning of a comparison: a create revision is zero exactly when the key is absent,
  and a value comparison fails on an absent key.
\<close>

fun cmp_holds :: "kv \<Rightarrow> etcd_cmp \<Rightarrow> bool" where
  "cmp_holds m (CreateRevZero k) = (m k = None)"
| "cmp_holds m (ValueIs k v) = (m k = Some v)"

fun apply_op :: "etcd_op \<Rightarrow> kv \<Rightarrow> kv" where
  "apply_op (OpPut k v) m = m(k \<mapsto> v)"
| "apply_op (OpDelete k) m = m(k := None)"

definition apply_txn :: "kv \<Rightarrow> etcd_cmp list \<Rightarrow> etcd_op list \<Rightarrow> etcd_op list \<Rightarrow> kv \<times> bool" where
  "apply_txn m cs ts es =
     (let ok = list_all (cmp_holds m) cs in (fold apply_op (if ok then ts else es) m, ok))"

locale etcd_api =
  fixes cl :: "'s etcd" and view :: "'s \<Rightarrow> kv"
  assumes get_law: "etcd_get cl s k = Inr r \<Longrightarrow> r = view s k"
    and list_sound: "etcd_list cl s p = Inr kvs \<Longrightarrow> (k, v) \<in> set kvs \<Longrightarrow> has_prefix k p \<and> view s k = Some v"
    and list_complete: "etcd_list cl s p = Inr kvs \<Longrightarrow> has_prefix k p \<Longrightarrow> view s k = Some v \<Longrightarrow> (k, v) \<in> set kvs"
    and list_distinct: "etcd_list cl s p = Inr kvs \<Longrightarrow> distinct (map fst kvs)"
    and put_law: "etcd_put cl s k v = Inr s' \<Longrightarrow> view s' = (view s)(k \<mapsto> v)"
    and delete_law: "etcd_delete cl s k = Inr (s', n) \<Longrightarrow>
      view s' = (view s)(k := None) \<and> (0 < n \<longleftrightarrow> view s k \<noteq> None)"
    and delete_prefix_law: "etcd_delete_prefix cl s p = Inr (s', n) \<Longrightarrow>
      view s' = (\<lambda>k. if has_prefix k p then None else view s k)"
    and txn_law: "etcd_txn cl s cs ts es = Inr (s', ok) \<Longrightarrow> (view s', ok) = apply_txn (view s) cs ts es"
begin

lemmas etcd_laws = get_law put_law delete_law delete_prefix_law txn_law

end

section \<open>The reference client\<close>

text \<open>
  An association list in key order of insertion, newest first, one entry per key; the second
  component is a fault switch: while it is set every request fails.
\<close>

type_synonym kv_state = "(key \<times> doc) list \<times> bool"

definition kv_view :: "kv_state \<Rightarrow> kv" where
  "kv_view s = map_of (fst s)"

fun kv_op :: "etcd_op \<Rightarrow> (key \<times> doc) list \<Rightarrow> (key \<times> doc) list" where
  "kv_op (OpPut k v) kvs = kv_set k v kvs"
| "kv_op (OpDelete k) kvs = kv_del k kvs"

definition kv_cmp :: "(key \<times> doc) list \<Rightarrow> etcd_cmp \<Rightarrow> bool" where
  "kv_cmp kvs c = (case c of CreateRevZero k \<Rightarrow> map_of kvs k = None
                   | ValueIs k v \<Rightarrow> (case map_of kvs k of None \<Rightarrow> False | Some w \<Rightarrow> w = v))"

definition kv_ret :: "kv_state \<Rightarrow> 'a \<Rightarrow> string + 'a" where
  "kv_ret s r = (if snd s then Inl ''etcdserver: request timed out'' else Inr r)"

definition kv_client :: "kv_state etcd" where
  "kv_client =
     \<lparr>etcd_get = (\<lambda>s k. kv_ret s (map_of (fst s) k)),
      etcd_list = (\<lambda>s p. kv_ret s (filter (\<lambda>e. has_prefix (fst e) p) (first_entries (fst s)))),
      etcd_revision = (\<lambda>s k. if map_of (fst s) k = None then 0 else 1),
      etcd_put = (\<lambda>s k v. kv_ret s (kv_set k v (fst s), snd s)),
      etcd_delete = (\<lambda>s k. kv_ret s ((kv_del k (fst s), snd s), if map_of (fst s) k = None then 0 else 1)),
      etcd_delete_prefix = (\<lambda>s p. kv_ret s ((filter (\<lambda>e. \<not> has_prefix (fst e) p) (fst s), snd s),
         length (filter (\<lambda>e. has_prefix (fst e) p) (fst s)))),
      etcd_txn = (\<lambda>s cs ts es. let ok = list_all (kv_cmp (fst s)) cs
         in kv_ret s ((fold kv_op (if ok then ts else es) (fst s), snd s), ok))\<rparr>"

lemma map_of_kv_op: "map_of (kv_op op kvs) = apply_op op (map_of kvs)"
  by (cases op) simp_all

lemma map_of_kv_ops: "map_of (fold kv_op ops kvs) = fold apply_op ops (map_of kvs)"
  by (induction ops arbitrary: kvs) (simp_all add: map_of_kv_op)

lemma kv_cmp_holds: "kv_cmp kvs c = cmp_holds (map_of kvs) c"
  by (cases c) (auto simp: kv_cmp_def split: option.splits)

interpretation kv: etcd_api kv_client kv_view
proof (unfold_locales, goal_cases)
  case (1 s k v)
  then show ?case by (simp add: kv_client_def kv_ret_def kv_view_def split: if_splits)
next
  case (2 s p kvs k v)
  then show ?case
    by (auto simp: kv_client_def kv_ret_def kv_view_def first_entries_map_of split: if_splits)
next
  case (3 s p kvs k v)
  then show ?case
    by (auto simp: kv_client_def kv_ret_def kv_view_def first_entries_map_of split: if_splits)
next
  case (4 s p kvs)
  then show ?case
    by (auto simp: kv_client_def kv_ret_def intro: distinct_fst_filter first_entries_distinct
        split: if_splits)
next
  case (5 s k v s')
  then show ?case by (auto simp: kv_client_def kv_ret_def kv_view_def split: if_splits)
next
  case (6 s k s' n)
  then show ?case by (auto simp: kv_client_def kv_ret_def kv_view_def split: if_splits)
next
  case (7 s p s' n)
  then show ?case
    using map_of_filter_keys [where P = "\<lambda>x. \<not> has_prefix x p" and kvs = "fst s"]
    by (auto simp: kv_client_def kv_ret_def kv_view_def fun_eq_iff split: if_splits)
next
  case (8 s cs ts es s' ok)
  have "list_all (kv_cmp (fst s)) cs = list_all (cmp_holds (map_of (fst s))) cs"
    by (simp add: kv_cmp_holds list_all_iff)
  with 8 show ?case
    by (auto simp: kv_client_def kv_ret_def kv_view_def apply_txn_def Let_def map_of_kv_ops split: if_splits)
qed

text \<open>An etcd that answers: in a state that is up every request is served, and the state stays up.\<close>

locale answering_etcd = etcd_api cl view for cl :: "'s etcd" and view :: "'s \<Rightarrow> kv" +
  fixes up :: "'s \<Rightarrow> bool"
  assumes get_answers: "up s \<Longrightarrow> etcd_get cl s k \<noteq> Inl e"
    and put_answers: "up s \<Longrightarrow> etcd_put cl s k v \<noteq> Inl e"
    and put_up: "up s \<Longrightarrow> etcd_put cl s k v = Inr s' \<Longrightarrow> up s'"
begin

lemma get_up: "up s \<Longrightarrow> etcd_get cl s k = Inr (view s k)"
  using get_answers get_law by (cases "etcd_get cl s k") blast+

lemma put_view: "up s \<Longrightarrow> \<exists>s'. etcd_put cl s k v = Inr s' \<and> up s' \<and> view s' = (view s)(k \<mapsto> v)"
  using put_answers put_up put_law by (cases "etcd_put cl s k v") blast+

end

interpretation kv_up: answering_etcd kv_client kv_view "\<lambda>s. \<not> snd s"
  by unfold_locales (auto simp: kv_client_def kv_ret_def)

end
