(* ===== verification/NetIP.thy ===== *)
theory NetIP
  imports Prelude
begin

text \<open>
  The part of Go's \<open>net/netip\<close> the program uses, on IPv4: addresses are 32-bit words, a prefix
  is an address with a length (an IPv6 prefix is kept apart, since it contains no IPv4 address).
  The textual form is dotted decimal, and parsing what \<open>String\<close> printed gives the address back.
\<close>

type_synonym addr = "32 word"

datatype prefix = Prefix4 addr nat | Prefix6

definition addr_of_octets :: "nat \<Rightarrow> nat \<Rightarrow> nat \<Rightarrow> nat \<Rightarrow> addr" where
  "addr_of_octets a b c d = word_of_nat (((a * 256 + b) * 256 + c) * 256 + d)"

text \<open>\<open>As4()[i]\<close>.\<close>

definition octet :: "nat \<Rightarrow> addr \<Rightarrow> nat" where
  "octet i a = (unat a div 256 ^ (3 - i)) mod 256"

definition addr_string :: "addr \<Rightarrow> string" where
  "addr_string a =
     itoa (octet 0 a) @ CHR ''.'' # itoa (octet 1 a) @ CHR ''.'' # itoa (octet 2 a) @ CHR ''.'' #
     itoa (octet 3 a)"

text \<open>One decimal field: digits only, no leading zero, at most 255.\<close>

definition parse_octet :: "string \<Rightarrow> nat option" where
  "parse_octet s =
     (if s = [] \<or> (hd s = CHR ''0'' \<and> 1 < length s) then None
      else case digits_val 0 s of
             None \<Rightarrow> None
           | Some n \<Rightarrow> if n \<le> 255 then Some n else None)"

definition parse_addr :: "string \<Rightarrow> addr option" where
  "parse_addr s =
     (case split_char CHR ''.'' s of
        [a, b, c, d] \<Rightarrow>
          (case (parse_octet a, parse_octet b, parse_octet c, parse_octet d) of
             (Some a', Some b', Some c', Some d') \<Rightarrow> Some (addr_of_octets a' b' c' d')
           | _ \<Rightarrow> None)
      | _ \<Rightarrow> None)"

text \<open>\<open>Addr.Next\<close>: none after the last address.\<close>

definition addr_next :: "addr \<Rightarrow> addr option" where
  "addr_next a = (if a = - 1 then None else Some (a + 1))"

fun prefix_contains :: "prefix \<Rightarrow> addr \<Rightarrow> bool" where
  "prefix_contains (Prefix4 p n) a = (unat a div 2 ^ (32 - n) = unat p div 2 ^ (32 - n))"
| "prefix_contains Prefix6 a = False"

text \<open>\<open>Prefix.Masked().Addr()\<close>: the host bits cleared.\<close>

definition masked_addr :: "addr \<Rightarrow> nat \<Rightarrow> addr" where
  "masked_addr p n = word_of_nat ((unat p div 2 ^ (32 - n)) * 2 ^ (32 - n))"

section \<open>Octets\<close>

lemma unat_addr_less [simp]: "unat (a :: addr) < 4294967296"
  using unsigned_less [of a, where ?'a = nat] by simp

lemma unat_of_small: "n < 4294967296 \<Longrightarrow> unat (word_of_nat n :: addr) = n"
  by (simp add: unat_of_nat)

lemma octet_bound [simp]: "octet i a < 256"
  by (simp add: octet_def)

lemma div_powers:
  "n div 65536 = n div 256 div (256 :: nat)" "n div 16777216 = n div 256 div 256 div (256 :: nat)"
  by (simp_all only: div_mult2_eq [symmetric]) simp_all

lemma base256 [simp]:
  "d < (256 :: nat) \<Longrightarrow> (x * 256 + d) div 256 = x" "d < (256 :: nat) \<Longrightarrow> (x * 256 + d) mod 256 = d"
  by auto

lemma addr_of_octets_octets [simp]:
  "addr_of_octets (octet 0 a) (octet 1 a) (octet 2 a) (octet 3 a) = a"
proof -
  let ?n = "unat a"
  have hi: "?n div 256 div 256 div 256 < 256"
    using unat_addr_less [of a] by (simp add: div_mult2_eq [symmetric] div_less_iff_less_mult)
  have "((?n div 256 div 256 div 256 * 256 + ?n div 256 div 256 mod 256) * 256 + ?n div 256 mod 256) * 256
        + ?n mod 256 = ?n"
    by (simp only: div_mult_mod_eq)
  with hi show ?thesis
    by (simp add: addr_of_octets_def octet_def div_powers)
qed

lemma octet_eqs:
  "octet 0 a = unat a div 256 div 256 div 256 mod 256"
  "octet (Suc 0) a = unat a div 256 div 256 mod 256"
  "octet 2 a = unat a div 256 mod 256"
  "octet 3 a = unat a mod 256"
  by (simp_all add: octet_def div_powers)

lemma unat_addr_of_octets:
  assumes "a < 256" "b < 256" "c < 256" "d < 256"
  shows "unat (addr_of_octets a b c d) = ((a * 256 + b) * 256 + c) * 256 + d"
proof -
  have "((a * 256 + b) * 256 + c) * 256 + d < 4294967296" using assms by simp
  then show ?thesis by (simp only: addr_of_octets_def unat_of_small)
qed

lemma octets_of_addr [simp]:
  assumes "a < 256" "b < 256" "c < 256" "d < 256"
  shows "octet 0 (addr_of_octets a b c d) = a" "octet (Suc 0) (addr_of_octets a b c d) = b"
    "octet 2 (addr_of_octets a b c d) = c" "octet 3 (addr_of_octets a b c d) = d"
  unfolding octet_eqs unat_addr_of_octets [OF assms] base256 [OF assms(4)] base256 [OF assms(3)]
    base256 [OF assms(2)] using assms
  by simp_all

lemma addr_eq_octets:
  "x = y \<longleftrightarrow> octet 0 x = octet 0 y \<and> octet 1 x = octet 1 y \<and> octet 2 x = octet 2 y \<and> octet 3 x = octet 3 y"
  by (metis addr_of_octets_octets)

section \<open>Text and back\<close>

lemma dot_notin_itoa [simp]: "CHR ''.'' \<notin> set (itoa n)"
  using itoa_digits [of "CHR ''.''" n] by (auto simp: is_digit_def)

lemma hd_itoa_zero:
  assumes "10 \<le> n"
  shows "hd (itoa n) \<noteq> CHR ''0''"
  using assms
proof (induction n rule: itoa.induct)
  case (1 n)
  have step: "itoa n = itoa (n div 10) @ [digit_char (n mod 10)]"
    using "1.prems" by (simp add: itoa.simps [of n])
  show ?case
  proof (cases "n div 10 < 10")
    case True
    define d where "d = n div 10"
    have d: "0 < d" "d < 10" using True "1.prems" by (auto simp: d_def)
    have "of_char (digit_char d) = 48 + d" using d by (simp add: digit_char_def)
    then have "digit_char d \<noteq> CHR ''0''" using d by auto
    then show ?thesis using d unfolding step d_def [symmetric] by (simp add: itoa.simps [of d])
  next
    case False
    then have "hd (itoa (n div 10)) \<noteq> CHR ''0''" using "1.IH" "1.prems" by simp
    then show ?thesis unfolding step by simp
  qed
qed

lemma length_itoa_small: "n < 10 \<Longrightarrow> length (itoa n) = 1"
  by (simp add: itoa.simps [of n])

lemma parse_octet_itoa [simp]: "n < 256 \<Longrightarrow> parse_octet (itoa n) = Some n"
  using hd_itoa_zero [of n] length_itoa_small [of n]
  by (cases "n < 10") (auto simp: parse_octet_def digits_val_itoa)

lemma parse_addr_string [simp]: "parse_addr (addr_string a) = Some a"
  using addr_of_octets_octets [of a]
  by (simp add: parse_addr_def addr_string_def split_char_append split_char_absent)

lemma addr_string_inj: "addr_string a = addr_string b \<longleftrightarrow> a = b"
  by (metis option.inject parse_addr_string)

lemma addr_string_nonempty [simp]: "addr_string a \<noteq> []"
  by (simp add: addr_string_def)

lemma addr_string_no_slash [simp]: "CHR ''/'' \<notin> set (addr_string a)"
  by (simp add: addr_string_def)

section \<open>Successors and subnets\<close>

lemma addr_next_Some: "addr_next a = Some b \<Longrightarrow> unat b = Suc (unat a)"
proof -
  assume a: "addr_next a = Some b"
  then have n: "a \<noteq> - 1" and b: "b = 1 + a" by (auto simp: addr_next_def split: if_splits)
  from n have "1 + a \<noteq> 0" by (metis add.commute add_eq_0_iff2 add.inverse_inverse minus_equation_iff)
  then show ?thesis unfolding b by (rule unatSuc)
qed

lemma unat_addr_max: "unat (- 1 :: addr) = 4294967295"
proof -
  have "(- 1 :: addr) = 4294967295" by simp
  then show ?thesis by (simp only: unat_numeral) simp
qed

lemma addr_next_exists:
  assumes "unat a < 4294967295"
  shows "\<exists>b. addr_next a = Some b"
proof -
  have "a \<noteq> - 1" using assms unat_addr_max by auto
  then show ?thesis by (simp add: addr_next_def)
qed

lemma unat_masked_addr: "unat (masked_addr p n) = (unat p div 2 ^ (32 - n)) * 2 ^ (32 - n)"
proof -
  have "(unat p div 2 ^ (32 - n)) * 2 ^ (32 - n) \<le> unat p" by simp
  also have "\<dots> < 4294967296" by simp
  finally show ?thesis unfolding masked_addr_def by (rule unat_of_small)
qed

text \<open>Membership of a masked prefix is an interval.\<close>

lemma div_eq_iff_interval:
  fixes x y k :: nat
  assumes "0 < k"
  shows "x div k = y div k \<longleftrightarrow> (y div k) * k \<le> x \<and> x < (y div k) * k + k"
proof
  assume e: "x div k = y div k"
  have "(x div k) * k \<le> x" by simp
  moreover have "x < (x div k) * k + k" using assms by (metis add.commute dividend_less_div_times)
  ultimately show "(y div k) * k \<le> x \<and> x < (y div k) * k + k" by (simp add: e)
next
  assume "(y div k) * k \<le> x \<and> x < (y div k) * k + k"
  then show "x div k = y div k" by (intro div_nat_eqI) (auto simp: mult.commute)
qed

lemma prefix_contains_iff:
  "prefix_contains (Prefix4 p n) a \<longleftrightarrow>
     unat (masked_addr p n) \<le> unat a \<and> unat a < unat (masked_addr p n) + 2 ^ (32 - n)"
  by (simp only: prefix_contains.simps unat_masked_addr) (rule div_eq_iff_interval, simp)

lemma prefix_contains_masked [simp]:
  "prefix_contains (Prefix4 (masked_addr p n) n) a = prefix_contains (Prefix4 p n) a"
  by (simp add: unat_masked_addr)

end
