(* ===== verification/PodIPs.thy ===== *)
theory PodIPs
  imports Etcd NetIP
begin

text \<open>
  Fixed addresses of statefulset pods on \<open>voodu0\<close>: \<open>internal/controller/pod_ip_store.go\<close> (the
  reservation as two etcd keys written in one transaction) and \<open>pod_ips.go\<close> (the pool of addresses
  docker leaves alone and the allocator).  The invariant is that the two directions agree, so no
  address is ever reserved for two pods; every operation keeps it. The allocator's lemmas are
  proved from the interface \<open>pod_ip_store\<close> alone, which the etcd-backed operations satisfy.
\<close>

section \<open>Reservations in etcd\<close>

definition podRef :: "string \<Rightarrow> string \<Rightarrow> int \<Rightarrow> string" where
  "podRef scope nm ordinal = scope @ ''/'' @ nm @ ''/'' @ itoa_int ordinal"

definition ReservePodIP ::
  "'s etcd \<Rightarrow> 's \<Rightarrow> string \<Rightarrow> string \<Rightarrow> int \<Rightarrow> string \<Rightarrow> string + ('s \<times> bool)" where
  "ReservePodIP cl s scope nm ordinal ip =
     (let addrKey = PodIPAddrKey ip; podKey = PodIPPodKey scope nm ordinal
      in case etcd_txn cl s [CreateRevZero addrKey, CreateRevZero podKey]
                [OpPut addrKey (DText (podRef scope nm ordinal)), OpPut podKey (DText ip)] [] of
           Inl e \<Rightarrow> Inl (''etcd reserve pod ip: '' @ e)
         | Inr (s', ok) \<Rightarrow> Inr (s', ok))"

text \<open>The text of a document; a document of another kind has no text.\<close>

fun doc_text :: "doc \<Rightarrow> string" where
  "doc_text (DText t) = t"
| "doc_text _ = []"

definition GetPodIP :: "'s etcd \<Rightarrow> 's \<Rightarrow> string \<Rightarrow> string \<Rightarrow> int \<Rightarrow> string + string" where
  "GetPodIP cl s scope nm ordinal =
     (case etcd_get cl s (PodIPPodKey scope nm ordinal) of
        Inl e \<Rightarrow> Inl (''etcd get pod ip: '' @ e)
      | Inr None \<Rightarrow> Inr []
      | Inr (Some d) \<Rightarrow> Inr (doc_text d))"

definition ReleasePodIP :: "'s etcd \<Rightarrow> 's \<Rightarrow> string \<Rightarrow> string \<Rightarrow> int \<Rightarrow> string + 's" where
  "ReleasePodIP cl s scope nm ordinal =
     (let podKey = PodIPPodKey scope nm ordinal
      in case etcd_get cl s podKey of
           Inl e \<Rightarrow> Inl (''etcd get pod ip: '' @ e)
         | Inr None \<Rightarrow> Inr s
         | Inr (Some d) \<Rightarrow>
             (let addrKey = PodIPAddrKey (doc_text d)
              in case etcd_txn cl s [ValueIs addrKey (DText (podRef scope nm ordinal))]
                        [OpDelete podKey, OpDelete addrKey] [OpDelete podKey] of
                   Inl e \<Rightarrow> Inl (''etcd release pod ip: '' @ e)
                 | Inr (s', _) \<Rightarrow> Inr s'))"

text \<open>
  \<open>ReleasePodIPs\<close>: every key under the statefulset's prefix whose rest is an ordinal, in the order
  the listing returned them; the first failure stops the loop, and what was released before it
  stays released.
\<close>

fun release_ordinals ::
  "'s etcd \<Rightarrow> 's \<Rightarrow> string \<Rightarrow> string \<Rightarrow> string list \<Rightarrow> 's \<times> string option" where
  "release_ordinals cl s scope nm [] = (s, None)"
| "release_ordinals cl s scope nm (r # rs) =
     (case atoi r of
        None \<Rightarrow> release_ordinals cl s scope nm rs
      | Some i \<Rightarrow>
          (case ReleasePodIP cl s scope nm i of
             Inl e \<Rightarrow> (s, Some e)
           | Inr s' \<Rightarrow> release_ordinals cl s' scope nm rs))"

definition ReleasePodIPs :: "'s etcd \<Rightarrow> 's \<Rightarrow> string \<Rightarrow> string \<Rightarrow> 's \<times> string option" where
  "ReleasePodIPs cl s scope nm =
     (let pfx = PodIPPodPrefix scope nm
      in case etcd_list cl s pfx of
           Inl e \<Rightarrow> (s, Some (''etcd list pod ips: '' @ e))
         | Inr kvs \<Rightarrow> release_ordinals cl s scope nm (map (\<lambda>kv. drop (length pfx) (fst kv)) kvs))"

section \<open>The allocator\<close>

text \<open>\<open>docker.NetworkAddressPlan\<close>; an absent component is an invalid \<open>netip\<close> value.\<close>

record plan =
  pl_subnet :: "prefix option"
  pl_gateway :: "addr option"
  pl_iprange :: "prefix option"

text \<open>
  The loop \<open>for a := first; subnet.Contains(a.Next()); a = a.Next()\<close>, collecting what is neither the
  gateway nor in docker's own range.
\<close>

function pool_from :: "prefix \<Rightarrow> addr option \<Rightarrow> prefix \<Rightarrow> addr \<Rightarrow> addr list" where
  "pool_from subnet gw dockerRange a =
     (case addr_next a of
        None \<Rightarrow> []
      | Some b \<Rightarrow>
          if \<not> prefix_contains subnet b then []
          else (if gw = Some a \<or> prefix_contains dockerRange a then [] else [a]) @ pool_from subnet gw dockerRange b)"
  by pat_completeness auto
termination
proof (relation "measure (\<lambda>(subnet, gw, dockerRange, a). 4294967296 - unat a)", goal_cases)
  case (2 subnet gw dockerRange a b)
  then have "unat b = Suc (unat a)" by (intro addr_next_Some)
  with unat_addr_less [of b] show ?case by simp
qed simp

declare pool_from.simps [simp del]

definition fixedPodAddresses :: "plan \<Rightarrow> addr list option" where
  "fixedPodAddresses pl =
     (case (pl_subnet pl, pl_iprange pl) of
        (Some (Prefix4 p n), Some dockerRange) \<Rightarrow>
          (let base = masked_addr p n;
               gateway = (case pl_gateway pl of Some g \<Rightarrow> Some g | None \<Rightarrow> addr_next base)
           in case addr_next base of
                None \<Rightarrow> None
              | Some first \<Rightarrow>
                  (let out = pool_from (Prefix4 base n) gateway dockerRange first
                   in if out = [] then None else Some out))
      | _ \<Rightarrow> None)"

text \<open>
  The interface \<open>Store\<close> as the allocator sees it: read a pod's address, try to reserve one, drop a
  reservation. The last argument of the allocator stands for \<open>a.Plan()\<close>.
\<close>

record 's pod_store =
  ps_get :: "'s \<Rightarrow> string \<Rightarrow> string \<Rightarrow> int \<Rightarrow> string + string"
  ps_reserve :: "'s \<Rightarrow> string \<Rightarrow> string \<Rightarrow> int \<Rightarrow> string \<Rightarrow> string + ('s \<times> bool)"
  ps_release :: "'s \<Rightarrow> string \<Rightarrow> string \<Rightarrow> int \<Rightarrow> string + 's"

definition no_address_left :: string where
  "no_address_left = ''voodu0 has no fixed address left''"

fun draw_address ::
  "'s pod_store \<Rightarrow> 's \<Rightarrow> string \<Rightarrow> string \<Rightarrow> int \<Rightarrow> addr list \<Rightarrow> 's \<times> (string + string)" where
  "draw_address st s scope nm ordinal [] = (s, Inl no_address_left)"
| "draw_address st s scope nm ordinal (a # pool) =
     (case ps_reserve st s scope nm ordinal (addr_string a) of
        Inl e \<Rightarrow> (s, Inl e)
      | Inr (s', True) \<Rightarrow> (s', Inr (addr_string a))
      | Inr (s', False) \<Rightarrow>
          (case ps_get st s' scope nm ordinal of
             Inl e \<Rightarrow> (s', Inl e)
           | Inr held \<Rightarrow>
               if held \<noteq> [] then (s', Inr held) else draw_address st s' scope nm ordinal pool))"

definition addressFor ::
  "'s pod_store \<Rightarrow> string + plan option \<Rightarrow> 's \<Rightarrow> string \<Rightarrow> string \<Rightarrow> int \<Rightarrow> 's \<times> (string + string)" where
  "addressFor st the_plan s scope nm ordinal =
     (case the_plan of
        Inl e \<Rightarrow> (s, Inl (''read voodu0 address plan: '' @ e))
      | Inr None \<Rightarrow> (s, Inr [])
      | Inr (Some pl) \<Rightarrow>
          (case fixedPodAddresses pl of
             None \<Rightarrow> (s, Inr [])
           | Some pool \<Rightarrow>
               (case ps_get st s scope nm ordinal of
                  Inl e \<Rightarrow> (s, Inl e)
                | Inr held \<Rightarrow>
                    if held = [] then draw_address st s scope nm ordinal pool
                    else if (case parse_addr held of None \<Rightarrow> False | Some a \<Rightarrow> a \<in> set pool)
                    then (s, Inr held)
                    else (case ps_release st s scope nm ordinal of
                            Inl e \<Rightarrow> (s, Inl e)
                          | Inr s' \<Rightarrow> draw_address st s' scope nm ordinal pool))))"

definition etcd_pod_store :: "'s etcd \<Rightarrow> 's pod_store" where
  "etcd_pod_store cl = \<lparr>ps_get = GetPodIP cl, ps_reserve = ReservePodIP cl, ps_release = ReleasePodIP cl\<rparr>"

section \<open>The reservation invariant\<close>

text \<open>
  In the view: an address points at a pod exactly when the pod points at the address, and both
  hold texts. The empty text is no address.
\<close>

definition pod_key :: "string \<Rightarrow> key" where
  "pod_key r = ''/podips/pod/'' @ r"

definition pods_inv :: "kv \<Rightarrow> bool" where
  "pods_inv m \<longleftrightarrow>
     (\<forall>ip d. m (PodIPAddrKey ip) = Some d \<longrightarrow> (\<exists>r. d = DText r \<and> m (pod_key r) = Some (DText ip))) \<and>
     (\<forall>r d. m (pod_key r) = Some d \<longrightarrow> (\<exists>ip. d = DText ip \<and> m (PodIPAddrKey ip) = Some (DText r))) \<and>
     m (PodIPAddrKey []) = None"

definition held :: "kv \<Rightarrow> string \<rightharpoonup> string" where
  "held m r = map_option doc_text (m (pod_key r))"

lemma PodIPPodKey_podRef: "PodIPPodKey scope nm ordinal = pod_key (podRef scope nm ordinal)"
  by (simp add: PodIPPodKey_def PodIPPodPrefix_def podRef_def pod_key_def)

lemma pod_keys_inj [simp]:
  "pod_key r = pod_key r' \<longleftrightarrow> r = r'" "PodIPAddrKey ip = PodIPAddrKey ip' \<longleftrightarrow> ip = ip'"
  "pod_key r \<noteq> PodIPAddrKey ip" "PodIPAddrKey ip \<noteq> pod_key r"
  by (simp_all add: pod_key_def PodIPAddrKey_def)

lemma pods_inv_pod: "pods_inv m \<Longrightarrow> m (pod_key r) = Some d \<Longrightarrow>
    \<exists>ip. d = DText ip \<and> m (PodIPAddrKey ip) = Some (DText r)"
  by (simp add: pods_inv_def)

lemma pods_inv_addr: "pods_inv m \<Longrightarrow> m (PodIPAddrKey ip) = Some d \<Longrightarrow>
    \<exists>r. d = DText r \<and> m (pod_key r) = Some (DText ip)"
  by (simp add: pods_inv_def)

lemma held_inj:
  assumes "pods_inv m" and "held m r = Some ip" and "held m r' = Some ip"
  shows "r = r'"
proof -
  from assms(2,3) obtain d d' where d: "m (pod_key r) = Some d" "m (pod_key r') = Some d'"
    and t: "doc_text d = ip" "doc_text d' = ip"
    by (auto simp: held_def)
  from pods_inv_pod [OF assms(1) d(1)] t have "m (PodIPAddrKey ip) = Some (DText r)" by auto
  moreover from pods_inv_pod [OF assms(1) d(2)] t have "m (PodIPAddrKey ip) = Some (DText r')" by auto
  ultimately show ?thesis by simp
qed

lemma held_addr_iff:
  assumes "pods_inv m"
  shows "ip \<in> ran (held m) \<longleftrightarrow> m (PodIPAddrKey ip) \<noteq> None"
proof
  assume "ip \<in> ran (held m)"
  then obtain r d where "m (pod_key r) = Some d" "doc_text d = ip"
    by (auto simp: ran_def held_def)
  with pods_inv_pod [OF assms] show "m (PodIPAddrKey ip) \<noteq> None" by fastforce
next
  assume "m (PodIPAddrKey ip) \<noteq> None"
  then obtain r where "m (pod_key r) = Some (DText ip)"
    using pods_inv_addr [OF assms] by blast
  then have "held m r = Some ip" by (simp add: held_def)
  then show "ip \<in> ran (held m)" by (auto simp: ran_def)
qed

lemma pods_inv_reserve:
  assumes inv: "pods_inv m" and "m (PodIPAddrKey ip) = None" and "m (pod_key r) = None" and "ip \<noteq> []"
  shows "pods_inv (m(PodIPAddrKey ip \<mapsto> DText r, pod_key r \<mapsto> DText ip))" (is "pods_inv ?m")
  unfolding pods_inv_def
proof (intro conjI allI impI)
  fix ip' d assume a: "?m (PodIPAddrKey ip') = Some d"
  show "\<exists>r'. d = DText r' \<and> ?m (pod_key r') = Some (DText ip')"
  proof (cases "ip' = ip")
    case True
    with a show ?thesis by (intro exI [of _ r]) simp
  next
    case False
    with a obtain r' where "d = DText r'" "m (pod_key r') = Some (DText ip')"
      using pods_inv_addr [OF inv, of ip'] by auto
    with assms(3) show ?thesis by (intro exI [of _ r']) auto
  qed
next
  fix r' d assume a: "?m (pod_key r') = Some d"
  show "\<exists>ip'. d = DText ip' \<and> ?m (PodIPAddrKey ip') = Some (DText r')"
  proof (cases "r' = r")
    case True
    with a show ?thesis by (intro exI [of _ ip]) simp
  next
    case False
    with a obtain ip' where "d = DText ip'" "m (PodIPAddrKey ip') = Some (DText r')"
      using pods_inv_pod [OF inv, of r'] by auto
    with assms(2) show ?thesis by (intro exI [of _ ip']) auto
  qed
next
  show "?m (PodIPAddrKey []) = None"
    using inv assms(4) by (simp add: pods_inv_def)
qed

lemma pods_inv_release:
  assumes inv: "pods_inv m" and d: "m (pod_key r) = Some (DText ip)"
  shows "pods_inv (m(pod_key r := None, PodIPAddrKey ip := None))" (is "pods_inv ?m")
proof -
  have a: "m (PodIPAddrKey ip) = Some (DText r)"
    using pods_inv_pod [OF inv d] by simp
  show ?thesis
    unfolding pods_inv_def
  proof (intro conjI allI impI)
    fix ip' d' assume "?m (PodIPAddrKey ip') = Some d'"
    then have ne: "ip' \<noteq> ip" and "m (PodIPAddrKey ip') = Some d'" by (auto split: if_splits)
    then obtain r' where r': "d' = DText r'" "m (pod_key r') = Some (DText ip')"
      using pods_inv_addr [OF inv] by blast
    with d ne have "r' \<noteq> r" by auto
    with r' show "\<exists>r'. d' = DText r' \<and> ?m (pod_key r') = Some (DText ip')"
      by (intro exI [of _ r']) simp
  next
    fix r' d' assume "?m (pod_key r') = Some d'"
    then have ne: "r' \<noteq> r" and "m (pod_key r') = Some d'" by (auto split: if_splits)
    then obtain ip' where ip': "d' = DText ip'" "m (PodIPAddrKey ip') = Some (DText r')"
      using pods_inv_pod [OF inv] by blast
    with a ne have "ip' \<noteq> ip" by auto
    with ip' show "\<exists>ip'. d' = DText ip' \<and> ?m (PodIPAddrKey ip') = Some (DText r')"
      by (intro exI [of _ ip']) simp
  next
    show "?m (PodIPAddrKey []) = None"
      using inv by (simp add: pods_inv_def)
  qed
qed

lemma pods_inv_empty: "pods_inv Map.empty"
  by (simp add: pods_inv_def)

section \<open>What the store promises the allocator\<close>

locale pod_ip_store =
  fixes st :: "'s pod_store" and holds :: "'s \<Rightarrow> string \<rightharpoonup> string" and good :: "'s \<Rightarrow> bool"
  assumes get_spec: "good s \<Longrightarrow> ps_get st s scope nm ordinal = Inr ip \<Longrightarrow>
      ip = (case holds s (podRef scope nm ordinal) of None \<Rightarrow> [] | Some a \<Rightarrow> a)"
    and reserve_spec: "good s \<Longrightarrow> ip \<noteq> [] \<Longrightarrow> ps_reserve st s scope nm ordinal ip = Inr (s', ok) \<Longrightarrow>
      good s' \<and>
      (if ok then holds s (podRef scope nm ordinal) = None \<and> ip \<notin> ran (holds s) \<and>
                  holds s' = (holds s)(podRef scope nm ordinal \<mapsto> ip)
       else holds s' = holds s \<and> (holds s (podRef scope nm ordinal) \<noteq> None \<or> ip \<in> ran (holds s)))"
    and release_spec: "good s \<Longrightarrow> ps_release st s scope nm ordinal = Inr s' \<Longrightarrow>
      good s' \<and> holds s' = (holds s)(podRef scope nm ordinal := None)"
    and holds_unique: "good s \<Longrightarrow> holds s r = Some ip \<Longrightarrow> holds s r' = Some ip \<Longrightarrow> r = r'"
    and holds_nonempty: "good s \<Longrightarrow> holds s r \<noteq> Some []"
    and other_errors: "ps_get st s scope nm ordinal \<noteq> Inl no_address_left"
      "ps_reserve st s scope nm ordinal ip \<noteq> Inl no_address_left"
      "ps_release st s scope nm ordinal \<noteq> Inl no_address_left"
begin

lemma draw_good: "good s \<Longrightarrow> draw_address st s scope nm ordinal pool = (s', r) \<Longrightarrow> good s'"
proof (induction pool arbitrary: s)
  case (Cons a pool)
  then show ?case
    using reserve_spec [of s "addr_string a" scope nm ordinal]
    by (auto split: sum.splits prod.splits bool.splits if_splits)
qed simp

lemma draw_frame:
  "good s \<Longrightarrow> draw_address st s scope nm ordinal pool = (s', r) \<Longrightarrow> q \<noteq> podRef scope nm ordinal \<Longrightarrow>
   holds s' q = holds s q"
proof (induction pool arbitrary: s)
  case (Cons a pool)
  then show ?case
    using reserve_spec [of s "addr_string a" scope nm ordinal]
    by (auto split: sum.splits prod.splits bool.splits if_splits)
qed simp

lemma draw_result:
  "good s \<Longrightarrow> draw_address st s scope nm ordinal pool = (s', Inr ip) \<Longrightarrow>
   ip \<noteq> [] \<and> holds s' (podRef scope nm ordinal) = Some ip"
proof (induction pool arbitrary: s)
  case (Cons a pool)
  note res = reserve_spec [of s "addr_string a" scope nm ordinal]
  show ?case
  proof (cases "ps_reserve st s scope nm ordinal (addr_string a)")
    case (Inl e)
    with Cons.prems show ?thesis by simp
  next
    case (Inr p)
    obtain s1 ok where p: "p = (s1, ok)" by (cases p)
    with res Inr Cons.prems(1) have g: "good s1" by auto
    show ?thesis
    proof (cases ok)
      case True
      with Inr p Cons.prems have "s' = s1" "ip = addr_string a" by simp_all
      moreover have "holds s1 (podRef scope nm ordinal) = Some (addr_string a)"
        using reserve_spec [OF Cons.prems(1) addr_string_nonempty Inr [unfolded p]] True by simp
      ultimately show ?thesis by simp
    next
      case False
      show ?thesis
      proof (cases "ps_get st s1 scope nm ordinal")
        case (Inl e)
        with False Inr p Cons.prems show ?thesis by simp
      next
        case h: (Inr h)
        show ?thesis
        proof (cases "h = []")
          case True
          with h False Inr p Cons.prems have "draw_address st s1 scope nm ordinal pool = (s', Inr ip)"
            by simp
          then show ?thesis by (rule Cons.IH [OF g])
        next
          case hne: False
          with h False Inr p Cons.prems have "s' = s1" "ip = h" by simp_all
          with get_spec [OF g h] hne show ?thesis by (simp split: option.splits)
        qed
      qed
    qed
  qed
qed simp

text \<open>A pool runs out only when every address of it is held.\<close>

lemma draw_step:
  assumes "good s" and "holds s (podRef scope nm ordinal) = None"
    and "ps_reserve st s scope nm ordinal (addr_string a) = Inr (s1, ok)"
  shows "good s1" and "ok \<Longrightarrow> draw_address st s scope nm ordinal (a # pool) = (s1, Inr (addr_string a))"
    and "\<not> ok \<Longrightarrow> holds s1 = holds s \<and> addr_string a \<in> ran (holds s) \<and>
      (draw_address st s scope nm ordinal (a # pool) = draw_address st s1 scope nm ordinal pool \<or>
       (\<exists>e. ps_get st s1 scope nm ordinal = Inl e \<and> draw_address st s scope nm ordinal (a # pool) = (s1, Inl e)))"
proof -
  note sp = reserve_spec [OF assms(1) addr_string_nonempty assms(3)]
  show "good s1" using sp by simp
  show "ok \<Longrightarrow> draw_address st s scope nm ordinal (a # pool) = (s1, Inr (addr_string a))"
    using assms(3) by simp
  assume nok: "\<not> ok"
  then have h: "holds s1 = holds s" "addr_string a \<in> ran (holds s)" using sp assms(2) by auto
  have "h = []" if "ps_get st s1 scope nm ordinal = Inr h" for h
    using get_spec [OF _ that] sp h(1) assms(2) by simp
  with nok h assms(3) show "holds s1 = holds s \<and> addr_string a \<in> ran (holds s) \<and>
      (draw_address st s scope nm ordinal (a # pool) = draw_address st s1 scope nm ordinal pool \<or>
       (\<exists>e. ps_get st s1 scope nm ordinal = Inl e \<and> draw_address st s scope nm ordinal (a # pool) = (s1, Inl e)))"
    by (cases "ps_get st s1 scope nm ordinal") auto
qed

lemma draw_exhausted:
  "good s \<Longrightarrow> holds s (podRef scope nm ordinal) = None \<Longrightarrow>
   draw_address st s scope nm ordinal pool = (s', Inl no_address_left) \<Longrightarrow>
   holds s' = holds s \<and> (\<forall>a \<in> set pool. addr_string a \<in> ran (holds s))"
proof (induction pool arbitrary: s)
  case (Cons a pool)
  show ?case
  proof (cases "ps_reserve st s scope nm ordinal (addr_string a)")
    case (Inl e)
    with Cons.prems(3) other_errors(2) show ?thesis by auto
  next
    case (Inr p)
    obtain s1 ok where p: "p = (s1, ok)" by (cases p)
    note st = draw_step [OF Cons.prems(1,2) Inr [unfolded p]]
    have nok: "\<not> ok" using st(2) Cons.prems(3) by auto
    have "draw_address st s1 scope nm ordinal pool = (s', Inl no_address_left)"
      using st(3) [OF nok, of pool] Cons.prems(3) other_errors(1) [of s1 scope nm ordinal]
      by (auto simp del: draw_address.simps)
    with Cons.IH [OF st(1)] st(3) [OF nok] Cons.prems(2) show ?thesis by auto
  qed
qed simp

lemma draw_in_pool:
  "good s \<Longrightarrow> holds s (podRef scope nm ordinal) = None \<Longrightarrow>
   draw_address st s scope nm ordinal pool = (s', Inr ip) \<Longrightarrow> \<exists>a \<in> set pool. ip = addr_string a"
proof (induction pool arbitrary: s)
  case (Cons a pool)
  show ?case
  proof (cases "ps_reserve st s scope nm ordinal (addr_string a)")
    case (Inr p)
    obtain s1 ok where p: "p = (s1, ok)" by (cases p)
    note st = draw_step [OF Cons.prems(1,2) Inr [unfolded p]]
    show ?thesis
    proof (cases ok)
      case True
      with st(2) Cons.prems(3) show ?thesis by auto
    next
      case False
      have "draw_address st s1 scope nm ordinal pool = (s', Inr ip)"
        using st(3) [OF False, of pool] Cons.prems(3) by (auto simp del: draw_address.simps)
      with Cons.IH [OF st(1)] st(3) [OF False] Cons.prems(2) show ?thesis by auto
    qed
  qed (use Cons.prems in simp)
qed simp

text \<open>
  Every run of \<open>addressFor\<close> that returns an address either found it held and in the pool, or drew
  it while the pod held none.
\<close>

lemma addressFor_cases:
  assumes "good s" and "addressFor st (Inr (Some plan)) s scope nm ordinal = (s', r)"
    and "r = Inl no_address_left \<or> (\<exists>ip. r = Inr ip \<and> ip \<noteq> [])"
  obtains (kept) pool ip a where "fixedPodAddresses plan = Some pool"
      "s' = s" "r = Inr ip" "parse_addr ip = Some a" "a \<in> set pool" "holds s (podRef scope nm ordinal) = Some ip"
  | (drawn) pool t where "fixedPodAddresses plan = Some pool"
      "good t" "holds t = (holds s)(podRef scope nm ordinal := None)"
      "draw_address st t scope nm ordinal pool = (s', r)"
proof -
  obtain pool where pl: "fixedPodAddresses plan = Some pool"
    using assms(2,3) by (auto simp: addressFor_def no_address_left_def split: option.splits)
  obtain h where h: "ps_get st s scope nm ordinal = Inr h"
    using assms(2,3) pl other_errors(1) [of s scope nm ordinal]
    by (cases "ps_get st s scope nm ordinal") (auto simp: addressFor_def)
  note hs = get_spec [OF assms(1) h]
  show ?thesis
  proof (cases "h = []")
    case True
    then have n: "holds s (podRef scope nm ordinal) = None"
      using hs holds_nonempty [OF assms(1)] by (auto split: option.splits)
    from True have d: "draw_address st s scope nm ordinal pool = (s', r)"
      using assms(2) pl h by (simp add: addressFor_def)
    have "holds s = (holds s)(podRef scope nm ordinal := None)" using n by auto
    then show ?thesis by (rule drawn [OF pl assms(1) _ d])
  next
    case hne: False
    then have hd: "holds s (podRef scope nm ordinal) = Some h" using hs by (auto split: option.splits)
    show ?thesis
    proof (cases "\<exists>a. parse_addr h = Some a \<and> a \<in> set pool")
      case True
      then obtain a where a: "parse_addr h = Some a" "a \<in> set pool" by blast
      then have "s' = s" "r = Inr h" using assms(2) pl h hne by (simp_all add: addressFor_def)
      then show ?thesis by (rule kept [OF pl _ _ a hd])
    next
      case False
      then obtain t where t: "ps_release st s scope nm ordinal = Inr t"
        and d: "draw_address st t scope nm ordinal pool = (s', r)"
        using assms(2,3) pl h hne other_errors(3) [of s scope nm ordinal]
        by (auto simp: addressFor_def split: sum.splits option.splits)
      with release_spec [OF assms(1) t] show ?thesis by (intro drawn [OF pl _ _ d]) auto
    qed
  qed
qed

lemma addressFor_in_pool:
  assumes "good s" and "addressFor st (Inr (Some plan)) s scope nm ordinal = (s', Inr ip)" and "ip \<noteq> []"
  shows "\<exists>pool a. fixedPodAddresses plan = Some pool \<and> parse_addr ip = Some a \<and> a \<in> set pool"
proof -
  have *: "Inr ip = Inl no_address_left \<or> (\<exists>ip'. Inr ip = Inr ip' \<and> ip' \<noteq> [])" using assms(3) by simp
  from assms(1,2) * show ?thesis
  proof (cases rule: addressFor_cases)
    case (drawn pool t)
    then have "\<exists>a \<in> set pool. ip = addr_string a" by (intro draw_in_pool [OF drawn(2) _ drawn(4)]) simp
    with drawn show ?thesis by auto
  qed auto
qed

lemma addressFor_exhausted:
  assumes "good s" and "addressFor st (Inr (Some plan)) s scope nm ordinal = (s', Inl no_address_left)"
  shows "\<exists>pool. fixedPodAddresses plan = Some pool \<and> (\<forall>a \<in> set pool. addr_string a \<in> ran (holds s'))"
proof -
  have *: "Inl no_address_left = Inl no_address_left \<or>
      (\<exists>ip'. (Inl no_address_left :: string + string) = Inr ip' \<and> ip' \<noteq> [])" by simp
  from assms(1,2) * show ?thesis
  proof (cases rule: addressFor_cases)
    case (drawn pool t)
    then show ?thesis using draw_exhausted [OF drawn(2) _ drawn(4)] by auto
  qed auto
qed

lemma addressFor_good: "good s \<Longrightarrow> addressFor st pl s scope nm ordinal = (s', r) \<Longrightarrow> good s'"
  using release_spec [of s scope nm ordinal]
  by (auto simp: addressFor_def split: sum.splits option.splits if_splits dest: draw_good)

lemma addressFor_frame:
  "good s \<Longrightarrow> addressFor st pl s scope nm ordinal = (s', r) \<Longrightarrow> q \<noteq> podRef scope nm ordinal \<Longrightarrow>
   holds s' q = holds s q"
  using release_spec [of s scope nm ordinal]
  by (auto simp: addressFor_def split: sum.splits option.splits if_splits dest: draw_frame)

lemma addressFor_held:
  assumes "good s" and "addressFor st pl s scope nm ordinal = (s', Inr ip)" and "ip \<noteq> []"
  shows "holds s' (podRef scope nm ordinal) = Some ip"
  using assms get_spec [OF assms(1), of scope nm ordinal] release_spec [OF assms(1), of scope nm ordinal]
  by (auto simp: addressFor_def split: sum.splits option.splits if_splits dest: draw_result)

lemma addressFor_exclusive:
  assumes "good s" and "addressFor st pl s scope nm ordinal = (s', Inr ip)" and "ip \<noteq> []"
    and "holds s' q = Some ip"
  shows "q = podRef scope nm ordinal"
  using addressFor_good [OF assms(1,2)] addressFor_held [OF assms(1-3)] assms(4) holds_unique by blast

end

section \<open>The etcd-backed store keeps the promise\<close>

context etcd_api begin

lemma ReservePodIP_spec:
  assumes inv: "pods_inv (view s)" and ne: "ip \<noteq> []"
    and r: "ReservePodIP cl s scope nm ordinal ip = Inr (s', ok)"
  shows "pods_inv (view s')"
    and "ok \<Longrightarrow> held (view s) (podRef scope nm ordinal) = None \<and> ip \<notin> ran (held (view s)) \<and>
      held (view s') = (held (view s))(podRef scope nm ordinal \<mapsto> ip)"
    and "\<not> ok \<Longrightarrow> view s' = view s \<and>
      (held (view s) (podRef scope nm ordinal) \<noteq> None \<or> ip \<in> ran (held (view s)))"
proof -
  let ?r = "podRef scope nm ordinal"
  let ?A = "PodIPAddrKey ip" and ?P = "pod_key ?r"
  from r have t: "(view s', ok) = apply_txn (view s) [CreateRevZero ?A, CreateRevZero ?P]
      [OpPut ?A (DText ?r), OpPut ?P (DText ip)] []"
    by (auto simp: ReservePodIP_def Let_def PodIPPodKey_podRef dest!: txn_law split: sum.splits)
  then have ok: "ok \<longleftrightarrow> view s ?A = None \<and> view s ?P = None"
    and v: "view s' = (if ok then (view s)(?A \<mapsto> DText ?r, ?P \<mapsto> DText ip) else view s)"
    by (auto simp: apply_txn_def Let_def)
  show "pods_inv (view s')"
    using v ok inv ne pods_inv_reserve [OF inv] by auto
  show "ok \<Longrightarrow> held (view s) ?r = None \<and> ip \<notin> ran (held (view s)) \<and>
      held (view s') = (held (view s))(?r \<mapsto> ip)"
    using v ok held_addr_iff [OF inv, of ip] by (auto simp: held_def fun_eq_iff)
  show "\<not> ok \<Longrightarrow> view s' = view s \<and> (held (view s) ?r \<noteq> None \<or> ip \<in> ran (held (view s)))"
    using v ok held_addr_iff [OF inv, of ip] by (auto simp: held_def)
qed

lemma GetPodIP_spec:
  "GetPodIP cl s scope nm ordinal = Inr ip \<Longrightarrow>
   ip = (case held (view s) (podRef scope nm ordinal) of None \<Rightarrow> [] | Some a \<Rightarrow> a)"
  by (auto simp: GetPodIP_def PodIPPodKey_podRef held_def dest!: get_law split: sum.splits option.splits)

lemma ReleasePodIP_spec:
  assumes inv: "pods_inv (view s)" and r: "ReleasePodIP cl s scope nm ordinal = Inr s'"
  shows "pods_inv (view s')"
    and "held (view s') = (held (view s))(podRef scope nm ordinal := None)"
    and "\<And>ip. held (view s) (podRef scope nm ordinal) \<noteq> Some ip \<Longrightarrow>
      view s' (PodIPAddrKey ip) = view s (PodIPAddrKey ip)"
proof -
  let ?r = "podRef scope nm ordinal"
  have "pods_inv (view s') \<and> held (view s') = (held (view s))(?r := None) \<and>
    (\<forall>ip. held (view s) ?r \<noteq> Some ip \<longrightarrow> view s' (PodIPAddrKey ip) = view s (PodIPAddrKey ip))"
  proof (cases "view s (pod_key ?r)")
    case None
    then have "s' = s"
      using r by (auto simp: ReleasePodIP_def Let_def PodIPPodKey_podRef dest!: get_law split: sum.splits option.splits)
    with None inv show ?thesis by (auto simp: held_def fun_eq_iff)
  next
    case (Some d)
    then obtain ip where ip: "view s (pod_key ?r) = Some (DText ip)"
      and a: "view s (PodIPAddrKey ip) = Some (DText ?r)"
      using pods_inv_pod [OF inv] by blast
    obtain okk where "(view s', okk) = apply_txn (view s) [ValueIs (PodIPAddrKey ip) (DText ?r)]
        [OpDelete (pod_key ?r), OpDelete (PodIPAddrKey ip)] [OpDelete (pod_key ?r)]"
      using r ip by (auto simp: ReleasePodIP_def Let_def PodIPPodKey_podRef dest!: get_law txn_law
          split: sum.splits option.splits)
    then have v: "view s' = (view s)(pod_key ?r := None, PodIPAddrKey ip := None)"
      using a by (simp add: apply_txn_def Let_def)
    show ?thesis
      using pods_inv_release [OF inv ip] ip unfolding v by (auto simp: held_def fun_eq_iff)
  qed
  then show "pods_inv (view s')" "held (view s') = (held (view s))(?r := None)"
    "\<And>ip. held (view s) ?r \<noteq> Some ip \<Longrightarrow> view s' (PodIPAddrKey ip) = view s (PodIPAddrKey ip)"
    by blast+
qed

lemma held_nonempty: "pods_inv (view s) \<Longrightarrow> held (view s) r \<noteq> Some []"
  using held_addr_iff [of "view s" "[]"] by (auto simp: pods_inv_def ran_def)

end

sublocale etcd_api \<subseteq> pods: pod_ip_store "etcd_pod_store cl" "\<lambda>s. held (view s)" "\<lambda>s. pods_inv (view s)"
proof (unfold_locales, goal_cases)
  case (1 s scope nm ordinal ip)
  then show ?case by (simp add: etcd_pod_store_def GetPodIP_spec)
next
  case (2 s ip scope nm ordinal s' ok)
  then show ?case
    using ReservePodIP_spec [of s ip scope nm ordinal s' ok] by (auto simp: etcd_pod_store_def)
next
  case (3 s scope nm ordinal s')
  then show ?case
    using ReleasePodIP_spec [of s scope nm ordinal s'] by (auto simp: etcd_pod_store_def)
next
  case (4 s r ip r')
  then show ?case by (rule held_inj)
next
  case (5 s r)
  then show ?case by (rule held_nonempty)
next
  case 6
  show ?case
    by (auto simp: etcd_pod_store_def GetPodIP_def no_address_left_def split: sum.splits option.splits)
next
  case 7
  show ?case
    by (auto simp: etcd_pod_store_def ReservePodIP_def Let_def no_address_left_def split: sum.splits)
next
  case 8
  show ?case
    by (auto simp: etcd_pod_store_def ReleasePodIP_def Let_def no_address_left_def
        split: sum.splits option.splits)
qed

context etcd_api begin

lemma etcd_pod_ip_store: "pod_ip_store (etcd_pod_store cl) (\<lambda>s. held (view s)) (\<lambda>s. pods_inv (view s))"
  by (rule pods.pod_ip_store_axioms)

end

section \<open>The pool\<close>

lemma masked_end: "unat (masked_addr p n) + 2 ^ (32 - n) \<le> 4294967296"
proof -
  define k where "k = 32 - n"
  have k: "k \<le> 32" by (simp add: k_def)
  then have tw: "(2::nat) ^ (32 - k) * 2 ^ k = 4294967296" by (simp flip: power_add)
  have "unat p < 2 ^ (32 - k) * 2 ^ k" using tw by simp
  then have "unat p div 2 ^ k < 2 ^ (32 - k)" by (simp add: less_mult_imp_div_less)
  then have "Suc (unat p div 2 ^ k) * 2 ^ k \<le> 2 ^ (32 - k) * 2 ^ k"
    by (intro mult_le_mono1) simp
  with tw show ?thesis by (simp add: unat_masked_addr k_def [symmetric])
qed

lemma masked_idem [simp]: "masked_addr (masked_addr p n) n = masked_addr p n"
  by (simp add: masked_addr_def [of "masked_addr p n"] unat_masked_addr) (simp add: masked_addr_def)

lemma set_pool_from:
  "unat (masked_addr p n) \<le> unat a \<Longrightarrow>
   set (pool_from (Prefix4 p n) gw dr a) =
     {x. unat a \<le> unat x \<and> unat x + 1 < unat (masked_addr p n) + 2 ^ (32 - n) \<and>
         gw \<noteq> Some x \<and> \<not> prefix_contains dr x}"
proof (induction "Prefix4 p n" gw dr a rule: pool_from.induct)
  case (1 gw dr a)
  let ?top = "unat (masked_addr p n) + 2 ^ (32 - n)"
  show ?case
  proof (cases "addr_next a")
    case None
    then have "unat a = 4294967295" by (auto simp: addr_next_def unat_addr_max split: if_splits)
    with None masked_end [of p n] show ?thesis by (auto simp: pool_from.simps [of _ _ _ a])
  next
    case (Some b)
    then have b: "unat b = Suc (unat a)" by (rule addr_next_Some)
    show ?thesis
    proof (cases "prefix_contains (Prefix4 p n) b")
      case False
      then have "?top \<le> unat b" using b "1.prems" by (auto simp only: prefix_contains_iff)
      with Some False b show ?thesis by (auto simp: pool_from.simps [of _ _ _ a])
    next
      case True
      then have in_b: "unat a + 1 < ?top" using b by (auto simp only: prefix_contains_iff)
      have IH: "set (pool_from (Prefix4 p n) gw dr b) =
          {x. unat b \<le> unat x \<and> unat x + 1 < ?top \<and> gw \<noteq> Some x \<and> \<not> prefix_contains dr x}"
        using "1.hyps" [OF Some] True b "1.prems" by simp
      have "unat a \<le> unat x \<longleftrightarrow> x = a \<or> unat b \<le> unat x" for x
        using b by (auto simp: word_unat_eq_iff)
      then show ?thesis
        using Some True in_b IH by (auto simp: pool_from.simps [of _ _ _ a])
    qed
  qed
qed

lemma distinct_pool_from:
  "unat (masked_addr p n) \<le> unat a \<Longrightarrow> distinct (pool_from (Prefix4 p n) gw dr a)"
proof (induction "Prefix4 p n" gw dr a rule: pool_from.induct)
  case (1 gw dr a)
  show ?case
  proof (cases "addr_next a")
    case (Some b)
    then have b: "unat b = Suc (unat a)" by (rule addr_next_Some)
    with "1.prems" have ge: "unat (masked_addr p n) \<le> unat b" by simp
    have "a \<notin> set (pool_from (Prefix4 p n) gw dr b)"
      using b by (simp only: set_pool_from [OF ge]) simp
    with "1.hyps" [OF Some] ge Some show ?thesis by (auto simp: pool_from.simps [of _ _ _ a])
  qed (simp add: pool_from.simps [of _ _ _ a])
qed

section \<open>Releasing a statefulset\<close>

context etcd_api begin

lemma release_ordinals_keeps:
  "pods_inv (view s) \<Longrightarrow> release_ordinals cl s scope nm rs = (s', e) \<Longrightarrow>
   pods_inv (view s') \<and> (\<forall>q. held (view s) q = None \<longrightarrow> held (view s') q = None) \<and>
   (\<forall>q. (\<forall>i. q \<noteq> podRef scope nm i) \<longrightarrow> held (view s') q = held (view s) q)"
proof (induction rs arbitrary: s)
  case (Cons r rs)
  show ?case
  proof (cases "\<exists>i s1. atoi r = Some i \<and> ReleasePodIP cl s scope nm i = Inr s1")
    case True
    then obtain i s1 where r: "atoi r = Some i" "ReleasePodIP cl s scope nm i = Inr s1" by blast
    from ReleasePodIP_spec [OF Cons.prems(1) r(2)]
    have s1: "pods_inv (view s1)" "held (view s1) = (held (view s))(podRef scope nm i := None)" by auto
    from Cons.prems(2) r have "release_ordinals cl s1 scope nm rs = (s', e)" by simp
    with Cons.IH [OF s1(1)] s1(2) show ?thesis by (metis fun_upd_apply)
  next
    case False
    with Cons.prems Cons.IH [OF Cons.prems(1)] show ?thesis
      by (auto split: option.splits sum.splits)
  qed
qed simp

lemma release_ordinals_all:
  "pods_inv (view s) \<Longrightarrow> release_ordinals cl s scope nm rs = (s', None) \<Longrightarrow> r \<in> set rs \<Longrightarrow>
   atoi r = Some i \<Longrightarrow> held (view s') (podRef scope nm i) = None"
proof (induction rs arbitrary: s)
  case (Cons r' rs)
  show ?case
  proof (cases "atoi r'")
    case None
    with Cons show ?thesis by auto
  next
    case (Some j)
    then obtain s1 where s1: "ReleasePodIP cl s scope nm j = Inr s1"
      and rest: "release_ordinals cl s1 scope nm rs = (s', None)"
      using Cons.prems(2) by (auto split: sum.splits)
    note sp = ReleasePodIP_spec [OF Cons.prems(1) s1]
    show ?thesis
    proof (cases "r = r'")
      case True
      then have "held (view s1) (podRef scope nm i) = None" using sp(2) Some Cons.prems(4) by simp
      then show ?thesis using release_ordinals_keeps [OF sp(1) rest] by blast
    next
      case False
      with Cons.prems(3,4) Cons.IH [OF sp(1) rest] show ?thesis by simp
    qed
  qed
qed simp

lemma ReleasePodIPs_keeps:
  assumes "pods_inv (view s)" and "ReleasePodIPs cl s scope nm = (s', e)"
  shows "pods_inv (view s')"
    and "\<And>q. (\<And>i. q \<noteq> podRef scope nm i) \<Longrightarrow> held (view s') q = held (view s) q"
  using assms release_ordinals_keeps by (fastforce simp: ReleasePodIPs_def Let_def split: sum.splits)+

lemma ReleasePodIPs_all:
  assumes inv: "pods_inv (view s)" and r: "ReleasePodIPs cl s scope nm = (s', None)"
    and i: "- (2 ^ 63) \<le> i" "i < 2 ^ 63"
  shows "held (view s') (podRef scope nm i) = None"
proof -
  let ?p = "PodIPPodPrefix scope nm"
  obtain kvs where l: "etcd_list cl s ?p = Inr kvs"
    and ro: "release_ordinals cl s scope nm (map (\<lambda>kv. drop (length ?p) (fst kv)) kvs) = (s', None)"
    using r by (auto simp: ReleasePodIPs_def Let_def split: sum.splits)
  have key: "pod_key (podRef scope nm i) = ?p @ itoa_int i"
    by (simp add: PodIPPodKey_podRef [symmetric] PodIPPodKey_def)
  show ?thesis
  proof (cases "view s (pod_key (podRef scope nm i))")
    case None
    then show ?thesis
      using release_ordinals_keeps [OF inv ro] by (simp add: held_def)
  next
    case (Some d)
    then have "(?p @ itoa_int i, d) \<in> set kvs"
      using list_complete [OF l] unfolding key by simp
    then have "itoa_int i \<in> set (map (\<lambda>kv. drop (length ?p) (fst kv)) kvs)"
      by (force simp: image_iff)
    then show ?thesis
      by (rule release_ordinals_all [OF inv ro _ atoi_itoa_int [OF i]])
  qed
qed

end

section \<open>Properties\<close>

text \<open>
  C24: The address \<open>addressFor\<close> returns belongs to the pod that asked and to no other: after the
  call the reservation is recorded, no other pod holds the same address, every other pod keeps its
  own, and the two directions of the reservation still agree.
\<close>

theorem pod_address_exclusive:
  assumes "etcd_api cl view" and "pods_inv (view s)"
    and "addressFor (etcd_pod_store cl) pl s scope nm ordinal = (s', Inr ip)" and "ip \<noteq> []"
  shows "pods_inv (view s') \<and> held (view s') (podRef scope nm ordinal) = Some ip \<and>
    (\<forall>q. held (view s') q = Some ip \<longrightarrow> q = podRef scope nm ordinal) \<and>
    (\<forall>q. q \<noteq> podRef scope nm ordinal \<longrightarrow> held (view s') q = held (view s) q)"
proof -
  from assms(1) have st: "pod_ip_store (etcd_pod_store cl) (\<lambda>s. held (view s)) (\<lambda>s. pods_inv (view s))"
    by (rule etcd_api.etcd_pod_ip_store)
  show ?thesis
    using pod_ip_store.addressFor_good [OF st assms(2,3)] pod_ip_store.addressFor_held [OF st assms(2-4)]
      pod_ip_store.addressFor_exclusive [OF st assms(2-4)] pod_ip_store.addressFor_frame [OF st assms(2,3)]
    by blast
qed

text \<open>A network of eight addresses, docker assigning from its upper half, and one pod placed.\<close>

definition demo_plan :: plan where
  "demo_plan = \<lparr>pl_subnet = Some (Prefix4 (addr_of_octets 10 9 2 0) 29), pl_gateway = None,
     pl_iprange = Some (Prefix4 (addr_of_octets 10 9 2 4) 30)\<rparr>"

definition one_reserved :: kv_state where
  "one_reserved = ([(''/podips/addr/10.9.2.2'', DText ''data/pg/0''),
     (''/podips/pod/data/pg/0'', DText ''10.9.2.2'')], False)"

definition two_reserved :: kv_state where
  "two_reserved = ([(''/podips/addr/10.9.2.2'', DText ''data/pg/0''),
     (''/podips/pod/data/pg/0'', DText ''10.9.2.2''),
     (''/podips/addr/10.9.2.3'', DText ''data/pg/1''), (''/podips/pod/data/pg/1'', DText ''10.9.2.3'')], False)"

lemma demo_pool: "fixedPodAddresses demo_plan = Some [addr_of_octets 10 9 2 2, addr_of_octets 10 9 2 3]"
  by (simp add: demo_plan_def fixedPodAddresses_def masked_addr_def addr_of_octets_def addr_next_def
      pool_from.simps)

lemma demo_strings:
  "addr_string (addr_of_octets 10 9 2 2) = ''10.9.2.2''" "addr_string (addr_of_octets 10 9 2 3) = ''10.9.2.3''"
  "itoa_int 0 = ''0''" "itoa_int 1 = ''1''" "itoa_int 2 = ''2''"
  by (simp_all add: addr_string_def itoa.simps itoa_int_def)

lemmas kv_eval = kv_client_def kv_ret_def kv_cmp_def kv_del_def Let_def
  PodIPPodKey_def PodIPPodPrefix_def PodIPAddrKey_def podRef_def
  etcd_pod_store_def GetPodIP_def ReservePodIP_def

lemma demo_draw:
  "addressFor (etcd_pod_store kv_client) (Inr (Some demo_plan)) one_reserved ''data'' ''pg'' 1
    = (two_reserved, Inr ''10.9.2.3'')"
  by (simp add: addressFor_def demo_pool demo_strings kv_eval one_reserved_def two_reserved_def)

lemma demo_full:
  "addressFor (etcd_pod_store kv_client) (Inr (Some demo_plan)) two_reserved ''data'' ''pg'' 2
    = (two_reserved, Inl no_address_left)"
  by (simp add: addressFor_def demo_pool demo_strings kv_eval two_reserved_def)

lemma demo_keys:
  "''/podips/addr/10.9.2.2'' = PodIPAddrKey ''10.9.2.2''" "''/podips/pod/data/pg/0'' = pod_key ''data/pg/0''"
  "''/podips/addr/10.9.2.3'' = PodIPAddrKey ''10.9.2.3''" "''/podips/pod/data/pg/1'' = pod_key ''data/pg/1''"
  by (simp_all add: PodIPAddrKey_def pod_key_def)

lemma one_reserved_inv: "pods_inv (kv_view one_reserved)"
proof -
  have "kv_view one_reserved =
      Map.empty(PodIPAddrKey ''10.9.2.2'' \<mapsto> DText ''data/pg/0'', pod_key ''data/pg/0'' \<mapsto> DText ''10.9.2.2'')"
    by (auto simp: one_reserved_def kv_view_def demo_keys)
  then show ?thesis
    using pods_inv_reserve [OF pods_inv_empty, of "''10.9.2.2''" "''data/pg/0''"] by simp
qed

lemma two_reserved_inv: "pods_inv (kv_view two_reserved)"
  using kv.pods.addressFor_good [OF one_reserved_inv demo_draw] .

theorem pod_address_exclusive_witness:
  "{q. held (kv_view two_reserved) q = Some ''10.9.2.3''} = {podRef ''data'' ''pg'' 1}"
proof -
  have "(''10.9.2.3'' :: string) \<noteq> []" by simp
  from pod_address_exclusive [OF kv.etcd_api_axioms one_reserved_inv demo_draw this] show ?thesis by blast
qed

text \<open>
  Any address \<open>addressFor\<close> returns lies in the part of \<open>voodu0\<close> docker leaves alone: it is the
  text of an address of the pool computed from the network's address plan.
\<close>

theorem pod_address_in_pool:
  assumes "etcd_api cl view" and "pods_inv (view s)"
    and "addressFor (etcd_pod_store cl) (Inr (Some plan)) s scope nm ordinal = (s', Inr ip)" and "ip \<noteq> []"
  shows "\<exists>pool a. fixedPodAddresses plan = Some pool \<and> parse_addr ip = Some a \<and> a \<in> set pool"
  using pod_ip_store.addressFor_in_pool [OF etcd_api.etcd_pod_ip_store [OF assms(1)] assms(2-4)] .

theorem pod_address_in_pool_witness:
  "\<exists>pool a. fixedPodAddresses demo_plan = Some pool \<and> parse_addr ''10.9.2.3'' = Some a \<and> a \<in> set pool"
  using pod_address_in_pool [OF kv.etcd_api_axioms one_reserved_inv demo_draw] by simp

text \<open>
  The pool is exactly the subnet without its network and broadcast addresses, the gateway
  (the first address when the plan names none) and docker's own range, each address once; the
  allocator is inert precisely when nothing is left.
\<close>

theorem fixed_pool_exact:
  assumes "pl_subnet pl = Some (Prefix4 p n)" and "pl_iprange pl = Some dr"
  defines "base \<equiv> masked_addr p n"
  defines "gw \<equiv> (case pl_gateway pl of Some g \<Rightarrow> Some g | None \<Rightarrow> addr_next base)"
  shows "(\<forall>out. fixedPodAddresses pl = Some out \<longrightarrow> distinct out \<and> set out =
      {a. unat base < unat a \<and> unat a < unat base + 2 ^ (32 - n) - 1 \<and> gw \<noteq> Some a \<and> \<not> prefix_contains dr a}) \<and>
    (fixedPodAddresses pl = None \<longleftrightarrow>
      {a. unat base < unat a \<and> unat a < unat base + 2 ^ (32 - n) - 1 \<and> gw \<noteq> Some a \<and> \<not> prefix_contains dr a} = {})"
proof -
  define S where
    "S = {a. unat base < unat a \<and> unat a < unat base + 2 ^ (32 - n) - 1 \<and> gw \<noteq> Some a \<and> \<not> prefix_contains dr a}"
  have "(\<forall>out. fixedPodAddresses pl = Some out \<longrightarrow> distinct out \<and> set out = S) \<and>
      (fixedPodAddresses pl = None \<longleftrightarrow> S = {})"
  proof (cases "addr_next base")
    case None
    then have b: "unat base = 4294967295" by (auto simp: addr_next_def unat_addr_max split: if_splits)
    have "\<not> unat base < unat a" for a :: addr using b unat_addr_less [of a] by linarith
    then have "S = {}" by (simp add: S_def)
    moreover have "fixedPodAddresses pl = None"
      using None assms(1,2) by (simp add: fixedPodAddresses_def base_def)
    ultimately show ?thesis by simp
  next
    case (Some a)
    then have a: "unat a = Suc (unat base)" by (rule addr_next_Some)
    define P where "P = pool_from (Prefix4 base n) gw dr a"
    have le: "unat (masked_addr base n) \<le> unat a" using a by (simp add: base_def)
    have s: "set P = S"
      using a by (auto simp: P_def S_def base_def set_pool_from [OF le [unfolded base_def]])
    have d: "distinct P" unfolding P_def by (rule distinct_pool_from [OF le])
    have f: "fixedPodAddresses pl = (if P = [] then None else Some P)"
      using Some assms(1,2) unfolding fixedPodAddresses_def base_def gw_def P_def by (simp add: Let_def)
    show ?thesis
      unfolding f using s d by (cases "P = []") auto
  qed
  then show ?thesis unfolding S_def .
qed

theorem fixed_pool_exact_witness:
  "distinct [addr_of_octets 10 9 2 2, addr_of_octets 10 9 2 3] \<and> fixedPodAddresses demo_plan \<noteq> None"
proof -
  have "pl_subnet demo_plan = Some (Prefix4 (addr_of_octets 10 9 2 0) 29)"
    "pl_iprange demo_plan = Some (Prefix4 (addr_of_octets 10 9 2 4) 30)" by (simp_all add: demo_plan_def)
  from fixed_pool_exact [OF this] show ?thesis using demo_pool by simp
qed

text \<open>
  When the allocator reports that no address is left, every address of the pool is held by
  some pod: it never gives up while one is free, and a store error is reported as such.
\<close>

theorem pod_address_exhausted:
  assumes "etcd_api cl view" and "pods_inv (view s)"
    and "addressFor (etcd_pod_store cl) (Inr (Some plan)) s scope nm ordinal = (s', Inl no_address_left)"
  shows "\<exists>pool. fixedPodAddresses plan = Some pool \<and>
    (\<forall>a \<in> set pool. \<exists>q. held (view s') q = Some (addr_string a))"
  using pod_ip_store.addressFor_exhausted [OF etcd_api.etcd_pod_ip_store [OF assms(1)] assms(2,3)]
  by (simp add: ran_def)

theorem pod_address_exhausted_witness:
  "\<exists>pool. fixedPodAddresses demo_plan = Some pool \<and>
    (\<forall>a \<in> set pool. \<exists>q. held (kv_view two_reserved) q = Some (addr_string a))"
  using pod_address_exhausted [OF kv.etcd_api_axioms two_reserved_inv demo_full] .

text \<open>
  Releasing a statefulset frees the address of every pod of it (any ordinal of a Go \<open>int\<close>) and
  of no other pod, and keeps the two directions of the remaining reservations in agreement.
\<close>

theorem release_statefulset:
  assumes "etcd_api cl view" and "pods_inv (view s)" and "ReleasePodIPs cl s scope nm = (s', None)"
  shows "pods_inv (view s') \<and>
    (\<forall>i. - (2 ^ 63) \<le> i \<and> i < 2 ^ 63 \<longrightarrow> held (view s') (podRef scope nm i) = None) \<and>
    (\<forall>q. (\<forall>i. q \<noteq> podRef scope nm i) \<longrightarrow> held (view s') q = held (view s) q)"
  using etcd_api.ReleasePodIPs_keeps [OF assms] etcd_api.ReleasePodIPs_all [OF assms] by blast

theorem release_statefulset_witness:
  "held (kv_view (fst (ReleasePodIPs kv_client two_reserved ''data'' ''pg''))) (podRef ''data'' ''pg'' 1) = None"
proof -
  have a: "atoi ''0'' = Some 0" "atoi ''1'' = Some 1"
    using atoi_itoa_int [of 0] atoi_itoa_int [of 1] by (simp_all add: demo_strings)
  have "snd (ReleasePodIPs kv_client two_reserved ''data'' ''pg'') = None"
    by (simp add: ReleasePodIPs_def ReleasePodIP_def kv_eval two_reserved_def has_prefix_def a demo_strings)
  then obtain s' where "ReleasePodIPs kv_client two_reserved ''data'' ''pg'' = (s', None)"
    by (metis prod.collapse)
  from release_statefulset [OF kv.etcd_api_axioms two_reserved_inv this] this show ?thesis by simp
qed

end
