(* ===== verification/Store.thy ===== *)
theory Store
  imports Etcd
begin

text \<open>
  \<open>EtcdStore\<close> of \<open>internal/controller/store.go\<close>: manifests, status blobs, config buckets and the
  freeze annotations, over the etcd client. Every operation takes the client and its state and
  returns the new state; a loop that fails midway keeps the writes it made. Go ranges over maps in
  an unspecified order: a map argument is an association list, whose order stands for that order.
\<close>

section \<open>Manifests\<close>

definition decodeManifest :: "doc \<Rightarrow> int \<Rightarrow> string + manifest" where
  "decodeManifest d mod_rev =
     (case d of
        DManifest m \<Rightarrow>
          Inr (m\<lparr>m_metadata := Some ((case m_metadata m of None \<Rightarrow> \<lparr>created_at = 0, updated_at = 0, revision = 0\<rparr>
                                      | Some md \<Rightarrow> md)\<lparr>revision := mod_rev\<rparr>)\<rparr>)
      | _ \<Rightarrow> Inl ''json: cannot unmarshal manifest'')"

datatype put_error = InvalidManifest manifest_error | EtcdPut string

definition Put :: "'s etcd \<Rightarrow> 's \<Rightarrow> int \<Rightarrow> manifest \<Rightarrow> put_error + 's \<times> manifest" where
  "Put cl s now m =
     (case Validate m of
        Inl e \<Rightarrow> Inl (InvalidManifest e)
      | Inr _ \<Rightarrow>
          (let md = (case m_metadata m of None \<Rightarrow> \<lparr>created_at = now, updated_at = 0, revision = 0\<rparr> | Some md \<Rightarrow> md);
               m1 = m\<lparr>m_metadata := Some (md\<lparr>updated_at := now\<rparr>)\<rparr>;
               k = DesiredKey (m_kind m) (m_scope m) (m_name m)
           in case etcd_put cl s k (DManifest m1) of
                Inl e \<Rightarrow> Inl (EtcdPut (''etcd put: '' @ e))
              | Inr s' \<Rightarrow> Inr (s', m\<lparr>m_metadata :=
                  Some (md\<lparr>updated_at := now, revision := etcd_revision cl s' k\<rparr>)\<rparr>)))"

definition Get :: "'s etcd \<Rightarrow> 's \<Rightarrow> string \<Rightarrow> string \<Rightarrow> string \<Rightarrow> string + manifest option" where
  "Get cl s k scope nm =
     (let key = DesiredKey k scope nm
      in case etcd_get cl s key of
           Inl e \<Rightarrow> Inl (''etcd get: '' @ e)
         | Inr None \<Rightarrow> Inr None
         | Inr (Some d) \<Rightarrow> (case decodeManifest d (etcd_revision cl s key) of Inl e \<Rightarrow> Inl e | Inr m \<Rightarrow> Inr (Some m)))"

definition Delete :: "'s etcd \<Rightarrow> 's \<Rightarrow> string \<Rightarrow> string \<Rightarrow> string \<Rightarrow> string + 's \<times> bool" where
  "Delete cl s k scope nm =
     (case etcd_delete cl s (DesiredKey k scope nm) of
        Inl e \<Rightarrow> Inl (''etcd delete: '' @ e)
      | Inr (s', n) \<Rightarrow> Inr (s', 0 < n))"

fun decode_all :: "'s etcd \<Rightarrow> 's \<Rightarrow> (key \<times> doc) list \<Rightarrow> string + manifest list" where
  "decode_all cl s [] = Inr []"
| "decode_all cl s ((k, d) # kvs) =
     (case decodeManifest d (etcd_revision cl s k) of
        Inl e \<Rightarrow> Inl (''decode '' @ k @ '': '' @ e)
      | Inr m \<Rightarrow> (case decode_all cl s kvs of Inl e \<Rightarrow> Inl e | Inr ms \<Rightarrow> Inr (m # ms)))"

definition listPrefix :: "'s etcd \<Rightarrow> 's \<Rightarrow> string \<Rightarrow> string + manifest list" where
  "listPrefix cl s pfx =
     (case etcd_list cl s pfx of Inl e \<Rightarrow> Inl (''etcd list: '' @ e) | Inr kvs \<Rightarrow> decode_all cl s kvs)"

definition ListKind :: "'s etcd \<Rightarrow> 's \<Rightarrow> string \<Rightarrow> string + manifest list" where
  "ListKind cl s k = listPrefix cl s (DesiredPrefix k)"

definition ListByScope :: "'s etcd \<Rightarrow> 's \<Rightarrow> string \<Rightarrow> string \<Rightarrow> string + manifest list" where
  "ListByScope cl s k scope =
     (if \<not> is_scoped_str k then ListKind cl s k else listPrefix cl s (ScopedPrefix k scope))"

definition ListAll :: "'s etcd \<Rightarrow> 's \<Rightarrow> string + manifest list" where
  "ListAll cl s = listPrefix cl s AllDesiredPrefix"

section \<open>Status\<close>

definition PutStatus :: "'s etcd \<Rightarrow> 's \<Rightarrow> string \<Rightarrow> string \<Rightarrow> doc \<Rightarrow> string + 's" where
  "PutStatus cl s k nm d =
     (case etcd_put cl s (StatusKey k nm) d of Inl e \<Rightarrow> Inl (''etcd put status: '' @ e) | Inr s' \<Rightarrow> Inr s')"

definition GetStatus :: "'s etcd \<Rightarrow> 's \<Rightarrow> string \<Rightarrow> string \<Rightarrow> string + doc option" where
  "GetStatus cl s k nm =
     (case etcd_get cl s (StatusKey k nm) of Inl e \<Rightarrow> Inl (''etcd get status: '' @ e) | Inr r \<Rightarrow> Inr r)"

definition DeleteStatus :: "'s etcd \<Rightarrow> 's \<Rightarrow> string \<Rightarrow> string \<Rightarrow> string + 's" where
  "DeleteStatus cl s k nm =
     (case etcd_delete cl s (StatusKey k nm) of Inl e \<Rightarrow> Inl (''etcd delete status: '' @ e) | Inr (s', _) \<Rightarrow> Inr s')"

section \<open>Config buckets\<close>

type_synonym vars = "(string \<times> string) list"

fun text_of_doc :: "doc \<Rightarrow> string" where
  "text_of_doc (DText t) = t"
| "text_of_doc _ = []"

definition GetConfig :: "'s etcd \<Rightarrow> 's \<Rightarrow> string \<Rightarrow> string \<Rightarrow> string + vars" where
  "GetConfig cl s scope nm =
     (let pfx = ConfigPrefix scope nm
      in case etcd_list cl s pfx of
           Inl e \<Rightarrow> Inl (''etcd get config: '' @ e)
         | Inr kvs \<Rightarrow> Inr (map (\<lambda>(k, d). (drop (length pfx) k, text_of_doc d)) kvs))"

fun delete_absent :: "'s etcd \<Rightarrow> 's \<Rightarrow> string \<Rightarrow> string list \<Rightarrow> vars \<Rightarrow> 's \<times> string option" where
  "delete_absent cl s pfx [] vars = (s, None)"
| "delete_absent cl s pfx (k # ks) vars =
     (if map_of vars k \<noteq> None then delete_absent cl s pfx ks vars
      else case etcd_delete cl s (pfx @ k) of
             Inl e \<Rightarrow> (s, Some (''etcd delete config '' @ k @ '': '' @ e))
           | Inr (s', _) \<Rightarrow> delete_absent cl s' pfx ks vars)"

fun put_vars :: "'s etcd \<Rightarrow> 's \<Rightarrow> string \<Rightarrow> vars \<Rightarrow> 's \<times> string option" where
  "put_vars cl s pfx [] = (s, None)"
| "put_vars cl s pfx ((k, v) # vs) =
     (case etcd_put cl s (pfx @ k) (DText v) of
        Inl e \<Rightarrow> (s, Some (''etcd put config '' @ k @ '': '' @ e))
      | Inr s' \<Rightarrow> put_vars cl s' pfx vs)"

definition SetConfig :: "'s etcd \<Rightarrow> 's \<Rightarrow> string \<Rightarrow> string \<Rightarrow> vars \<Rightarrow> 's \<times> string option" where
  "SetConfig cl s scope nm vars =
     (case GetConfig cl s scope nm of
        Inl e \<Rightarrow> (s, Some e)
      | Inr current \<Rightarrow>
          (case delete_absent cl s (ConfigPrefix scope nm) (map fst current) vars of
             (s1, Some e) \<Rightarrow> (s1, Some e)
           | (s1, None) \<Rightarrow> put_vars cl s1 (ConfigPrefix scope nm) vars))"

fun patch_vars :: "'s etcd \<Rightarrow> 's \<Rightarrow> string \<Rightarrow> vars \<Rightarrow> 's \<times> string option" where
  "patch_vars cl s pfx [] = (s, None)"
| "patch_vars cl s pfx ((k, v) # vs) =
     (if v = [] then
        (case etcd_delete cl s (pfx @ k) of
           Inl e \<Rightarrow> (s, Some (''etcd delete config '' @ k @ '': '' @ e))
         | Inr (s', _) \<Rightarrow> patch_vars cl s' pfx vs)
      else
        (case etcd_put cl s (pfx @ k) (DText v) of
           Inl e \<Rightarrow> (s, Some (''etcd put config '' @ k @ '': '' @ e))
         | Inr s' \<Rightarrow> patch_vars cl s' pfx vs))"

definition PatchConfig :: "'s etcd \<Rightarrow> 's \<Rightarrow> string \<Rightarrow> string \<Rightarrow> vars \<Rightarrow> 's \<times> string option" where
  "PatchConfig cl s scope nm vars = patch_vars cl s (ConfigPrefix scope nm) vars"

text \<open>The merge of two Go maps, as the association list whose lookup lets the second win.\<close>

definition ResolveConfig :: "'s etcd \<Rightarrow> 's \<Rightarrow> string \<Rightarrow> string \<Rightarrow> string + vars" where
  "ResolveConfig cl s scope nm =
     (case GetConfig cl s scope [] of
        Inl e \<Rightarrow> Inl e
      | Inr scopeLevel \<Rightarrow>
          (case GetConfig cl s scope nm of
             Inl e \<Rightarrow> Inl e
           | Inr appLevel \<Rightarrow> Inr (appLevel @ scopeLevel)))"

definition DeleteConfigKey :: "'s etcd \<Rightarrow> 's \<Rightarrow> string \<Rightarrow> string \<Rightarrow> string \<Rightarrow> string + 's \<times> bool" where
  "DeleteConfigKey cl s scope nm key =
     (case etcd_delete cl s (ConfigKey scope nm key) of
        Inl e \<Rightarrow> Inl (''etcd delete config: '' @ e)
      | Inr (s', n) \<Rightarrow> Inr (s', 0 < n))"

definition DeleteConfig :: "'s etcd \<Rightarrow> 's \<Rightarrow> string \<Rightarrow> string \<Rightarrow> string + 's" where
  "DeleteConfig cl s scope nm =
     (case etcd_delete_prefix cl s (ConfigPrefix scope nm) of
        Inl e \<Rightarrow> Inl (''etcd delete config bucket: '' @ e)
      | Inr (s', _) \<Rightarrow> Inr s')"

section \<open>Freeze annotations\<close>

definition GetFrozenReplicaIDs :: "'s etcd \<Rightarrow> 's \<Rightarrow> string \<Rightarrow> string \<Rightarrow> string \<Rightarrow> string + string list" where
  "GetFrozenReplicaIDs cl s k scope nm =
     (case etcd_get cl s (FrozenKey k scope nm) of
        Inl e \<Rightarrow> Inl (''etcd get frozen: '' @ e)
      | Inr None \<Rightarrow> Inr []
      | Inr (Some (DFrozen ids)) \<Rightarrow> Inr ids
      | Inr (Some _) \<Rightarrow> Inl ''decode frozen payload'')"

definition DeleteFrozenReplicaIDs :: "'s etcd \<Rightarrow> 's \<Rightarrow> string \<Rightarrow> string \<Rightarrow> string \<Rightarrow> string + 's" where
  "DeleteFrozenReplicaIDs cl s k scope nm =
     (case etcd_delete cl s (FrozenKey k scope nm) of
        Inl e \<Rightarrow> Inl (''etcd delete frozen: '' @ e)
      | Inr (s', _) \<Rightarrow> Inr s')"

definition SetFrozenReplicaIDs ::
  "'s etcd \<Rightarrow> 's \<Rightarrow> string \<Rightarrow> string \<Rightarrow> string \<Rightarrow> string list \<Rightarrow> string + 's" where
  "SetFrozenReplicaIDs cl s k scope nm ids =
     (if ids = [] then DeleteFrozenReplicaIDs cl s k scope nm
      else case etcd_put cl s (FrozenKey k scope nm) (DFrozen ids) of
             Inl e \<Rightarrow> Inl (''etcd put frozen: '' @ e)
           | Inr s' \<Rightarrow> Inr s')"

section \<open>What the operations do to the key space\<close>

text \<open>The variables of a bucket, as the map the code means by it.\<close>

definition bucket :: "kv \<Rightarrow> string \<Rightarrow> string \<Rightarrow> (string \<rightharpoonup> string)" where
  "bucket m scope nm k = map_option text_of_doc (m (ConfigPrefix scope nm @ k))"

context etcd_api
begin

lemma GetConfig_bucket:
  assumes "GetConfig cl s scope nm = Inr vs"
  shows "map_of vs = bucket (view s) scope nm" and "distinct (map fst vs)"
proof -
  let ?p = "ConfigPrefix scope nm"
  from assms obtain kvs where l: "etcd_list cl s ?p = Inr kvs"
    and vs: "vs = map (\<lambda>(k, d). (drop (length ?p) k, text_of_doc d)) kvs"
    by (auto simp: GetConfig_def Let_def split: sum.splits)
  have key: "\<exists>r. k = ?p @ r" if "(k, d) \<in> set kvs" for k d
    using list_sound [OF l that] by (simp add: has_prefix_iff)
  have keys: "?p @ drop (length ?p) k = k" if "k \<in> set (map fst kvs)" for k
    using that key by (auto dest!: key)
  have "map fst vs = map (drop (length ?p)) (map fst kvs)" by (auto simp: vs)
  moreover have "inj_on (drop (length ?p)) (set (map fst kvs))"
    by (rule inj_onI) (metis keys)
  ultimately show d: "distinct (map fst vs)"
    using list_distinct [OF l] by (simp only: distinct_map)
  have member: "(?p @ k, d) \<in> set kvs \<longleftrightarrow> view s (?p @ k) = Some d" for k d
    using list_sound [OF l] list_complete [OF l] has_prefix_append by blast
  show "map_of vs = bucket (view s) scope nm"
  proof
    fix k
    have "map_of vs k = Some v \<longleftrightarrow> bucket (view s) scope nm k = Some v" for v
    proof -
      have "map_of vs k = Some v \<longleftrightarrow> (k, v) \<in> set vs" using d by simp
      also have "\<dots> \<longleftrightarrow> (\<exists>d. (?p @ k, d) \<in> set kvs \<and> text_of_doc d = v)"
      proof
        assume "(k, v) \<in> set vs"
        then obtain k' d where "(k', d) \<in> set kvs" "k = drop (length ?p) k'" "v = text_of_doc d"
          unfolding vs by auto
        with key [OF this(1)] show "\<exists>d. (?p @ k, d) \<in> set kvs \<and> text_of_doc d = v" by auto
      next
        assume "\<exists>d. (?p @ k, d) \<in> set kvs \<and> text_of_doc d = v"
        then obtain d where "(?p @ k, d) \<in> set kvs" "text_of_doc d = v" by blast
        then have "(\<lambda>(k, d). (drop (length ?p) k, text_of_doc d)) (?p @ k, d) \<in> set vs"
          unfolding vs by (simp only: set_map image_eqI)
        with \<open>text_of_doc d = v\<close> show "(k, v) \<in> set vs" by simp
      qed
      also have "\<dots> \<longleftrightarrow> bucket (view s) scope nm k = Some v"
        by (simp add: member bucket_def)
      finally show ?thesis .
    qed
    then show "map_of vs k = bucket (view s) scope nm k" by (metis option.exhaust)
  qed
qed

lemma delete_absent_view:
  "delete_absent cl s pfx ks vars = (s', None) \<Longrightarrow>
    view s' = (\<lambda>k. if \<exists>r \<in> set ks. k = pfx @ r \<and> map_of vars r = None then None else view s k)"
proof (induction ks arbitrary: s)
  case (Cons r ks)
  show ?case
  proof (cases "map_of vars r")
    case None
    then obtain s1 n where d: "etcd_delete cl s (pfx @ r) = Inr (s1, n)"
      and rest: "delete_absent cl s1 pfx ks vars = (s', None)"
      using Cons.prems by (auto split: sum.splits)
    show ?thesis
      unfolding Cons.IH [OF rest] using delete_law [OF d] None by (auto simp: fun_eq_iff)
  next
    case (Some v)
    then have "delete_absent cl s pfx ks vars = (s', None)" using Cons.prems by simp
    from Cons.IH [OF this] show ?thesis using Some by (auto simp: fun_eq_iff)
  qed
qed simp

lemma put_vars_view:
  "put_vars cl s pfx vs = (s', None) \<Longrightarrow>
    (\<forall>r. view s' (pfx @ r) = (case map_of (rev vs) r of Some v \<Rightarrow> Some (DText v) | None \<Rightarrow> view s (pfx @ r))) \<and>
    (\<forall>k. \<not> has_prefix k pfx \<longrightarrow> view s' k = view s k)"
proof (induction vs arbitrary: s)
  case (Cons e vs)
  obtain k v where e: "e = (k, v)" by (cases e)
  from Cons.prems obtain s1 where p: "etcd_put cl s (pfx @ k) (DText v) = Inr s1"
    and rest: "put_vars cl s1 pfx vs = (s', None)" by (auto simp: e split: sum.splits)
  show ?case
    using Cons.IH [OF rest] put_law [OF p] by (auto simp: e map_add_def split: option.splits)
qed simp

lemma SetConfig_view:
  assumes "SetConfig cl s scope nm vars = (s', None)" and "distinct (map fst vars)"
  shows "bucket (view s') scope nm = map_of vars"
    and "\<not> has_prefix k (ConfigPrefix scope nm) \<Longrightarrow> view s' k = view s k"
proof -
  let ?p = "ConfigPrefix scope nm"
  from assms(1) obtain cur s1 where g: "GetConfig cl s scope nm = Inr cur"
    and d: "delete_absent cl s ?p (map fst cur) vars = (s1, None)"
    and u: "put_vars cl s1 ?p vars = (s', None)"
    by (auto simp: SetConfig_def split: sum.splits prod.splits option.splits)
  have gone: "view s1 (?p @ r) = None" if "map_of vars r = None" for r
  proof (cases "r \<in> fst ` set cur")
    case False
    then have "bucket (view s) scope nm r = None"
      using GetConfig_bucket(1) [OF g] by (metis map_of_eq_None_iff)
    then show ?thesis unfolding delete_absent_view [OF d] by (simp add: bucket_def)
  qed (use that in \<open>auto simp: delete_absent_view [OF d]\<close>)
  have rv: "map_of (rev vars) = map_of vars" using assms(2) by (rule map_of_rev_distinct)
  show "bucket (view s') scope nm = map_of vars"
  proof
    fix r
    have "view s' (?p @ r) = (case map_of vars r of Some v \<Rightarrow> Some (DText v) | None \<Rightarrow> view s1 (?p @ r))"
      using put_vars_view [OF u] unfolding rv by blast
    then show "bucket (view s') scope nm r = map_of vars r"
      using gone [of r] by (simp add: bucket_def split: option.splits)
  qed
  assume k: "\<not> has_prefix k ?p"
  then have "view s' k = view s1 k" using put_vars_view [OF u] by blast
  also have "view s1 k = view s k" unfolding delete_absent_view [OF d] using k by auto
  finally show "view s' k = view s k" .
qed

lemma PatchConfig_view:
  "patch_vars cl s pfx vs = (s', None) \<Longrightarrow> distinct (map fst vs) \<Longrightarrow>
    view s' (pfx @ r) = (case map_of vs r of None \<Rightarrow> view s (pfx @ r)
      | Some v \<Rightarrow> if v = [] then None else Some (DText v))"
proof (induction vs arbitrary: s)
  case (Cons e vs)
  obtain k v where e: "e = (k, v)" by (cases e)
  show ?case
  proof (cases "v = []")
    case True
    then obtain s1 n where p: "etcd_delete cl s (pfx @ k) = Inr (s1, n)"
      and rest: "patch_vars cl s1 pfx vs = (s', None)"
      using Cons.prems by (auto simp: e split: sum.splits)
    have "map_of vs k = None" using Cons.prems(2) by (simp add: e map_of_eq_None_iff)
    with Cons.IH [OF rest] Cons.prems(2) delete_law [OF p] show ?thesis
      by (auto simp: e True split: option.splits)
  next
    case False
    then obtain s1 where p: "etcd_put cl s (pfx @ k) (DText v) = Inr s1"
      and rest: "patch_vars cl s1 pfx vs = (s', None)"
      using Cons.prems by (auto simp: e split: sum.splits)
    have "map_of vs k = None" using Cons.prems(2) by (simp add: e map_of_eq_None_iff)
    with Cons.IH [OF rest] Cons.prems(2) put_law [OF p] show ?thesis
      by (auto simp: e False split: option.splits)
  qed
qed simp

lemma Get_Put:
  assumes "Put cl s now m = Inr (s', m')" and "Get cl s' (m_kind m) (m_scope m) (m_name m) = Inr r"
  shows "r = Some m'"
proof -
  define k where "k = DesiredKey (m_kind m) (m_scope m) (m_name m)"
  define md where "md = (case m_metadata m of None \<Rightarrow> \<lparr>created_at = now, updated_at = 0, revision = 0\<rparr> | Some md \<Rightarrow> md)"
  from assms(1) have p: "etcd_put cl s k (DManifest (m\<lparr>m_metadata := Some (md\<lparr>updated_at := now\<rparr>)\<rparr>)) = Inr s'"
    and m': "m' = m\<lparr>m_metadata := Some (md\<lparr>updated_at := now, revision := etcd_revision cl s' k\<rparr>)\<rparr>"
    by (auto simp: Put_def Let_def k_def md_def split: sum.splits)
  have v: "view s' k = Some (DManifest (m\<lparr>m_metadata := Some (md\<lparr>updated_at := now\<rparr>)\<rparr>))"
    using put_law [OF p] by simp
  from assms(2) obtain x where x: "etcd_get cl s' k = Inr x"
    by (auto simp: Get_def k_def Let_def split: sum.splits)
  with get_law [OF x] v assms(2) show ?thesis
    by (simp add: Get_def k_def [symmetric] Let_def decodeManifest_def m')
qed

end

section \<open>Properties\<close>

lemma config_prefix_apart:
  assumes "CHR ''/'' \<notin> set scope" and "CHR ''/'' \<notin> set nm" and "CHR ''/'' \<notin> set scope'" and "CHR ''/'' \<notin> set nm'"
    and "nm \<noteq> ''_''" and "nm' \<noteq> ''_''"
    and "has_prefix (ConfigPrefix scope' nm' @ k) (ConfigPrefix scope nm)"
  shows "scope = scope' \<and> nm = nm'"
proof -
  define a where "a = (if nm = [] then ''_'' else nm)"
  define b where "b = (if nm' = [] then ''_'' else nm')"
  have ab: "CHR ''/'' \<notin> set a" "CHR ''/'' \<notin> set b" using assms(2,4) by (auto simp: a_def b_def)
  obtain t where "scope' @ ''/'' @ b @ ''/'' @ k = scope @ ''/'' @ a @ ''/'' @ t"
    using assms(7) by (auto simp: has_prefix_iff ConfigPrefix_def a_def b_def)
  then have "cut CHR ''/'' (scope' @ CHR ''/'' # b @ CHR ''/'' # k) = cut CHR ''/'' (scope @ CHR ''/'' # a @ CHR ''/'' # t)"
    by simp
  then have 1: "scope' = scope" "b @ CHR ''/'' # k = a @ CHR ''/'' # t"
    using assms(1,3) by (simp_all add: cut_append del: cut.simps)
  from 1(2) have "cut CHR ''/'' (b @ CHR ''/'' # k) = cut CHR ''/'' (a @ CHR ''/'' # t)" by simp
  then have "b = a" using ab by (simp add: cut_append del: cut.simps)
  then show ?thesis using 1(1) assms(5,6) by (auto simp: a_def b_def split: if_splits)
qed

text \<open>
  C33: Setting a config bucket makes it equal to the given variables, which a later read returns,
  and leaves every other bucket as it was (scopes and names have no slash, and no resource is
  called \<open>_\<close>, the segment that stands for the scope's own bucket).
\<close>

theorem config_set_exact:
  assumes "etcd_api cl view" and "SetConfig cl s scope nm vars = (s', None)" and "distinct (map fst vars)"
    and "CHR ''/'' \<notin> set scope" and "CHR ''/'' \<notin> set nm" and "nm \<noteq> ''_''"
    and "GetConfig cl s' scope nm = Inr got"
  shows "map_of got = map_of vars \<and>
    (\<forall>scope' nm'. CHR ''/'' \<notin> set scope' \<and> CHR ''/'' \<notin> set nm' \<and> nm' \<noteq> ''_'' \<and> (scope', nm') \<noteq> (scope, nm) \<longrightarrow>
      bucket (view s') scope' nm' = bucket (view s) scope' nm')"
proof -
  note sv = etcd_api.SetConfig_view [OF assms(1-3)]
  have "bucket (view s') scope' nm' = bucket (view s) scope' nm'"
    if "CHR ''/'' \<notin> set scope'" "CHR ''/'' \<notin> set nm'" "nm' \<noteq> ''_''" "(scope', nm') \<noteq> (scope, nm)" for scope' nm'
  proof
    fix k
    have "\<not> has_prefix (ConfigPrefix scope' nm' @ k) (ConfigPrefix scope nm)"
      using config_prefix_apart [of scope nm scope' nm' k] assms(4-6) that by auto
    from sv(2) [OF this] show "bucket (view s') scope' nm' k = bucket (view s) scope' nm' k"
      by (simp add: bucket_def)
  qed
  then show ?thesis
    using etcd_api.GetConfig_bucket(1) [OF assms(1,7)] sv(1) by simp
qed

definition old_config :: kv_state where
  "old_config = ([(''/config/prod/web/PORT'', DText ''80''), (''/config/prod/_/TZ'', DText ''UTC'')], False)"

definition new_config :: kv_state where
  "new_config = ([(''/config/prod/_/TZ'', DText ''UTC''), (''/config/prod/web/MODE'', DText ''on'')], False)"

lemma config_demo:
  "SetConfig kv_client old_config ''prod'' ''web'' [(''MODE'', ''on'')] = (new_config, None)"
  "GetConfig kv_client new_config ''prod'' ''web'' = Inr [(''MODE'', ''on'')]"
  by (simp_all add: SetConfig_def GetConfig_def kv_client_def kv_ret_def kv_del_def old_config_def new_config_def
      ConfigPrefix_def has_prefix_def Let_def)

theorem config_set_exact_witness:
  "bucket (kv_view new_config) ''prod'' [] = bucket (kv_view old_config) ''prod'' []"
  using config_set_exact [OF kv.etcd_api_axioms config_demo(1) _ _ _ _ config_demo(2)] by simp

text \<open>
  The environment a resource resolves to is its scope's config overlaid with its own: its own
  value wins wherever both set a variable.
\<close>

theorem config_resolve_precedence:
  assumes "etcd_api cl view" and "ResolveConfig cl s scope nm = Inr vs"
  shows "map_of vs = bucket (view s) scope [] ++ bucket (view s) scope nm"
  using assms etcd_api.GetConfig_bucket(1) [OF assms(1)]
  by (auto simp: ResolveConfig_def split: sum.splits)

theorem config_resolve_precedence_witness:
  "map_of [(''MODE'', ''on''), (''TZ'', ''UTC'')] =
    bucket (kv_view new_config) ''prod'' [] ++ bucket (kv_view new_config) ''prod'' ''web''"
  by (rule config_resolve_precedence [OF kv.etcd_api_axioms])
    (simp add: ResolveConfig_def GetConfig_def kv_client_def kv_ret_def new_config_def ConfigPrefix_def
      has_prefix_def Let_def)

text \<open>
  A manifest read back after \<open>Put\<close> is the one \<open>Put\<close> returned, metadata and revision included.
\<close>

theorem put_get_roundtrip:
  assumes "etcd_api cl view" and "Put cl s now m = Inr (s', m')"
    and "Get cl s' (m_kind m) (m_scope m) (m_name m) = Inr r"
  shows "r = Some m'"
  using etcd_api.Get_Put [OF assms] .

definition empty_store :: kv_state where
  "empty_store = ([], False)"

theorem put_get_roundtrip_witness:
  "\<exists>s' m'. Put kv_client empty_store 7 web_manifest = Inr (s', m') \<and>
    Get kv_client s' ''deployment'' ''prod'' ''web'' = Inr (Some m')"
proof -
  have v: "Validate web_manifest = Inr KindDeployment"
    by (simp add: Validate_Inr web_manifest_def IsScoped_def ParseKind_singular [of KindDeployment, simplified])
  obtain s' m' where p: "Put kv_client empty_store 7 web_manifest = Inr (s', m')" "\<not> snd s'"
    using v by (auto simp: Put_def Let_def kv_client_def kv_ret_def empty_store_def)
  obtain r where r: "Get kv_client s' (m_kind web_manifest) (m_scope web_manifest) (m_name web_manifest) = Inr r"
    using p v by (auto simp: Put_def Get_def Let_def kv_client_def kv_ret_def empty_store_def decodeManifest_def)
  from put_get_roundtrip [OF kv.etcd_api_axioms p(1) r] p(1) r show ?thesis
    by (auto simp: web_manifest_def)
qed

end
