(* ===== verification/Json.thy ===== *)
theory Json
  imports Keys
begin

text \<open>
  The part of \<open>encoding/json\<close> the handlers use on a manifest's spec: reading one struct field from
  a JSON object. A key matches a field name up to letter case, the last match wins, an absent or
  null field leaves the zero value, and a value of another shape is a decode error.
\<close>

fun jget :: "string \<Rightarrow> (string \<times> json) list \<Rightarrow> json option" where
  "jget f [] = None"
| "jget f ((k, v) # r) =
     (case jget f r of
        Some w \<Rightarrow> Some w
      | None \<Rightarrow> if to_lower k = to_lower f \<and> v \<noteq> JNull then Some v else None)"

fun jobj :: "json \<Rightarrow> string + (string \<times> json) list" where
  "jobj (JObj fs) = Inr fs"
| "jobj JNull = Inr []"
| "jobj _ = Inl ''json: cannot unmarshal into struct''"

definition jstr :: "string \<Rightarrow> (string \<times> json) list \<Rightarrow> string + string" where
  "jstr f fs = (case jget f fs of None \<Rightarrow> Inr [] | Some (JStr s) \<Rightarrow> Inr s
                | Some _ \<Rightarrow> Inl (''json: cannot unmarshal into field '' @ f))"

definition jbool :: "string \<Rightarrow> (string \<times> json) list \<Rightarrow> string + bool" where
  "jbool f fs = (case jget f fs of None \<Rightarrow> Inr False | Some (JBool b) \<Rightarrow> Inr b
                | Some _ \<Rightarrow> Inl (''json: cannot unmarshal into field '' @ f))"

definition jint :: "string \<Rightarrow> (string \<times> json) list \<Rightarrow> string + int" where
  "jint f fs = (case jget f fs of None \<Rightarrow> Inr 0
                | Some (JNum n) \<Rightarrow> (if wrap64 n = n then Inr n else Inl (''json: cannot unmarshal into field '' @ f))
                | Some _ \<Rightarrow> Inl (''json: cannot unmarshal into field '' @ f))"

definition jsub :: "string \<Rightarrow> (string \<times> json) list \<Rightarrow> string + (string \<times> json) list" where
  "jsub f fs = (case jget f fs of None \<Rightarrow> Inr [] | Some v \<Rightarrow> jobj v)"

text \<open>The early return of Go's \<open>if err != nil\<close>.\<close>

definition bind_ok :: "'e + 'a \<Rightarrow> ('a \<Rightarrow> 'e + 'b) \<Rightarrow> 'e + 'b" where
  "bind_ok r f = (case r of Inl e \<Rightarrow> Inl e | Inr v \<Rightarrow> f v)"

definition map_err :: "('e \<Rightarrow> 'f) \<Rightarrow> 'e + 'a \<Rightarrow> 'f + 'a" where
  "map_err g r = (case r of Inl e \<Rightarrow> Inl (g e) | Inr v \<Rightarrow> Inr v)"

lemma bind_ok_simps [simp]: "bind_ok (Inl e) f = Inl e" "bind_ok (Inr v) f = f v"
  by (simp_all add: bind_ok_def)

lemma map_err_simps [simp]: "map_err g (Inl e) = Inl (g e)" "map_err g (Inr v) = Inr v"
  by (simp_all add: map_err_def)

lemma bind_ok_Inr: "bind_ok r f = Inr w \<longleftrightarrow> (\<exists>v. r = Inr v \<and> f v = Inr w)"
  by (cases r) auto

lemma bind_ok_not_Inl: "r \<noteq> Inl e \<Longrightarrow> (\<And>v. f v \<noteq> Inl e) \<Longrightarrow> bind_ok r f \<noteq> Inl e"
  by (cases r) auto

lemma map_err_Inr: "map_err g r = Inr w \<longleftrightarrow> r = Inr w"
  by (cases r) auto

end
