(* ===== verification/Containers.thy ===== *)
theory Containers
  imports Json
begin

text \<open>
  Containers as the control plane sees them. \<open>internal/containers/labels.go\<close>: the identity stamped on
  every container as docker labels and read back from them. \<open>internal/controller/container.go\<close>: the
  interface \<open>ContainerManager\<close> as a record of operations, and \<open>DockerContainerManager\<close>, its
  implementation over the docker command line. Docker is third-party code: a record of operations
  with the interface \<open>docker_api\<close> of what it documents. The interface \<open>container_api\<close> is the contract
  the handlers rely on; the docker-backed manager satisfies it.
\<close>

section \<open>Identity and labels\<close>

record identity =
  id_kind :: string
  id_scope :: string
  id_name :: string
  id_replica :: string
  id_hash :: string
  id_created :: string
  id_release :: string
  id_ordinal :: int
  id_role :: string

definition label :: "string \<Rightarrow> string \<Rightarrow> string list" where
  "label k v = (if v = [] then [] else [k @ ''='' @ v])"

definition ordinal_label :: "string \<Rightarrow> int \<Rightarrow> string list" where
  "ordinal_label k n = (if k = ''statefulset'' then [''voodu.replica_ordinal='' @ itoa_int n] else [])"

definition BuildLabels :: "identity \<Rightarrow> string list" where
  "BuildLabels i =
     [''createdby=voodu'']
     @ label ''voodu.kind'' (id_kind i)
     @ label ''voodu.scope'' (id_scope i)
     @ label ''voodu.name'' (id_name i)
     @ label ''voodu.replica_id'' (id_replica i)
     @ label ''voodu.manifest_hash'' (id_hash i)
     @ label ''voodu.created_at'' (id_created i)
     @ label ''voodu.release_id'' (id_release i)
     @ ordinal_label (id_kind i) (id_ordinal i)
     @ label ''voodu.role'' (if id_role i = [] then id_kind i else id_role i)"

text \<open>The label map docker reports for a list of \<open>--label k=v\<close> arguments: the last one of a key wins.\<close>

definition label_map :: "string list \<Rightarrow> (string \<rightharpoonup> string)" where
  "label_map ls = map_of (rev (map (\<lambda>l. case cut CHR ''='' l of (k, v, _) \<Rightarrow> (k, v)) ls))"

definition label_of :: "(string \<rightharpoonup> string) \<Rightarrow> string \<Rightarrow> string" where
  "label_of m k = (case m k of None \<Rightarrow> [] | Some v \<Rightarrow> v)"

definition ParseLabels :: "(string \<rightharpoonup> string) \<Rightarrow> identity option" where
  "ParseLabels m =
     (if label_of m ''createdby'' \<noteq> ''voodu'' then None
      else Some
        \<lparr>id_kind = label_of m ''voodu.kind'', id_scope = label_of m ''voodu.scope'',
         id_name = label_of m ''voodu.name'', id_replica = label_of m ''voodu.replica_id'',
         id_hash = label_of m ''voodu.manifest_hash'', id_created = label_of m ''voodu.created_at'',
         id_release = label_of m ''voodu.release_id'',
         id_ordinal =
           (if label_of m ''voodu.kind'' = ''statefulset'' then
              case m ''voodu.replica_ordinal'' of
                None \<Rightarrow> - 1
              | Some v \<Rightarrow> (case atoi v of None \<Rightarrow> - 1 | Some n \<Rightarrow> if 0 \<le> n then n else - 1)
            else - 1),
         id_role = label_of m ''voodu.role''\<rparr>)"

definition Matches :: "identity \<Rightarrow> string \<Rightarrow> string \<Rightarrow> string \<Rightarrow> bool" where
  "Matches i k scope nm = (id_kind i = k \<and> id_scope i = scope \<and> id_name i = nm)"

definition OrdinalReplicaID :: "int \<Rightarrow> string" where
  "OrdinalReplicaID n = itoa_int (if n < 0 then 0 else n)"

definition Ordinal :: "identity \<Rightarrow> int option" where
  "Ordinal i =
     (if id_kind i \<noteq> ''statefulset'' then None
      else case atoi (id_replica i) of None \<Rightarrow> None | Some n \<Rightarrow> if n < 0 then None else Some n)"

definition ContainerName :: "string \<Rightarrow> string \<Rightarrow> string \<Rightarrow> string" where
  "ContainerName scope nm replicaID =
     (if scope \<noteq> [] then scope @ ''-'' @ nm else nm) @ ''.'' @ replicaID"

definition isAllDigits :: "string \<Rightarrow> bool" where
  "isAllDigits s = (s \<noteq> [] \<and> list_all is_digit s)"

definition LegacyContainerName :: "string \<Rightarrow> string \<Rightarrow> bool" where
  "LegacyContainerName nm app =
     (if app = [] then False
      else if nm = app then True
      else has_prefix nm (app @ ''-'') \<and> isAllDigits (drop (length app + 1) nm))"

section \<open>The manager interface\<close>

text \<open>
  The part of a \<open>ContainerSpec\<close> that a workload passes on verbatim, and the rest.
\<close>

record pod_shape =
  sh_command :: "string list"
  sh_volumes :: "string list"
  sh_networks :: "string list"
  sh_network_mode :: string
  sh_extra_hosts :: "string list"
  sh_cap_add :: "string list"
  sh_docker_options :: "string list"
  sh_ulimits :: "(string \<times> string) list"

definition empty_shape :: pod_shape where
  "empty_shape = \<lparr>sh_command = [], sh_volumes = [], sh_networks = [], sh_network_mode = [],
     sh_extra_hosts = [], sh_cap_add = [], sh_docker_options = [],
     sh_ulimits = []\<rparr>"

record container_spec =
  k_name :: string
  k_image :: string
  k_shape :: pod_shape
  k_ports :: "string list"
  k_restart :: string
  k_env_file :: string
  k_extra_env_files :: "string list"
  k_env :: "(string \<times> string) list"
  k_labels :: "string list"
  k_ip :: string
  k_auto_remove :: bool
  k_tty :: bool
  k_aliases :: "string list"
  k_cpu :: string
  k_memory :: int
  k_log_size :: string
  k_log_files :: int

record slot =
  sl_name :: string
  sl_identity :: identity
  sl_image :: string
  sl_running :: bool

record 'w container_manager =
  cm_ensure :: "'w \<Rightarrow> container_spec \<Rightarrow> 'w \<times> (string + bool)"
  cm_recreate :: "'w \<Rightarrow> container_spec \<Rightarrow> 'w \<times> string option"
  cm_remove :: "'w \<Rightarrow> string \<Rightarrow> 'w \<times> string option"
  cm_remove_grace :: "'w \<Rightarrow> string \<Rightarrow> int \<Rightarrow> 'w \<times> string option"
  cm_list :: "'w \<Rightarrow> string \<Rightarrow> string \<Rightarrow> string \<Rightarrow> string + slot list"
  cm_list_legacy :: "'w \<Rightarrow> string \<Rightarrow> string + string list"
  cm_stop :: "'w \<Rightarrow> string \<Rightarrow> 'w \<times> string option"
  cm_start :: "'w \<Rightarrow> string \<Rightarrow> 'w \<times> string option"
  cm_wait :: "'w \<Rightarrow> string \<Rightarrow> 'w \<times> int \<times> string option"
  cm_ids_differ :: "'w \<Rightarrow> string \<Rightarrow> string \<Rightarrow> string + bool"
  cm_image_exists :: "'w \<Rightarrow> string \<Rightarrow> bool"
  cm_tag_image :: "'w \<Rightarrow> string \<Rightarrow> string \<Rightarrow> 'w \<times> string option"
  cm_remove_tag :: "'w \<Rightarrow> string \<Rightarrow> 'w \<times> string option"
  cm_ensure_volume :: "'w \<Rightarrow> string \<Rightarrow> string list \<Rightarrow> 'w \<times> string option"
  cm_remove_volume :: "'w \<Rightarrow> string \<Rightarrow> 'w \<times> string option"
  cm_list_volumes :: "'w \<Rightarrow> string list \<Rightarrow> string + string list"

text \<open>A container of the host: what it was created from, and whether it runs.\<close>

record ctr =
  ct_spec :: container_spec
  ct_running :: bool

type_synonym containers = "string \<rightharpoonup> ctr"

definition ctr_identity :: "ctr \<Rightarrow> identity option" where
  "ctr_identity c = ParseLabels (label_map (k_labels (ct_spec c)))"

text \<open>The slots of an identity, and whether one slot is such a container.\<close>

definition is_slot :: "containers \<Rightarrow> string \<Rightarrow> string \<Rightarrow> string \<Rightarrow> slot \<Rightarrow> bool" where
  "is_slot v k scope nm s =
     (case v (sl_name s) of
        None \<Rightarrow> False
      | Some c \<Rightarrow> ctr_identity c = Some (sl_identity s) \<and> Matches (sl_identity s) k scope nm \<and>
          sl_image s = k_image (ct_spec c) \<and> sl_running s = ct_running c)"

locale container_api =
  fixes cm :: "'w container_manager" and view :: "'w \<Rightarrow> containers"
  assumes list_slots: "cm_list cm w k scope nm = Inr ss \<Longrightarrow> k \<noteq> [] \<Longrightarrow> nm \<noteq> [] \<Longrightarrow> s \<in> set ss \<longleftrightarrow> is_slot (view w) k scope nm s"
    and list_names: "cm_list cm w k scope nm = Inr ss \<Longrightarrow> distinct (map sl_name ss)"
    and ensure_new: "cm_ensure cm w sp = (w', Inr created) \<Longrightarrow> view w (k_name sp) = None \<Longrightarrow>
      created \<and> view w' = (view w)(k_name sp \<mapsto> \<lparr>ct_spec = sp, ct_running = True\<rparr>)"
    and ensure_existing: "cm_ensure cm w sp = (w', Inr created) \<Longrightarrow> view w (k_name sp) = Some c \<Longrightarrow>
      \<not> created \<and> (\<exists>r. view w' = (view w)(k_name sp \<mapsto> \<lparr>ct_spec = (ct_spec c)\<lparr>k_restart := r\<rparr>, ct_running = True\<rparr>))"
    and ensure_err: "cm_ensure cm w sp = (w', Inl e) \<Longrightarrow> n \<noteq> k_name sp \<Longrightarrow> view w' n = view w n"
    and recreate_ok: "cm_recreate cm w sp = (w', None) \<Longrightarrow>
      view w' = (view w)(k_name sp \<mapsto> \<lparr>ct_spec = sp, ct_running = True\<rparr>)"
    and recreate_err: "cm_recreate cm w sp = (w', Some e) \<Longrightarrow> n \<noteq> k_name sp \<Longrightarrow> view w' n = view w n"
    and remove_ok: "cm_remove cm w n = (w', None) \<Longrightarrow> view w' = (view w)(n := None)"
    and remove_err: "cm_remove cm w n = (w', Some e) \<Longrightarrow> m \<noteq> n \<Longrightarrow> view w' m = view w m"
    and remove_grace_ok: "cm_remove_grace cm w n g = (w', None) \<Longrightarrow> view w' = (view w)(n := None)"
    and remove_grace_err: "cm_remove_grace cm w n g = (w', Some e) \<Longrightarrow> m \<noteq> n \<Longrightarrow> view w' m = view w m"
    and wait_frame: "cm_wait cm w n = (w', code, er) \<Longrightarrow> m \<noteq> n \<Longrightarrow> view w' m = view w m"
    and wait_self: "cm_wait cm w n = (w', code, er) \<Longrightarrow>
      map_option ct_spec (view w' n) = map_option ct_spec (view w n)"
    and tag_view: "view (fst (cm_tag_image cm w a b)) = view w"
    and remove_tag_view: "view (fst (cm_remove_tag cm w a)) = view w"
    and ensure_volume_view: "view (fst (cm_ensure_volume cm w a ls)) = view w"
    and remove_volume_view: "view (fst (cm_remove_volume cm w a)) = view w"
begin

lemmas image_views [simp] = tag_view remove_tag_view ensure_volume_view remove_volume_view

lemma remove_frame: "cm_remove cm w n = (w', r) \<Longrightarrow> m \<noteq> n \<Longrightarrow> view w' m = view w m"
  by (cases r) (auto dest: remove_ok remove_err)

lemma remove_grace_frame: "cm_remove_grace cm w n g = (w', r) \<Longrightarrow> m \<noteq> n \<Longrightarrow> view w' m = view w m"
  by (cases r) (auto dest: remove_grace_ok remove_grace_err)

lemma recreate_frame: "cm_recreate cm w sp = (w', r) \<Longrightarrow> m \<noteq> k_name sp \<Longrightarrow> view w' m = view w m"
  by (cases r) (auto dest: recreate_ok recreate_err)

lemma ensure_frame: "cm_ensure cm w sp = (w', r) \<Longrightarrow> m \<noteq> k_name sp \<Longrightarrow> view w' m = view w m"
proof (cases r)
  case (Inr created)
  assume "cm_ensure cm w sp = (w', r)" "m \<noteq> k_name sp"
  with Inr show ?thesis
    by (cases "view w (k_name sp)") (auto dest: ensure_new ensure_existing)
qed (auto dest: ensure_err)

lemmas container_frame = remove_frame remove_grace_frame recreate_frame ensure_frame wait_frame

end

section \<open>Slots of a view\<close>

definition slot_names :: "containers \<Rightarrow> string \<Rightarrow> string \<Rightarrow> string \<Rightarrow> string set" where
  "slot_names v k scope nm =
     {n. \<exists>c i. v n = Some c \<and> ctr_identity c = Some i \<and> Matches i k scope nm}"

definition running_names :: "containers \<Rightarrow> string \<Rightarrow> string \<Rightarrow> string \<Rightarrow> string set" where
  "running_names v k scope nm =
     {n. \<exists>c i. v n = Some c \<and> ctr_identity c = Some i \<and> Matches i k scope nm \<and> ct_running c}"

text \<open>\<open>same_outside X v v'\<close>: only the names in \<open>X\<close> may have changed.\<close>

definition same_outside :: "string set \<Rightarrow> containers \<Rightarrow> containers \<Rightarrow> bool" where
  "same_outside X v v' = (\<forall>n. n \<notin> X \<longrightarrow> v' n = v n)"

lemma same_outside_refl [simp]: "same_outside X v v"
  by (simp add: same_outside_def)

lemma same_outside_trans: "same_outside X v v1 \<Longrightarrow> same_outside Y v1 v2 \<Longrightarrow> same_outside (X \<union> Y) v v2"
  by (simp add: same_outside_def)

lemma same_outside_mono: "same_outside X v v' \<Longrightarrow> X \<subseteq> Y \<Longrightarrow> same_outside Y v v'"
  by (auto simp: same_outside_def)

lemma same_outside_at: "same_outside X v v' \<Longrightarrow> n \<notin> X \<Longrightarrow> v' n = v n"
  by (simp add: same_outside_def)

lemma names_outside:
  assumes "same_outside X v v'"
  shows "slot_names v k scope nm - X = slot_names v' k scope nm - X"
    and "running_names v k scope nm - X = running_names v' k scope nm - X"
  using assms by (auto simp: slot_names_def running_names_def same_outside_def)

lemma finite_names_outside:
  assumes "same_outside X v v'" and "finite X"
  shows "finite (running_names v' k scope nm) \<longleftrightarrow> finite (running_names v k scope nm)"
    and "finite (slot_names v' k scope nm) \<longleftrightarrow> finite (slot_names v k scope nm)"
  using names_outside [OF assms(1)] assms(2) by (metis finite_Diff2)+

context container_api
begin

lemma listed_names:
  assumes "cm_list cm w k scope nm = Inr ss" and "k \<noteq> []" and "nm \<noteq> []"
  shows "sl_name ` set ss = slot_names (view w) k scope nm"
    and "sl_name ` set (filter sl_running ss) = running_names (view w) k scope nm"
proof -
  have mem: "s \<in> set ss \<longleftrightarrow> is_slot (view w) k scope nm s" for s
    using list_slots [OF assms] .
  have ex: "\<exists>s :: slot. sl_name s = n \<and> sl_identity s = i \<and> sl_image s = img \<and> sl_running s = b" for n i img b
    by (rule exI [of _ "\<lparr>sl_name = n, sl_identity = i, sl_image = img, sl_running = b\<rparr>"]) simp
  show "sl_name ` set ss = slot_names (view w) k scope nm"
  proof (intro set_eqI iffI)
    fix n assume "n \<in> slot_names (view w) k scope nm"
    then obtain c i where "view w n = Some c" "ctr_identity c = Some i" "Matches i k scope nm"
      by (auto simp: slot_names_def)
    with ex [of n i "k_image (ct_spec c)" "ct_running c"] show "n \<in> sl_name ` set ss"
      by (auto simp: image_iff mem is_slot_def)
  qed (auto simp: mem is_slot_def slot_names_def split: option.splits)
  show "sl_name ` set (filter sl_running ss) = running_names (view w) k scope nm"
  proof (intro set_eqI iffI)
    fix n assume "n \<in> running_names (view w) k scope nm"
    then obtain c i where "view w n = Some c" "ctr_identity c = Some i" "Matches i k scope nm" "ct_running c"
      by (auto simp: running_names_def)
    moreover obtain s :: slot where "sl_name s = n" "sl_identity s = i" "sl_image s = k_image (ct_spec c)" "sl_running s"
      using ex [of n i "k_image (ct_spec c)" True] by blast
    ultimately have "s \<in> set (filter sl_running ss)" by (auto simp: mem is_slot_def)
    then show "n \<in> sl_name ` set (filter sl_running ss)" using \<open>sl_name s = n\<close> by blast
  qed (auto simp: mem is_slot_def running_names_def split: option.splits)
qed

lemma listed_length:
  assumes "cm_list cm w k scope nm = Inr ss" and "k \<noteq> []" and "nm \<noteq> []"
  shows "length ss = card (slot_names (view w) k scope nm)"
    and "length (filter sl_running ss) = card (running_names (view w) k scope nm)"
    and "finite (slot_names (view w) k scope nm)" and "finite (running_names (view w) k scope nm)"
proof -
  have d: "distinct (map sl_name ss)" by (rule list_names [OF assms(1)])
  then have "inj_on sl_name (set ss)" and ds: "distinct ss" by (simp_all add: distinct_map)
  then have i2: "inj_on sl_name (set (filter sl_running ss))" by (auto intro: inj_on_subset)
  show "length ss = card (slot_names (view w) k scope nm)"
    using listed_names(1) [OF assms] card_image [OF \<open>inj_on sl_name (set ss)\<close>] ds
    by (simp add: distinct_card)
  show "length (filter sl_running ss) = card (running_names (view w) k scope nm)"
    using listed_names(2) [OF assms] card_image [OF i2] distinct_card [OF distinct_filter [OF ds]] by simp
  show "finite (slot_names (view w) k scope nm)" "finite (running_names (view w) k scope nm)"
    using listed_names [OF assms] by (metis List.finite_set finite_imageI)+
qed

end

section \<open>Named volumes\<close>

text \<open>
  The volumes of the host: containers come and go without touching a named volume, creating one keeps
  the others, and removing one keeps all but that.
\<close>

locale volume_api = container_api cm view
  for cm :: "'w container_manager" and view :: "'w \<Rightarrow> containers" +
  fixes vols :: "'w \<Rightarrow> string set"
  assumes ensure_vols: "vols (fst (cm_ensure cm w sp)) = vols w"
    and recreate_vols: "vols (fst (cm_recreate cm w sp)) = vols w"
    and remove_vols: "vols (fst (cm_remove cm w n)) = vols w"
    and remove_grace_vols: "vols (fst (cm_remove_grace cm w n g)) = vols w"
    and wait_vols: "vols (fst (cm_wait cm w n)) = vols w"
    and ensure_volume_keeps: "vols w \<subseteq> vols (fst (cm_ensure_volume cm w v ls))"
    and ensure_volume_has: "cm_ensure_volume cm w v ls = (w', None) \<Longrightarrow> v \<in> vols w'"
    and remove_volume_others: "vols w - {v} \<subseteq> vols (fst (cm_remove_volume cm w v))"
begin

lemmas vols_kept [simp] = ensure_vols recreate_vols remove_vols remove_grace_vols wait_vols

end

end
