(* ===== verification/Workload.thy ===== *)
theory Workload
  imports Store Containers
begin

text \<open>
  The deployment spec the handlers work from (\<open>internal/controller/handlers.go\<close>): its decoding from
  the manifest's JSON, the defaults every path applies, the replica count, the content that is
  hashed to detect drift, and the port mappings (\<open>normalizePort\<close>, and \<open>surge.go\<close>, which decides
  whether a replacement may run beside the replica it replaces). SHA-256 over the JSON of the hashed
  content is the argument \<open>sha\<close>.
\<close>

section \<open>The spec\<close>

record release_spec =
  re_command :: "string list"
  re_pre_command :: "string list"
  re_post_command :: "string list"
  re_timeout :: string

record resource_limits =
  rl_cpu :: string
  rl_memory :: string

record logs_spec =
  lo_max_size :: string
  lo_max_files :: int

record init_spec =
  in_name :: string
  in_image :: string
  in_command :: "string list"
  in_timeout :: string
  in_retries :: int
  in_resources :: "resource_limits option option"
  in_ulimits :: "vars option"
  in_docker_options :: "string list option"

record autoscale_spec =
  au_min :: int
  au_max :: int
  au_cpu_target :: int
  au_cooldown_up :: string
  au_cooldown_down :: string

record http_get =
  hg_path :: string
  hg_port :: int
  hg_scheme :: string
  hg_headers :: vars

record probe_spec =
  pb_http :: "http_get option"
  pb_tcp :: "int option"
  pb_exec :: "string list option"
  pb_initial_delay :: string
  pb_period :: string
  pb_timeout :: string
  pb_failures :: int
  pb_successes :: int

record probes_spec =
  pr_liveness :: "probe_spec option"
  pr_readiness :: "probe_spec option"
  pr_startup :: "probe_spec option"

record drain_spec =
  dr_timeout :: string
  dr_grace :: string

record deployment_spec =
  sp_image :: string
  sp_replicas :: int
  sp_env :: vars
  sp_ports :: "string list"
  sp_network :: string
  sp_shape :: pod_shape
  sp_restart :: string
  sp_release :: "release_spec option"
  sp_env_from :: "string list"
  sp_build_args :: vars
  sp_autoscale :: "autoscale_spec option"
  sp_probes :: "probes_spec option"
  sp_inits :: "init_spec list"
  sp_digests :: vars
  sp_plugin_blocks :: "json list"
  sp_drain :: "drain_spec option"
  sp_on_deploy :: "json option"
  sp_on_probe :: "json option"
  sp_resources :: "resource_limits option option"
  sp_logs :: "logs_spec option"
  sp_health_check :: string

section \<open>Decoding\<close>

fun strings_of :: "json list \<Rightarrow> string + string list" where
  "strings_of [] = Inr []"
| "strings_of (JStr s # js) = bind_ok (strings_of js) (\<lambda>ss. Inr (s # ss))"
| "strings_of (JNull # js) = bind_ok (strings_of js) (\<lambda>ss. Inr ([] # ss))"
| "strings_of (j # js) = Inl ''json: cannot unmarshal into string''"

definition jstrs :: "string \<Rightarrow> (string \<times> json) list \<Rightarrow> string + string list" where
  "jstrs f fs = (case jget f fs of None \<Rightarrow> Inr [] | Some (JList js) \<Rightarrow> strings_of js
                | Some _ \<Rightarrow> Inl (''json: cannot unmarshal into field '' @ f))"

fun pairs_of :: "(string \<times> json) list \<Rightarrow> string + vars" where
  "pairs_of [] = Inr []"
| "pairs_of ((k, JStr s) # js) = bind_ok (pairs_of js) (\<lambda>ss. Inr ((k, s) # ss))"
| "pairs_of ((k, JNull) # js) = bind_ok (pairs_of js) (\<lambda>ss. Inr ((k, []) # ss))"
| "pairs_of (j # js) = Inl ''json: cannot unmarshal into string''"

definition jvars :: "string \<Rightarrow> (string \<times> json) list \<Rightarrow> string + vars" where
  "jvars f fs = bind_ok (jsub f fs) pairs_of"

definition jlist :: "string \<Rightarrow> (string \<times> json) list \<Rightarrow> string + json list" where
  "jlist f fs = (case jget f fs of None \<Rightarrow> Inr [] | Some (JList js) \<Rightarrow> Inr js
                | Some _ \<Rightarrow> Inl (''json: cannot unmarshal into field '' @ f))"

definition jopt :: "string \<Rightarrow> (string \<times> json) list \<Rightarrow> ((string \<times> json) list \<Rightarrow> string + 'a) \<Rightarrow> string + 'a option" where
  "jopt f fs dec = (case jget f fs of None \<Rightarrow> Inr None
     | Some v \<Rightarrow> bind_ok (jobj v) (\<lambda>ob. bind_ok (dec ob) (\<lambda>x. Inr (Some x))))"

definition decode_release :: "(string \<times> json) list \<Rightarrow> string + release_spec" where
  "decode_release ob =
     bind_ok (jstrs ''command'' ob) (\<lambda>c. bind_ok (jstrs ''pre_command'' ob) (\<lambda>p.
     bind_ok (jstrs ''post_command'' ob) (\<lambda>q. bind_ok (jstr ''timeout'' ob) (\<lambda>t.
       Inr \<lparr>re_command = c, re_pre_command = p, re_post_command = q, re_timeout = t\<rparr>))))"

definition decode_limits :: "(string \<times> json) list \<Rightarrow> string + resource_limits" where
  "decode_limits ob =
     bind_ok (jstr ''cpu'' ob) (\<lambda>c. bind_ok (jstr ''memory'' ob) (\<lambda>m. Inr \<lparr>rl_cpu = c, rl_memory = m\<rparr>))"

definition decode_resources :: "(string \<times> json) list \<Rightarrow> string + resource_limits option" where
  "decode_resources ob = jopt ''limits'' ob decode_limits"

definition decode_logs :: "(string \<times> json) list \<Rightarrow> string + logs_spec" where
  "decode_logs ob =
     bind_ok (jstr ''max_size'' ob) (\<lambda>s. bind_ok (jint ''max_files'' ob) (\<lambda>n.
       Inr \<lparr>lo_max_size = s, lo_max_files = n\<rparr>))"

definition decode_init :: "json \<Rightarrow> string + init_spec" where
  "decode_init j =
     bind_ok (jobj j) (\<lambda>ob. bind_ok (jstr ''name'' ob) (\<lambda>n. bind_ok (jstr ''image'' ob) (\<lambda>i.
     bind_ok (jstrs ''command'' ob) (\<lambda>c. bind_ok (jstr ''timeout'' ob) (\<lambda>t. bind_ok (jint ''retries'' ob) (\<lambda>r.
     bind_ok (jopt ''resources'' ob decode_resources) (\<lambda>rs. bind_ok (jvars ''ulimits'' ob) (\<lambda>u.
     bind_ok (jstrs ''docker_options'' ob) (\<lambda>d.
       Inr \<lparr>in_name = n, in_image = i, in_command = c, in_timeout = t, in_retries = r, in_resources = rs,
            in_ulimits = (if jget ''ulimits'' ob = None then None else Some u),
            in_docker_options = (if jget ''docker_options'' ob = None then None else Some d)\<rparr>)))))))))"

definition decode_autoscale :: "(string \<times> json) list \<Rightarrow> string + autoscale_spec" where
  "decode_autoscale ob =
     bind_ok (jint ''min'' ob) (\<lambda>mn. bind_ok (jint ''max'' ob) (\<lambda>mx. bind_ok (jint ''cpu_target'' ob) (\<lambda>t.
     bind_ok (jstr ''cooldown_up'' ob) (\<lambda>u. bind_ok (jstr ''cooldown_down'' ob) (\<lambda>d.
       Inr \<lparr>au_min = mn, au_max = mx, au_cpu_target = t, au_cooldown_up = u, au_cooldown_down = d\<rparr>)))))"

definition decode_drain :: "(string \<times> json) list \<Rightarrow> string + drain_spec" where
  "decode_drain ob =
     bind_ok (jstr ''timeout'' ob) (\<lambda>t. bind_ok (jstr ''grace'' ob) (\<lambda>g. Inr \<lparr>dr_timeout = t, dr_grace = g\<rparr>))"

fun decode_list :: "(json \<Rightarrow> string + 'a) \<Rightarrow> json list \<Rightarrow> string + 'a list" where
  "decode_list f [] = Inr []"
| "decode_list f (j # js) = bind_ok (f j) (\<lambda>x. bind_ok (decode_list f js) (\<lambda>xs. Inr (x # xs)))"

definition decode_shape :: "(string \<times> json) list \<Rightarrow> string + pod_shape" where
  "decode_shape ob =
     bind_ok (jstrs ''command'' ob) (\<lambda>c. bind_ok (jstrs ''volumes'' ob) (\<lambda>v. bind_ok (jstrs ''networks'' ob) (\<lambda>n.
     bind_ok (jstr ''network_mode'' ob) (\<lambda>m. bind_ok (jstrs ''extra_hosts'' ob) (\<lambda>h.
     bind_ok (jstrs ''cap_add'' ob) (\<lambda>a. bind_ok (jstrs ''docker_options'' ob) (\<lambda>d.
     bind_ok (jvars ''ulimits'' ob) (\<lambda>u.
       Inr \<lparr>sh_command = c, sh_volumes = v, sh_networks = n, sh_network_mode = m, sh_extra_hosts = h,
            sh_cap_add = a, sh_docker_options = d, sh_ulimits = u\<rparr>))))))))"

definition decode_http :: "(string \<times> json) list \<Rightarrow> string + http_get" where
  "decode_http ob =
     bind_ok (jstr ''path'' ob) (\<lambda>p. bind_ok (jint ''port'' ob) (\<lambda>n. bind_ok (jstr ''scheme'' ob) (\<lambda>s.
     bind_ok (jvars ''http_headers'' ob) (\<lambda>h.
       Inr \<lparr>hg_path = p, hg_port = n, hg_scheme = s, hg_headers = h\<rparr>))))"

definition decode_probe :: "(string \<times> json) list \<Rightarrow> string + probe_spec" where
  "decode_probe ob =
     bind_ok (jopt ''http_get'' ob decode_http) (\<lambda>h. bind_ok (jopt ''tcp_socket'' ob (jint ''port'')) (\<lambda>t.
     bind_ok (jopt ''exec'' ob (jstrs ''command'')) (\<lambda>e. bind_ok (jstr ''initial_delay'' ob) (\<lambda>i.
     bind_ok (jstr ''period'' ob) (\<lambda>p. bind_ok (jstr ''timeout'' ob) (\<lambda>tm.
     bind_ok (jint ''failure_threshold'' ob) (\<lambda>f. bind_ok (jint ''success_threshold'' ob) (\<lambda>s.
       Inr \<lparr>pb_http = h, pb_tcp = t, pb_exec = e, pb_initial_delay = i, pb_period = p, pb_timeout = tm,
            pb_failures = f, pb_successes = s\<rparr>))))))))"

definition decode_probes :: "(string \<times> json) list \<Rightarrow> string + probes_spec" where
  "decode_probes ob =
     bind_ok (jopt ''liveness'' ob decode_probe) (\<lambda>l. bind_ok (jopt ''readiness'' ob decode_probe) (\<lambda>r.
     bind_ok (jopt ''startup'' ob decode_probe) (\<lambda>s.
       Inr \<lparr>pr_liveness = l, pr_readiness = r, pr_startup = s\<rparr>)))"

definition decodeDeploymentSpec :: "manifest \<Rightarrow> string + deployment_spec" where
  "decodeDeploymentSpec m =
     (if m_spec m = JNull then Inl (''deployment/'' @ m_name m @ '': empty spec'')
      else map_err (\<lambda>e. ''decode deployment spec: '' @ e)
        (bind_ok (jobj (m_spec m)) (\<lambda>ob.
         bind_ok (jstr ''image'' ob) (\<lambda>image. bind_ok (jint ''replicas'' ob) (\<lambda>replicas.
         bind_ok (jvars ''env'' ob) (\<lambda>env. bind_ok (jstrs ''ports'' ob) (\<lambda>ports.
         bind_ok (jstr ''network'' ob) (\<lambda>network. bind_ok (decode_shape ob) (\<lambda>shape.
         bind_ok (jstr ''restart'' ob) (\<lambda>restart. bind_ok (jopt ''release'' ob decode_release) (\<lambda>release.
         bind_ok (jstrs ''env_from'' ob) (\<lambda>env_from. bind_ok (jvars ''build_args'' ob) (\<lambda>build_args.
         bind_ok (jopt ''autoscale'' ob decode_autoscale) (\<lambda>autoscale.
         bind_ok (jopt ''probes'' ob decode_probes) (\<lambda>probes.
         bind_ok (bind_ok (jlist ''inits'' ob) (decode_list decode_init)) (\<lambda>inits.
         bind_ok (jvars ''_asset_digests'' ob) (\<lambda>digests. bind_ok (jlist ''plugin_blocks'' ob) (\<lambda>blocks.
         bind_ok (jopt ''drain'' ob decode_drain) (\<lambda>drain. bind_ok (jopt ''resources'' ob decode_resources) (\<lambda>res.
         bind_ok (jopt ''logs'' ob decode_logs) (\<lambda>logs. bind_ok (jstr ''health_check'' ob) (\<lambda>health.
           Inr \<lparr>sp_image = image, sp_replicas = replicas, sp_env = env, sp_ports = ports, sp_network = network,
                sp_shape = shape, sp_restart = restart, sp_release = release, sp_env_from = env_from,
                sp_build_args = build_args, sp_autoscale = autoscale, sp_probes = probes, sp_inits = inits,
                sp_digests = digests, sp_plugin_blocks = blocks, sp_drain = drain,
                sp_on_deploy = jget ''on_deploy'' ob, sp_on_probe = jget ''on_probe'' ob, sp_resources = res,
                sp_logs = logs, sp_health_check = health\<rparr>))))))))))))))))))))))"

section \<open>Resource limits and logs\<close>

text \<open>
  \<open>internal/k8svalues\<close> and \<open>resources.go\<close>. Go's float functions are arguments: whether a text parses
  as a float and is negative, the text of a thousandth, and a scaled float truncated to an integer.
\<close>

record floats =
  fl_parse :: "string \<Rightarrow> bool option"
  fl_millis :: "int \<Rightarrow> string"
  fl_scaled :: "string \<Rightarrow> int \<Rightarrow> int"

definition ParseCPU :: "floats \<Rightarrow> string \<Rightarrow> string + string" where
  "ParseCPU fl s0 =
     (let s = trim_space s0
      in if s = [] then Inr []
         else if has_suffix s ''m'' then
           (case atoi (trim_suffix s ''m'') of
              None \<Rightarrow> Inl (''invalid millicores '' @ s)
            | Some n \<Rightarrow> if n < 0 then Inl (''cpu must be non-negative, got '' @ s) else Inr (fl_millis fl n))
         else
           (case fl_parse fl s of
              None \<Rightarrow> Inl (''invalid cpu '' @ s)
            | Some neg \<Rightarrow> if neg then Inl (''cpu must be non-negative, got '' @ s) else Inr s))"

definition memory_suffixes :: "(string \<times> int) list" where
  "memory_suffixes =
     [(''Ki'', 1024), (''Mi'', 1024 ^ 2), (''Gi'', 1024 ^ 3), (''Ti'', 1024 ^ 4),
      (''K'', 1000), (''M'', 1000 ^ 2), (''G'', 1000 ^ 3), (''T'', 1000 ^ 4)]"

fun parse_scaled :: "floats \<Rightarrow> string \<Rightarrow> (string \<times> int) list \<Rightarrow> (string + int) option" where
  "parse_scaled fl s [] = None"
| "parse_scaled fl s ((ext, mult) # sxs) =
     (if \<not> has_suffix s ext then parse_scaled fl s sxs
      else let raw = trim_suffix s ext
           in Some (case fl_parse fl raw of
                      None \<Rightarrow> Inl (''invalid memory '' @ s)
                    | Some neg \<Rightarrow> if neg then Inl (''memory must be non-negative, got '' @ s)
                                  else Inr (fl_scaled fl raw mult)))"

definition ParseMemoryBytes :: "floats \<Rightarrow> string \<Rightarrow> string + int" where
  "ParseMemoryBytes fl s0 =
     (let s = trim_space s0
      in if s = [] then Inr 0
         else case parse_scaled fl s memory_suffixes of
                Some r \<Rightarrow> r
              | None \<Rightarrow>
                  (case atoi s of
                     None \<Rightarrow> Inl (''invalid memory '' @ s)
                   | Some n \<Rightarrow> if n < 0 then Inl (''memory must be non-negative, got '' @ s) else Inr n))"

definition dockerResources :: "floats \<Rightarrow> resource_limits option option \<Rightarrow> string + string \<times> int" where
  "dockerResources fl spec =
     (case spec of
        Some (Some limits) \<Rightarrow>
          bind_ok (ParseCPU fl (rl_cpu limits)) (\<lambda>cpu.
          bind_ok (ParseMemoryBytes fl (rl_memory limits)) (\<lambda>mem. Inr (cpu, mem)))
      | _ \<Rightarrow> Inr ([], 0))"

definition effectiveLogs :: "logs_spec option \<Rightarrow> string \<times> int" where
  "effectiveLogs spec =
     (case spec of
        None \<Rightarrow> (''10m'', 3)
      | Some l \<Rightarrow> (if lo_max_size l = [] then ''10m'' else lo_max_size l,
                   if lo_max_files l \<le> 0 then 3 else lo_max_files l))"

section \<open>Network aliases\<close>

definition BuildNetworkAliases :: "string \<Rightarrow> string \<Rightarrow> string list" where
  "BuildNetworkAliases scope0 name0 =
     (let nm = to_lower (trim_space name0); scope = to_lower (trim_space scope0)
      in if nm = [] then []
         else if scope = [] then [nm, nm @ ''.voodu'']
         else [nm @ ''.'' @ scope, nm @ ''.'' @ scope @ ''.voodu''])"

definition BuildPodNetworkAliases :: "string \<Rightarrow> string \<Rightarrow> int \<Rightarrow> string list" where
  "BuildPodNetworkAliases scope0 name0 ordinal =
     (let nm = to_lower (trim_space name0)
      in if nm = [] then []
         else let pod = nm @ ''-'' @ itoa_int (if ordinal < 0 then 0 else ordinal);
                  scope = to_lower (trim_space scope0)
              in if scope = [] then [pod, pod @ ''.voodu'']
                 else [pod @ ''.'' @ scope, pod @ ''.'' @ scope @ ''.voodu''])"

section \<open>Ports\<close>

definition normalizePort :: "string \<Rightarrow> string" where
  "normalizePort p =
     (if has_prefix p ''['' then p
      else let n = count_list p CHR '':''
           in if n = 0 then ''127.0.0.1::'' @ p
              else if n = 1 then ''127.0.0.1:'' @ p
              else p)"

definition normalizePorts :: "string list \<Rightarrow> string list" where
  "normalizePorts ports = map normalizePort ports"

record host_binding =
  hb_ip :: string
  hb_host_port :: string
  hb_container :: string

text \<open>\<open>strings.Index\<close> of a substring.\<close>

fun index_sub :: "string \<Rightarrow> string \<Rightarrow> nat option" where
  "index_sub p [] = (if p = [] then Some 0 else None)"
| "index_sub p (c # cs) = (if has_prefix (c # cs) p then Some 0 else map_option Suc (index_sub p cs))"

definition split_host_container :: "string \<Rightarrow> string \<Rightarrow> host_binding option" where
  "split_host_container ip rest =
     (case cut CHR '':'' rest of
        (host, container, found) \<Rightarrow>
          if \<not> found \<or> CHR '':'' \<in> set container then None
          else Some \<lparr>hb_ip = ip, hb_host_port = host, hb_container = container\<rparr>)"

definition parseHostBinding :: "string \<Rightarrow> host_binding option" where
  "parseHostBinding port =
     (let normalized = normalizePort port
      in if has_prefix normalized ''['' then
           (case index_sub '']:'' normalized of
              None \<Rightarrow> None
            | Some e \<Rightarrow> split_host_container (take (e + 1) normalized) (drop (e + 2) normalized))
         else
           (case cut CHR '':'' normalized of
              (ip, rest, found) \<Rightarrow> if \<not> found then None else split_host_container ip rest))"

definition pinsHostPort :: "string \<Rightarrow> bool" where
  "pinsHostPort port =
     (if has_prefix (normalizePort port) ''['' then True
      else case parseHostBinding port of None \<Rightarrow> True | Some b \<Rightarrow> hb_host_port b \<noteq> [])"

definition canSurge :: "deployment_spec \<Rightarrow> bool" where
  "canSurge spec = list_all (\<lambda>p. \<not> pinsHostPort p) (sp_ports spec)"

definition hostPortMode :: "deployment_spec \<Rightarrow> string" where
  "hostPortMode spec =
     (if sp_ports spec = [] then ''none''
      else if \<not> canSurge spec then ''fixed''
      else ''ephemeral'')"

section \<open>Defaults, counts and hashes\<close>

definition effectiveReplicas :: "deployment_spec \<Rightarrow> int" where
  "effectiveReplicas spec =
     (if sp_replicas spec < 1 then
        (case sp_autoscale spec of
           Some a \<Rightarrow> if au_min a > 0 then au_min a else 1
         | None \<Rightarrow> 1)
      else sp_replicas spec)"

definition applyDeploymentSpecDefaults :: "deployment_spec \<Rightarrow> string \<Rightarrow> string + deployment_spec" where
  "applyDeploymentSpecDefaults spec app =
     (let image = (if sp_image spec = [] then app @ '':latest'' else sp_image spec);
          sh = sp_shape spec; mode = sh_network_mode sh;
          finish = (\<lambda>nets. Inr (spec\<lparr>sp_image := image, sp_shape := sh\<lparr>sh_networks := nets\<rparr>,
                     sp_ports := normalizePorts (sp_ports spec),
                     sp_restart := (if sp_restart spec = [] then ''unless-stopped'' else sp_restart spec)\<rparr>))
      in if mode = [] then
           (let nets = (if sh_networks sh = [] \<and> sp_network spec \<noteq> [] then [sp_network spec] else sh_networks sh)
            in finish (if ''voodu0'' \<in> set nets then nets else nets @ [''voodu0'']))
         else if mode = ''host'' \<or> mode = ''none'' then
           (if sh_networks sh \<noteq> [] \<or> sp_network spec \<noteq> []
            then Inl (''deployment/'' @ app @ '': network_mode is mutually exclusive with network/networks'')
            else finish (sh_networks sh))
         else Inl (''deployment/'' @ app @ '': network_mode not supported''))"

text \<open>The content \<open>deploymentSpecHash\<close> serialises; sets are sorted, the replica count is not part of it.\<close>

record hash_input =
  hi_image :: string
  hi_shape :: pod_shape
  hi_ports :: "string list"
  hi_env :: vars
  hi_env_from :: "string list"
  hi_restart :: string
  hi_build_args :: vars
  hi_autoscale :: "autoscale_spec option"
  hi_probes :: "probes_spec option"
  hi_inits :: "init_spec list"
  hi_assets :: "string list"
  hi_resources :: "resource_limits option option"
  hi_logs :: "logs_spec option"

fun le_str :: "string \<Rightarrow> string \<Rightarrow> bool" where
  "le_str [] t = True"
| "le_str (c # s) [] = False"
| "le_str (c # s) (d # t) =
     (let m = of_char c :: nat; n = of_char d :: nat in m < n \<or> (m = n \<and> le_str s t))"

fun insert_str :: "string \<Rightarrow> string list \<Rightarrow> string list" where
  "insert_str x [] = [x]"
| "insert_str x (y # ys) = (if le_str x y then x # y # ys else y # insert_str x ys)"

text \<open>\<open>sort.Strings\<close>, and a Go map serialised in key order.\<close>

definition sort_strs :: "string list \<Rightarrow> string list" where
  "sort_strs xs = foldr insert_str xs []"

lemma le_str_refl [simp]: "le_str s s"
  by (induction s) (simp_all add: Let_def)

lemma le_str_total: "le_str s t \<or> le_str t s"
  by (induction s t rule: le_str.induct) (auto simp: Let_def)

lemma le_str_trans: "le_str s t \<Longrightarrow> le_str t u \<Longrightarrow> le_str s u"
proof (induction s t arbitrary: u rule: le_str.induct)
  case (3 c s d t)
  then show ?case by (cases u) (auto simp: Let_def)
qed auto

lemma insert_str_set [simp]: "set (insert_str x ys) = insert x (set ys)"
  by (induction ys) auto

lemma insert_str_sorted: "sorted_wrt le_str ys \<Longrightarrow> sorted_wrt le_str (insert_str x ys)"
proof (induction ys)
  case (Cons y ys)
  then show ?case using le_str_total [of x y] by (auto intro: le_str_trans)
qed simp

lemma sort_strs_set [simp]: "set (sort_strs xs) = set xs"
proof -
  have "set (foldr insert_str xs []) = set xs" by (induction xs) auto
  then show ?thesis by (simp add: sort_strs_def)
qed

lemma sort_strs_sorted: "sorted_wrt le_str (sort_strs xs)"
proof -
  have "sorted_wrt le_str (foldr insert_str xs [])" by (induction xs) (auto intro: insert_str_sorted)
  then show ?thesis by (simp add: sort_strs_def)
qed

fun insert_var :: "string \<times> string \<Rightarrow> vars \<Rightarrow> vars" where
  "insert_var e [] = [e]"
| "insert_var e (f # fs) = (if le_str (fst e) (fst f) then e # f # fs else f # insert_var e fs)"

definition sort_vars :: "vars \<Rightarrow> vars" where
  "sort_vars vs = foldr insert_var vs []"

definition flattenAssetDigests :: "vars \<Rightarrow> string list" where
  "flattenAssetDigests d = map (\<lambda>(k, v). k @ ''='' @ v) (sort_vars d)"

definition deployment_hash_input :: "deployment_spec \<Rightarrow> vars \<Rightarrow> hash_input" where
  "deployment_hash_input spec digests =
     \<lparr>hi_image = sp_image spec,
      hi_shape = (sp_shape spec)\<lparr>sh_networks := sort_strs (sh_networks (sp_shape spec)),
        sh_extra_hosts := sort_strs (sh_extra_hosts (sp_shape spec)),
        sh_cap_add := sort_strs (sh_cap_add (sp_shape spec)),
        sh_ulimits := sort_vars (sh_ulimits (sp_shape spec))\<rparr>,
      hi_ports = sp_ports spec, hi_env = sort_vars (sp_env spec), hi_env_from = sp_env_from spec,
      hi_restart = sp_restart spec, hi_build_args = sort_vars (sp_build_args spec),
      hi_autoscale = sp_autoscale spec, hi_probes = sp_probes spec, hi_inits = sp_inits spec,
      hi_assets = flattenAssetDigests digests, hi_resources = sp_resources spec, hi_logs = sp_logs spec\<rparr>"

definition deploymentSpecHash :: "(hash_input \<Rightarrow> string) \<Rightarrow> deployment_spec \<Rightarrow> vars \<Rightarrow> string" where
  "deploymentSpecHash sha spec digests = sha (deployment_hash_input spec digests)"

text \<open>\<open>envMapToPairs\<close>: sorted \<open>KEY=VALUE\<close> lines.\<close>

definition envMapToPairs :: "vars \<Rightarrow> string list" where
  "envMapToPairs env = map (\<lambda>(k, v). k @ ''='' @ v) (sort_vars env)"

definition reportsReadiness :: "probes_spec option \<Rightarrow> bool" where
  "reportsReadiness p = (case p of None \<Rightarrow> False | Some q \<Rightarrow> pr_readiness q \<noteq> None \<or> pr_startup q \<noteq> None)"

end
