(* ===== verification/Docker.thy ===== *)
theory Docker
  imports Containers
begin

text \<open>
  \<open>DockerContainerManager\<close> of \<open>internal/controller/container.go\<close> over the docker command line. The
  commands are a record of operations with what docker documents of them as the interface
  \<open>docker_api\<close>; the manager's operations satisfy \<open>container_api\<close> whenever the commands satisfy
  \<open>docker_api\<close>. \<open>dockerd\<close> is the reference daemon: containers by name, images that fail to start
  (docker then leaves the created container behind, not running), and the exit codes of processes.
\<close>

record ctr_info =
  ci_name :: string
  ci_image :: string

record 'w docker =
  dk_exists :: "'w \<Rightarrow> string \<Rightarrow> bool"
  dk_running :: "'w \<Rightarrow> string \<Rightarrow> string + bool"
  dk_update_restart :: "'w \<Rightarrow> string \<Rightarrow> string \<Rightarrow> 'w"
  dk_start :: "'w \<Rightarrow> string \<Rightarrow> 'w \<times> string option"
  dk_stop :: "'w \<Rightarrow> string \<Rightarrow> int \<Rightarrow> 'w \<times> string option"
  dk_rm :: "'w \<Rightarrow> string \<Rightarrow> 'w \<times> string option"
  dk_create :: "'w \<Rightarrow> container_spec \<Rightarrow> 'w \<times> string option"
  dk_labels :: "'w \<Rightarrow> string \<Rightarrow> string + (string \<rightharpoonup> string)"
  dk_ps :: "'w \<Rightarrow> (string \<times> string) list \<Rightarrow> string + ctr_info list"
  dk_wait :: "'w \<Rightarrow> string \<Rightarrow> 'w \<times> int \<times> string option"
  dk_image_id :: "'w \<Rightarrow> string \<Rightarrow> string + string"
  dk_container_image_id :: "'w \<Rightarrow> string \<Rightarrow> string + string"
  dk_image_exists :: "'w \<Rightarrow> string \<Rightarrow> bool"
  dk_tag :: "'w \<Rightarrow> string \<Rightarrow> string \<Rightarrow> 'w \<times> string option"
  dk_rmi :: "'w \<Rightarrow> string \<Rightarrow> 'w \<times> string option"
  dk_volume_create :: "'w \<Rightarrow> string \<Rightarrow> string list \<Rightarrow> 'w \<times> string option"
  dk_volume_rm :: "'w \<Rightarrow> string \<Rightarrow> 'w \<times> string option"
  dk_volume_ls :: "'w \<Rightarrow> string list \<Rightarrow> string + string list"

text \<open>The default SIGTERM budget of \<open>docker stop\<close>, in nanoseconds.\<close>

definition default_grace :: int where
  "default_grace = 10000000000"

section \<open>The manager\<close>

definition dcm_ensure :: "'w docker \<Rightarrow> 'w \<Rightarrow> container_spec \<Rightarrow> 'w \<times> (string + bool)" where
  "dcm_ensure dk w sp =
     (if dk_exists dk w (k_name sp) then
        let w1 = (if k_restart sp \<noteq> [] then dk_update_restart dk w (k_name sp) (k_restart sp) else w)
        in case dk_running dk w1 (k_name sp) of
             Inl e \<Rightarrow> (w1, Inl (''inspect '' @ k_name sp @ '': '' @ e))
           | Inr True \<Rightarrow> (w1, Inr False)
           | Inr False \<Rightarrow>
               (case dk_start dk w1 (k_name sp) of
                  (w2, Some e) \<Rightarrow> (w2, Inl (''start stopped container '' @ k_name sp @ '': '' @ e))
                | (w2, None) \<Rightarrow> (w2, Inr False))
      else case dk_create dk w sp of
             (w1, Some e) \<Rightarrow> (w1, Inl e)
           | (w1, None) \<Rightarrow> (w1, Inr True))"

definition dcm_remove_grace :: "'w docker \<Rightarrow> 'w \<Rightarrow> string \<Rightarrow> int \<Rightarrow> 'w \<times> string option" where
  "dcm_remove_grace dk w n grace =
     (if \<not> dk_exists dk w n then (w, None)
      else case dk_stop dk w n grace of
             (w1, Some e) \<Rightarrow> (w1, Some e)
           | (w1, None) \<Rightarrow> dk_rm dk w1 n)"

definition dcm_remove :: "'w docker \<Rightarrow> 'w \<Rightarrow> string \<Rightarrow> 'w \<times> string option" where
  "dcm_remove dk w n =
     (if \<not> dk_exists dk w n then (w, None)
      else case dk_stop dk w n default_grace of
             (w1, Some e) \<Rightarrow> (w1, Some e)
           | (w1, None) \<Rightarrow> dk_rm dk w1 n)"

definition dcm_recreate :: "'w docker \<Rightarrow> 'w \<Rightarrow> container_spec \<Rightarrow> 'w \<times> string option" where
  "dcm_recreate dk w sp =
     (if dk_exists dk w (k_name sp) then
        case dk_stop dk w (k_name sp) default_grace of
          (w1, Some e) \<Rightarrow> (w1, Some e)
        | (w1, None) \<Rightarrow>
            (case dk_rm dk w1 (k_name sp) of
               (w2, Some e) \<Rightarrow> (w2, Some e)
             | (w2, None) \<Rightarrow> dk_create dk w2 sp)
      else dk_create dk w sp)"

definition dcm_stop :: "'w docker \<Rightarrow> 'w \<Rightarrow> string \<Rightarrow> 'w \<times> string option" where
  "dcm_stop dk w n =
     (if \<not> dk_exists dk w n then (w, None)
      else case dk_running dk w n of
             Inl e \<Rightarrow> (w, Some (''inspect '' @ n @ '': '' @ e))
           | Inr False \<Rightarrow> (w, None)
           | Inr True \<Rightarrow> dk_stop dk w n default_grace)"

definition dcm_start :: "'w docker \<Rightarrow> 'w \<Rightarrow> string \<Rightarrow> 'w \<times> string option" where
  "dcm_start dk w n =
     (if \<not> dk_exists dk w n then (w, Some (''container '' @ n @ '' does not exist''))
      else case dk_running dk w n of
             Inl e \<Rightarrow> (w, Some (''inspect '' @ n @ '': '' @ e))
           | Inr True \<Rightarrow> (w, None)
           | Inr False \<Rightarrow> dk_start dk w n)"

text \<open>\<open>strings.TrimPrefix(strings.TrimSpace(raw), "/")\<close>.\<close>

definition docker_name :: "string \<Rightarrow> string" where
  "docker_name raw = (let n = trim_space raw in if has_prefix n ''/'' then tl n else n)"

fun slots_of :: "'w docker \<Rightarrow> 'w \<Rightarrow> string \<Rightarrow> string \<Rightarrow> string \<Rightarrow> ctr_info list \<Rightarrow> slot list" where
  "slots_of dk w k scope nm [] = []"
| "slots_of dk w k scope nm (c # cs) =
     (let cname = docker_name (ci_name c); rest = slots_of dk w k scope nm cs
      in if cname = [] then rest
         else case dk_labels dk w cname of
                Inl _ \<Rightarrow> rest
              | Inr m \<Rightarrow>
                  (case ParseLabels m of
                     None \<Rightarrow> rest
                   | Some i \<Rightarrow>
                       if \<not> Matches i k scope nm then rest
                       else \<lparr>sl_name = cname, sl_identity = i, sl_image = ci_image c,
                             sl_running = (dk_running dk w cname = Inr True)\<rparr> # rest))"

definition dcm_list :: "'w docker \<Rightarrow> 'w \<Rightarrow> string \<Rightarrow> string \<Rightarrow> string \<Rightarrow> string + slot list" where
  "dcm_list dk w k scope nm =
     (case dk_ps dk w ([(''voodu.kind'', k), (''voodu.name'', nm)]
                       @ (if scope \<noteq> [] then [(''voodu.scope'', scope)] else [])) of
        Inl e \<Rightarrow> Inl (''list containers (kind='' @ k @ '' scope='' @ scope @ '' name='' @ nm @ ''): '' @ e)
      | Inr infos \<Rightarrow> Inr (slots_of dk w k scope nm infos))"

fun legacy_names :: "'w docker \<Rightarrow> 'w \<Rightarrow> string \<Rightarrow> ctr_info list \<Rightarrow> string list" where
  "legacy_names dk w app [] = []"
| "legacy_names dk w app (c # cs) =
     (let cname = docker_name (ci_name c); rest = legacy_names dk w app cs
      in if cname = [] then rest
         else case dk_labels dk w cname of
                Inl _ \<Rightarrow> rest
              | Inr m \<Rightarrow>
                  if ParseLabels m \<noteq> None \<and> label_of m ''voodu.kind'' \<noteq> [] then rest
                  else if LegacyContainerName cname app then cname # rest
                  else rest)"

definition dcm_list_legacy :: "'w docker \<Rightarrow> 'w \<Rightarrow> string \<Rightarrow> string + string list" where
  "dcm_list_legacy dk w app =
     (case dk_ps dk w [] of Inl e \<Rightarrow> Inl e | Inr infos \<Rightarrow> Inr (legacy_names dk w app infos))"

definition dcm_ids_differ :: "'w docker \<Rightarrow> 'w \<Rightarrow> string \<Rightarrow> string \<Rightarrow> string + bool" where
  "dcm_ids_differ dk w container tag =
     (case dk_container_image_id dk w container of
        Inl e \<Rightarrow> Inl e
      | Inr cid \<Rightarrow>
          if cid = [] then Inr False
          else (case dk_image_id dk w tag of
                  Inl _ \<Rightarrow> Inr False
                | Inr tid \<Rightarrow> if tid = [] then Inr False else Inr (cid \<noteq> tid)))"

definition docker_manager :: "'w docker \<Rightarrow> 'w container_manager" where
  "docker_manager dk =
     \<lparr>cm_ensure = dcm_ensure dk, cm_recreate = dcm_recreate dk, cm_remove = dcm_remove dk,
      cm_remove_grace = dcm_remove_grace dk, cm_list = dcm_list dk, cm_list_legacy = dcm_list_legacy dk,
      cm_stop = dcm_stop dk, cm_start = dcm_start dk, cm_wait = dk_wait dk,
      cm_ids_differ = dcm_ids_differ dk, cm_image_exists = dk_image_exists dk, cm_tag_image = dk_tag dk,
      cm_remove_tag = dk_rmi dk, cm_ensure_volume = dk_volume_create dk,
      cm_remove_volume = dk_volume_rm dk, cm_list_volumes = dk_volume_ls dk\<rparr>"

lemmas dcm_defs = dcm_ensure_def dcm_remove_grace_def dcm_remove_def dcm_recreate_def dcm_stop_def
  dcm_start_def dcm_list_def dcm_list_legacy_def dcm_ids_differ_def

lemma docker_manager_simps [simp]:
  "cm_ensure (docker_manager dk) = dcm_ensure dk" "cm_recreate (docker_manager dk) = dcm_recreate dk"
  "cm_remove (docker_manager dk) = dcm_remove dk" "cm_remove_grace (docker_manager dk) = dcm_remove_grace dk"
  "cm_list (docker_manager dk) = dcm_list dk" "cm_list_legacy (docker_manager dk) = dcm_list_legacy dk"
  "cm_stop (docker_manager dk) = dcm_stop dk" "cm_start (docker_manager dk) = dcm_start dk"
  "cm_wait (docker_manager dk) = dk_wait dk" "cm_ids_differ (docker_manager dk) = dcm_ids_differ dk"
  "cm_image_exists (docker_manager dk) = dk_image_exists dk" "cm_tag_image (docker_manager dk) = dk_tag dk"
  "cm_remove_tag (docker_manager dk) = dk_rmi dk" "cm_ensure_volume (docker_manager dk) = dk_volume_create dk"
  "cm_remove_volume (docker_manager dk) = dk_volume_rm dk" "cm_list_volumes (docker_manager dk) = dk_volume_ls dk"
  by (simp_all add: docker_manager_def)

section \<open>What docker documents\<close>

text \<open>A label filter \<open>k=v\<close> keeps the containers whose label \<open>k\<close> is \<open>v\<close>.\<close>

definition filters_hold :: "(string \<times> string) list \<Rightarrow> ctr \<Rightarrow> bool" where
  "filters_hold fs c = list_all (\<lambda>(k, v). label_map (k_labels (ct_spec c)) k = Some v) fs"

text \<open>Docker's own rule for names excludes blanks and slashes; a name is not empty.\<close>

definition plain_name :: "string \<Rightarrow> bool" where
  "plain_name n = (n \<noteq> [] \<and> CHR ''/'' \<notin> set n \<and> list_all (\<lambda>c. \<not> is_space c) n)"

locale docker_api =
  fixes dk :: "'w docker" and view :: "'w \<Rightarrow> containers"
  assumes names: "view w n = Some c \<Longrightarrow> plain_name n"
    and exists_law: "dk_exists dk w n \<longleftrightarrow> view w n \<noteq> None"
    and running_law: "view w n = Some c \<Longrightarrow> dk_running dk w n = Inr (ct_running c)"
    and labels_law: "view w n = Some c \<Longrightarrow> dk_labels dk w n = Inr (label_map (k_labels (ct_spec c)))"
    and update_restart_law: "\<exists>r. view (dk_update_restart dk w n p) =
      (case view w n of None \<Rightarrow> view w | Some c \<Rightarrow> (view w)(n \<mapsto> c\<lparr>ct_spec := (ct_spec c)\<lparr>k_restart := r\<rparr>\<rparr>))"
    and start_ok: "dk_start dk w n = (w', None) \<Longrightarrow> view w n = Some c \<Longrightarrow> view w' = (view w)(n \<mapsto> c\<lparr>ct_running := True\<rparr>)"
    and start_err: "dk_start dk w n = (w', Some e) \<Longrightarrow> m \<noteq> n \<Longrightarrow> view w' m = view w m"
    and stop_ok: "dk_stop dk w n g = (w', None) \<Longrightarrow> view w n = Some c \<Longrightarrow> view w' = (view w)(n \<mapsto> c\<lparr>ct_running := False\<rparr>)"
    and stop_err: "dk_stop dk w n g = (w', Some e) \<Longrightarrow> m \<noteq> n \<Longrightarrow> view w' m = view w m"
    and rm_ok: "dk_rm dk w n = (w', None) \<Longrightarrow> view w' = (view w)(n := None)"
    and rm_err: "dk_rm dk w n = (w', Some e) \<Longrightarrow> m \<noteq> n \<Longrightarrow> view w' m = view w m"
    and create_ok: "dk_create dk w sp = (w', None) \<Longrightarrow>
      view w' = (view w)(k_name sp \<mapsto> \<lparr>ct_spec = sp, ct_running = True\<rparr>)"
    and create_err: "dk_create dk w sp = (w', Some e) \<Longrightarrow> m \<noteq> k_name sp \<Longrightarrow> view w' m = view w m"
    and ps_law: "dk_ps dk w fs = Inr infos \<Longrightarrow> x \<in> set infos \<longleftrightarrow>
      (\<exists>c. view w (ci_name x) = Some c \<and> ci_image x = k_image (ct_spec c) \<and> filters_hold fs c)"
    and ps_names: "dk_ps dk w fs = Inr infos \<Longrightarrow> distinct (map ci_name infos)"
    and dk_wait_frame: "dk_wait dk w n = (w', code, er) \<Longrightarrow> m \<noteq> n \<Longrightarrow> view w' m = view w m"
    and dk_wait_self: "dk_wait dk w n = (w', code, er) \<Longrightarrow>
      map_option ct_spec (view w' n) = map_option ct_spec (view w n)"
    and images_law: "view (fst (dk_tag dk w a b)) = view w" "view (fst (dk_rmi dk w a)) = view w"
    and volumes_law: "view (fst (dk_volume_create dk w a ls)) = view w" "view (fst (dk_volume_rm dk w a)) = view w"

lemma trim_space_plain: "list_all (\<lambda>c. \<not> is_space c) n \<Longrightarrow> trim_space n = n"
proof -
  assume a: "list_all (\<lambda>c. \<not> is_space c) n"
  then have "dropWhile is_space n = n" by (cases n) auto
  moreover have "dropWhile is_space (rev n) = rev n"
    using a by (cases n rule: rev_cases) auto
  ultimately show ?thesis by (simp add: trim_space_def)
qed

lemma docker_name_plain: "plain_name n \<Longrightarrow> docker_name n = n"
  by (cases n) (auto simp: docker_name_def plain_name_def trim_space_plain has_prefix_def Let_def)

context docker_api
begin

lemma mem_slots_of:
  assumes "\<And>x. x \<in> set infos \<Longrightarrow> \<exists>c. view w (ci_name x) = Some c \<and> ci_image x = k_image (ct_spec c)"
  shows "s \<in> set (slots_of dk w k scope nm infos) \<longleftrightarrow>
    sl_name s \<in> ci_name ` set infos \<and> is_slot (view w) k scope nm s"
  using assms
proof (induction infos)
  case (Cons x xs)
  obtain c where c: "view w (ci_name x) = Some c" "ci_image x = k_image (ct_spec c)"
    using Cons.prems [of x] by auto
  have n: "docker_name (ci_name x) = ci_name x" "ci_name x \<noteq> []"
    using names [OF c(1)] by (simp_all add: docker_name_plain plain_name_def)
  have ih: "s \<in> set (slots_of dk w k scope nm xs) \<longleftrightarrow>
      sl_name s \<in> ci_name ` set xs \<and> is_slot (view w) k scope nm s"
    using Cons.prems by (intro Cons.IH) auto
  show ?case
    using n ih c labels_law [OF c(1)] running_law [OF c(1)]
    by (cases s) (auto simp: is_slot_def ctr_identity_def Let_def split: option.splits if_splits)
qed simp

lemma names_slots_of: "sl_name ` set (slots_of dk w k scope nm infos) \<subseteq> docker_name ` ci_name ` set infos"
  by (induction infos) (auto simp: Let_def split: sum.splits option.splits if_splits)

lemma distinct_slots_of:
  "distinct (map ci_name infos) \<Longrightarrow> (\<And>x. x \<in> set infos \<Longrightarrow> docker_name (ci_name x) = ci_name x) \<Longrightarrow>
    distinct (map sl_name (slots_of dk w k scope nm infos))"
proof (induction infos)
  case (Cons x xs)
  have "docker_name ` ci_name ` set xs = ci_name ` set xs"
    using Cons.prems(2) by (force simp: image_iff)
  then have "docker_name (ci_name x) \<notin> sl_name ` set (slots_of dk w k scope nm xs)"
    using names_slots_of [of w k scope nm xs] Cons.prems by auto
  then show ?case
    using Cons by (auto simp: Let_def split: sum.splits option.splits)
qed simp


lemma identity_filters:
  assumes "ctr_identity c = Some i" and "Matches i k scope nm" and "k \<noteq> []" and "nm \<noteq> []"
  shows "filters_hold ([(''voodu.kind'', k), (''voodu.name'', nm)]
    @ (if scope \<noteq> [] then [(''voodu.scope'', scope)] else [])) c"
proof -
  let ?m = "label_map (k_labels (ct_spec c))"
  have "id_kind i = label_of ?m ''voodu.kind''" "id_name i = label_of ?m ''voodu.name''"
    "id_scope i = label_of ?m ''voodu.scope''"
    using assms(1) by (auto simp: ctr_identity_def ParseLabels_def split: if_splits)
  moreover have "label_of ?m x = y \<Longrightarrow> y \<noteq> [] \<Longrightarrow> ?m x = Some y" for x y
    by (auto simp: label_of_def split: option.splits)
  ultimately show ?thesis
    using assms(2-4) by (auto simp: filters_hold_def Matches_def)
qed

lemma dcm_list_slots:
  assumes "dcm_list dk w k scope nm = Inr ss" and "k \<noteq> []" and "nm \<noteq> []"
  shows "s \<in> set ss \<longleftrightarrow> is_slot (view w) k scope nm s"
proof -
  define fs where "fs = [(''voodu.kind'', k), (''voodu.name'', nm)]
    @ (if scope \<noteq> [] then [(''voodu.scope'', scope)] else [])"
  from assms(1) obtain infos where i: "dk_ps dk w fs = Inr infos" and ss: "ss = slots_of dk w k scope nm infos"
    by (auto simp: dcm_list_def fs_def split: sum.splits)
  have "s \<in> set ss \<longleftrightarrow> sl_name s \<in> ci_name ` set infos \<and> is_slot (view w) k scope nm s"
    unfolding ss using ps_law [OF i] by (intro mem_slots_of) auto
  moreover have "sl_name s \<in> ci_name ` set infos" if slot: "is_slot (view w) k scope nm s"
  proof -
    obtain c where c: "view w (sl_name s) = Some c" "ctr_identity c = Some (sl_identity s)"
      "Matches (sl_identity s) k scope nm" "sl_image s = k_image (ct_spec c)"
      using slot by (auto simp: is_slot_def split: option.splits)
    then have "\<lparr>ci_name = sl_name s, ci_image = sl_image s\<rparr> \<in> set infos"
      using identity_filters [OF c(2,3) assms(2,3)] by (auto simp: ps_law [OF i] fs_def)
    then show ?thesis by force
  qed
  ultimately show ?thesis by blast
qed

lemma dcm_list_names:
  assumes "dcm_list dk w k scope nm = Inr ss"
  shows "distinct (map sl_name ss)"
proof -
  from assms obtain fs infos where i: "dk_ps dk w fs = Inr infos" and ss: "ss = slots_of dk w k scope nm infos"
    by (auto simp: dcm_list_def split: sum.splits)
  have "docker_name (ci_name x) = ci_name x" if "x \<in> set infos" for x
    using ps_law [OF i, of x] that names docker_name_plain by blast
  then show ?thesis unfolding ss using ps_names [OF i] by (intro distinct_slots_of)
qed

lemma dcm_remove_grace_ok: "dcm_remove_grace dk w n g = (w', None) \<Longrightarrow> view w' = (view w)(n := None)"
  by (cases "view w n")
    (auto simp: dcm_remove_grace_def exists_law fun_upd_idem dest!: rm_ok dest: stop_ok
      split: prod.splits option.splits if_splits)

lemma dcm_remove_grace_err: "dcm_remove_grace dk w n g = (w', Some e) \<Longrightarrow> m \<noteq> n \<Longrightarrow> view w' m = view w m"
  by (auto simp: dcm_remove_grace_def exists_law dest!: rm_err stop_ok dest: stop_err
      split: prod.splits option.splits if_splits)

lemma dcm_remove_is_grace: "dcm_remove dk w n = dcm_remove_grace dk w n default_grace"
  by (simp add: dcm_remove_def dcm_remove_grace_def)

lemma dcm_ensure_new:
  assumes "dcm_ensure dk w sp = (w', Inr created)" and "view w (k_name sp) = None"
  shows "created \<and> view w' = (view w)(k_name sp \<mapsto> \<lparr>ct_spec = sp, ct_running = True\<rparr>)"
  using assms by (auto simp: dcm_ensure_def exists_law split: prod.splits option.splits dest: create_ok)

lemma dcm_ensure_existing:
  assumes "dcm_ensure dk w sp = (w', Inr created)" and "view w (k_name sp) = Some c"
  shows "\<not> created \<and>
    (\<exists>r. view w' = (view w)(k_name sp \<mapsto> \<lparr>ct_spec = (ct_spec c)\<lparr>k_restart := r\<rparr>, ct_running = True\<rparr>))"
proof -
  define w1 where "w1 = (if k_restart sp \<noteq> [] then dk_update_restart dk w (k_name sp) (k_restart sp) else w)"
  have "\<exists>r. view w1 = (view w)(k_name sp \<mapsto> c\<lparr>ct_spec := (ct_spec c)\<lparr>k_restart := r\<rparr>\<rparr>)"
  proof (cases "k_restart sp \<noteq> []")
    case False
    then have "view w1 = (view w)(k_name sp \<mapsto> c\<lparr>ct_spec := (ct_spec c)\<lparr>k_restart := k_restart (ct_spec c)\<rparr>\<rparr>)"
      using assms(2) by (simp add: w1_def fun_upd_idem)
    then show ?thesis by blast
  qed (use update_restart_law [of w "k_name sp" "k_restart sp"] assms(2) in \<open>simp add: w1_def\<close>)
  then obtain r where v1: "view w1 = (view w)(k_name sp \<mapsto> c\<lparr>ct_spec := (ct_spec c)\<lparr>k_restart := r\<rparr>\<rparr>)" by blast
  have run: "dk_running dk w1 (k_name sp) = Inr (ct_running c)"
    using running_law [of w1 "k_name sp"] v1 by simp
  have e: "dk_exists dk w (k_name sp)" using assms(2) by (simp add: exists_law)
  show ?thesis
  proof (cases "ct_running c")
    case True
    then have "w' = w1 \<and> \<not> created"
      using assms(1) e run by (simp add: dcm_ensure_def w1_def [symmetric])
    moreover have "c\<lparr>ct_spec := (ct_spec c)\<lparr>k_restart := r\<rparr>\<rparr> =
        \<lparr>ct_spec = (ct_spec c)\<lparr>k_restart := r\<rparr>, ct_running = True\<rparr>" using True by simp
    ultimately show ?thesis using v1 by auto
  next
    case False
    then obtain w2 where "dk_start dk w1 (k_name sp) = (w2, None)" "w' = w2" "\<not> created"
      using assms(1) e run by (auto simp: dcm_ensure_def w1_def [symmetric] split: prod.splits option.splits)
    then show ?thesis using start_ok [of w1 "k_name sp" w2] v1
      by (cases c) (intro conjI exI [of _ r], simp_all)
  qed
qed

lemma dcm_ensure_err:
  assumes "dcm_ensure dk w sp = (w', Inl e)" and "n \<noteq> k_name sp"
  shows "view w' n = view w n"
proof -
  define w1 where "w1 = (if k_restart sp \<noteq> [] then dk_update_restart dk w (k_name sp) (k_restart sp) else w)"
  have "view w1 n = view w n"
    using update_restart_law [of w "k_name sp" "k_restart sp"] assms(2)
    by (auto simp: w1_def split: option.splits)
  then show ?thesis
    using assms by (auto simp: dcm_ensure_def w1_def [symmetric] dest: create_err start_err
        split: prod.splits option.splits sum.splits bool.splits if_splits)
qed

lemma dcm_recreate_ok: "dcm_recreate dk w sp = (w', None) \<Longrightarrow>
    view w' = (view w)(k_name sp \<mapsto> \<lparr>ct_spec = sp, ct_running = True\<rparr>)"
  by (cases "view w (k_name sp)")
    (auto simp: dcm_recreate_def exists_law dest!: create_ok rm_ok dest: stop_ok
      split: prod.splits option.splits if_splits)

lemma dcm_recreate_err: "dcm_recreate dk w sp = (w', Some e) \<Longrightarrow> n \<noteq> k_name sp \<Longrightarrow> view w' n = view w n"
  by (auto simp: dcm_recreate_def exists_law dest!: rm_ok stop_ok dest: create_err rm_err stop_err
      split: prod.splits option.splits if_splits)

end

sublocale docker_api \<subseteq> mgr: container_api "docker_manager dk" view
proof (unfold_locales, goal_cases)
  case (3 w sp w' created)
  then show ?case using dcm_ensure_new [of w sp w' created] by simp
next
  case (4 w sp w' created c)
  then show ?case using dcm_ensure_existing [of w sp w' created c] by simp
qed (auto simp: dcm_list_slots dcm_list_names dcm_ensure_err
      dcm_recreate_ok dcm_recreate_err dcm_remove_is_grace dcm_remove_grace_ok dcm_remove_grace_err
      images_law volumes_law dest: dk_wait_frame dk_wait_self)

section \<open>The reference daemon\<close>

text \<open>
  \<open>dd_ctrs\<close> holds the containers, \<open>dd_broken\<close> the images whose process docker cannot start,
  \<open>dd_codes\<close> the exit code of an image's process, \<open>dd_fresh\<close> the random ids still to be drawn, \<open>dd_tags\<close>
  the image each tag points at, \<open>dd_volumes\<close> the named volumes, and \<open>dd_down\<close> makes every listing fail.
\<close>

record dockerd =
  dd_ctrs :: "(string \<times> ctr) list"
  dd_broken :: "string list"
  dd_codes :: "(string \<times> int) list"
  dd_fresh :: "string list"
  dd_tags :: "(string \<times> string) list"
  dd_volumes :: "string list"
  dd_down :: bool

definition dd_view :: "dockerd \<Rightarrow> containers" where
  "dd_view d = map_of (filter (\<lambda>e. plain_name (fst e)) (dd_ctrs d))"

definition dd_upd :: "dockerd \<Rightarrow> string \<Rightarrow> (ctr \<Rightarrow> ctr) \<Rightarrow> dockerd" where
  "dd_upd d n f = (case dd_view d n of None \<Rightarrow> d | Some c \<Rightarrow> d\<lparr>dd_ctrs := kv_set n (f c) (dd_ctrs d)\<rparr>)"

definition dd_create :: "dockerd \<Rightarrow> container_spec \<Rightarrow> dockerd \<times> string option" where
  "dd_create d sp =
     (if \<not> plain_name (k_name sp) then (d, Some ''invalid container name'')
      else if dd_view d (k_name sp) \<noteq> None then (d, Some ''name already in use'')
      else if k_image sp \<in> set (dd_broken d)
      then (d\<lparr>dd_ctrs := kv_set (k_name sp) \<lparr>ct_spec = sp, ct_running = False\<rparr> (dd_ctrs d)\<rparr>, Some ''failed to start'')
      else (d\<lparr>dd_ctrs := kv_set (k_name sp) \<lparr>ct_spec = sp, ct_running = True\<rparr> (dd_ctrs d)\<rparr>, None))"

definition dd_ps :: "dockerd \<Rightarrow> (string \<times> string) list \<Rightarrow> string + ctr_info list" where
  "dd_ps d fs =
     (if dd_down d then Inl ''cannot connect to the Docker daemon''
      else Inr (map (\<lambda>(n, c). \<lparr>ci_name = n, ci_image = k_image (ct_spec c)\<rparr>)
        (filter (\<lambda>(n, c). filters_hold fs c) (first_entries (filter (\<lambda>e. plain_name (fst e)) (dd_ctrs d))))))"

definition dd_wait :: "dockerd \<Rightarrow> string \<Rightarrow> dockerd \<times> int \<times> string option" where
  "dd_wait d n =
     (case dd_view d n of
        None \<Rightarrow> (d, - 1, Some ''No such container'')
      | Some c \<Rightarrow> (dd_upd d n (\<lambda>c. c\<lparr>ct_running := False\<rparr>),
          case map_of (dd_codes d) (k_image (ct_spec c)) of None \<Rightarrow> 0 | Some x \<Rightarrow> x, None))"

definition dockerd_cli :: "dockerd docker" where
  "dockerd_cli =
     \<lparr>dk_exists = (\<lambda>d n. dd_view d n \<noteq> None),
      dk_running = (\<lambda>d n. case dd_view d n of None \<Rightarrow> Inl ''No such container'' | Some c \<Rightarrow> Inr (ct_running c)),
      dk_update_restart = (\<lambda>d n p. dd_upd d n (\<lambda>c. c\<lparr>ct_spec := (ct_spec c)\<lparr>k_restart := p\<rparr>\<rparr>)),
      dk_start = (\<lambda>d n. (dd_upd d n (\<lambda>c. c\<lparr>ct_running := True\<rparr>), None)),
      dk_stop = (\<lambda>d n g. (dd_upd d n (\<lambda>c. c\<lparr>ct_running := False\<rparr>), None)),
      dk_rm = (\<lambda>d n. (d\<lparr>dd_ctrs := kv_del n (dd_ctrs d)\<rparr>, None)),
      dk_create = dd_create,
      dk_labels = (\<lambda>d n. case dd_view d n of None \<Rightarrow> Inl ''No such container''
                     | Some c \<Rightarrow> Inr (label_map (k_labels (ct_spec c)))),
      dk_ps = dd_ps,
      dk_wait = dd_wait,
      dk_image_id = (\<lambda>d t. Inr (case map_of (dd_tags d) t of None \<Rightarrow> t | Some i \<Rightarrow> i)),
      dk_container_image_id = (\<lambda>d n. case dd_view d n of None \<Rightarrow> Inr [] | Some c \<Rightarrow> Inr (k_image (ct_spec c))),
      dk_image_exists = (\<lambda>d t. map_of (dd_tags d) t \<noteq> None),
      dk_tag = (\<lambda>d a b. case map_of (dd_tags d) a of None \<Rightarrow> (d, Some ''No such image'')
                  | Some i \<Rightarrow> (d\<lparr>dd_tags := kv_set b i (dd_tags d)\<rparr>, None)),
      dk_rmi = (\<lambda>d t. (d\<lparr>dd_tags := kv_del t (dd_tags d)\<rparr>, None)),
      dk_volume_create = (\<lambda>d v ls. (d\<lparr>dd_volumes := List.insert v (dd_volumes d)\<rparr>, None)),
      dk_volume_rm = (\<lambda>d v. (d\<lparr>dd_volumes := removeAll v (dd_volumes d)\<rparr>, None)),
      dk_volume_ls = (\<lambda>d fs. Inr (dd_volumes d))\<rparr>"

lemma dd_view_set: "plain_name n \<Longrightarrow> dd_view (d\<lparr>dd_ctrs := kv_set n c (dd_ctrs d)\<rparr>) = (dd_view d)(n \<mapsto> c)"
  by (auto simp: dd_view_def map_of_filter_keys fun_eq_iff)

lemma dd_view_plain: "dd_view d n = Some c \<Longrightarrow> plain_name n"
  by (auto simp: dd_view_def map_of_filter_keys split: if_splits)

lemma dd_view_other [simp]:
  "dd_view (d\<lparr>dd_tags := t\<rparr>) = dd_view d" "dd_view (d\<lparr>dd_volumes := v\<rparr>) = dd_view d"
  "dd_view (d\<lparr>dd_fresh := f\<rparr>) = dd_view d"
  by (simp_all add: dd_view_def)

lemma dd_view_upd: "dd_view (dd_upd d n f) = (case dd_view d n of None \<Rightarrow> dd_view d | Some c \<Rightarrow> (dd_view d)(n \<mapsto> f c))"
  by (auto simp: dd_upd_def dd_view_set dd_view_plain split: option.splits)

lemma dd_view_del: "dd_view (d\<lparr>dd_ctrs := kv_del n (dd_ctrs d)\<rparr>) = (dd_view d)(n := None)"
  by (auto simp: dd_view_def map_of_filter_keys fun_eq_iff)

lemma dd_ps_mem:
  assumes "dd_ps d fs = Inr infos"
  shows "x \<in> set infos \<longleftrightarrow>
    (\<exists>c. dd_view d (ci_name x) = Some c \<and> ci_image x = k_image (ct_spec c) \<and> filters_hold fs c)"
proof -
  have "x \<in> set infos \<longleftrightarrow> (\<exists>n c. x = \<lparr>ci_name = n, ci_image = k_image (ct_spec c)\<rparr> \<and> dd_view d n = Some c \<and>
      filters_hold fs c)"
    using assms by (auto simp: dd_ps_def dd_view_def first_entries_map_of image_iff split: if_splits)
  then show ?thesis by (cases x) auto
qed

lemma dd_ps_distinct:
  assumes "dd_ps d fs = Inr infos"
  shows "distinct (map ci_name infos)"
proof -
  let ?es = "first_entries (filter (\<lambda>e. plain_name (fst e)) (dd_ctrs d))"
  have "map ci_name infos = map fst (filter (\<lambda>(n, c). filters_hold fs c) ?es)"
    using assms by (auto simp: dd_ps_def split: if_splits)
  then show ?thesis using distinct_fst_filter [OF first_entries_distinct] by metis
qed

interpretation dd: docker_api dockerd_cli dd_view
proof (unfold_locales, goal_cases)
  case (5 w n p)
  then show ?case
    by (auto simp: dockerd_cli_def dd_view_upd split: option.splits)
qed (auto simp: dockerd_cli_def dd_view_plain dd_view_upd dd_view_del dd_create_def dd_view_set dd_ps_mem
    dd_ps_distinct dd_wait_def split: option.splits if_splits)

lemmas dd_eval = dockerd_cli_def dd_view_def dd_upd_def dd_create_def dd_ps_def dd_wait_def plain_name_def
  kv_del_def is_space_def

section \<open>Labels read back\<close>

lemma cut_label: "CHR ''='' \<notin> set k \<Longrightarrow> cut CHR ''='' (k @ ''='' @ v) = (k, v, True)"
  using cut_append [of "CHR ''=''" k v] by simp

lemma label_map_Nil: "label_map [] k = None"
  by (simp add: label_map_def)

lemma label_map_label: "CHR ''='' \<notin> set k \<Longrightarrow>
    label_map (label k v @ ls) k' = (case label_map ls k' of Some w \<Rightarrow> Some w
      | None \<Rightarrow> if k' = k \<and> v \<noteq> [] then Some v else None)"
  by (auto simp: label_map_def label_def cut_label map_add_def split: option.splits)

lemma label_map_createdby:
  "label_map (''createdby=voodu'' # ls) k' = (case label_map ls k' of Some w \<Rightarrow> Some w
      | None \<Rightarrow> if k' = ''createdby'' then Some ''voodu'' else None)"
  by (auto simp: label_map_def map_add_def split: option.splits)

lemma label_map_ordinal:
  "label_map (ordinal_label k n @ ls) k' =
     (case label_map ls k' of Some w \<Rightarrow> Some w
      | None \<Rightarrow> if k' = ''voodu.replica_ordinal'' \<and> k = ''statefulset'' then Some (itoa_int n) else None)"
  using cut_label [of "''voodu.replica_ordinal''" "itoa_int n"]
  by (auto simp: label_map_def ordinal_label_def map_add_def split: option.splits)

lemma label_map_last: "CHR ''='' \<notin> set k \<Longrightarrow>
    label_map (label k v) k' = (if k' = k \<and> v \<noteq> [] then Some v else None)"
  using label_map_label [of k v "[]"] by (simp add: label_map_Nil)

lemma built_labels:
  fixes i :: identity
  defines "m \<equiv> label_map (BuildLabels i)"
  shows "label_of m ''createdby'' = ''voodu''" "label_of m ''voodu.kind'' = id_kind i"
    "label_of m ''voodu.scope'' = id_scope i" "label_of m ''voodu.name'' = id_name i"
    "label_of m ''voodu.replica_id'' = id_replica i" "label_of m ''voodu.manifest_hash'' = id_hash i"
    "label_of m ''voodu.created_at'' = id_created i" "label_of m ''voodu.release_id'' = id_release i"
    "label_of m ''voodu.role'' = (if id_role i = [] then id_kind i else id_role i)"
    "m ''voodu.replica_ordinal'' = (if id_kind i = ''statefulset'' then Some (itoa_int (id_ordinal i)) else None)"
  unfolding m_def label_of_def BuildLabels_def append.simps append_Nil
  by (simp_all add: label_map_createdby label_map_label label_map_ordinal label_map_last)

lemma parse_built_labels:
  assumes "id_kind i \<noteq> []" and "- (2 ^ 63) \<le> id_ordinal i" and "id_ordinal i < 2 ^ 63"
  shows "ParseLabels (label_map (BuildLabels i)) =
    Some (i\<lparr>id_role := (if id_role i = [] then id_kind i else id_role i),
            id_ordinal := (if id_kind i = ''statefulset'' then max (id_ordinal i) (- 1) else - 1)\<rparr>)"
proof -
  have "atoi (itoa_int (id_ordinal i)) = Some (id_ordinal i)"
    using assms(2,3) by (rule atoi_itoa_int)
  then show ?thesis
    unfolding ParseLabels_def built_labels using assms(1)
    by (cases "id_kind i = ''statefulset''"; cases i) (simp_all add: max_def)
qed

section \<open>Properties\<close>

text \<open>
  C34: The labels a container is created with are read back as the identity they were built from
  (the role defaults to the kind, the ordinal is kept for statefulset pods only): the listing by
  kind, scope and name finds every container by what the handler meant it to be.
\<close>

theorem labels_roundtrip:
  assumes "id_kind i \<noteq> []" and "- (2 ^ 63) \<le> id_ordinal i" and "id_ordinal i < 2 ^ 63"
  shows "ParseLabels (label_map (BuildLabels i)) =
    Some (i\<lparr>id_role := (if id_role i = [] then id_kind i else id_role i),
            id_ordinal := (if id_kind i = ''statefulset'' then max (id_ordinal i) (- 1) else - 1)\<rparr>)"
  by (rule parse_built_labels [OF assms])

definition web_identity :: identity where
  "web_identity = \<lparr>id_kind = ''deployment'', id_scope = ''prod'', id_name = ''web'', id_replica = ''a3f9'',
     id_hash = ''h'', id_created = ''t'', id_release = [], id_ordinal = 0, id_role = []\<rparr>"

theorem labels_roundtrip_witness:
  "ParseLabels (label_map (BuildLabels web_identity)) =
    Some (web_identity\<lparr>id_role := ''deployment'', id_ordinal := - 1\<rparr>)"
  using labels_roundtrip [of web_identity] by (simp add: web_identity_def)

section \<open>Volumes\<close>

text \<open>No command on a container touches a named volume.\<close>

locale docker_volumes = docker_api dk view for dk :: "'w docker" and view :: "'w \<Rightarrow> containers" +
  fixes vols :: "'w \<Rightarrow> string set"
  assumes update_restart_vols: "vols (dk_update_restart dk w n p) = vols w"
    and start_vols: "vols (fst (dk_start dk w n)) = vols w"
    and stop_vols: "vols (fst (dk_stop dk w n g)) = vols w"
    and rm_vols: "vols (fst (dk_rm dk w n)) = vols w"
    and create_vols: "vols (fst (dk_create dk w sp)) = vols w"
    and dk_wait_vols: "vols (fst (dk_wait dk w n)) = vols w"
    and volume_create_keeps: "vols w \<subseteq> vols (fst (dk_volume_create dk w v ls))"
    and volume_create_has: "dk_volume_create dk w v ls = (w', None) \<Longrightarrow> v \<in> vols w'"
    and volume_rm_others: "vols w - {v} \<subseteq> vols (fst (dk_volume_rm dk w v))"
begin

lemmas dk_vols = update_restart_vols start_vols stop_vols rm_vols create_vols

lemma rm_chain_vols: "dk_stop dk w n g = (w1, r) \<Longrightarrow> vols w1 = vols w" "dk_rm dk w n = (w1, r) \<Longrightarrow> vols w1 = vols w"
  "dk_create dk w sp = (w1, r) \<Longrightarrow> vols w1 = vols w" "dk_start dk w n = (w1, r) \<Longrightarrow> vols w1 = vols w"
  using stop_vols [of w n g] rm_vols [of w n] create_vols [of w sp] start_vols [of w n] by simp_all

lemma dcm_vols:
  "vols (fst (dcm_remove_grace dk w n g)) = vols w" "vols (fst (dcm_recreate dk w sp)) = vols w"
  "vols (fst (dcm_ensure dk w sp)) = vols w"
  by (auto simp: dcm_remove_grace_def dcm_recreate_def dcm_ensure_def dk_vols Let_def dest!: rm_chain_vols
      split: prod.splits option.splits sum.splits bool.splits)

end

sublocale docker_volumes \<subseteq> vmgr: volume_api "docker_manager dk" view vols
  by unfold_locales
    (simp_all add: dcm_vols dcm_remove_is_grace dk_wait_vols volume_create_keeps volume_create_has volume_rm_others)

interpretation ddv: docker_volumes dockerd_cli dd_view "\<lambda>d. set (dd_volumes d)"
  by unfold_locales
    (auto simp: dockerd_cli_def dd_create_def dd_wait_def dd_upd_def split: option.splits if_splits)

end
