(* ===== verification/Replicas.thy ===== *)
theory Replicas
  imports Workload Docker
begin

text \<open>
  What the deployment and statefulset handlers share: the environment they are constructed with
  (\<open>henv\<close>: the etcd client, the container manager, and the hooks injected as fields of the handler
  structs), the environment of a pod (\<open>pod_env.go\<close>, \<open>env_from.go\<close>), the status blob and its bounded
  lists (\<open>handlers.go\<close>), and the chain of init containers (\<open>init_containers.go\<close>).
\<close>

section \<open>The handler environment\<close>

text \<open>
  An error of a handler, and whether it was wrapped by \<open>Transient\<close> (\<open>retry.go\<close>): the mark survives
  further wrapping, and only the reconciler looks at it.
\<close>

text \<open>
  \<open>'s\<close> is the state of etcd, \<open>'w\<close> the state of the host: docker, files, the clock and the random
  source, probe runners and plugins. \<open>e_times_out\<close> says whether the wait for a container outlasts its
  budget; \<open>e_file_exists\<close> is \<open>os.Stat\<close>; \<open>e_app_env_file\<close> the path \<open>paths.AppEnvFile\<close>.
\<close>

datatype herror = Plain string | Transient string

fun wrap :: "string \<Rightarrow> herror \<Rightarrow> herror" where
  "wrap what (Plain e) = Plain (what @ e)"
| "wrap what (Transient e) = Transient (what @ e)"

record ('s, 'w) henv =
  e_cl :: "'s etcd"
  e_cm :: "'w container_manager"
  e_new_id :: "'w \<Rightarrow> 'w \<times> string"
  e_release_id :: "'w \<Rightarrow> 'w \<times> string"
  e_now :: "'w \<Rightarrow> string"
  e_app_env_file :: "string \<Rightarrow> string"
  e_file_exists :: "'w \<Rightarrow> string \<Rightarrow> bool"
  e_write_env :: "'w \<Rightarrow> string \<Rightarrow> string list \<Rightarrow> 'w \<times> (string + bool)"
  e_sha :: "hash_input \<Rightarrow> string"
  e_probe_start :: "'w \<Rightarrow> string \<Rightarrow> string \<Rightarrow> probes_spec option \<Rightarrow> json option \<Rightarrow> 'w"
  e_probe_stop :: "'w \<Rightarrow> string \<Rightarrow> string \<Rightarrow> 'w"
  e_await_ready :: "'w \<Rightarrow> string \<Rightarrow> 'w"
  e_drain :: "'w \<Rightarrow> string \<Rightarrow> int \<Rightarrow> 'w \<times> string option"
  e_republish :: "'s \<times> 'w \<Rightarrow> string \<Rightarrow> string \<Rightarrow> ('s \<times> 'w) \<times> herror option"
  e_publish :: "'w \<Rightarrow> string \<Rightarrow> string \<Rightarrow> string \<Rightarrow> json \<Rightarrow> slot list \<Rightarrow> 'w \<times> herror option"
  e_interp_env :: "'s \<Rightarrow> 'w \<Rightarrow> string \<Rightarrow> vars \<Rightarrow> string + vars"
  e_interp_spec :: "'s \<Rightarrow> deployment_spec \<Rightarrow> string + deployment_spec"
  e_lookup_digests :: "'s \<Rightarrow> deployment_spec \<Rightarrow> vars"
  e_build_id :: "'w \<Rightarrow> string \<Rightarrow> string"
  e_webhook :: "'w \<Rightarrow> json \<Rightarrow> string \<Rightarrow> string \<Rightarrow> herror option \<Rightarrow> 'w"
  e_times_out :: "'w \<Rightarrow> string \<Rightarrow> bool"
  e_floats :: floats
  e_clock :: "'w \<Rightarrow> int"

text \<open>
  What the control plane relies on from the hooks: none of them touches a container, and the
  republishing of ingresses writes no key but ingress statuses.
\<close>

locale host = container_api cm view + etcd_api cl kview
  for cm :: "'w container_manager" and view :: "'w \<Rightarrow> containers"
    and cl :: "'s etcd" and kview :: "'s \<Rightarrow> kv" +
  fixes env :: "('s, 'w) henv"
  assumes env_cm: "e_cm env = cm" and env_cl: "e_cl env = cl"
    and new_id_view: "view (fst (e_new_id env w)) = view w"
    and release_id_view: "view (fst (e_release_id env w)) = view w"
    and write_env_view: "view (fst (e_write_env env w a ps)) = view w"
    and probe_start_view: "view (e_probe_start env w a n pbs op) = view w"
    and probe_stop_view: "view (e_probe_stop env w a n) = view w"
    and await_ready_view: "view (e_await_ready env w n) = view w"
    and drain_view: "view (fst (e_drain env w r b)) = view w"
    and republish_view: "view (snd (fst (e_republish env sw sc nm))) = view (snd sw)"
    and republish_kview: "(\<forall>a. k \<noteq> StatusKey ''ingress'' a) \<Longrightarrow> kview (fst (fst (e_republish env sw sc nm))) k = kview (fst sw) k"
    and webhook_view: "view (e_webhook env w j rel img er) = view w"
    and publish_view: "view (fst (e_publish env w k sc nm j ss)) = view w"
begin

lemmas hook_views [simp] = new_id_view release_id_view write_env_view probe_start_view probe_stop_view
  await_ready_view drain_view republish_view publish_view webhook_view

end

section \<open>Pod environment\<close>

definition BuildDeploymentPodEnv :: "string \<Rightarrow> string \<Rightarrow> vars" where
  "BuildDeploymentPodEnv scope nm = [(''VOODU_SCOPE'', scope), (''VOODU_NAME'', nm)]"

definition BuildStatefulsetPodEnv :: "string \<Rightarrow> string \<Rightarrow> int \<Rightarrow> vars" where
  "BuildStatefulsetPodEnv scope nm ordinal =
     (let n = (if ordinal < 0 then 0 else ordinal)
      in [(''VOODU_SCOPE'', scope), (''VOODU_NAME'', nm), (''VOODU_REPLICA_ORDINAL'', itoa_int n),
          (''VOODU_REPLICA_ID'', OrdinalReplicaID n)])"

text \<open>The merge of two maps, the second winning, as an association list that is looked up from the front.\<close>

definition MergePodEnv :: "vars \<Rightarrow> vars \<Rightarrow> vars" where
  "MergePodEnv platform extra = extra @ platform"

definition resolveEnvFromRef :: "('s, 'w) henv \<Rightarrow> string \<Rightarrow> string \<Rightarrow> string + string" where
  "resolveEnvFromRef env ref_text callerScope =
     (let r = trim_space ref_text
      in if r = [] then Inl ''env_from ref is empty''
         else case index_byte CHR ''/'' r of
                Some i \<Rightarrow>
                  (let scope = trim_space (take i r); nm = trim_space (drop (Suc i) r)
                   in if scope = [] \<or> nm = [] then Inl (''env_from ref '' @ r @ '': scope/name expected, got empty side'')
                      else Inr (e_app_env_file env (AppID scope nm)))
              | None \<Rightarrow> Inr (e_app_env_file env (AppID callerScope r)))"

fun resolve_refs :: "('s, 'w) henv \<Rightarrow> 'w \<Rightarrow> string list \<Rightarrow> string \<Rightarrow> string + string list" where
  "resolve_refs env w [] callerScope = Inr []"
| "resolve_refs env w (r # rs) callerScope =
     (case resolveEnvFromRef env r callerScope of
        Inl e \<Rightarrow> Inl e
      | Inr path \<Rightarrow>
          (case resolve_refs env w rs callerScope of
             Inl e \<Rightarrow> Inl e
           | Inr ps \<Rightarrow> Inr (if e_file_exists env w path then path # ps else ps)))"

definition resolveEnvFromList :: "('s, 'w) henv \<Rightarrow> 'w \<Rightarrow> string list \<Rightarrow> string \<Rightarrow> string + string list" where
  "resolveEnvFromList env w refs callerScope =
     (if refs = [] then Inr []
      else case resolve_refs env w refs callerScope of
             Inl e \<Rightarrow> Inl e
           | Inr [] \<Rightarrow> Inl ''env_from: no env files resolved''
           | Inr ps \<Rightarrow> Inr ps)"

section \<open>The status blob\<close>

definition loadDeploymentStatus :: "'s etcd \<Rightarrow> 's \<Rightarrow> string \<Rightarrow> string + deployment_status" where
  "loadDeploymentStatus cl s app =
     (case GetStatus cl s ''deployment'' app of
        Inl e \<Rightarrow> Inl e
      | Inr None \<Rightarrow> Inr empty_status
      | Inr (Some (DStatus st)) \<Rightarrow> Inr st
      | Inr (Some _) \<Rightarrow> Inl ''json: cannot unmarshal status'')"

text \<open>The callers that ignore the error work on the zero value it comes with.\<close>

definition status_or_empty :: "string + deployment_status \<Rightarrow> deployment_status" where
  "status_or_empty r = (case r of Inl _ \<Rightarrow> empty_status | Inr st \<Rightarrow> st)"

definition writeDeploymentStatus ::
  "'s etcd \<Rightarrow> 's \<Rightarrow> string \<Rightarrow> string \<Rightarrow> string \<Rightarrow> int \<Rightarrow> string + 's" where
  "writeDeploymentStatus cl s app img hash replicas =
     (let prev = status_or_empty (loadDeploymentStatus cl s app)
      in PutStatus cl s ''deployment'' app
           (DStatus (prev\<lparr>ds_image := img, ds_spec_hash := hash, ds_replicas := replicas\<rparr>)))"

definition max_init_failures :: nat where
  "max_init_failures = 10"

definition max_replica_readiness :: nat where
  "max_replica_readiness = 64"

definition appendInitFailure :: "init_failure list \<Rightarrow> init_failure \<Rightarrow> init_failure list" where
  "appendInitFailure existing f =
     (let xs = existing @ [f]
      in if length xs > max_init_failures then drop (length xs - max_init_failures) xs else xs)"

text \<open>A status write whose failure is only logged.\<close>

definition put_or_keep :: "'s etcd \<Rightarrow> 's \<Rightarrow> string \<Rightarrow> deployment_status \<Rightarrow> 's" where
  "put_or_keep cl s app st =
     (case PutStatus cl s ''deployment'' app (DStatus st) of Inl _ \<Rightarrow> s | Inr s' \<Rightarrow> s')"

definition RecordInitFailure :: "'s etcd \<Rightarrow> 's \<Rightarrow> string \<Rightarrow> init_failure \<Rightarrow> 's" where
  "RecordInitFailure cl s app failure =
     (let prev = status_or_empty (loadDeploymentStatus cl s app)
      in put_or_keep cl s app (prev\<lparr>ds_init_failures := appendInitFailure (ds_init_failures prev) failure\<rparr>))"

definition ClearInitFailures :: "'s etcd \<Rightarrow> 's \<Rightarrow> string \<Rightarrow> string \<Rightarrow> 's" where
  "ClearInitFailures cl s app replicaID =
     (let prev = status_or_empty (loadDeploymentStatus cl s app)
      in if ds_init_failures prev = [] then s
         else let filtered = filter (\<lambda>f. if_replica_id f \<noteq> replicaID) (ds_init_failures prev)
              in if length filtered = length (ds_init_failures prev) then s
                 else put_or_keep cl s app (prev\<lparr>ds_init_failures := filtered\<rparr>))"

fun insert_by_time :: "string \<times> readiness_status \<Rightarrow> (string \<times> readiness_status) list \<Rightarrow> (string \<times> readiness_status) list" where
  "insert_by_time e [] = [e]"
| "insert_by_time e (f # fs) =
     (if rs_last_transition (snd f) < rs_last_transition (snd e) then f # insert_by_time e fs else e # f # fs)"

text \<open>
  The map of readiness entries, one per container: while it is over its bound the entry with the
  oldest transition goes.
\<close>

definition truncateReplicaReadiness :: "(string \<times> readiness_status) list \<Rightarrow> (string \<times> readiness_status) list" where
  "truncateReplicaReadiness m =
     (if length m \<le> max_replica_readiness then m
      else let entries = foldr insert_by_time m [];
               gone = map fst (take (length m - max_replica_readiness) entries)
           in filter (\<lambda>e. fst e \<notin> set gone) m)"

definition RecordReplicaReadiness :: "'s etcd \<Rightarrow> 's \<Rightarrow> string \<Rightarrow> readiness_status \<Rightarrow> 's" where
  "RecordReplicaReadiness cl s app st =
     (let prev = status_or_empty (loadDeploymentStatus cl s app)
      in put_or_keep cl s app
           (prev\<lparr>ds_readiness := truncateReplicaReadiness (kv_set (rs_container st) st (ds_readiness prev))\<rparr>))"

definition ClearReplicaReadiness :: "'s etcd \<Rightarrow> 's \<Rightarrow> string \<Rightarrow> string \<Rightarrow> 's" where
  "ClearReplicaReadiness cl s app cname =
     (let prev = status_or_empty (loadDeploymentStatus cl s app)
      in if map_of (ds_readiness prev) cname = None then s
         else put_or_keep cl s app (prev\<lparr>ds_readiness := kv_del cname (ds_readiness prev)\<rparr>))"

section \<open>Init containers\<close>

record init_parent =
  pa_image :: string
  pa_hash :: string
  pa_shape :: pod_shape
  pa_env_file :: string
  pa_extra_env_files :: "string list"
  pa_env :: vars
  pa_aliases :: "string list"
  pa_logs :: "logs_spec option"

definition initContainerName :: "string \<Rightarrow> string \<Rightarrow> string \<Rightarrow> string \<Rightarrow> string" where
  "initContainerName scope nm replicaID initName =
     (let base = (if scope \<noteq> [] then scope @ ''-'' @ nm else nm)
      in join ''-'' [base, ''init'', initName, replicaID])"

definition init_container ::
  "('s, 'w) henv \<Rightarrow> 'w \<Rightarrow> string \<Rightarrow> string \<Rightarrow> string \<Rightarrow> string \<Rightarrow> init_spec \<Rightarrow> init_parent \<Rightarrow> string
    \<Rightarrow> string \<times> int \<Rightarrow> container_spec" where
  "init_container env w knd scope nm replicaID ic parent cname limits =
     \<lparr>k_name = cname, k_image = (if in_image ic = [] then pa_image parent else in_image ic),
      k_shape = (pa_shape parent)\<lparr>sh_command := in_command ic,
        sh_ulimits := (case in_ulimits ic of None \<Rightarrow> sh_ulimits (pa_shape parent) | Some u \<Rightarrow> u),
        sh_docker_options :=
          (case in_docker_options ic of None \<Rightarrow> sh_docker_options (pa_shape parent) | Some d \<Rightarrow> d)\<rparr>,
      k_ports = [], k_restart = [],
      k_env_file = pa_env_file parent, k_extra_env_files = pa_extra_env_files parent, k_env = pa_env parent,
      k_labels = BuildLabels \<lparr>id_kind = knd, id_scope = scope, id_name = nm, id_replica = replicaID,
        id_hash = pa_hash parent, id_created = e_now env w, id_release = [], id_ordinal = 0,
        id_role = ''init''\<rparr>,
      k_ip = [], k_auto_remove = False, k_tty = True, k_aliases = pa_aliases parent, k_cpu = fst limits,
      k_memory = snd limits, k_log_size = fst (effectiveLogs (pa_logs parent)),
      k_log_files = snd (effectiveLogs (pa_logs parent))\<rparr>"

lemma init_container_name [simp]: "k_name (init_container env w k scope nm rid ic pa c l) = c"
  by (simp add: init_container_def)

definition runOne ::
  "('s, 'w) henv \<Rightarrow> 'w \<Rightarrow> string \<Rightarrow> string \<Rightarrow> string \<Rightarrow> string \<Rightarrow> init_spec \<Rightarrow> init_parent \<Rightarrow> string
    \<Rightarrow> 'w \<times> int \<times> string option" where
  "runOne env w knd scope nm replicaID ic parent cname =
     (case dockerResources (e_floats env) (in_resources ic) of
        Inl e \<Rightarrow> (w, - 1, Some (''resources: '' @ e))
      | Inr limits \<Rightarrow>
      case cm_recreate (e_cm env) w (init_container env w knd scope nm replicaID ic parent cname limits) of
        (w1, Some e) \<Rightarrow> (w1, - 1, Some (''spawn: '' @ e))
      | (w1, None) \<Rightarrow>
          if e_times_out env w1 cname then (fst (cm_remove (e_cm env) w1 cname), - 1, Some ''timed out'')
          else
            (case cm_wait (e_cm env) w1 cname of
               (w2, code, Some e) \<Rightarrow> (w2, code, Some (''wait: '' @ e))
             | (w2, code, None) \<Rightarrow>
                 if code \<noteq> 0 then (w2, code, Some (''container exited '' @ itoa_int code))
                 else (fst (cm_remove (e_cm env) w2 cname), 0, None)))"

text \<open>The attempts \<open>1 .. attempts\<close>; with none left the last result stands.\<close>

fun run_attempts ::
  "('s, 'w) henv \<Rightarrow> nat \<Rightarrow> 'w \<Rightarrow> string \<Rightarrow> string \<Rightarrow> string \<Rightarrow> string \<Rightarrow> init_spec \<Rightarrow> init_parent \<Rightarrow> string
    \<Rightarrow> int \<Rightarrow> string option \<Rightarrow> 'w \<times> int \<times> string option" where
  "run_attempts env 0 w knd scope nm replicaID ic parent cname lastExit lastErr = (w, lastExit, lastErr)"
| "run_attempts env (Suc k) w knd scope nm replicaID ic parent cname lastExit lastErr =
     (case runOne env w knd scope nm replicaID ic parent cname of
        (w1, code, None) \<Rightarrow> (w1, code, None)
      | (w1, code, Some e) \<Rightarrow> run_attempts env k w1 knd scope nm replicaID ic parent cname code (Some e))"

fun init_chain ::
  "('s, 'w) henv \<Rightarrow> ('s \<Rightarrow> init_failure \<Rightarrow> 's) \<Rightarrow> 's \<times> 'w \<Rightarrow> string \<Rightarrow> string \<Rightarrow> string \<Rightarrow> string
    \<Rightarrow> init_spec list \<Rightarrow> init_parent \<Rightarrow> ('s \<times> 'w) \<times> string option" where
  "init_chain env fail_hook (s, w) knd scope nm replicaID [] parent = ((s, w), None)"
| "init_chain env fail_hook (s, w) knd scope nm replicaID (ic # ics) parent =
     (let attempts = 1 + in_retries ic; cname = initContainerName scope nm replicaID (in_name ic)
      in case run_attempts env (nat attempts) w knd scope nm replicaID ic parent cname 0 None of
           (w1, code, None) \<Rightarrow> init_chain env fail_hook (s, w1) knd scope nm replicaID ics parent
         | (w1, code, Some e) \<Rightarrow>
             ((fail_hook s \<lparr>if_replica_id = replicaID, if_init_name = in_name ic, if_exit_code = code,
                            if_attempts = attempts\<rparr>, w1),
              Some (''init container '' @ in_name ic @ '' failed: '' @ e)))"

definition runInitChain ::
  "('s, 'w) henv \<Rightarrow> ('s \<Rightarrow> init_failure \<Rightarrow> 's) \<Rightarrow> ('s \<Rightarrow> string \<Rightarrow> 's) \<Rightarrow> 's \<times> 'w \<Rightarrow> string \<Rightarrow> string \<Rightarrow> string
    \<Rightarrow> string \<Rightarrow> init_spec list \<Rightarrow> init_parent \<Rightarrow> ('s \<times> 'w) \<times> string option" where
  "runInitChain env fail_hook clear_hook sw knd scope nm replicaID inits parent =
     (if inits = [] then (sw, None)
      else case init_chain env fail_hook sw knd scope nm replicaID inits parent of
             (sw1, Some e) \<Rightarrow> (sw1, Some e)
           | ((s1, w1), None) \<Rightarrow> ((clear_hook s1 replicaID, w1), None))"

section \<open>A concrete host\<close>

text \<open>
  The reference daemon and the reference etcd client behind hooks that do nothing, with the random
  ids drawn from the daemon's supply: the instance the examples run on.
\<close>

definition draw_id :: "dockerd \<Rightarrow> dockerd \<times> string" where
  "draw_id d = (case dd_fresh d of [] \<Rightarrow> (d, ''0000'') | i # is \<Rightarrow> (d\<lparr>dd_fresh := is\<rparr>, i))"

definition demo_env :: "(kv_state, dockerd) henv" where
  "demo_env =
     \<lparr>e_cl = kv_client, e_cm = docker_manager dockerd_cli, e_new_id = draw_id, e_release_id = draw_id,
      e_now = (\<lambda>d. ''2026-01-01T00:00:00Z''), e_app_env_file = (\<lambda>app. ''/opt/voodu/apps/'' @ app @ ''/.env''),
      e_file_exists = (\<lambda>d p. True), e_write_env = (\<lambda>d app ps. (d, Inr False)), e_sha = hi_image,
      e_probe_start = (\<lambda>d a n ps op. d), e_probe_stop = (\<lambda>d a n. d), e_await_ready = (\<lambda>d n. d),
      e_drain = (\<lambda>d r b. (d, None)), e_republish = (\<lambda>sw sc nm. (sw, None)),
      e_publish = (\<lambda>d k sc nm j ss. (d, None)), e_interp_env = (\<lambda>s d sc vs. Inr vs),
      e_interp_spec = (\<lambda>s sp. Inr sp), e_lookup_digests = (\<lambda>s sp. []), e_build_id = (\<lambda>d app. []),
      e_webhook = (\<lambda>d j rel img er. d),
      e_times_out = (\<lambda>d n. False),
      e_floats = \<lparr>fl_parse = (\<lambda>s. Some False), fl_millis = itoa_int, fl_scaled = (\<lambda>s n. n)\<rparr>,
      e_clock = (\<lambda>d. 1000)\<rparr>"

lemma draw_id_view: "dd_view (fst (draw_id d)) = dd_view d"
  by (auto simp: draw_id_def split: list.splits)

interpretation demo: host "docker_manager dockerd_cli" dd_view kv_client kv_view demo_env
proof (unfold_locales, goal_cases)
qed (simp_all add: demo_env_def draw_id_view)

end
