(* ===== verification/History.thy ===== *)
theory History
  imports Replicas
begin

text \<open>
  The release history of a deployment: \<open>appendReleaseRecord\<close>, the two garbage collections it runs
  (release containers and image tags), \<open>pickRollbackTarget\<close>, \<open>retagToTargetBuild\<close> and
  \<open>releaseTimeout\<close> of \<open>internal/controller/release.go\<close>, with \<open>gcRunContainers\<close> of
  \<open>handlers_cronjob.go\<close>, which jobs and cron jobs share.
\<close>

section \<open>Garbage collection\<close>

fun gc_slots :: "('s, 'w) henv \<Rightarrow> 'w \<Rightarrow> string set \<Rightarrow> slot list \<Rightarrow> 'w \<times> string option" where
  "gc_slots env w keep [] = (w, None)"
| "gc_slots env w keep (s # ss) =
     (if sl_running s then gc_slots env w keep ss
      else if id_replica (sl_identity s) \<in> keep then gc_slots env w keep ss
      else case cm_remove (e_cm env) w (sl_name s) of
             (w1, Some e) \<Rightarrow> (w1, Some (''remove '' @ sl_name s @ '': '' @ e))
           | (w1, None) \<Rightarrow> gc_slots env w1 keep ss)"

definition gcRunContainers ::
  "('s, 'w) henv \<Rightarrow> 'w \<Rightarrow> string \<Rightarrow> string \<Rightarrow> string \<Rightarrow> string set \<Rightarrow> 'w \<times> string option" where
  "gcRunContainers env w knd scope nm keep =
     (case cm_list (e_cm env) w knd scope nm of
        Inl e \<Rightarrow> (w, Some (''list '' @ knd @ '' containers: '' @ e))
      | Inr slots \<Rightarrow> gc_slots env w keep slots)"

fun drop_tags :: "('s, 'w) henv \<Rightarrow> 'w \<Rightarrow> string \<Rightarrow> string set \<Rightarrow> release_record list \<Rightarrow> 'w" where
  "drop_tags env w app kept [] = w"
| "drop_tags env w app kept (r # rs) =
     (if rr_build_id r = [] \<or> rr_build_id r \<in> kept then drop_tags env w app kept rs
      else drop_tags env (fst (cm_remove_tag (e_cm env) w (app @ '':'' @ rr_build_id r))) app kept rs)"

definition gcReleaseImageTags ::
  "('s, 'w) henv \<Rightarrow> 'w \<Rightarrow> string \<Rightarrow> release_record list \<Rightarrow> release_record list \<Rightarrow> 'w" where
  "gcReleaseImageTags env w app dropped kept =
     drop_tags env w app ({rr_build_id r |r. r \<in> set kept} - {[]}) dropped"

section \<open>The history\<close>

definition max_release_history :: nat where
  "max_release_history = 10"

definition splitAppID :: "string \<Rightarrow> string \<times> string" where
  "splitAppID app =
     (case index_byte CHR ''-'' app of None \<Rightarrow> ([], app) | Some i \<Rightarrow> (take i app, drop (Suc i) app))"

definition keep_ids :: "release_record list \<Rightarrow> string set" where
  "keep_ids rs = (\<Union>r \<in> set rs. {rr_id r, rr_id r @ ''-pre'', rr_id r @ ''-post''})"

definition appendReleaseRecord ::
  "('s, 'w) henv \<Rightarrow> 's \<times> 'w \<Rightarrow> string \<Rightarrow> release_record \<Rightarrow> ('s \<times> 'w) \<times> string option" where
  "appendReleaseRecord env sw app r =
     (case sw of (s, w) \<Rightarrow>
       (let prev = status_or_empty (loadDeploymentStatus (e_cl env) s app);
            releases = r # ds_releases prev;
            dropped = drop max_release_history releases;
            kept = take max_release_history releases
        in case PutStatus (e_cl env) s ''deployment'' app (DStatus (prev\<lparr>ds_releases := kept\<rparr>)) of
             Inl e \<Rightarrow> (sw, Some e)
           | Inr s1 \<Rightarrow>
               (case splitAppID app of
                  (scope, deployName) \<Rightarrow>
                    let w1 = fst (gcRunContainers env w ''job'' scope (deployName @ ''-release'') (keep_ids kept))
                    in ((s1, gcReleaseImageTags env w1 app dropped kept), None))))"

definition default_release_timeout :: int where
  "default_release_timeout = 600000000000"

definition releaseTimeout :: "string \<Rightarrow> int" where
  "releaseTimeout s =
     (if s = [] then default_release_timeout
      else case ParseDuration s of
             None \<Rightarrow> default_release_timeout
           | Some d \<Rightarrow> if d \<le> 0 then default_release_timeout else d)"

section \<open>Rollback targets\<close>

datatype rollback_error = NotSucceeded string release_status | NoSnapshot string | NotFound string | NoPrior

fun pick_by_id :: "release_record list \<Rightarrow> string \<Rightarrow> rollback_error + release_record" where
  "pick_by_id [] targetID = Inl (NotFound targetID)"
| "pick_by_id (r # rs) targetID =
     (if rr_id r \<noteq> targetID then pick_by_id rs targetID
      else if rr_status r \<noteq> ReleaseSucceeded then Inl (NotSucceeded targetID (rr_status r))
      else if rr_snapshot r = None then Inl (NoSnapshot targetID)
      else Inr r)"

fun pick_previous :: "release_record list \<Rightarrow> nat \<Rightarrow> rollback_error + release_record" where
  "pick_previous [] count = Inl NoPrior"
| "pick_previous (r # rs) count =
     (if rr_status r \<noteq> ReleaseSucceeded then pick_previous rs count
      else if Suc count = 2 \<and> rr_snapshot r \<noteq> None then Inr r
      else pick_previous rs (Suc count))"

definition pickRollbackTarget :: "release_record list \<Rightarrow> string \<Rightarrow> rollback_error + release_record" where
  "pickRollbackTarget history targetID =
     (if targetID \<noteq> [] then pick_by_id history targetID else pick_previous history 0)"

definition retagToTargetBuild ::
  "('s, 'w) henv \<Rightarrow> 'w \<Rightarrow> string \<Rightarrow> release_record \<Rightarrow> 'w \<times> string option" where
  "retagToTargetBuild env w app target =
     (if rr_build_id target = [] then (w, None)
      else let immutableTag = app @ '':'' @ rr_build_id target; latestTag = app @ '':latest''
           in if \<not> cm_image_exists (e_cm env) w immutableTag
              then (w, Some (''rollback: image '' @ immutableTag @ '' not present locally''))
              else case cm_tag_image (e_cm env) w immutableTag latestTag of
                     (w1, Some e) \<Rightarrow> (w1, Some (''retag '' @ immutableTag @ '' -> '' @ latestTag @ '': '' @ e))
                   | (w1, None) \<Rightarrow> (w1, None))"

section \<open>What is kept\<close>

lemma keep_ids_iff: "i \<in> keep_ids rs \<longleftrightarrow> (\<exists>r \<in> set rs. i = rr_id r \<or> i = rr_id r @ ''-pre'' \<or> i = rr_id r @ ''-post'')"
  by (auto simp: keep_ids_def)

context host
begin

lemma gc_slots_view:
  "gc_slots env w keep ss = (w', r) \<Longrightarrow>
    n \<notin> sl_name ` {s \<in> set ss. \<not> sl_running s \<and> id_replica (sl_identity s) \<notin> keep} \<Longrightarrow> view w' n = view w n"
proof (induction ss arbitrary: w)
  case (Cons s ss)
  show ?case
  proof (cases "sl_running s \<or> id_replica (sl_identity s) \<in> keep")
    case True
    then have g: "gc_slots env w keep ss = (w', r)" using Cons.prems by (auto split: if_splits)
    show ?thesis using Cons.IH [OF g] Cons.prems(2) by auto
  next
    case False
    then have n: "n \<noteq> sl_name s" "n \<notin> sl_name ` {s \<in> set ss. \<not> sl_running s \<and> id_replica (sl_identity s) \<notin> keep}"
      using Cons.prems(2) by auto
    obtain w1 q where rm: "cm_remove cm w (sl_name s) = (w1, q)" by (cases "cm_remove cm w (sl_name s)")
    have f: "view w1 n = view w n" using remove_frame [OF rm n(1)] .
    show ?thesis
    proof (cases q)
      case None
      then have g: "gc_slots env w1 keep ss = (w', r)"
        using Cons.prems False rm by (simp add: env_cm)
      show ?thesis using Cons.IH [OF g n(2)] f by simp
    next
      case (Some e)
      then have "w' = w1" using Cons.prems False rm by (simp add: env_cm)
      with f False show ?thesis by auto
    qed
  qed
qed simp

lemma gc_slots_absent: "gc_slots env w keep ss = (w', None) \<Longrightarrow> view w n = None \<Longrightarrow> view w' n = None"
proof (induction ss arbitrary: w)
  case (Cons t ss)
  show ?case
  proof (cases "sl_running t \<or> id_replica (sl_identity t) \<in> keep")
    case True
    then show ?thesis using Cons by (auto split: if_splits)
  next
    case False
    then obtain w1 where rm: "cm_remove cm w (sl_name t) = (w1, None)" and g: "gc_slots env w1 keep ss = (w', None)"
      using Cons.prems(1) by (auto simp: env_cm split: prod.splits option.splits)
    have "view w1 n = None" using remove_ok [OF rm] Cons.prems(2) by simp
    with g show ?thesis by (rule Cons.IH)
  qed
qed simp

lemma gc_slots_removed:
  "gc_slots env w keep ss = (w', None) \<Longrightarrow> s \<in> set ss \<Longrightarrow> \<not> sl_running s \<Longrightarrow> id_replica (sl_identity s) \<notin> keep \<Longrightarrow>
    view w' (sl_name s) = None"
proof (induction ss arbitrary: w)
  case (Cons t ss)
  show ?case
  proof (cases "sl_running t \<or> id_replica (sl_identity t) \<in> keep")
    case True
    then have g: "gc_slots env w keep ss = (w', None)" "s \<in> set ss" using Cons.prems by (auto split: if_splits)
    show ?thesis using Cons.IH [OF g] Cons.prems(3,4) by blast
  next
    case False
    then obtain w1 where rm: "cm_remove cm w (sl_name t) = (w1, None)" and g: "gc_slots env w1 keep ss = (w', None)"
      using Cons.prems(1) by (auto simp: env_cm split: prod.splits option.splits)
    show ?thesis
    proof (cases "s \<in> set ss")
      case True
      show ?thesis using Cons.IH [OF g True] Cons.prems(3,4) by blast
    next
      case False
      then have "view w1 (sl_name s) = None" using Cons.prems(2) remove_ok [OF rm] by simp
      with g show ?thesis by (rule gc_slots_absent)
    qed
  qed
qed simp

lemma gcRunContainers_keeps:
  assumes "gcRunContainers env w knd scope nm keep = (w', r)" and "knd \<noteq> []" and "nm \<noteq> []"
    and "view w n = Some c" and "ct_running c \<or> (\<forall>i. ctr_identity c = Some i \<longrightarrow> \<not> Matches i knd scope nm \<or> id_replica i \<in> keep)"
  shows "view w' n = Some c"
proof (cases "cm_list cm w knd scope nm")
  case (Inl e)
  then show ?thesis using assms(1,4) by (simp add: gcRunContainers_def env_cm)
next
  case (Inr ss)
  then have g: "gc_slots env w keep ss = (w', r)" using assms(1) by (simp add: gcRunContainers_def env_cm)
  have "n \<notin> sl_name ` {s \<in> set ss. \<not> sl_running s \<and> id_replica (sl_identity s) \<notin> keep}"
  proof
    assume "n \<in> sl_name ` {s \<in> set ss. \<not> sl_running s \<and> id_replica (sl_identity s) \<notin> keep}"
    then obtain s where s: "s \<in> set ss" "\<not> sl_running s" "id_replica (sl_identity s) \<notin> keep" "n = sl_name s" by blast
    then have "is_slot (view w) knd scope nm s" using list_slots [OF Inr assms(2,3)] by blast
    with s assms(4,5) show False by (auto simp: is_slot_def)
  qed
  then show ?thesis using gc_slots_view [OF g] assms(4) by simp
qed

lemma gcRunContainers_removes:
  assumes "gcRunContainers env w knd scope nm keep = (w', None)" and "knd \<noteq> []" and "nm \<noteq> []"
    and "view w n = Some c" and "\<not> ct_running c" and "ctr_identity c = Some i" and "Matches i knd scope nm"
    and "id_replica i \<notin> keep"
  shows "view w' n = None"
proof -
  obtain ss where l: "cm_list cm w knd scope nm = Inr ss" and g: "gc_slots env w keep ss = (w', None)"
    using assms(1) by (auto simp: gcRunContainers_def env_cm split: sum.splits)
  define s where "s = \<lparr>sl_name = n, sl_identity = i, sl_image = k_image (ct_spec c), sl_running = False\<rparr>"
  have "is_slot (view w) knd scope nm s" using assms by (simp add: is_slot_def s_def)
  then have "s \<in> set ss" using list_slots [OF l assms(2,3)] by blast
  from gc_slots_removed [OF g this] assms(8) show ?thesis by (simp add: s_def)
qed

lemma drop_tags_view: "view (drop_tags env w app kept rs) = view w"
  by (induction rs arbitrary: w) (auto simp: env_cm)

lemma appendReleaseRecord_status:
  assumes "loadDeploymentStatus cl s app = Inr prev"
    and "appendReleaseRecord env (s, w) app r = ((s', w'), None)"
  shows "kview s' = (kview s)(StatusKey ''deployment'' app \<mapsto>
    DStatus (prev\<lparr>ds_releases := take max_release_history (r # ds_releases prev)\<rparr>))"
proof -
  have "PutStatus cl s ''deployment'' app
      (DStatus (prev\<lparr>ds_releases := take max_release_history (r # ds_releases prev)\<rparr>)) = Inr s'"
    using assms by (auto simp: appendReleaseRecord_def env_cl status_or_empty_def Let_def
        split: sum.splits prod.splits)
  then show ?thesis by (auto simp: PutStatus_def split: sum.splits dest: put_law)
qed

lemma appendReleaseRecord_containers:
  assumes "appendReleaseRecord env (s, w) app r = ((s', w'), er)" and "view w n = Some c"
    and "ct_running c \<or> (\<forall>i. ctr_identity c = Some i \<longrightarrow> id_kind i \<noteq> ''job'')"
  shows "view w' n = Some c"
proof -
  obtain scope dn where sp: "splitAppID app = (scope, dn)" by (cases "splitAppID app")
  have g: "view (fst (gcRunContainers env w ''job'' scope (dn @ ''-release'') keep)) n = Some c" for keep
    using assms(2,3)
    by (intro gcRunContainers_keeps [OF prod.collapse [symmetric]]) (auto simp: Matches_def)
  show ?thesis
    using assms(1,2) g by (auto simp: appendReleaseRecord_def sp gcReleaseImageTags_def drop_tags_view Let_def
        split: sum.splits)
qed

end

section \<open>Properties\<close>


definition release_one :: release_record where
  "release_one = \<lparr>rr_id = ''r1'', rr_rolled_back_from = [], rr_spec_hash = ''h1'', rr_image = ''web:1'',
     rr_build_id = ''b1'', rr_status = ReleaseSucceeded, rr_pre_exit = 0, rr_exit = 0, rr_post_exit = 0,
     rr_error = [], rr_snapshot = Some JNull\<rparr>"

definition one_release :: kv_state where
  "one_release = ([(''/status/deployments/prod-web'',
     DStatus (empty_status\<lparr>ds_spec_hash := ''h1'', ds_replicas := 2, ds_releases := [release_one]\<rparr>))], False)"

definition quiet_docker :: dockerd where
  "quiet_docker = \<lparr>dd_ctrs = [], dd_broken = [], dd_codes = [], dd_fresh = [], dd_tags = [], dd_volumes = [],
     dd_down = False\<rparr>"

lemma one_release_loaded:
  "loadDeploymentStatus kv_client one_release ''prod-web'' =
    Inr (empty_status\<lparr>ds_spec_hash := ''h1'', ds_replicas := 2, ds_releases := [release_one]\<rparr>)"
  by (simp add: loadDeploymentStatus_def GetStatus_def kv_client_def kv_ret_def one_release_def StatusKey_def)


text \<open>
  A status write that follows a failed status read starts from an empty status: it drops the
  whole release history (and the init failures and readiness entries) of the deployment.
\<close>

theorem status_read_error_drops_history:
  assumes "etcd_api cl view" and "etcd_get cl s (StatusKey ''deployment'' app) = Inl e"
    and "writeDeploymentStatus cl s app img hash n = Inr s'"
  shows "\<exists>st. view s' (StatusKey ''deployment'' app) = Some (DStatus st) \<and> ds_releases st = [] \<and>
    ds_init_failures st = [] \<and> ds_readiness st = []"
proof -
  have "loadDeploymentStatus cl s app = Inl (''etcd get status: '' @ e)"
    using assms(2) by (simp add: loadDeploymentStatus_def GetStatus_def)
  then have "PutStatus cl s ''deployment'' app
      (DStatus (empty_status\<lparr>ds_image := img, ds_spec_hash := hash, ds_replicas := n\<rparr>)) = Inr s'"
    using assms(3) by (simp add: writeDeploymentStatus_def status_or_empty_def)
  then have "view s' (StatusKey ''deployment'' app) =
      Some (DStatus (empty_status\<lparr>ds_image := img, ds_spec_hash := hash, ds_replicas := n\<rparr>))"
    using etcd_api.put_law [OF assms(1)] by (auto simp: PutStatus_def split: sum.splits)
  then show ?thesis by (simp add: empty_status_def)
qed

text \<open>A client whose reads time out while its writes go through.\<close>

definition flaky_client :: "kv_state etcd" where
  "flaky_client = kv_client\<lparr>etcd_get := (\<lambda>s k. Inl ''etcdserver: request timed out'')\<rparr>"

interpretation flaky: etcd_api flaky_client kv_view
  by unfold_locales
    (auto simp: flaky_client_def dest: kv.list_sound kv.list_complete kv.list_distinct kv.put_law
      kv.delete_law kv.delete_prefix_law kv.txn_law)

theorem status_read_error_drops_history_witness:
  "\<exists>s'. writeDeploymentStatus flaky_client one_release ''prod-web'' ''web:2'' ''h2'' 2 = Inr s' \<and>
    (\<exists>st. kv_view s' (StatusKey ''deployment'' ''prod-web'') = Some (DStatus st) \<and> ds_releases st = [])"
proof -
  have g: "etcd_get flaky_client one_release (StatusKey ''deployment'' ''prod-web'') = Inl ''etcdserver: request timed out''"
    by (simp add: flaky_client_def)
  obtain s' where w: "writeDeploymentStatus flaky_client one_release ''prod-web'' ''web:2'' ''h2'' 2 = Inr s'"
    by (simp add: writeDeploymentStatus_def PutStatus_def flaky_client_def kv_client_def kv_ret_def one_release_def
        Let_def)
  from status_read_error_drops_history [OF flaky.etcd_api_axioms g w] w show ?thesis by blast
qed

text \<open>
  Without an id, a rollback takes the second newest succeeded release or none: when that one has
  no spec snapshot, an older succeeded release that has one is never taken.
\<close>

theorem rollback_never_older:
  assumes "filter (\<lambda>r. rr_status r = ReleaseSucceeded) history = a # b # rest"
  shows "pickRollbackTarget history [] = (if rr_snapshot b \<noteq> None then Inr b else Inl NoPrior)"
proof -
  have late: "pick_previous rs n = Inl NoPrior" if "2 \<le> n" for rs n
    using that by (induction rs n rule: pick_previous.induct) auto
  have one: "pick_previous rs 1 = (if rr_snapshot b \<noteq> None then Inr b else Inl NoPrior)"
    if "filter (\<lambda>r. rr_status r = ReleaseSucceeded) rs = b # rest" for rs
    using that by (induction rs) (auto simp: late split: if_splits)
  have "pick_previous history 0 = (if rr_snapshot b \<noteq> None then Inr b else Inl NoPrior)"
    using assms by (induction history) (auto simp: one [unfolded One_nat_def] split: if_splits)
  then show ?thesis by (simp add: pickRollbackTarget_def)
qed

theorem rollback_never_older_witness:
  "pickRollbackTarget [release_one\<lparr>rr_id := ''r3''\<rparr>, release_one\<lparr>rr_id := ''r2'', rr_snapshot := None\<rparr>, release_one] [] = Inl NoPrior"
  by (subst rollback_never_older [of _ "release_one\<lparr>rr_id := ''r3''\<rparr>"
        "release_one\<lparr>rr_id := ''r2'', rr_snapshot := None\<rparr>" "[release_one]"])
    (simp_all add: release_one_def)

text \<open>
  A rollback to a named release is to a succeeded release of that id with a spec snapshot, the
  newest record of that id in the history.
\<close>

theorem rollback_by_id_sound:
  assumes "pickRollbackTarget history i = Inr r" and "i \<noteq> []"
  shows "rr_id r = i \<and> rr_status r = ReleaseSucceeded \<and> rr_snapshot r \<noteq> None \<and>
    (\<exists>newer older. history = newer @ r # older \<and> i \<notin> rr_id ` set newer)"
proof -
  have "pick_by_id history i = Inr r" using assms by (simp add: pickRollbackTarget_def)
  then show ?thesis
  proof (induction history)
    case (Cons x xs)
    show ?case
    proof (cases "rr_id x = i")
      case True
      then have "r = x" "rr_status x = ReleaseSucceeded" "rr_snapshot x \<noteq> None"
        using Cons.prems by (auto split: if_splits)
      then show ?thesis using True by (auto intro: exI [of _ "[]"])
    next
      case False
      then have "pick_by_id xs i = Inr r" using Cons.prems by simp
      from Cons.IH [OF this] obtain newer older where "xs = newer @ r # older" "i \<notin> rr_id ` set newer"
        "rr_id r = i" "rr_status r = ReleaseSucceeded" "rr_snapshot r \<noteq> None" by blast
      then show ?thesis using \<open>xs = newer @ r # older\<close> \<open>i \<notin> rr_id ` set newer\<close> \<open>rr_id r = i\<close>
          \<open>rr_status r = ReleaseSucceeded\<close> \<open>rr_snapshot r \<noteq> None\<close> False
        by (intro conjI exI [of _ "x # newer"] exI [of _ older]) auto
    qed
  qed simp
qed

theorem rollback_by_id_sound_witness:
  "rr_status release_one = ReleaseSucceeded \<and> rr_id release_one = ''r1''"
proof -
  have "pickRollbackTarget [release_one\<lparr>rr_id := ''r2''\<rparr>, release_one] ''r1'' = Inr release_one"
    by (simp add: pickRollbackTarget_def release_one_def)
  from rollback_by_id_sound [OF this] show ?thesis by simp
qed

end
