(* ===== verification/Deployment.thy ===== *)
theory Deployment
  imports History
begin

text \<open>
  \<open>DeploymentHandler\<close> of \<open>internal/controller/handlers.go\<close>: replica creation and removal, drift
  detection, the rolling replacement, \<open>apply\<close>, \<open>remove\<close> and \<open>Restart\<close>. The state is a pair: etcd and
  the host. A replica is a container whose labels carry the deployment's identity.
\<close>

section \<open>Small pieces\<close>

definition filterSlots :: "slot list \<Rightarrow> (slot \<Rightarrow> bool) \<Rightarrow> slot list" where
  "filterSlots ss keep = filter keep ss"

definition setOf :: "string list \<Rightarrow> string set" where
  "setOf ns = set ns"

definition buildFrozenSet :: "string list \<Rightarrow> string set" where
  "buildFrozenSet ids = set ids - {[]}"

definition deployment_labels ::
  "('s, 'w) henv \<Rightarrow> 'w \<Rightarrow> string \<Rightarrow> string \<Rightarrow> string \<Rightarrow> string \<Rightarrow> string \<Rightarrow> string list" where
  "deployment_labels env w scope nm replicaID hash releaseID =
     BuildLabels \<lparr>id_kind = ''deployment'', id_scope = scope, id_name = nm, id_replica = replicaID,
       id_hash = hash, id_created = e_now env w, id_release = releaseID, id_ordinal = 0, id_role = []\<rparr>"

definition deployment_container ::
  "('s, 'w) henv \<Rightarrow> 'w \<Rightarrow> string \<Rightarrow> string \<Rightarrow> string \<Rightarrow> deployment_spec \<Rightarrow> string \<Rightarrow> string
    \<Rightarrow> string list \<Rightarrow> string \<times> int \<Rightarrow> string \<Rightarrow> container_spec" where
  "deployment_container env w scope nm app spec hash releaseID extraEnv limits replicaID =
     \<lparr>k_name = ContainerName scope nm replicaID, k_image = sp_image spec, k_shape = sp_shape spec,
      k_ports = sp_ports spec, k_restart = sp_restart spec, k_env_file = e_app_env_file env app,
      k_extra_env_files = extraEnv, k_env = MergePodEnv (BuildDeploymentPodEnv scope nm) (sp_env spec),
      k_labels = deployment_labels env w scope nm replicaID hash releaseID, k_ip = [], k_auto_remove = False,
      k_tty = False, k_aliases = BuildNetworkAliases scope nm, k_cpu = fst limits, k_memory = snd limits,
      k_log_size = fst (effectiveLogs (sp_logs spec)), k_log_files = snd (effectiveLogs (sp_logs spec))\<rparr>"

definition deployment_parent ::
  "('s, 'w) henv \<Rightarrow> string \<Rightarrow> string \<Rightarrow> string \<Rightarrow> deployment_spec \<Rightarrow> string \<Rightarrow> string list \<Rightarrow> init_parent" where
  "deployment_parent env scope nm app spec hash extraEnv =
     \<lparr>pa_image = sp_image spec, pa_hash = hash, pa_shape = sp_shape spec, pa_env_file = e_app_env_file env app,
      pa_extra_env_files = extraEnv, pa_env = MergePodEnv (BuildDeploymentPodEnv scope nm) (sp_env spec),
      pa_aliases = BuildNetworkAliases scope nm, pa_logs = sp_logs spec\<rparr>"

text \<open>The init chain of a replica: nothing to run when the spec has none.\<close>

definition deployment_inits ::
  "('s, 'w) henv \<Rightarrow> 's \<times> 'w \<Rightarrow> string \<Rightarrow> string \<Rightarrow> string \<Rightarrow> deployment_spec \<Rightarrow> string \<Rightarrow> string list \<Rightarrow> string
    \<Rightarrow> ('s \<times> 'w) \<times> string option" where
  "deployment_inits env sw scope nm app spec hash extraEnv replicaID =
     (if sp_inits spec = [] then (sw, None)
      else runInitChain env (\<lambda>s f. RecordInitFailure (e_cl env) s app f) (\<lambda>s r. ClearInitFailures (e_cl env) s app r)
             sw ''deployment'' scope nm replicaID (sp_inits spec)
             (deployment_parent env scope nm app spec hash extraEnv))"

section \<open>Scaling up\<close>

text \<open>
  The loop of \<open>ensureReplicaCount\<close>: one replica per missing one. What was created before a failure is
  returned with it.
\<close>

fun create_replicas ::
  "('s, 'w) henv \<Rightarrow> nat \<Rightarrow> 's \<times> 'w \<Rightarrow> string \<Rightarrow> string \<Rightarrow> string \<Rightarrow> deployment_spec \<Rightarrow> string \<Rightarrow> string
    \<Rightarrow> string list \<Rightarrow> ('s \<times> 'w) \<times> string list \<times> string option" where
  "create_replicas env 0 sw scope nm app spec hash releaseID extraEnv = (sw, [], None)"
| "create_replicas env (Suc k) (s, w) scope nm app spec hash releaseID extraEnv =
     (case e_new_id env w of
        (w1, replicaID) \<Rightarrow>
          (let cname = ContainerName scope nm replicaID
           in case dockerResources (e_floats env) (sp_resources spec) of
                Inl e \<Rightarrow> ((s, w1), [], Some (''deployment/'' @ nm @ '' replica '' @ cname @ '': '' @ e))
              | Inr limits \<Rightarrow>
              case deployment_inits env (s, w1) scope nm app spec hash extraEnv replicaID of
                (sw2, Some e) \<Rightarrow> (sw2, [], Some (''deployment/'' @ nm @ '' init flow for replica '' @ cname @ '': '' @ e))
              | ((s2, w2), None) \<Rightarrow>
                  (case cm_ensure (e_cm env) w2
                          (deployment_container env w1 scope nm app spec hash releaseID extraEnv limits replicaID) of
                     (w3, Inl e) \<Rightarrow> ((s2, w3), [], Some (''ensure '' @ cname @ '': '' @ e))
                   | (w3, Inr _) \<Rightarrow>
                       (case create_replicas env k (s2, e_probe_start env w3 app cname (sp_probes spec) (sp_on_probe spec))
                               scope nm app spec hash releaseID extraEnv of
                          (sw4, created, er) \<Rightarrow> (sw4, cname # created, er)))))"

definition ensureReplicaCount ::
  "('s, 'w) henv \<Rightarrow> 's \<times> 'w \<Rightarrow> string \<Rightarrow> string \<Rightarrow> string \<Rightarrow> slot list \<Rightarrow> int \<Rightarrow> deployment_spec \<Rightarrow> string \<Rightarrow> string
    \<Rightarrow> ('s \<times> 'w) \<times> string list \<times> string option" where
  "ensureReplicaCount env sw scope nm app live want spec hash releaseID =
     (if sp_image spec = [] then (sw, [], None)
      else if int (length live) \<ge> want then (sw, [], None)
      else case resolveEnvFromList env (snd sw) (sp_env_from spec) scope of
             Inl e \<Rightarrow> (sw, [], Some (''resolve env_from: '' @ e))
           | Inr extraEnv \<Rightarrow>
               create_replicas env (nat (want - int (length live))) sw scope nm app spec hash releaseID extraEnv)"

section \<open>Scaling down\<close>

fun remove_all :: "('s, 'w) henv \<Rightarrow> 'w \<Rightarrow> string \<Rightarrow> string list \<Rightarrow> 'w \<times> string option" where
  "remove_all env w what [] = (w, None)"
| "remove_all env w what (n # ns) =
     (case cm_remove (e_cm env) w n of
        (w1, Some e) \<Rightarrow> (w1, Some (what @ n @ '': '' @ e))
      | (w1, None) \<Rightarrow> remove_all env w1 what ns)"

definition pruneLegacyContainers :: "('s, 'w) henv \<Rightarrow> 'w \<Rightarrow> string \<Rightarrow> 'w \<times> string option" where
  "pruneLegacyContainers env w app =
     (case cm_list_legacy (e_cm env) w app of
        Inl e \<Rightarrow> (w, Some e)
      | Inr legacy \<Rightarrow> remove_all env w ''remove legacy '' legacy)"

fun insert_slot :: "slot \<Rightarrow> slot list \<Rightarrow> slot list" where
  "insert_slot x [] = [x]"
| "insert_slot x (y # ys) = (if le_str (sl_name x) (sl_name y) then x # y # ys else y # insert_slot x ys)"

definition sort_slots :: "slot list \<Rightarrow> slot list" where
  "sort_slots ss = foldr insert_slot ss []"

text \<open>The names that stay: the ones just created, then candidates in order until \<open>want\<close> are kept.\<close>

fun fill_keep :: "slot list \<Rightarrow> int \<Rightarrow> string list \<Rightarrow> string list" where
  "fill_keep [] want keep = keep"
| "fill_keep (s # ss) want keep =
     (if int (length keep) \<ge> want then keep
      else if sl_name s \<in> set keep then fill_keep ss want keep
      else fill_keep ss want (sl_name s # keep))"

fun remove_slots :: "('s, 'w) henv \<Rightarrow> 'w \<Rightarrow> string \<Rightarrow> string list \<Rightarrow> 'w \<times> string option" where
  "remove_slots env w app [] = (w, None)"
| "remove_slots env w app (n # ns) =
     (case cm_remove (e_cm env) (e_probe_stop env w app n) n of
        (w1, Some e) \<Rightarrow> (w1, Some (''remove '' @ n @ '': '' @ e))
      | (w1, None) \<Rightarrow> remove_slots env w1 app ns)"

definition pruneExtraReplicas ::
  "('s, 'w) henv \<Rightarrow> 'w \<Rightarrow> string \<Rightarrow> slot list \<Rightarrow> int \<Rightarrow> string list \<Rightarrow> 'w \<times> string option" where
  "pruneExtraReplicas env w app live want created =
     (if int (length live) \<le> want then (w, None)
      else let candidates = sort_slots live; keep = fill_keep candidates want (remdups created)
           in remove_slots env w app (filter (\<lambda>n. n \<notin> set keep) (map sl_name candidates)))"

section \<open>Rolling replacement\<close>

definition parseDrainDuration :: "drain_spec option \<Rightarrow> (drain_spec \<Rightarrow> string) \<Rightarrow> int" where
  "parseDrainDuration spec pick =
     (case spec of
        None \<Rightarrow> 0
      | Some d \<Rightarrow> if pick d = [] then 0
                  else (case ParseDuration (pick d) of None \<Rightarrow> 0 | Some v \<Rightarrow> v))"

definition graceOf :: "drain_spec option \<Rightarrow> int" where
  "graceOf spec = parseDrainDuration spec dr_grace"

definition drainBudgetOf :: "drain_spec option \<Rightarrow> int" where
  "drainBudgetOf spec = parseDrainDuration spec dr_timeout"

definition drainReplica :: "('s, 'w) henv \<Rightarrow> 'w \<Rightarrow> deployment_spec \<Rightarrow> string \<Rightarrow> 'w \<times> string option" where
  "drainReplica env w spec replicaID =
     (if sp_plugin_blocks spec = [] then (w, None) else e_drain env w replicaID (drainBudgetOf (sp_drain spec)))"

definition retireOld ::
  "('s, 'w) henv \<Rightarrow> 'w \<Rightarrow> string \<Rightarrow> deployment_spec \<Rightarrow> slot \<Rightarrow> 'w \<times> herror option" where
  "retireOld env w app spec s =
     (case drainReplica env (e_probe_stop env w app (sl_name s)) spec (id_replica (sl_identity s)) of
        (w1, Some e) \<Rightarrow> (w1, Some (Plain e))
      | (w1, None) \<Rightarrow>
          (case cm_remove_grace (e_cm env) w1 (sl_name s) (graceOf (sp_drain spec)) of
             (w2, Some e) \<Rightarrow> (w2, Some (Plain (''remove '' @ sl_name s @ '' during rolling restart: '' @ e)))
           | (w2, None) \<Rightarrow> (w2, None)))"

definition awaitReplicaReady :: "('s, 'w) henv \<Rightarrow> 'w \<Rightarrow> string \<Rightarrow> probes_spec option \<Rightarrow> 'w" where
  "awaitReplicaReady env w n probes = (if reportsReadiness probes then e_await_ready env w n else w)"

definition republishIngresses ::
  "('s, 'w) henv \<Rightarrow> 's \<times> 'w \<Rightarrow> string \<Rightarrow> string \<Rightarrow> ('s \<times> 'w) \<times> herror option" where
  "republishIngresses env sw scope nm =
     (case cm_list (e_cm env) (snd sw) ''deployment'' scope nm of
        Inl e \<Rightarrow> (sw, Some (Transient (''list replicas for ingress republish: '' @ e)))
      | Inr live \<Rightarrow> if list_ex sl_running live then e_republish env sw scope nm else (sw, None))"

text \<open>One iteration: retire first without surge, spawn the replacement, retire last with surge.\<close>

definition replace_replica ::
  "('s, 'w) henv \<Rightarrow> 's \<times> 'w \<Rightarrow> string \<Rightarrow> string \<Rightarrow> string \<Rightarrow> slot \<Rightarrow> deployment_spec \<Rightarrow> string \<Rightarrow> string
    \<Rightarrow> string list \<Rightarrow> bool \<Rightarrow> ('s \<times> 'w) \<times> herror option" where
  "replace_replica env sw scope nm app s spec hash releaseID extraEnv surge =
     (case sw of (st, w) \<Rightarrow>
      case e_new_id env w of
        (w1, newID) \<Rightarrow>
          (let newName = ContainerName scope nm newID
           in case (if surge then (w1, None) else retireOld env w1 app spec s) of
                (w2, Some e) \<Rightarrow> ((st, w2), Some e)
              | (w2, None) \<Rightarrow>
                  (case dockerResources (e_floats env) (sp_resources spec) of
                     Inl e \<Rightarrow> ((st, w2), Some (Plain (''deployment/'' @ nm @ '' rolling restart '' @ newName @ '': '' @ e)))
                   | Inr limits \<Rightarrow>
                  case deployment_inits env (st, w2) scope nm app spec hash extraEnv newID of
                     (sw3, Some e) \<Rightarrow> (sw3, Some (Plain (''init flow for replacement '' @ newName @ '': '' @ e)))
                   | ((s3, w3), None) \<Rightarrow>
                       (case cm_ensure (e_cm env) w3
                               (deployment_container env w1 scope nm app spec hash releaseID extraEnv limits newID) of
                          (w4, Inl e) \<Rightarrow> ((s3, w4), Some (Plain (''spawn replacement '' @ newName @ '': '' @ e)))
                        | (w4, Inr _) \<Rightarrow>
                            (let w5 = e_probe_start env w4 app newName (sp_probes spec) (sp_on_probe spec)
                             in if \<not> surge then ((s3, w5), None)
                                else (case republishIngresses env
                                              (s3, awaitReplicaReady env w5 newName (sp_probes spec)) scope nm of
                                        ((s7, w7), _) \<Rightarrow>
                                          (case retireOld env w7 app spec s of (w8, er) \<Rightarrow> ((s7, w8), er))))))))"

fun roll ::
  "('s, 'w) henv \<Rightarrow> 's \<times> 'w \<Rightarrow> string \<Rightarrow> string \<Rightarrow> string \<Rightarrow> slot list \<Rightarrow> deployment_spec \<Rightarrow> string \<Rightarrow> string
    \<Rightarrow> string list \<Rightarrow> string set \<Rightarrow> bool \<Rightarrow> ('s \<times> 'w) \<times> herror option" where
  "roll env sw scope nm app [] spec hash releaseID extraEnv frozen surge = (sw, None)"
| "roll env sw scope nm app (s # ss) spec hash releaseID extraEnv frozen surge =
     (if id_replica (sl_identity s) \<in> frozen
      then roll env sw scope nm app ss spec hash releaseID extraEnv frozen surge
      else case replace_replica env sw scope nm app s spec hash releaseID extraEnv surge of
             (sw1, Some e) \<Rightarrow> (sw1, Some e)
           | (sw1, None) \<Rightarrow> roll env sw1 scope nm app ss spec hash releaseID extraEnv frozen surge)"

definition frozen_of :: "'s etcd \<Rightarrow> 's \<Rightarrow> string \<Rightarrow> string \<Rightarrow> string \<Rightarrow> string set" where
  "frozen_of cl s k scope nm =
     buildFrozenSet (case GetFrozenReplicaIDs cl s k scope nm of Inl _ \<Rightarrow> [] | Inr ids \<Rightarrow> ids)"

definition rollingReplaceReplicas ::
  "('s, 'w) henv \<Rightarrow> 's \<times> 'w \<Rightarrow> string \<Rightarrow> string \<Rightarrow> string \<Rightarrow> slot list \<Rightarrow> deployment_spec \<Rightarrow> string \<Rightarrow> string
    \<Rightarrow> ('s \<times> 'w) \<times> herror option" where
  "rollingReplaceReplicas env sw scope nm app live spec hash releaseID =
     (case resolveEnvFromList env (snd sw) (sp_env_from spec) scope of
        Inl e \<Rightarrow> (sw, Some (Plain (''resolve env_from: '' @ e)))
      | Inr extraEnv \<Rightarrow>
          (case roll env sw scope nm app live spec hash releaseID extraEnv
                  (frozen_of (e_cl env) (fst sw) ''deployment'' scope nm) (canSurge spec) of
             (sw1, Some e) \<Rightarrow> (sw1, Some e)
           | (sw1, None) \<Rightarrow> republishIngresses env sw1 scope nm))"

section \<open>Drift\<close>

definition baseline_status :: "('s, 'w) henv \<Rightarrow> 's \<Rightarrow> string \<Rightarrow> deployment_spec \<Rightarrow> string \<Rightarrow> 's" where
  "baseline_status env s app spec hash =
     (case writeDeploymentStatus (e_cl env) s app (sp_image spec) hash (effectiveReplicas spec) of
        Inl _ \<Rightarrow> s | Inr s' \<Rightarrow> s')"

definition recreateReplicasIfSpecChanged ::
  "('s, 'w) henv \<Rightarrow> 's \<times> 'w \<Rightarrow> string \<Rightarrow> string \<Rightarrow> string \<Rightarrow> slot list \<Rightarrow> deployment_spec \<Rightarrow> string \<Rightarrow> string
    \<Rightarrow> ('s \<times> 'w) \<times> (herror + bool)" where
  "recreateReplicasIfSpecChanged env sw scope nm app live spec hash releaseID =
     (case sw of (s, w) \<Rightarrow>
      case GetStatus (e_cl env) s ''deployment'' app of
        Inl e \<Rightarrow> (sw, Inl (Plain (''read deployment status: '' @ e)))
      | Inr (Some (DStatus prev)) \<Rightarrow>
          (case (if ds_spec_hash prev \<noteq> hash then Inr True
                 else if live \<noteq> [] then cm_ids_differ (e_cm env) w (sl_name (hd live)) (sp_image spec)
                 else Inr False) of
             Inl _ \<Rightarrow> (sw, Inr False)
           | Inr False \<Rightarrow> (sw, Inr False)
           | Inr True \<Rightarrow>
               if sp_release spec \<noteq> None then (sw, Inr False)
               else (case rollingReplaceReplicas env sw scope nm app live spec hash releaseID of
                       (sw1, Some e) \<Rightarrow> (sw1, Inl e)
                     | ((s1, w1), None) \<Rightarrow> ((baseline_status env s1 app spec hash, w1), Inr True)))
      | Inr _ \<Rightarrow> ((baseline_status env s app spec hash, w), Inr False))"

section \<open>A concrete deployment\<close>

text \<open>A spec, hosts with replicas of \<open>prod/web\<close>, and what docker lists of them.\<close>

definition web_spec :: deployment_spec where
  "web_spec = \<lparr>sp_image = ''web:2'', sp_replicas = 2, sp_env = [], sp_ports = [], sp_network = [],
     sp_shape = empty_shape, sp_restart = ''always'', sp_release = None, sp_env_from = [], sp_build_args = [],
     sp_autoscale = None, sp_probes = None, sp_inits = [], sp_digests = [], sp_plugin_blocks = [],
     sp_drain = None, sp_on_deploy = None, sp_on_probe = None, sp_resources = None, sp_logs = None,
     sp_health_check = []\<rparr>"

definition web_replica :: "string \<Rightarrow> string \<times> ctr" where
  "web_replica r = (ContainerName ''prod'' ''web'' r,
     \<lparr>ct_spec = \<lparr>k_name = ContainerName ''prod'' ''web'' r, k_image = ''web:1'', k_shape = empty_shape, k_ports = [],
        k_restart = ''always'', k_env_file = [], k_extra_env_files = [], k_env = [],
        k_labels = BuildLabels \<lparr>id_kind = ''deployment'', id_scope = ''prod'', id_name = ''web'', id_replica = r,
          id_hash = ''h1'', id_created = [], id_release = [], id_ordinal = 0, id_role = []\<rparr>,
        k_ip = [], k_auto_remove = False, k_tty = False, k_aliases = [], k_cpu = [], k_memory = 0,
        k_log_size = [], k_log_files = 0\<rparr>, ct_running = True\<rparr>)"

definition web_host :: "string list \<Rightarrow> string list \<Rightarrow> dockerd" where
  "web_host rs fresh = \<lparr>dd_ctrs = map web_replica rs, dd_broken = [], dd_codes = [], dd_fresh = fresh, dd_tags = [],
     dd_volumes = [], dd_down = False\<rparr>"

definition web_listing :: "dockerd \<Rightarrow> slot list" where
  "web_listing d = (case cm_list (docker_manager dockerd_cli) d ''deployment'' ''prod'' ''web'' of
     Inr ss \<Rightarrow> ss | Inl _ \<Rightarrow> [])"

definition web_listed :: "dockerd \<Rightarrow> bool" where
  "web_listed d = (case cm_list (docker_manager dockerd_cli) d ''deployment'' ''prod'' ''web'' of
     Inr ss \<Rightarrow> True | Inl _ \<Rightarrow> False)"

lemma web_listing_ok: "web_listed d \<Longrightarrow>
    cm_list (docker_manager dockerd_cli) d ''deployment'' ''prod'' ''web'' = Inr (web_listing d)"
  by (simp add: web_listed_def web_listing_def split: sum.splits)

end
