(* ===== verification/Apply.thy ===== *)
theory Apply
  imports Deployment
begin

text \<open>
  The reconcile of one deployment: \<open>apply\<close>, \<open>remove\<close> and \<open>Restart\<close> of \<open>internal/controller/handlers.go\<close>,
  with the environment file every path links first (\<open>resolveAppEnv\<close>). The code logs and ignores some
  failures; the model then goes on with the state reached, as the code does.
\<close>

definition resolveAppEnv ::
  "('s, 'w) henv \<Rightarrow> 's \<times> 'w \<Rightarrow> string \<Rightarrow> string \<Rightarrow> string \<Rightarrow> vars \<Rightarrow> 'w \<times> (herror + bool)" where
  "resolveAppEnv env sw scope nm app vs =
     (case sw of (s, w) \<Rightarrow>
       (let ctrlConfig = (case ResolveConfig (e_cl env) s scope nm of Inl _ \<Rightarrow> [] | Inr c \<Rightarrow> c);
            merged = vs @ ctrlConfig
        in case e_interp_env env s w scope merged of
             Inl e \<Rightarrow> (w, Inl (Transient e))
           | Inr resolved \<Rightarrow>
               (case e_write_env env w app (envMapToPairs resolved) of
                  (w1, Inl e) \<Rightarrow> (w1, Inl (Plain (''write env: '' @ e)))
                | (w1, Inr changed) \<Rightarrow> (w1, Inr changed))))"

definition resolveStampedOrLookup :: "vars \<Rightarrow> vars \<Rightarrow> vars" where
  "resolveStampedOrLookup stamped found = (if stamped \<noteq> [] then stamped else found)"

text \<open>The drift signals of one reconcile and whether they make it a release.\<close>

definition image_id_drift :: "('s, 'w) henv \<Rightarrow> 'w \<Rightarrow> slot list \<Rightarrow> string \<Rightarrow> bool" where
  "image_id_drift env w live img =
     (case live of [] \<Rightarrow> False
      | s # _ \<Rightarrow> img \<noteq> [] \<and> cm_ids_differ (e_cm env) w (sl_name s) img = Inr True)"

definition mints_release ::
  "('s, 'w) henv \<Rightarrow> 'w \<Rightarrow> deployment_status \<Rightarrow> deployment_spec \<Rightarrow> string \<Rightarrow> int \<Rightarrow> slot list \<Rightarrow> bool" where
  "mints_release env w prev spec hash replicas live =
     (let specDrifted = (ds_spec_hash prev \<noteq> [] \<and> ds_spec_hash prev \<noteq> hash);
          firstApply = (ds_spec_hash prev = []);
          countChanged = (ds_spec_hash prev \<noteq> [] \<and> ds_replicas prev \<noteq> 0 \<and> ds_replicas prev \<noteq> replicas);
          idDrift = (\<not> firstApply \<and> \<not> specDrifted \<and> image_id_drift env w live (sp_image spec))
      in sp_release spec = None \<and> (firstApply \<or> specDrifted \<or> countChanged \<or> idDrift))"

text \<open>The replica count is brought to the wanted one; new replicas baseline the status.\<close>

definition apply_scale ::
  "('s, 'w) henv \<Rightarrow> 's \<times> 'w \<Rightarrow> string \<Rightarrow> string \<Rightarrow> string \<Rightarrow> slot list \<Rightarrow> int \<Rightarrow> deployment_spec \<Rightarrow> string \<Rightarrow> string
    \<Rightarrow> ('s \<times> 'w) \<times> (herror + string list)" where
  "apply_scale env sw scope nm app live replicas spec hash releaseID =
     (case ensureReplicaCount env sw scope nm app live replicas spec hash releaseID of
        (sw1, created, Some e) \<Rightarrow> (sw1, Inl (Plain e))
      | ((s1, w1), created, None) \<Rightarrow>
          (let w2 = fst (pruneExtraReplicas env w1 app live replicas created);
               s2 = (if created = [] then s1
                     else case writeDeploymentStatus (e_cl env) s1 app (sp_image spec) hash replicas of
                            Inl _ \<Rightarrow> s1 | Inr s' \<Rightarrow> s')
           in ((s2, w2), Inr created)))"

definition not_created :: "string list \<Rightarrow> slot \<Rightarrow> bool" where
  "not_created created s = (sl_name s \<notin> setOf created)"

text \<open>Drift first, then an environment that moved: whoever was just created is left alone.\<close>

definition apply_drift ::
  "('s, 'w) henv \<Rightarrow> 's \<times> 'w \<Rightarrow> string \<Rightarrow> string \<Rightarrow> string \<Rightarrow> string list \<Rightarrow> deployment_spec \<Rightarrow> string \<Rightarrow> string
    \<Rightarrow> ('s \<times> 'w) \<times> (herror + bool)" where
  "apply_drift env sw scope nm app created spec hash releaseID =
     (if sp_image spec = [] then (sw, Inr False)
      else case cm_list (e_cm env) (snd sw) ''deployment'' scope nm of
             Inl e \<Rightarrow> (sw, Inl (Plain (''list deployment '' @ app @ '' replicas (post-scale): '' @ e)))
           | Inr current \<Rightarrow>
               recreateReplicasIfSpecChanged env sw scope nm app (filterSlots current (not_created created))
                 spec hash releaseID)"

definition apply_env_roll ::
  "('s, 'w) henv \<Rightarrow> 's \<times> 'w \<Rightarrow> string \<Rightarrow> string \<Rightarrow> string \<Rightarrow> string list \<Rightarrow> deployment_spec \<Rightarrow> string
    \<Rightarrow> 's \<times> 'w" where
  "apply_env_roll env sw scope nm app created spec hash =
     (case cm_list (e_cm env) (snd sw) ''deployment'' scope nm of
        Inl _ \<Rightarrow> sw
      | Inr current \<Rightarrow>
          (let toCycle = filterSlots current (not_created created)
           in if toCycle = [] then sw
              else fst (rollingReplaceReplicas env sw scope nm app toCycle spec hash [])))"

definition apply_record ::
  "('s, 'w) henv \<Rightarrow> 's \<times> 'w \<Rightarrow> string \<Rightarrow> deployment_spec \<Rightarrow> string \<Rightarrow> int \<Rightarrow> string \<Rightarrow> bool \<Rightarrow> json \<Rightarrow> 's \<times> 'w" where
  "apply_record env sw app spec hash replicas releaseID churned raw =
     (if releaseID = [] then sw
      else let s1 = (if churned then fst sw
                     else case writeDeploymentStatus (e_cl env) (fst sw) app (sp_image spec) hash replicas of
                            Inl _ \<Rightarrow> fst sw | Inr s' \<Rightarrow> s');
               record = \<lparr>rr_id = releaseID, rr_rolled_back_from = [], rr_spec_hash = hash,
                 rr_image = sp_image spec, rr_build_id = e_build_id env (snd sw) app,
                 rr_status = ReleaseSucceeded, rr_pre_exit = 0, rr_exit = 0, rr_post_exit = 0, rr_error = [],
                 rr_snapshot = Some raw\<rparr>
           in fst (appendReleaseRecord env (s1, snd sw) app record))"

definition publishEndpoints ::
  "('s, 'w) henv \<Rightarrow> 'w \<Rightarrow> string \<Rightarrow> string \<Rightarrow> string \<Rightarrow> json \<Rightarrow> 'w \<times> herror option" where
  "publishEndpoints env w knd scope nm raw =
     (case cm_list (e_cm env) w knd scope nm of
        Inl e \<Rightarrow> (w, Some (Transient (''list replicas for endpoint publish: '' @ e)))
      | Inr live \<Rightarrow> e_publish env w knd scope nm raw live)"

definition apply_publish ::
  "('s, 'w) henv \<Rightarrow> 's \<times> 'w \<Rightarrow> string \<Rightarrow> string \<Rightarrow> json \<Rightarrow> ('s \<times> 'w) \<times> herror option" where
  "apply_publish env sw scope nm raw =
     (case sw of (s, w) \<Rightarrow>
      case publishEndpoints env w ''deployment'' scope nm raw of
        (w1, Some e) \<Rightarrow> ((s, w1), Some e)
      | (w1, None) \<Rightarrow> republishIngresses env (s, w1) scope nm)"

text \<open>
  From the decoded spec to the end of \<open>apply\<close>: the error, whether containers moved, and the release
  minted, the three things the deploy webhook reports.
\<close>

definition apply_spec ::
  "('s, 'w) henv \<Rightarrow> 's \<times> 'w \<Rightarrow> string \<Rightarrow> string \<Rightarrow> string \<Rightarrow> deployment_spec \<Rightarrow> bool \<Rightarrow> json
    \<Rightarrow> ('s \<times> 'w) \<times> herror option \<times> bool \<times> string" where
  "apply_spec env sw scope nm app spec0 envChanged raw =
     (let replicas = effectiveReplicas spec0;
          w1 = (if sp_image spec0 = [] then snd sw else fst (pruneLegacyContainers env (snd sw) app))
      in case cm_list (e_cm env) w1 ''deployment'' scope nm of
           Inl e \<Rightarrow> ((fst sw, w1), Some (Plain (''list deployment '' @ app @ '' replicas: '' @ e)), False, [])
         | Inr live \<Rightarrow>
             (let hash = deploymentSpecHash (e_sha env) spec0
                    (resolveStampedOrLookup (sp_digests spec0) (e_lookup_digests env (fst sw) spec0))
              in case e_interp_spec env (fst sw) spec0 of
                   Inl e \<Rightarrow> ((fst sw, w1), Some (Plain e), False, [])
                 | Inr spec \<Rightarrow>
                     (let prev = status_or_empty (loadDeploymentStatus (e_cl env) (fst sw) app);
                          (w2, releaseID) = (if mints_release env w1 prev spec hash replicas live
                                             then e_release_id env w1 else (w1, []))
                      in case apply_scale env (fst sw, w2) scope nm app live replicas spec hash releaseID of
                           (sw3, Inl e) \<Rightarrow> (sw3, Some e, False, [])
                         | (sw3, Inr created) \<Rightarrow>
                             (case apply_drift env sw3 scope nm app created spec hash releaseID of
                                (sw4, Inl e) \<Rightarrow> (sw4, Some e, False, [])
                              | (sw4, Inr recreated) \<Rightarrow>
                                  (let sw5 = (if envChanged \<and> \<not> recreated
                                              then apply_env_roll env sw4 scope nm app created spec hash else sw4);
                                       churned = (created \<noteq> [] \<or> recreated);
                                       sw6 = apply_record env sw5 app spec hash replicas releaseID churned raw;
                                       rolled = (churned \<or> envChanged)
                                   in case apply_publish env sw6 scope nm raw of
                                        (sw7, er) \<Rightarrow> (sw7, er, rolled, if rolled then releaseID else []))))))"

text \<open>The deferred webhook: always on an error, on success only when containers moved.\<close>

definition deliver_deploy_hook ::
  "('s, 'w) henv \<Rightarrow> ('s \<times> 'w) \<times> herror option \<times> bool \<times> string \<Rightarrow> json option \<Rightarrow> string \<Rightarrow> ('s \<times> 'w) \<times> herror option" where
  "deliver_deploy_hook env r hook img =
     (case r of ((s, w), er, rolled, releaseID) \<Rightarrow>
       (case hook of
          None \<Rightarrow> ((s, w), er)
        | Some j \<Rightarrow>
            if er \<noteq> None \<or> rolled then ((s, e_webhook env w j releaseID img er), er) else ((s, w), er)))"

definition apply_deployment ::
  "('s, 'w) henv \<Rightarrow> 's \<times> 'w \<Rightarrow> string \<Rightarrow> string \<Rightarrow> manifest option \<Rightarrow> ('s \<times> 'w) \<times> herror option" where
  "apply_deployment env sw scope nm m =
     (case m of
        None \<Rightarrow> (sw, Some (Plain ''put event without manifest''))
      | Some mf \<Rightarrow>
          (case decodeDeploymentSpec mf of
             Inl e \<Rightarrow> (sw, Some (Plain e))
           | Inr spec \<Rightarrow>
               (let app = AppID scope nm
                in deliver_deploy_hook env
                     (case applyDeploymentSpecDefaults spec app of
                        Inl e \<Rightarrow> (sw, Some (Plain e), False, [])
                      | Inr spec1 \<Rightarrow>
                          (case resolveAppEnv env sw scope nm app (sp_env spec1) of
                             (w1, Inl e) \<Rightarrow> ((fst sw, w1), Some e, False, [])
                           | (w1, Inr changed) \<Rightarrow>
                               apply_spec env (fst sw, w1) scope nm app spec1 changed (m_spec mf)))
                     (sp_on_deploy spec) (sp_image spec))))"

definition remove_deployment ::
  "('s, 'w) henv \<Rightarrow> 's \<times> 'w \<Rightarrow> string \<Rightarrow> string \<Rightarrow> ('s \<times> 'w) \<times> herror option" where
  "remove_deployment env sw scope nm =
     (case sw of (s, w) \<Rightarrow>
       (let app = AppID scope nm
        in case cm_list (e_cm env) w ''deployment'' scope nm of
             Inl e \<Rightarrow> (sw, Some (Plain (''list replicas: '' @ e)))
           | Inr slots \<Rightarrow>
               (case remove_slots env w app (map sl_name slots) of
                  (w1, Some e) \<Rightarrow> ((s, w1), Some (Plain e))
                | (w1, None) \<Rightarrow>
                    (case cm_list_legacy (e_cm env) w1 app of
                       Inl e \<Rightarrow> ((s, w1), Some (Plain (''list legacy replicas: '' @ e)))
                     | Inr legacy \<Rightarrow>
                         (case remove_slots env w1 app legacy of
                            (w2, Some e) \<Rightarrow> ((s, w2), Some (Plain e))
                          | (w2, None) \<Rightarrow>
                              (case DeleteStatus (e_cl env) s ''deployment'' app of
                                 Inl e \<Rightarrow> ((s, w2), Some (Plain (''clear deployment status: '' @ e)))
                               | Inr s2 \<Rightarrow> ((s2, w2), None)))))))"

definition Restart ::
  "('s, 'w) henv \<Rightarrow> 's \<times> 'w \<Rightarrow> string \<Rightarrow> string \<Rightarrow> ('s \<times> 'w) \<times> herror option" where
  "Restart env sw scope nm =
     (let app = AppID scope nm
      in case Get (e_cl env) (fst sw) ''deployment'' scope nm of
           Inl e \<Rightarrow> (sw, Some (Plain (''read deployment manifest: '' @ e)))
         | Inr None \<Rightarrow> (sw, Some (Plain (''deployment/'' @ scope @ ''/'' @ nm @ '' not found'')))
         | Inr (Some m) \<Rightarrow>
             (case bind_ok (decodeDeploymentSpec m) (\<lambda>sp. applyDeploymentSpecDefaults sp app) of
                Inl e \<Rightarrow> (sw, Some (Plain e))
              | Inr spec0 \<Rightarrow>
                  (case e_interp_spec env (fst sw) spec0 of
                     Inl e \<Rightarrow> (sw, Some (Plain e))
                   | Inr spec \<Rightarrow>
                       (case cm_list (e_cm env) (snd sw) ''deployment'' scope nm of
                          Inl e \<Rightarrow> (sw, Some (Plain (''list replicas: '' @ e)))
                        | Inr [] \<Rightarrow> (sw, Some (Plain (''deployment/'' @ app @ '' has no live replicas to restart'')))
                        | Inr live \<Rightarrow>
                            (case resolveAppEnv env sw scope nm app (sp_env spec) of
                               (w1, Inl e) \<Rightarrow> ((fst sw, w1), Some (wrap ''link env: '' e))
                             | (w1, Inr _) \<Rightarrow>
                                 rollingReplaceReplicas env (fst sw, w1) scope nm app live spec
                                   (deploymentSpecHash (e_sha env) spec
                                     (resolveStampedOrLookup (sp_digests spec) (e_lookup_digests env (fst sw) spec)))
                                   [])))))"

end
