(* ===== verification/Rolling.thy ===== *)
theory Rolling
  imports Apply
begin

text \<open>
  What the replica operations of the deployment handler do to the containers of the host, proved
  from the contracts \<open>container_api\<close> and \<open>etcd_api\<close> alone: which names an operation may touch, how many
  replicas there are afterwards, and which failures leave a gap.
\<close>

section \<open>Names\<close>

lemma init_name_not_replica: "initContainerName scope nm a x \<noteq> ContainerName scope nm b"
  by (auto simp: initContainerName_def ContainerName_def)

definition init_names :: "string \<Rightarrow> string \<Rightarrow> string \<Rightarrow> init_spec list \<Rightarrow> string set" where
  "init_names scope nm replicaID ics = (\<lambda>ic. initContainerName scope nm replicaID (in_name ic)) ` set ics"

lemma init_names_simps [simp]:
  "init_names scope nm r [] = {}"
  "init_names scope nm r (ic # ics) = insert (initContainerName scope nm r (in_name ic)) (init_names scope nm r ics)"
  by (simp_all add: init_names_def)

lemma replica_not_init_name: "ContainerName scope nm b \<notin> init_names scope nm a ics"
  using init_name_not_replica by (auto simp: init_names_def dest: sym)

lemma finite_init_names [simp]: "finite (init_names scope nm r ics)"
  by (simp add: init_names_def)

lemma deployment_container_identity:
  "ctr_identity \<lparr>ct_spec = deployment_container env w scope nm app spec hash rel extra lim rid, ct_running = b\<rparr> =
     Some \<lparr>id_kind = ''deployment'', id_scope = scope, id_name = nm, id_replica = rid, id_hash = hash,
       id_created = e_now env w, id_release = rel, id_ordinal = - 1, id_role = ''deployment''\<rparr>"
  by (simp add: ctr_identity_def deployment_container_def deployment_labels_def parse_built_labels max_def)

section \<open>Init containers and fresh replicas\<close>

context host
begin

lemma env_ops [simp]: "e_cm env = cm" "e_cl env = cl"
  by (rule env_cm, rule env_cl)

lemma wait_remove_frame:
  assumes "cm_wait cm w1 c = (w2, code, er)"
  shows "same_outside {c} (view w1) (view w2)" "same_outside {c} (view w1) (view (fst (cm_remove cm w2 c)))"
proof -
  obtain w3 r where "cm_remove cm w2 c = (w3, r)" by (cases "cm_remove cm w2 c")
  then show "same_outside {c} (view w1) (view w2)" "same_outside {c} (view w1) (view (fst (cm_remove cm w2 c)))"
    using wait_frame [OF assms] remove_frame by (auto simp: same_outside_def)
qed

lemma runOne_frame:
  assumes "runOne env w k scope nm rid ic pa c = (w', code, er)"
  shows "same_outside {c} (view w) (view w')"
proof -
  show ?thesis
  proof (cases "dockerResources (e_floats env) (in_resources ic)")
  case (Inr limits)
  obtain w1 r1 where rc: "cm_recreate cm w (init_container env w k scope nm rid ic pa c limits) = (w1, r1)"
    by (cases "cm_recreate cm w (init_container env w k scope nm rid ic pa c limits)")
  have f1: "same_outside {c} (view w) (view w1)"
    using recreate_frame [OF rc] by (simp add: same_outside_def)
  obtain w2 code2 er2 where wt: "cm_wait cm w1 c = (w2, code2, er2)" by (metis prod_cases3)
  obtain w3 r3 where rm: "cm_remove cm w1 c = (w3, r3)" by (cases "cm_remove cm w1 c")
  have f3: "same_outside {c} (view w1) (view w3)" using remove_frame [OF rm] by (simp add: same_outside_def)
  have "same_outside {c} (view w1) (view w')"
    using assms Inr rc wt rm f3 wait_remove_frame [OF wt]
    by (auto simp: runOne_def split: option.splits if_splits)
  then show ?thesis using same_outside_trans [OF f1] by fastforce
  qed (use assms in \<open>simp add: runOne_def\<close>)
qed

lemma run_attempts_frame:
  "run_attempts env j w k scope nm rid ic pa c x le = (w', code, er) \<Longrightarrow> same_outside {c} (view w) (view w')"
proof (induction j arbitrary: w x le)
  case (Suc j)
  obtain w1 code1 er1 where r: "runOne env w k scope nm rid ic pa c = (w1, code1, er1)"
    by (cases "runOne env w k scope nm rid ic pa c") auto
  have f: "same_outside {c} (view w) (view w1)" by (rule runOne_frame [OF r])
  show ?case
  proof (cases er1)
    case None
    then show ?thesis using Suc.prems r f by simp
  next
    case (Some e)
    then have "same_outside {c} (view w1) (view w')" using Suc r by simp
    then show ?thesis using same_outside_trans [OF f] by fastforce
  qed
qed simp

lemma init_chain_frame:
  "init_chain env fh (s, w) k scope nm rid ics pa = ((s', w'), er) \<Longrightarrow>
     same_outside (init_names scope nm rid ics) (view w) (view w')"
proof (induction ics arbitrary: s w)
  case (Cons ic ics)
  let ?c = "initContainerName scope nm rid (in_name ic)"
  obtain w1 code er1
    where r: "run_attempts env (nat (1 + in_retries ic)) w k scope nm rid ic pa ?c 0 None = (w1, code, er1)"
    by (metis prod_cases3)
  have f: "same_outside {?c} (view w) (view w1)" by (rule run_attempts_frame [OF r])
  show ?case
  proof (cases er1)
    case None
    then have "same_outside (init_names scope nm rid ics) (view w1) (view w')"
      using Cons.prems r by (intro Cons.IH [of s]) (simp add: Let_def)
    then show ?thesis using same_outside_trans [OF f] by simp
  next
    case (Some e)
    then show ?thesis using Cons.prems r f by (auto simp: Let_def elim: same_outside_mono)
  qed
qed simp

lemma deployment_inits_frame:
  assumes "deployment_inits env sw scope nm app spec hash extra rid = (sw', er)"
  shows "same_outside (init_names scope nm rid (sp_inits spec)) (view (snd sw)) (view (snd sw'))"
proof (cases "sp_inits spec = []")
  case False
  obtain s w where sw: "sw = (s, w)" by (cases sw)
  define fh where "fh = (\<lambda>s f. RecordInitFailure (e_cl env) s app f)"
  obtain s1 w1 er1 where c: "init_chain env fh sw ''deployment'' scope nm rid (sp_inits spec)
      (deployment_parent env scope nm app spec hash extra) = ((s1, w1), er1)"
    by (metis prod_cases3 prod.collapse)
  then have "snd sw' = w1"
    using assms False by (auto simp: deployment_inits_def runInitChain_def fh_def split: prod.splits option.splits)
  then show ?thesis using init_chain_frame [of fh s w] c sw by fastforce
qed (use assms in \<open>simp add: deployment_inits_def\<close>)

lemma deployment_inits_none [simp]:
  "sp_inits spec = [] \<Longrightarrow> deployment_inits env sw scope nm app spec hash extra rid = (sw, None)"
  by (simp add: deployment_inits_def)

lemma retireOld_frame:
  assumes "retireOld env w app spec s = (w', er)"
  shows "same_outside {sl_name s} (view w) (view w')"
proof -
  obtain w1 er1 where d: "drainReplica env (e_probe_stop env w app (sl_name s)) spec (id_replica (sl_identity s)) = (w1, er1)"
    by (cases "drainReplica env (e_probe_stop env w app (sl_name s)) spec (id_replica (sl_identity s))")
  then have "w1 = fst (drainReplica env (e_probe_stop env w app (sl_name s)) spec (id_replica (sl_identity s)))" by simp
  then have v: "view w1 = view w" by (simp add: drainReplica_def)
  show ?thesis
    using assms d v by (auto simp: retireOld_def same_outside_def dest: remove_grace_frame
        split: prod.splits option.splits)
qed

lemma retireOld_ok:
  assumes "retireOld env w app spec s = (w', None)"
  shows "view w' = (view w)(sl_name s := None)"
proof -
  obtain w1 er1 where d: "drainReplica env (e_probe_stop env w app (sl_name s)) spec (id_replica (sl_identity s)) = (w1, er1)"
    by (cases "drainReplica env (e_probe_stop env w app (sl_name s)) spec (id_replica (sl_identity s))")
  then have "w1 = fst (drainReplica env (e_probe_stop env w app (sl_name s)) spec (id_replica (sl_identity s)))" by simp
  then have v: "view w1 = view w" by (simp add: drainReplica_def)
  show ?thesis
    using assms d v by (auto simp: retireOld_def dest: remove_grace_ok split: prod.splits option.splits)
qed

lemma republishIngresses_view [simp]: "view (snd (fst (republishIngresses env sw scope nm))) = view (snd sw)"
  by (auto simp: republishIngresses_def split: sum.splits)

lemma awaitReplicaReady_view [simp]: "view (awaitReplicaReady env w n p) = view w"
  by (simp add: awaitReplicaReady_def)

lemma ensure_replica:
  assumes "cm_ensure cm w (deployment_container env w1 scope nm app spec hash rel extra lim rid) = (w', Inr b)"
    and "view w (ContainerName scope nm rid) = None"
  shows "view w' = (view w)(ContainerName scope nm rid \<mapsto>
      \<lparr>ct_spec = deployment_container env w1 scope nm app spec hash rel extra lim rid, ct_running = True\<rparr>)"
  using ensure_new [OF assms(1)] assms(2) by (simp add: deployment_container_def)

lemma ensure_replica_frame:
  assumes "cm_ensure cm w (deployment_container env w1 scope nm app spec hash rel extra lim rid) = (w', r)"
  shows "same_outside {ContainerName scope nm rid} (view w) (view w')"
  using ensure_frame [OF assms] by (simp add: same_outside_def deployment_container_def)

lemma create_replicas_no_inits:
  assumes "create_replicas env k sw scope nm app spec hash rel extra = (sw', created, None)"
    and "sp_inits spec = []"
    and "distinct created" and "\<forall>n \<in> set created. view (snd sw) n = None"
  shows "length created = k \<and> fst sw' = fst sw \<and> same_outside (set created) (view (snd sw)) (view (snd sw'))
    \<and> set created \<subseteq> running_names (view (snd sw')) ''deployment'' scope nm"
  using assms
proof (induction k arbitrary: sw created)
  case (Suc k)
  obtain s w where sw: "sw = (s, w)" by (cases sw)
  obtain w1 rid where idr: "e_new_id env w = (w1, rid)" by (cases "e_new_id env w")
  define n where "n = ContainerName scope nm rid"
  have v1: "view w1 = view w" using new_id_view [of w] idr by simp
  obtain lim where li: "dockerResources (e_floats env) (sp_resources spec) = Inr lim"
    using Suc.prems(1) sw idr
    by (cases "dockerResources (e_floats env) (sp_resources spec)") (simp_all add: Let_def)
  obtain w3 r where en: "cm_ensure cm w1 (deployment_container env w1 scope nm app spec hash rel extra lim rid) = (w3, r)"
    by (cases "cm_ensure cm w1 (deployment_container env w1 scope nm app spec hash rel extra lim rid)")
  obtain b where r: "r = Inr b"
    using Suc.prems(1,2) sw idr li en by (cases r) (simp_all add: Let_def)
  obtain created2 where rec: "create_replicas env k (s, e_probe_start env w3 app n (sp_probes spec) (sp_on_probe spec)) scope nm app spec hash rel extra
      = (sw', created2, None)" and cr: "created = n # created2"
    using Suc.prems(1,2) sw idr li en r by (auto simp: Let_def n_def split: prod.splits)
  have new: "view w1 n = None" using Suc.prems(4) sw cr v1 by simp
  have v3: "view w3 = (view w)(n \<mapsto> \<lparr>ct_spec = deployment_container env w1 scope nm app spec hash rel extra lim rid,
      ct_running = True\<rparr>)"
    using ensure_replica [OF en [unfolded r]] new v1 by (simp add: n_def)
  have dis: "distinct created2" "n \<notin> set created2" using Suc.prems(3) cr by simp_all
  then have "\<forall>m \<in> set created2. view (snd (s, e_probe_start env w3 app n (sp_probes spec) (sp_on_probe spec))) m = None"
    using Suc.prems(4) cr sw v3 by auto
  then have ih: "length created2 = k \<and> fst sw' = s \<and> same_outside (set created2) (view w3) (view (snd sw'))
    \<and> set created2 \<subseteq> running_names (view (snd sw')) ''deployment'' scope nm"
    using Suc.IH [OF rec Suc.prems(2) dis(1)] by simp
  then have "view (snd sw') n = view w3 n" using Suc.prems(3) cr by (auto simp: same_outside_def)
  then have "n \<in> running_names (view (snd sw')) ''deployment'' scope nm"
    using v3 deployment_container_identity [of env w1 scope nm app spec hash rel extra lim rid True]
    by (simp add: running_names_def Matches_def)
  moreover have "same_outside (set created) (view w) (view (snd sw'))"
    using ih v3 cr by (auto simp: same_outside_def)
  ultimately show ?case using ih cr sw by simp
qed simp

lemma remove_slots_ok:
  "remove_slots env w app ns = (w', None) \<Longrightarrow> view w' = (\<lambda>n. if n \<in> set ns then None else view w n)"
proof (induction ns arbitrary: w)
  case (Cons n ns)
  obtain w1 er where r: "cm_remove cm (e_probe_stop env w app n) n = (w1, er)"
    by (cases "cm_remove cm (e_probe_stop env w app n) n")
  then have "er = None" using Cons.prems by (cases er) simp_all
  then have "view w1 = (view w)(n := None)" using remove_ok r by fastforce
  then show ?case using Cons r \<open>er = None\<close> by (fastforce simp: fun_eq_iff)
qed auto

lemma remove_slots_frame:
  "remove_slots env w app ns = (w', er) \<Longrightarrow> same_outside (set ns) (view w) (view w')"
proof (induction ns arbitrary: w)
  case (Cons n ns)
  obtain w1 er1 where r: "cm_remove cm (e_probe_stop env w app n) n = (w1, er1)"
    by (cases "cm_remove cm (e_probe_stop env w app n) n")
  then have f: "same_outside {n} (view w) (view w1)"
    using remove_frame [OF r] by (simp add: same_outside_def)
  show ?case
  proof (cases er1)
    case None
    then have "same_outside (set ns) (view w1) (view w')" using Cons r by simp
    then show ?thesis using same_outside_trans [OF f] by simp
  next
    case (Some e)
    then show ?thesis using Cons.prems r f by (auto elim: same_outside_mono)
  qed
qed auto

lemma remove_all_frame:
  "remove_all env w what ns = (w', er) \<Longrightarrow> same_outside (set ns) (view w) (view w')"
proof (induction ns arbitrary: w)
  case (Cons n ns)
  obtain w1 er1 where r: "cm_remove cm w n = (w1, er1)" by (cases "cm_remove cm w n")
  then have f: "same_outside {n} (view w) (view w1)"
    using remove_frame [OF r] by (simp add: same_outside_def)
  show ?case
  proof (cases er1)
    case None
    then have "same_outside (set ns) (view w1) (view w')" using Cons r by simp
    then show ?thesis using same_outside_trans [OF f] by simp
  next
    case (Some e)
    then show ?thesis using Cons.prems r f by (auto elim: same_outside_mono)
  qed
qed auto

end

section \<open>Scaling down keeps exactly the wanted number\<close>

lemma insert_slot_set [simp]: "set (insert_slot x ss) = insert x (set ss)"
  by (induction ss) auto

lemma sort_slots_set [simp]: "set (sort_slots ss) = set ss"
proof -
  have "set (foldr insert_slot ss []) = set ss" by (induction ss) auto
  then show ?thesis by (simp add: sort_slots_def)
qed

lemma insert_slot_length [simp]: "length (insert_slot x ss) = Suc (length ss)"
  by (induction ss) auto

lemma insert_slot_distinct:
  "distinct (map sl_name (insert_slot x ss)) \<longleftrightarrow> sl_name x \<notin> sl_name ` set ss \<and> distinct (map sl_name ss)"
  by (induction ss) auto

lemma sort_slots_distinct [simp]: "distinct (map sl_name (sort_slots ss)) \<longleftrightarrow> distinct (map sl_name ss)"
proof -
  have "set (foldr insert_slot ss []) = set ss" for ss by (induction ss) auto
  then have "distinct (map sl_name (foldr insert_slot ss [])) \<longleftrightarrow> distinct (map sl_name ss)"
    by (induction ss) (auto simp: insert_slot_distinct)
  then show ?thesis by (simp add: sort_slots_def)
qed

lemma fill_keep_distinct:
  "distinct keep \<Longrightarrow> distinct (fill_keep ss want keep)"
  by (induction ss arbitrary: keep) auto

lemma fill_keep_set: "set keep \<subseteq> set (fill_keep ss want keep)"
  "set (fill_keep ss want keep) \<subseteq> set keep \<union> sl_name ` set ss"
proof (induction ss arbitrary: keep)
  case (Cons s ss)
  case 1 then show ?case using Cons(1) [of "sl_name s # keep"] Cons(1) [of keep] by auto
  case 2 then show ?case using Cons(2) [of "sl_name s # keep"] Cons(2) [of keep] by auto
qed auto

text \<open>The candidates fill the wanted number when there are enough of them.\<close>

lemma fill_keep_length:
  assumes "distinct (map sl_name ss)" and "distinct keep" and "int (length keep) \<le> want"
    and "want \<le> int (card (set keep \<union> sl_name ` set ss))"
  shows "int (length (fill_keep ss want keep)) = want"
  using assms
proof (induction ss arbitrary: keep)
  case Nil
  then show ?case by (simp add: distinct_card)
next
  case (Cons s ss)
  show ?case
  proof (cases "int (length keep) \<ge> want")
    case False
    show ?thesis
    proof (cases "sl_name s \<in> set keep")
      case True
      then have "set keep \<union> sl_name ` set (s # ss) = set keep \<union> sl_name ` set ss" by auto
      then show ?thesis using Cons False True by simp
    next
      case sf: False
      have "set keep \<union> sl_name ` set (s # ss) = set (sl_name s # keep) \<union> sl_name ` set ss" by auto
      then show ?thesis using Cons False sf by simp
    qed
  qed (use Cons.prems in simp)
qed

context host
begin

lemma scale_down:
  assumes ls: "cm_list cm w ''deployment'' scope nm = Inr live" and nm: "nm \<noteq> []"
    and pr: "pruneExtraReplicas env w app live want created = (w', None)"
    and cr: "set created \<subseteq> sl_name ` set live" "int (card (set created)) \<le> want"
    and ls': "cm_list cm w' ''deployment'' scope nm = Inr live'"
  shows "int (length live') = min (int (length live)) want \<and> set created \<subseteq> sl_name ` set live'
    \<and> sl_name ` set live' \<subseteq> sl_name ` set live \<and> same_outside (sl_name ` set live) (view w) (view w')"
proof (cases "int (length live) \<le> want")
  case True
  then have "w' = w" using pr by (simp add: pruneExtraReplicas_def)
  then show ?thesis using True ls ls' cr by auto
next
  case False
  define cand keep where "cand = sort_slots live" and "keep = fill_keep cand want (remdups created)"
  define gone where "gone = filter (\<lambda>n. n \<notin> set keep) (map sl_name cand)"
  have dl: "distinct (map sl_name live)" by (rule list_names [OF ls])
  have v': "view w' = (\<lambda>n. if n \<in> set gone then None else view w n)"
    using pr False by (intro remove_slots_ok) (simp add: pruneExtraReplicas_def Let_def gone_def keep_def cand_def)
  have names: "sl_name ` set live = slot_names (view w) ''deployment'' scope nm"
    "sl_name ` set live' = slot_names (view w') ''deployment'' scope nm"
    using listed_names(1) [OF ls] listed_names(1) [OF ls'] nm by auto
  have ks: "set created \<subseteq> set keep" "set keep \<subseteq> sl_name ` set live"
    using fill_keep_set(1) [of "remdups created" cand want] fill_keep_set(2) [of cand want "remdups created"] cr(1) by (auto simp: keep_def cand_def)
  have "int (card (sl_name ` set live)) = int (length live)"
    using dl distinct_card [of "map sl_name live"] by simp
  moreover have "set created \<union> sl_name ` set live = sl_name ` set live" using cr(1) by auto
  ultimately have "int (length keep) = want"
    unfolding keep_def using False cr(2) dl
    by (intro fill_keep_length) (simp_all add: cand_def length_remdups_card_conv)
  moreover have "distinct keep" unfolding keep_def by (rule fill_keep_distinct) simp
  ultimately have ck: "int (card (set keep)) = want" by (simp add: distinct_card)
  have "slot_names (view w') ''deployment'' scope nm = set keep"
    using ks(2) names(1) v' by (auto simp: slot_names_def gone_def cand_def)
  moreover have "length live' = card (slot_names (view w') ''deployment'' scope nm)"
    using listed_length(1) [OF ls'] nm by simp
  moreover have "same_outside (sl_name ` set live) (view w) (view w')"
    by (auto simp: same_outside_def v' gone_def cand_def)
  ultimately show ?thesis using ck False ks names(2) by simp
qed

lemma scale_up:
  assumes ls: "cm_list cm (snd sw) ''deployment'' scope nm = Inr live" and nm: "nm \<noteq> []"
    and en: "ensureReplicaCount env sw scope nm app live want spec hash rel = (sw', created, None)"
    and sp: "sp_image spec \<noteq> []" "sp_inits spec = []"
    and fr: "distinct created" "\<forall>n \<in> set created. view (snd sw) n = None"
    and ls': "cm_list cm (snd sw') ''deployment'' scope nm = Inr live'"
  shows "int (length live') = max (int (length live)) want
    \<and> sl_name ` set live' = sl_name ` set live \<union> set created
    \<and> same_outside (set created) (view (snd sw)) (view (snd sw'))"
proof (cases "int (length live) \<ge> want")
  case True
  then have "sw' = sw \<and> created = []" using en sp by (simp add: ensureReplicaCount_def)
  then show ?thesis using True ls ls' by auto
next
  case False
  then obtain extra where cr: "create_replicas env (nat (want - int (length live))) sw scope nm app spec hash rel extra
      = (sw', created, None)"
    using en sp by (auto simp: ensureReplicaCount_def split: sum.splits)
  let ?v = "view (snd sw)" and ?v' = "view (snd sw')"
  have c: "length created = nat (want - int (length live))" "same_outside (set created) ?v ?v'"
    "set created \<subseteq> running_names ?v' ''deployment'' scope nm"
    using create_replicas_no_inits [OF cr sp(2) fr] by auto
  have names: "sl_name ` set live = slot_names ?v ''deployment'' scope nm"
    "sl_name ` set live' = slot_names ?v' ''deployment'' scope nm"
    using listed_names(1) [OF ls] listed_names(1) [OF ls'] nm by auto
  have sub: "running_names ?v' ''deployment'' scope nm \<subseteq> slot_names ?v' ''deployment'' scope nm"
    by (auto simp: running_names_def slot_names_def)
  have dis: "slot_names ?v ''deployment'' scope nm \<inter> set created = {}" using fr(2) by (auto simp: slot_names_def)
  then have un: "slot_names ?v' ''deployment'' scope nm = slot_names ?v ''deployment'' scope nm \<union> set created"
    using names_outside(1) [OF c(2), of "''deployment''" scope nm] c(3) sub by blast
  have "length live' = card (slot_names ?v' ''deployment'' scope nm)"
    "length live = card (slot_names ?v ''deployment'' scope nm)"
    "finite (slot_names ?v ''deployment'' scope nm)"
    using listed_length(1) [OF ls'] listed_length(1,3) [OF ls] nm by auto
  then have "length live' = length live + length created"
    using un dis by (simp add: card_Un_disjoint distinct_card [OF fr(1)])
  then show ?thesis using c(1,2) False names un by simp
qed

lemma failed_init_listed:
  assumes "nm \<noteq> []"
    and run: "runOne env w ''deployment'' scope nm replicaID ic parent cname = (w', code, Some e)" and "0 < code"
    and ls: "cm_list cm w' ''deployment'' scope nm = Inr live'"
  shows "cname \<in> sl_name ` set live'
    \<and> ensureReplicaCount env (s, w') scope nm app live' 1 spec hash rel = ((s, w'), [], None)"
proof -
  obtain limits where lim: "dockerResources (e_floats env) (in_resources ic) = Inr limits"
    using run assms(3) by (cases "dockerResources (e_floats env) (in_resources ic)") (simp_all add: runOne_def)
  let ?k = "init_container env w ''deployment'' scope nm replicaID ic parent cname limits"
  obtain w1 r1 where rc: "cm_recreate cm w ?k = (w1, r1)" by (cases "cm_recreate cm w ?k")
  have "r1 = None" using run lim rc assms(3) by (cases r1) (simp_all add: runOne_def)
  then have v1: "view w1 = (view w)(cname \<mapsto> \<lparr>ct_spec = ?k, ct_running = True\<rparr>)"
    using recreate_ok rc by fastforce
  obtain w2 code2 er2 where wt: "cm_wait cm w1 cname = (w2, code2, er2)" by (metis prod_cases3)
  have "w' = w2"
    using run lim rc \<open>r1 = None\<close> wt assms(3) by (auto simp: runOne_def split: option.splits if_splits)
  then obtain c where c: "view w' cname = Some c" "ct_spec c = ?k"
    using wait_self [OF wt] v1 by (auto simp: map_option_case split: option.splits)
  have "ctr_identity c = Some \<lparr>id_kind = ''deployment'', id_scope = scope, id_name = nm, id_replica = replicaID,
      id_hash = pa_hash parent, id_created = e_now env w, id_release = [], id_ordinal = - 1, id_role = ''init''\<rparr>"
    using c(2) by (simp add: ctr_identity_def init_container_def parse_built_labels max_def)
  then have "cname \<in> slot_names (view w') ''deployment'' scope nm"
    using c(1) by (simp add: slot_names_def Matches_def)
  then have m: "cname \<in> sl_name ` set live'" using listed_names(1) [OF ls] assms(1) by simp
  then have "1 \<le> int (length live')" by (cases live') auto
  then show ?thesis using m by (simp add: ensureReplicaCount_def)
qed

end

section \<open>Replacing with surge\<close>

text \<open>
  The ids a replica is named after are random; where the supply never repeats a name in use, the
  replacement of a rolling restart never collides with a container that is there.
\<close>

locale fresh_host = host +
  assumes fresh_replica: "view w (ContainerName scope nm (snd (e_new_id env w))) = None"
    and fresh_init: "view w (initContainerName scope nm (snd (e_new_id env w)) x) = None"

text \<open>At most \<open>A\<close> goes, and what is left is no fewer.\<close>

lemma card_replaced:
  assumes "finite R" and "insert n R - {m} \<subseteq> R'" and "n \<notin> R" and "finite R'"
  shows "card R \<le> card R'"
proof -
  have "card R \<le> card (insert n R - {m})"
    using assms(1,3) by (simp add: card_Diff_singleton_if card_insert_if)
  also have "\<dots> \<le> card R'" using assms(2,4) by (rule card_mono [rotated])
  finally show ?thesis .
qed

context fresh_host
begin

lemma replace_replica_surge:
  assumes rp: "replace_replica env sw scope nm app s spec hash rel extra True = (sw', er)"
    and fin: "finite (running_names (view (snd sw)) ''deployment'' scope nm)"
  shows "finite (running_names (view (snd sw')) ''deployment'' scope nm)
    \<and> card (running_names (view (snd sw)) ''deployment'' scope nm)
        \<le> card (running_names (view (snd sw')) ''deployment'' scope nm)
    \<and> (\<forall>n. n \<noteq> sl_name s \<longrightarrow> view (snd sw) n \<noteq> None \<longrightarrow> view (snd sw') n = view (snd sw) n)"
proof -
  let ?R = "\<lambda>w. running_names (view w) ''deployment'' scope nm"
  obtain st w where sw: "sw = (st, w)" by (cases sw)
  obtain w1 rid where idr: "e_new_id env w = (w1, rid)" by (cases "e_new_id env w")
  define n where "n = ContainerName scope nm rid"
  define I where "I = init_names scope nm rid (sp_inits spec)"
  have v1: "view w1 = view w" using new_id_view [of w] idr by simp
  have fn: "view w n = None" using fresh_replica [of w scope nm] idr by (simp add: n_def)
  have fi: "view w m = None" if "m \<in> I" for m
    using that fresh_init [of w scope nm] idr by (auto simp: I_def init_names_def)
  have nI: "n \<notin> I" by (simp add: n_def I_def replica_not_init_name)
  show ?thesis
  proof (cases "dockerResources (e_floats env) (sp_resources spec)")
  case (Inl e)
  then have "sw' = (st, w1)" using rp sw idr by (simp add: replace_replica_def Let_def)
  then show ?thesis using fin sw v1 by simp
  next
  case (Inr lim)
  note li = Inr
  obtain s3 w3 er3 where di: "deployment_inits env (st, w1) scope nm app spec hash extra rid = ((s3, w3), er3)"
    by (metis prod.collapse)
  have f3: "same_outside I (view w) (view w3)"
    using deployment_inits_frame [OF di] v1 by (simp add: I_def)
  have r3: "?R w \<subseteq> ?R w3" "n \<notin> ?R w"
    using f3 fi fn by (auto simp: running_names_def same_outside_def) (metis option.distinct(1))
  have fin3: "finite (?R w3)" using fin f3 finite_names_outside(1) [OF f3] sw by (simp add: I_def)
  show ?thesis
  proof (cases er3)
    case (Some e)
    then have "sw' = (s3, w3)" using rp sw idr li di by (simp add: replace_replica_def Let_def)
    moreover have "view w3 m = view w m" if "view w m \<noteq> None" for m
      using that f3 fi by (metis same_outside_at)
    ultimately show ?thesis using r3(1) fin3 sw by (auto intro: card_mono)
  next
    case None
    obtain w4 r4 where en: "cm_ensure cm w3 (deployment_container env w1 scope nm app spec hash rel extra lim rid) = (w4, r4)"
      by (cases "cm_ensure cm w3 (deployment_container env w1 scope nm app spec hash rel extra lim rid)")
    have f4: "same_outside {n} (view w3) (view w4)" using ensure_replica_frame [OF en] by (simp add: n_def)
    have f34: "same_outside (insert n I) (view w) (view w4)" using same_outside_trans [OF f3 f4] by simp
    have old: "view w4 m = view w m" if "view w m \<noteq> None" for m
      using that f34 fi fn by (metis insertE same_outside_at)
    have r4s: "?R w \<subseteq> ?R w4" using old by (auto simp: running_names_def)
    have fin4: "finite (?R w4)" using finite_names_outside(1) [OF f34] fin sw by (simp add: I_def)
    show ?thesis
    proof (cases r4)
      case (Inl e)
      then have "sw' = (s3, w4)" using rp sw idr li di en None by (simp add: replace_replica_def Let_def)
      then show ?thesis using r4s fin4 old sw by (auto intro: card_mono)
    next
      case (Inr b)
      have "view w3 n = None" using f3 nI fn by (simp add: same_outside_def)
      then have "view w4 n = Some \<lparr>ct_spec = deployment_container env w1 scope nm app spec hash rel extra lim rid,
          ct_running = True\<rparr>"
        using ensure_replica [OF en [unfolded Inr]] by (simp add: n_def)
      then have n4: "n \<in> ?R w4"
        using deployment_container_identity [of env w1 scope nm app spec hash rel extra lim rid True]
        by (simp add: running_names_def Matches_def)
      define sw7 where "sw7 = fst (republishIngresses env (s3,
          awaitReplicaReady env (e_probe_start env w4 app n (sp_probes spec) (sp_on_probe spec)) n (sp_probes spec)) scope nm)"
      define w7 where "w7 = snd sw7"
      have v7: "view w7 = view w4" by (simp add: w7_def sw7_def)
      obtain w8 er8 where ro: "retireOld env w7 app spec s = (w8, er8)" by (cases "retireOld env w7 app spec s")
      have sw': "sw' = (fst sw7, w8)"
        using rp sw idr li di en None Inr ro by (simp add: replace_replica_def Let_def w7_def sw7_def n_def split: prod.splits)
      have f8: "same_outside {sl_name s} (view w4) (view w8)" using retireOld_frame [OF ro] v7 by simp
      have "insert n (?R w) - {sl_name s} \<subseteq> ?R w8"
        using names_outside(2) [OF f8, of "''deployment''" scope nm] r4s n4 by blast
      moreover have "finite (?R w8)" using finite_names_outside(1) [OF f8] fin4 by simp
      ultimately have "card (?R w) \<le> card (?R w8)" using card_replaced fin sw r3(2) by (metis snd_conv)
      moreover have "view w8 m = view w m" if "m \<noteq> sl_name s" "view w m \<noteq> None" for m
        using that f8 old by (metis same_outside_at singletonD)
      ultimately show ?thesis using sw sw' \<open>finite (?R w8)\<close> by auto
    qed
  qed
  qed
qed

lemma roll_surge:
  assumes "roll env sw scope nm app ss spec hash rel extra frozen True = (sw', er)"
    and "finite (running_names (view (snd sw)) ''deployment'' scope nm)"
  shows "finite (running_names (view (snd sw')) ''deployment'' scope nm)
    \<and> card (running_names (view (snd sw)) ''deployment'' scope nm)
        \<le> card (running_names (view (snd sw')) ''deployment'' scope nm)
    \<and> (\<forall>n. view (snd sw) n \<noteq> None \<longrightarrow>
        n \<notin> sl_name ` {s \<in> set ss. id_replica (sl_identity s) \<notin> frozen} \<longrightarrow> view (snd sw') n = view (snd sw) n)"
  using assms
proof (induction ss arbitrary: sw)
  case (Cons s ss)
  show ?case
  proof (cases "id_replica (sl_identity s) \<in> frozen")
    case True
    then have "{t \<in> set (s # ss). id_replica (sl_identity t) \<notin> frozen} = {t \<in> set ss. id_replica (sl_identity t) \<notin> frozen}"
      by auto
    then show ?thesis using Cons.IH [of sw] Cons.prems True by simp
  next
    case False
    obtain sw1 er1 where r: "replace_replica env sw scope nm app s spec hash rel extra True = (sw1, er1)"
      by (cases "replace_replica env sw scope nm app s spec hash rel extra True")
    note one = replace_replica_surge [OF r Cons.prems(2)]
    show ?thesis
    proof (cases er1)
      case None
      then have "roll env sw1 scope nm app ss spec hash rel extra frozen True = (sw', er)"
        using Cons.prems(1) r False by simp
      note rest = Cons.IH [OF this conjunct1 [OF one]]
      have "view (snd sw') n = view (snd sw) n" if a: "view (snd sw) n \<noteq> None"
        "n \<notin> sl_name ` {t \<in> set (s # ss). id_replica (sl_identity t) \<notin> frozen}" for n
      proof -
        have "n \<noteq> sl_name s" using a(2) False by auto
        then have e: "view (snd sw1) n = view (snd sw) n"
          using conjunct2 [OF conjunct2 [OF one], rule_format, of n] a(1) by simp
        have "n \<notin> sl_name ` {t \<in> set ss. id_replica (sl_identity t) \<notin> frozen}" using a(2) by auto
        then show ?thesis
          using conjunct2 [OF conjunct2 [OF rest], rule_format, of n] a(1) e by simp
      qed
      then show ?thesis
        by (intro conjI allI impI conjunct1 [OF rest]
            le_trans [OF conjunct1 [OF conjunct2 [OF one]] conjunct1 [OF conjunct2 [OF rest]]])
    next
      case (Some e)
      then show ?thesis using Cons.prems r False one by auto
    qed
  qed
qed simp

lemma surge_restart:
  assumes rl: "rollingReplaceReplicas env sw scope nm app live spec hash rel = (sw', er)"
    and sg: "canSurge spec" and nm: "nm \<noteq> []"
    and ls: "cm_list cm (snd sw) ''deployment'' scope nm = Inr before"
    and ls': "cm_list cm (snd sw') ''deployment'' scope nm = Inr after"
  shows "length (filter sl_running before) \<le> length (filter sl_running after)
    \<and> (\<forall>n. view (snd sw) n \<noteq> None \<longrightarrow>
        n \<notin> sl_name ` {s \<in> set live. id_replica (sl_identity s) \<notin> frozen_of cl (fst sw) ''deployment'' scope nm}
        \<longrightarrow> view (snd sw') n = view (snd sw) n)"
proof -
  note len = listed_length(2,4) [OF ls _ nm] and len' = listed_length(2) [OF ls' _ nm]
  show ?thesis
  proof (cases "resolveEnvFromList env (snd sw) (sp_env_from spec) scope")
    case (Inl e)
    then have "sw' = sw" using rl by (simp add: rollingReplaceReplicas_def)
    then show ?thesis using ls ls' by simp
  next
    case (Inr extra)
    let ?fr = "frozen_of cl (fst sw) ''deployment'' scope nm"
    obtain s1 w1 er1 where r: "roll env sw scope nm app live spec hash rel extra ?fr True = ((s1, w1), er1)"
      by (metis prod.collapse)
    have v: "view (snd sw') = view w1"
    proof (cases er1)
      case None
      obtain sw2 er2 where "republishIngresses env (s1, w1) scope nm = (sw2, er2)"
        by (cases "republishIngresses env (s1, w1) scope nm")
      then show ?thesis
        using rl Inr sg None r republishIngresses_view [of "(s1, w1)" scope nm] by (auto simp: rollingReplaceReplicas_def)
    qed (use rl Inr sg r in \<open>auto simp: rollingReplaceReplicas_def\<close>)
    show ?thesis using roll_surge [OF r] len len' v by simp
  qed
qed

end

section \<open>A host whose ids never repeat\<close>

text \<open>Ids longer than every name of the host: an instance of \<open>fresh_host\<close> for the examples.\<close>

definition long_id :: "dockerd \<Rightarrow> dockerd \<times> string" where
  "long_id d = (d, replicate (Suc (sum_list (map (length \<circ> fst) (dd_ctrs d)))) CHR ''f'')"

definition fresh_env :: "(kv_state, dockerd) henv" where
  "fresh_env = demo_env\<lparr>e_new_id := long_id\<rparr>"

lemma dd_view_length: "dd_view d n \<noteq> None \<Longrightarrow> length n \<le> sum_list (map (length \<circ> fst) (dd_ctrs d))"
proof -
  assume "dd_view d n \<noteq> None"
  then obtain c where "(n, c) \<in> set (dd_ctrs d)"
    by (auto simp: dd_view_def dest!: map_of_SomeD)
  then have "(length \<circ> fst) (n, c) \<le> sum_list (map (length \<circ> fst) (dd_ctrs d))"
    by (intro member_le_sum_list) (auto intro: rev_image_eqI)
  then show ?thesis by simp
qed

lemma join_last_length: "length b \<le> length (join s [x, y, z, b])"
  by simp

interpretation fresh: fresh_host "docker_manager dockerd_cli" dd_view kv_client kv_view fresh_env
proof (unfold_locales, goal_cases)
  case (14 w scope nm)
  have "\<not> length (ContainerName scope nm (snd (e_new_id fresh_env w))) \<le> sum_list (map (length \<circ> fst) (dd_ctrs w))"
    by (simp add: ContainerName_def fresh_env_def long_id_def)
  then show ?case using dd_view_length by blast
next
  case (15 w scope nm x)
  have "\<not> length (initContainerName scope nm (snd (e_new_id fresh_env w)) x) \<le> sum_list (map (length \<circ> fst) (dd_ctrs w))"
    by (simp add: initContainerName_def fresh_env_def long_id_def Let_def)
  then show ?case using dd_view_length by blast
qed (simp_all add: fresh_env_def demo_env_def long_id_def draw_id_view)

section \<open>Properties\<close>

text \<open>
  C21: Scaling down without an error leaves exactly the wanted number of replicas, the ones created in
  the same pass among them, and touches no container that is not a replica of the deployment.
\<close>

theorem scale_down_exact:
  assumes "host cm view cl kview env"
    and "cm_list cm w ''deployment'' scope nm = Inr live" and "nm \<noteq> []"
    and "pruneExtraReplicas env w app live want created = (w', None)"
    and "set created \<subseteq> sl_name ` set live" and "int (card (set created)) \<le> want"
    and "cm_list cm w' ''deployment'' scope nm = Inr live'"
  shows "int (length live') = min (int (length live)) want \<and> set created \<subseteq> sl_name ` set live'
    \<and> sl_name ` set live' \<subseteq> sl_name ` set live \<and> (\<forall>n. n \<notin> sl_name ` set live \<longrightarrow> view w' n = view w n)"
  using host.scale_down [OF assms] by (simp add: same_outside_def)

theorem scale_down_exact_witness:
  "let d = web_host [''a1'', ''b2''] [];
       d' = fst (pruneExtraReplicas demo_env d ''prod-web'' (web_listing d) 1 [])
   in length (web_listing d') = 1"
proof -
  define d where "d = web_host [''a1'', ''b2''] []"
  define d' where "d' = fst (pruneExtraReplicas demo_env d ''prod-web'' (web_listing d) 1 [])"
  have e: "web_listed d" "length (web_listing d) = 2" "web_listed d'"
    "snd (pruneExtraReplicas demo_env d ''prod-web'' (web_listing d) 1 []) = None"
    unfolding d'_def d_def by code_simp+
  then have "pruneExtraReplicas demo_env d ''prod-web'' (web_listing d) 1 [] = (d', None)"
    unfolding d'_def by (simp add: prod_eq_iff)
  from scale_down_exact [OF demo.host_axioms web_listing_ok [OF e(1)] _ this _ _ web_listing_ok [OF e(3)]] e(2)
  show ?thesis unfolding d_def [symmetric] Let_def d'_def [symmetric] by simp
qed





text \<open>
  An init container that exits with an error stays on the host and is listed as a replica of the
  deployment: the next reconcile counts it, so a deployment that wants one replica and has none
  creates nothing and reports no error.
\<close>

theorem failed_init_counts_as_replica:
  assumes "host cm view cl kview env" and "nm \<noteq> []"
    and "runOne env w ''deployment'' scope nm replicaID ic parent cname = (w', code, Some e)" and "0 < code"
    and "cm_list cm w' ''deployment'' scope nm = Inr live'"
  shows "cname \<in> sl_name ` set live'
    \<and> ensureReplicaCount env (s, w') scope nm app live' 1 spec hash rel = ((s, w'), [], None)"
  using host.failed_init_listed [OF assms] by simp

definition init_spec_broken :: init_spec where
  "init_spec_broken = \<lparr>in_name = ''migrate'', in_image = ''web:2'', in_command = [], in_timeout = [], in_retries = 0,
     in_resources = None, in_ulimits = None, in_docker_options = None\<rparr>"

definition broken_host :: dockerd where
  "broken_host = (web_host [] [])\<lparr>dd_codes := [(''web:2'', 1)]\<rparr>"

theorem failed_init_counts_as_replica_witness:
  "let r = runOne demo_env broken_host ''deployment'' ''prod'' ''web'' ''a1'' init_spec_broken
         (deployment_parent demo_env ''prod'' ''web'' ''prod-web'' web_spec ''h'' []) ''prod-web-init-migrate-a1''
   in ''prod-web-init-migrate-a1'' \<in> sl_name ` set (web_listing (fst r))"
proof -
  define r where "r = runOne demo_env broken_host ''deployment'' ''prod'' ''web'' ''a1'' init_spec_broken
      (deployment_parent demo_env ''prod'' ''web'' ''prod-web'' web_spec ''h'' []) ''prod-web-init-migrate-a1''"
  have e: "web_listed (fst r)" "fst (snd r) = 1" "snd (snd r) \<noteq> None"
    unfolding r_def by code_simp+
  then obtain m where "r = (fst r, 1, Some m)" by (metis option.exhaust prod.collapse)
  then have "runOne demo_env broken_host ''deployment'' ''prod'' ''web'' ''a1'' init_spec_broken
      (deployment_parent demo_env ''prod'' ''web'' ''prod-web'' web_spec ''h'' []) ''prod-web-init-migrate-a1''
      = (fst r, 1, Some m)" unfolding r_def .
  from failed_init_counts_as_replica [OF demo.host_axioms _ this _ web_listing_ok [OF e(1)], where s = "([], False)" and spec = web_spec]
  show ?thesis unfolding r_def [symmetric] Let_def by simp
qed

end
