(* ===== verification/Converge.thy ===== *)
theory Converge
  imports Rolling
begin

text \<open>
  What one reconcile of a deployment achieves (\<open>apply_spec\<close>, \<open>remove_deployment\<close>): a converged
  deployment is left alone, a removed one leaves nothing, and the pass that changes the replica
  count does not see another change made in the same manifest.
\<close>

section \<open>Lemmas\<close>

context host
begin

text \<open>Nothing to do: the count is right, the recorded hash is the manifest's, the images agree.\<close>

lemma scale_nothing:
  assumes "int (length live) = replicas"
  shows "apply_scale env sw scope nm app live replicas spec hash rel = (sw, Inr [])"
  using assms by (cases sw) (auto simp: apply_scale_def ensureReplicaCount_def pruneExtraReplicas_def)

lemma drift_nothing:
  assumes "cm_list cm (snd sw) ''deployment'' scope nm = Inr live" and "live \<noteq> []"
    and "GetStatus cl (fst sw) ''deployment'' app = Inr (Some (DStatus prev))" and "ds_spec_hash prev = hash"
    and "cm_ids_differ cm (snd sw) (sl_name (hd live)) (sp_image spec) = Inr False"
  shows "apply_drift env sw scope nm app [] spec hash rel = (sw, Inr False)"
proof -
  obtain s w where "sw = (s, w)" by (cases sw)
  then show ?thesis
    using assms by (simp add: apply_drift_def filterSlots_def not_created_def setOf_def recreateReplicasIfSpecChanged_def)
qed

lemma drift_ids_only:
  assumes "cm_list cm (snd sw) ''deployment'' scope nm = Inr current"
    and "GetStatus cl (fst sw) ''deployment'' app = Inr (Some (DStatus prev))" and "ds_spec_hash prev = hash"
    and "list_all (\<lambda>s. cm_ids_differ cm (snd sw) (sl_name s) (sp_image spec) = Inr False) (filterSlots current (not_created created))"
  shows "apply_drift env sw scope nm app created spec hash rel = (sw, Inr False)"
proof -
  obtain s w where sw: "sw = (s, w)" by (cases sw)
  let ?l = "filterSlots current (not_created created)"
  have "cm_ids_differ cm w (sl_name (hd ?l)) (sp_image spec) = Inr False" if "?l \<noteq> []"
    using assms(4) that sw by (cases ?l) auto
  then show ?thesis
    using assms(1-3) sw by (simp add: apply_drift_def recreateReplicasIfSpecChanged_def)
qed

lemma publish_view:
  assumes "publishEndpoints env w k scope nm raw = (w', er)"
  shows "view w' = view w"
proof (cases "cm_list cm w k scope nm")
  case (Inr live)
  then have "w' = fst (e_publish env w k scope nm raw live)" using assms by (simp add: publishEndpoints_def)
  then show ?thesis by (simp add: host.publish_view [OF host_axioms])
qed (use assms in \<open>simp add: publishEndpoints_def\<close>)

lemma apply_publish_same:
  assumes "apply_publish env sw scope nm raw = (sw', er)"
  shows "view (snd sw') = view (snd sw)"
    and "(\<forall>a. k \<noteq> StatusKey ''ingress'' a) \<Longrightarrow> kview (fst sw') k = kview (fst sw) k"
proof -
  obtain s w where sw: "sw = (s, w)" by (cases sw)
  obtain w1 er1 where p: "publishEndpoints env w ''deployment'' scope nm raw = (w1, er1)"
    by (cases "publishEndpoints env w ''deployment'' scope nm raw")
  have v: "view w1 = view w" by (rule publish_view [OF p])
  obtain sw2 er2 where r: "republishIngresses env (s, w1) scope nm = (sw2, er2)"
    by (cases "republishIngresses env (s, w1) scope nm")
  have v2: "view (snd sw2) = view w1" using republishIngresses_view [of "(s, w1)" scope nm] r by simp
  have k2: "kview (fst sw2) k = kview s k" if "\<forall>a. k \<noteq> StatusKey ''ingress'' a"
    using r republish_kview [OF that, of "(s, w1)" scope nm]
    by (auto simp: republishIngresses_def split: sum.splits if_splits)
  show "view (snd sw') = view (snd sw)"
    using assms sw p r v v2 by (auto simp: apply_publish_def split: option.splits)
  show "kview (fst sw') k = kview (fst sw) k" if "\<forall>a. k \<noteq> StatusKey ''ingress'' a"
    using assms sw p r k2 [OF that] by (auto simp: apply_publish_def split: option.splits)
qed

lemma slot_names_listing:
  assumes "cm_list cm w k scope nm = Inr ss" and "k \<noteq> []" and "nm \<noteq> []"
    and "cm_list cm w' k scope nm = Inr ss'" and "view w' = (\<lambda>n. if n \<in> sl_name ` set ss then None else view w n)"
  shows "ss' = []"
proof -
  have "sl_name ` set ss' = {}"
    using listed_names(1) [OF assms(1-3)] listed_names(1) [OF assms(4,2,3)] assms(5)
    by (auto simp: slot_names_def split: if_splits)
  then show ?thesis by simp
qed

end

section \<open>A converged deployment is left alone\<close>

context host
begin

lemma converged:
  assumes ap: "apply_spec env (s, w) scope nm app spec0 False raw = ((s', w'), r)"
    and legacy: "cm_list_legacy cm w app = Inr []"
    and ls: "cm_list cm w ''deployment'' scope nm = Inr live" and "live \<noteq> []"
    and cnt: "int (length live) = effectiveReplicas spec0"
    and sp: "e_interp_spec env s spec0 = Inr spec"
    and st: "GetStatus cl s ''deployment'' app = Inr (Some (DStatus prev))"
    and hash: "ds_spec_hash prev = deploymentSpecHash (e_sha env) spec0
        (resolveStampedOrLookup (sp_digests spec0) (e_lookup_digests env s spec0))"
    and ne: "ds_spec_hash prev \<noteq> []" and reps: "ds_replicas prev = effectiveReplicas spec0"
    and ids: "cm_ids_differ cm w (sl_name (hd live)) (sp_image spec) = Inr False"
  shows "view w' = view w \<and> (\<forall>k. (\<forall>a. k \<noteq> StatusKey ''ingress'' a) \<longrightarrow> kview s' k = kview s k)"
proof -
  let ?h = "deploymentSpecHash (e_sha env) spec0 (resolveStampedOrLookup (sp_digests spec0) (e_lookup_digests env s spec0))"
  have lg: "fst (pruneLegacyContainers env w app) = w" using legacy by (simp add: pruneLegacyContainers_def)
  have ld: "status_or_empty (loadDeploymentStatus cl s app) = prev"
    using st by (simp add: loadDeploymentStatus_def status_or_empty_def)
  obtain x xs where lv: "live = x # xs" using \<open>live \<noteq> []\<close> by (cases live) auto
  have nr: "\<not> mints_release env w prev spec ?h (effectiveReplicas spec0) live"
    using hash ne reps ids by (simp add: mints_release_def Let_def image_id_drift_def lv)
  have dr: "apply_drift env (s, w) scope nm app [] spec ?h [] = ((s, w), Inr False)"
    using drift_nothing [of "(s, w)" scope nm live app prev ?h spec "[]"] ls \<open>live \<noteq> []\<close> st hash ids by simp
  have sc: "apply_scale env (s, w) scope nm app live (effectiveReplicas spec0) spec ?h [] = ((s, w), Inr [])"
    by (rule scale_nothing [OF cnt])
  have "apply_spec env (s, w) scope nm app spec0 False raw =
      (case apply_publish env (s, w) scope nm raw of (sw7, er) \<Rightarrow> (sw7, er, False, []))"
    unfolding apply_spec_def Let_def by (simp add: lg ls sp ld nr sc dr apply_record_def)
  then have "apply_publish env (s, w) scope nm raw = ((s', w'), fst r)"
    using ap by (auto split: prod.splits)
  from apply_publish_same [OF this] show ?thesis by simp
qed

lemma written_status:
  assumes "writeDeploymentStatus cl s0 app img hash replicas = Inr s1" and "GetStatus cl s1 ''deployment'' app = Inr got"
  shows "\<exists>st. got = Some (DStatus st) \<and> ds_spec_hash st = hash \<and> kview s1 (StatusKey ''deployment'' app) = Some (DStatus st)"
  using assms put_law [of s0 "StatusKey ''deployment'' app"] get_law [of s1 "StatusKey ''deployment'' app"]
  by (fastforce simp: writeDeploymentStatus_def PutStatus_def GetStatus_def Let_def split: sum.splits)

lemma grow_hides_drift:
  assumes sc: "apply_scale env sw scope nm app live replicas spec hash rel = ((s1, w1), Inr created)"
    and wr: "writeDeploymentStatus cl s0 app (sp_image spec) hash replicas = Inr s1"
      "GetStatus cl s1 ''deployment'' app = Inr got"
    and ls: "cm_list cm w1 ''deployment'' scope nm = Inr current"
    and ids: "\<forall>s \<in> set current. cm_ids_differ cm w1 (sl_name s) (sp_image spec) = Inr False"
  shows "apply_drift env (s1, w1) scope nm app created spec hash rel = ((s1, w1), Inr False)
    \<and> (\<exists>st. kview s1 (StatusKey ''deployment'' app) = Some (DStatus st) \<and> ds_spec_hash st = hash)"
proof -
  obtain st where st: "got = Some (DStatus st)" "ds_spec_hash st = hash"
    "kview s1 (StatusKey ''deployment'' app) = Some (DStatus st)"
    using written_status [OF wr] by blast
  have "apply_drift env (s1, w1) scope nm app created spec hash rel = ((s1, w1), Inr False)"
    by (rule drift_ids_only [of _ scope nm current app st])
      (use ls ids wr(2) st in \<open>auto simp: filterSlots_def list_all_iff\<close>)
  then show ?thesis using st by blast
qed

lemma remove_all_gone:
  assumes rm: "remove_deployment env (s, w) scope nm = ((s', w'), None)" and nm: "nm \<noteq> []"
    and ls': "cm_list cm w' ''deployment'' scope nm = Inr live'"
  shows "live' = [] \<and> kview s' (StatusKey ''deployment'' (AppID scope nm)) = None"
proof -
  obtain slots w1 legacy where l: "cm_list cm w ''deployment'' scope nm = Inr slots"
    "remove_slots env w (AppID scope nm) (map sl_name slots) = (w1, None)"
    "cm_list_legacy cm w1 (AppID scope nm) = Inr legacy"
    "remove_slots env w1 (AppID scope nm) legacy = (w', None)"
    "DeleteStatus cl s ''deployment'' (AppID scope nm) = Inr s'"
    using rm by (auto simp: remove_deployment_def Let_def split: sum.splits prod.splits option.splits)
  have v1: "view w1 = (\<lambda>n. if n \<in> sl_name ` set slots then None else view w n)"
    using remove_slots_ok [OF l(2)] by simp
  have "slot_names (view w') ''deployment'' scope nm = {}"
    using remove_slots_ok [OF l(4)] v1 listed_names(1) [OF l(1) _ nm]
    by (auto simp: slot_names_def split: if_splits)
  then have "live' = []" using listed_names(1) [OF ls' _ nm] by simp
  moreover have "kview s' (StatusKey ''deployment'' (AppID scope nm)) = None"
    using l(5) delete_law by (auto simp: DeleteStatus_def split: sum.splits)
  ultimately show ?thesis by simp
qed

end

section \<open>Properties\<close>


definition web_status :: "string \<Rightarrow> int \<Rightarrow> kv_state" where
  "web_status h n = ([(''/status/deployments/prod-web'', DStatus (empty_status\<lparr>ds_spec_hash := h, ds_replicas := n\<rparr>))], False)"

definition tagged_host :: "string list \<Rightarrow> string list \<Rightarrow> dockerd" where
  "tagged_host rs fresh = (web_host rs fresh)\<lparr>dd_tags := [(''web:2'', ''web:1'')]\<rparr>"

definition web_one :: deployment_spec where
  "web_one = web_spec\<lparr>sp_replicas := 1\<rparr>"

lemma web_status_read: "GetStatus kv_client (web_status h n) ''deployment'' ''prod-web'' =
    Inr (Some (DStatus (empty_status\<lparr>ds_spec_hash := h, ds_replicas := n\<rparr>)))"
  by (simp add: GetStatus_def kv_client_def kv_ret_def web_status_def StatusKey_def)


text \<open>
  A pass that adds replicas records the new spec hash before it looks for drift, so when the same
  manifest also changes anything but the image, the drift check sees nothing to do: the replicas that
  were there go on with the old spec, and no later pass replaces them, because the recorded hash is
  already the new one.
\<close>

theorem grow_hides_spec_change:
  assumes "host cm view cl kview env"
    and "apply_scale env sw scope nm app live replicas spec hash rel = ((s1, w1), Inr created)"
    and "writeDeploymentStatus cl s0 app (sp_image spec) hash replicas = Inr s1"
    and "GetStatus cl s1 ''deployment'' app = Inr got"
    and "cm_list cm w1 ''deployment'' scope nm = Inr current"
    and "\<forall>s \<in> set current. cm_ids_differ cm w1 (sl_name s) (sp_image spec) = Inr False"
  shows "apply_drift env (s1, w1) scope nm app created spec hash rel = ((s1, w1), Inr False)
    \<and> (\<exists>st. kview s1 (StatusKey ''deployment'' app) = Some (DStatus st) \<and> ds_spec_hash st = hash)"
  by (rule host.grow_hides_drift [OF assms])

definition grown :: "(kv_state \<times> dockerd) \<times> (herror + string list)" where
  "grown = apply_scale demo_env (web_status ''h1'' 1, tagged_host [''a1''] [''b2'']) ''prod'' ''web'' ''prod-web''
     (web_listing (tagged_host [''a1''] [''b2''])) 2 (web_spec\<lparr>sp_image := ''web:1''\<rparr>) ''h2'' []"

theorem grow_hides_spec_change_witness:
  "apply_drift demo_env (fst grown) ''prod'' ''web'' ''prod-web'' [''prod-web.b2''] (web_spec\<lparr>sp_image := ''web:1''\<rparr>) ''h2'' []
     = (fst grown, Inr False)"
proof -
  let ?sp = "web_spec\<lparr>sp_image := ''web:1''\<rparr>"
  have e: "web_listed (snd (fst grown))" "case snd grown of Inr c \<Rightarrow> c = [''prod-web.b2''] | Inl _ \<Rightarrow> False"
    "\<forall>s \<in> set (web_listing (snd (fst grown))).
       cm_ids_differ (docker_manager dockerd_cli) (snd (fst grown)) (sl_name s) (sp_image ?sp) = Inr False"
    "case writeDeploymentStatus kv_client (web_status ''h1'' 1) ''prod-web'' (sp_image ?sp) ''h2'' 2 of
       Inr s \<Rightarrow> s = fst (fst grown) | Inl _ \<Rightarrow> False"
    "case GetStatus kv_client (fst (fst grown)) ''deployment'' ''prod-web'' of Inr _ \<Rightarrow> True | Inl _ \<Rightarrow> False"
    by code_simp+
  obtain got where g: "GetStatus kv_client (fst (fst grown)) ''deployment'' ''prod-web'' = Inr got"
    using e(5) by (auto split: sum.splits)
  have w: "writeDeploymentStatus kv_client (web_status ''h1'' 1) ''prod-web'' (sp_image ?sp) ''h2'' 2 = Inr (fst (fst grown))"
    using e(4) by (auto split: sum.splits)
  have "grown = ((fst (fst grown), snd (fst grown)), Inr [''prod-web.b2''])"
    using e(2) by (auto simp: prod_eq_iff split: sum.splits)
  then have "apply_scale demo_env (web_status ''h1'' 1, tagged_host [''a1''] [''b2'']) ''prod'' ''web'' ''prod-web''
     (web_listing (tagged_host [''a1''] [''b2''])) 2 ?sp ''h2'' [] = ((fst (fst grown), snd (fst grown)), Inr [''prod-web.b2''])"
    unfolding grown_def .
  from grow_hides_spec_change [OF demo.host_axioms this w g web_listing_ok [OF e(1)] e(3)]
  show ?thesis by simp
qed



end
