(* ===== verification/Ingress.thy ===== *)
theory Ingress
  imports Apply
begin

text \<open>
  \<open>IngressHandler\<close> of \<open>internal/controller/handlers_service.go\<close>: the upstream of an ingress, the
  environment its plugin is invoked with, \<open>apply\<close>, \<open>remove\<close>, \<open>RepublishFor\<close>, and the repair of stuck
  ingresses after a deployment reconciled. The plugin and the mesh resolver are third parties: two
  fields of the handler's record. Environment values that the code marshals are kept as JSON values.
\<close>

section \<open>The handler and its spec\<close>

record plugin_envelope =
  en_status :: string
  en_error :: string
  en_data :: "json option"

record plugin_result =
  pl_exit :: int
  pl_envelope :: "plugin_envelope option"
  pl_stderr :: string
  pl_raw :: string

type_synonym plugin_env = "(string \<times> json) list"

record ('s, 'w) ingress_handler =
  ih_cl :: "'s etcd"
  ih_cm :: "'w container_manager"
  ih_plugin :: string
  ih_invoke :: "'w \<Rightarrow> string \<Rightarrow> string \<Rightarrow> string list \<Rightarrow> plugin_env \<Rightarrow> 'w \<times> (string + plugin_result)"
  ih_remote :: "('w \<Rightarrow> string \<Rightarrow> string list) option"

record ingress_tls =
  tls_enabled :: bool
  tls_provider :: string
  tls_email :: string
  tls_on_demand :: bool
  tls_ask :: string

record ingress_lb =
  lb_policy :: string
  lb_interval :: string

record ingress_location =
  loc_path :: string
  loc_strip :: bool

record ingress_spec =
  is_host :: string
  is_service :: string
  is_port :: int
  is_tls :: "ingress_tls option"
  is_locations :: "ingress_location list"
  is_lb :: "ingress_lb option"

definition decode_tls :: "(string \<times> json) list \<Rightarrow> string + ingress_tls" where
  "decode_tls ob =
     bind_ok (jbool ''enabled'' ob) (\<lambda>e. bind_ok (jstr ''provider'' ob) (\<lambda>p. bind_ok (jstr ''email'' ob) (\<lambda>m.
     bind_ok (jbool ''on_demand'' ob) (\<lambda>d. bind_ok (jstr ''ask'' ob) (\<lambda>a.
       Inr \<lparr>tls_enabled = e, tls_provider = p, tls_email = m, tls_on_demand = d, tls_ask = a\<rparr>)))))"

definition decode_lb :: "(string \<times> json) list \<Rightarrow> string + ingress_lb" where
  "decode_lb ob =
     bind_ok (jstr ''policy'' ob) (\<lambda>p. bind_ok (jstr ''interval'' ob) (\<lambda>i. Inr \<lparr>lb_policy = p, lb_interval = i\<rparr>))"

definition decode_location :: "json \<Rightarrow> string + ingress_location" where
  "decode_location j =
     bind_ok (jobj j) (\<lambda>ob. bind_ok (jstr ''path'' ob) (\<lambda>p. bind_ok (jbool ''strip'' ob) (\<lambda>s.
       Inr \<lparr>loc_path = p, loc_strip = s\<rparr>)))"

definition decode_ingress_spec :: "json \<Rightarrow> string + ingress_spec" where
  "decode_ingress_spec j =
     bind_ok (jobj j) (\<lambda>ob. bind_ok (jstr ''host'' ob) (\<lambda>h. bind_ok (jstr ''service'' ob) (\<lambda>s.
     bind_ok (jint ''port'' ob) (\<lambda>p. bind_ok (jopt ''tls'' ob decode_tls) (\<lambda>t.
     bind_ok (bind_ok (jlist ''locations'' ob) (decode_list decode_location)) (\<lambda>l.
     bind_ok (jopt ''lb'' ob decode_lb) (\<lambda>b.
       Inr \<lparr>is_host = h, is_service = s, is_port = p, is_tls = t, is_locations = l, is_lb = b\<rparr>)))))))"

section \<open>The upstream\<close>

record upstream =
  up_addrs :: "string list"
  up_hc_path :: string
  up_lb_interval :: string

definition healthCheckPathFor :: "deployment_spec \<Rightarrow> string" where
  "healthCheckPathFor dep =
     (case sp_probes dep of
        None \<Rightarrow> sp_health_check dep
      | Some ps \<Rightarrow>
          (case pr_readiness ps of
             None \<Rightarrow> sp_health_check dep
           | Some p \<Rightarrow>
               (case pb_http p of
                  None \<Rightarrow> sp_health_check dep
                | Some g \<Rightarrow> if hg_path g \<noteq> [] then hg_path g else sp_health_check dep)))"

definition lbIntervalFor :: "deployment_spec \<Rightarrow> ingress_lb option \<Rightarrow> string" where
  "lbIntervalFor dep lb =
     (let own = (case lb of None \<Rightarrow> [] | Some b \<Rightarrow> lb_interval b)
      in if own \<noteq> [] then own
         else case sp_probes dep of
                None \<Rightarrow> []
              | Some ps \<Rightarrow> (case pr_readiness ps of
                             None \<Rightarrow> []
                           | Some p \<Rightarrow> if pb_http p = None then [] else pb_period p))"

text \<open>\<open>LastIndexByte\<close>: what follows the last occurrence, the whole text when there is none.\<close>

definition after_last :: "char \<Rightarrow> string \<Rightarrow> string" where
  "after_last c s = rev (takeWhile (\<lambda>d. d \<noteq> c) (rev s))"

fun firstContainerPort :: "string list \<Rightarrow> int option" where
  "firstContainerPort [] = None"
| "firstContainerPort (raw # ports) =
     (let p = trim_space raw
      in if p = [] then firstContainerPort ports
         else let p1 = (case index_byte CHR ''/'' p of None \<Rightarrow> p | Some i \<Rightarrow> take i p);
                  p2 = after_last CHR '':'' p1
              in case atoi p2 of
                   Some n \<Rightarrow> if n > 0 then Some n else firstContainerPort ports
                 | None \<Rightarrow> firstContainerPort ports)"

definition lookupDeploymentSpec :: "('s, 'w) ingress_handler \<Rightarrow> 's \<Rightarrow> string \<Rightarrow> string \<Rightarrow> string + deployment_spec option" where
  "lookupDeploymentSpec h s scope nm =
     (case Get (ih_cl h) s ''deployment'' scope nm of
        Inl e \<Rightarrow> Inl e
      | Inr None \<Rightarrow> Inr None
      | Inr (Some m) \<Rightarrow>
          (case decodeDeploymentSpec m of
             Inl e \<Rightarrow> Inl (''decode deployment/'' @ nm @ '': '' @ e)
           | Inr spec \<Rightarrow> Inr (Some spec)))"

definition upstream_addr :: "string \<Rightarrow> int \<Rightarrow> string" where
  "upstream_addr target port = target @ '':'' @ itoa_int port"

definition deploymentUpstreams ::
  "('s, 'w) ingress_handler \<Rightarrow> 'w \<Rightarrow> string \<Rightarrow> string \<Rightarrow> int \<Rightarrow> herror + string list" where
  "deploymentUpstreams h w scope nm port =
     (let app = AppID scope nm
      in case cm_list (ih_cm h) w ''deployment'' scope nm of
           Inl e \<Rightarrow> Inl (Transient (''list deployment '' @ app @ '' replicas: '' @ e))
         | Inr slots \<Rightarrow>
             if slots = [] then Inl (Transient (''ingress: deployment '' @ app @ '' has no live replicas yet''))
             else let ups = map (\<lambda>s. upstream_addr (sl_name s) port) (filter sl_running slots)
                  in if ups = [] then Inl (Transient (''ingress: deployment '' @ app @ '' has replicas but none running yet''))
                     else Inr (sort_strs ups))"

definition remoteUpstream ::
  "('s, 'w) ingress_handler \<Rightarrow> 'w \<Rightarrow> string \<Rightarrow> string \<Rightarrow> ingress_spec \<Rightarrow> herror + upstream" where
  "remoteUpstream h w scope nm spec =
     (let none_yet = Transient (''ingress/'' @ nm @ '': no deployment named '' @ is_service spec @ '' yet'');
          mesh = foldl (\<lambda>found a. if has_suffix a ''.voodu'' then a else found) []
                   (BuildNetworkAliases scope (is_service spec))
      in case ih_remote h of
           None \<Rightarrow> Inl none_yet
         | Some remote \<Rightarrow>
             if mesh = [] then Inl none_yet
             else if remote w mesh = []
             then Inl (Transient (''ingress/'' @ nm @ '': no deployment named '' @ is_service spec @ '' on any host''))
             else if is_port spec = 0
             then Inl (Plain (''ingress/'' @ nm @ '': service runs on another host, set port explicitly''))
             else Inr \<lparr>up_addrs = [upstream_addr mesh (is_port spec)], up_hc_path = [], up_lb_interval = []\<rparr>)"

text \<open>The resolution fills in the port of the spec, which the plugin's environment shows.\<close>

definition resolveUpstream ::
  "('s, 'w) ingress_handler \<Rightarrow> 's \<times> 'w \<Rightarrow> string \<Rightarrow> string \<Rightarrow> ingress_spec \<Rightarrow> herror + ingress_spec \<times> upstream" where
  "resolveUpstream h sw scope nm spec =
     (case lookupDeploymentSpec h (fst sw) scope (is_service spec) of
        Inl e \<Rightarrow> Inl (Plain e)
      | Inr None \<Rightarrow> (case remoteUpstream h (snd sw) scope nm spec of Inl e \<Rightarrow> Inl e | Inr u \<Rightarrow> Inr (spec, u))
      | Inr (Some dep) \<Rightarrow>
          (let port = (if is_port spec = 0 then
                         (case firstContainerPort (sp_ports dep) of Some p \<Rightarrow> p | None \<Rightarrow> 80)
                       else is_port spec)
           in case deploymentUpstreams h (snd sw) scope (is_service spec) port of
                Inl e \<Rightarrow> Inl e
              | Inr ups \<Rightarrow> Inr (spec\<lparr>is_port := port\<rparr>,
                  \<lparr>up_addrs = ups, up_hc_path = healthCheckPathFor dep,
                   up_lb_interval = lbIntervalFor dep (is_lb spec)\<rparr>)))"

section \<open>Apply, remove, republish\<close>

definition env_entry :: "string \<Rightarrow> bool \<Rightarrow> json \<Rightarrow> plugin_env" where
  "env_entry k on v = (if on then [(k, v)] else [])"

definition location_json :: "ingress_location \<Rightarrow> json" where
  "location_json l = JObj ((''path'', JStr (loc_path l)) # (if loc_strip l then [(''strip'', JBool True)] else []))"

definition tls_env :: "ingress_tls \<Rightarrow> plugin_env" where
  "tls_env t =
     env_entry ''VOODU_INGRESS_TLS'' (tls_enabled t) (JStr ''true'')
     @ env_entry ''VOODU_INGRESS_TLS_PROVIDER'' (tls_provider t \<noteq> []) (JStr (tls_provider t))
     @ env_entry ''VOODU_INGRESS_TLS_EMAIL'' (tls_email t \<noteq> []) (JStr (tls_email t))
     @ env_entry ''VOODU_INGRESS_TLS_ON_DEMAND'' (tls_on_demand t) (JStr ''true'')
     @ env_entry ''VOODU_INGRESS_TLS_ASK'' (tls_ask t \<noteq> []) (JStr (tls_ask t))"

definition ingressApplyEnv :: "string \<Rightarrow> ingress_spec \<Rightarrow> upstream \<Rightarrow> plugin_env" where
  "ingressApplyEnv app spec up =
     [(''VOODU_APP'', JStr app), (''VOODU_INGRESS_HOST'', JStr (is_host spec)),
      (''VOODU_INGRESS_SERVICE'', JStr (is_service spec))]
     @ env_entry ''VOODU_INGRESS_PORT'' (is_port spec > 0) (JStr (itoa_int (is_port spec)))
     @ env_entry ''VOODU_INGRESS_UPSTREAMS'' (up_addrs up \<noteq> []) (JList (map JStr (up_addrs up)))
     @ (case is_lb spec of None \<Rightarrow> []
        | Some b \<Rightarrow> env_entry ''VOODU_INGRESS_LB_POLICY'' (lb_policy b \<noteq> []) (JStr (lb_policy b)))
     @ env_entry ''VOODU_INGRESS_LB_INTERVAL'' (up_lb_interval up \<noteq> []) (JStr (up_lb_interval up))
     @ env_entry ''VOODU_INGRESS_HC_PATH'' (up_hc_path up \<noteq> []) (JStr (up_hc_path up))
     @ (case is_tls spec of None \<Rightarrow> [] | Some t \<Rightarrow> tls_env t)
     @ env_entry ''VOODU_INGRESS_LOCATIONS'' (is_locations spec \<noteq> []) (JList (map location_json (is_locations spec)))"

definition pluginErrorDetail :: "plugin_result \<Rightarrow> string" where
  "pluginErrorDetail res =
     (let en = (case pl_envelope res of None \<Rightarrow> [] | Some e \<Rightarrow> en_error e);
          er = trim_space (pl_stderr res); raw = trim_space (pl_raw res)
      in if en \<noteq> [] then en else if er \<noteq> [] then er else if raw \<noteq> [] then raw else ''no output'')"

definition envelopeDataAsMap :: "json option \<Rightarrow> (string \<times> json) list option" where
  "envelopeDataAsMap d =
     (case d of None \<Rightarrow> None | Some JNull \<Rightarrow> None | Some (JObj fs) \<Rightarrow> Some fs | Some v \<Rightarrow> Some [(''value'', v)])"

definition ingress_plugin :: "string \<Rightarrow> string" where
  "ingress_plugin n = (if n = [] then ''caddy'' else n)"

definition service_of :: "string \<Rightarrow> ingress_spec \<Rightarrow> string" where
  "service_of nm spec = (if is_service spec = [] then nm else is_service spec)"

text \<open>What the plugin's answer means: an error, or the data for the status.\<close>

definition plugin_answer :: "string \<Rightarrow> ingress_spec \<Rightarrow> plugin_result \<Rightarrow> string + (string \<times> json) list" where
  "plugin_answer pn spec res =
     (let fallback = [(''host'', JStr (is_host spec)), (''service'', JStr (is_service spec))]
      in if pl_exit res \<noteq> 0
         then Inl (pn @ '' apply exited '' @ itoa_int (pl_exit res) @ '': '' @ pluginErrorDetail res)
         else case pl_envelope res of
                None \<Rightarrow> Inr fallback
              | Some e \<Rightarrow>
                  if en_status e = ''error'' then Inl (pn @ '' apply: '' @ en_error e)
                  else Inr (case envelopeDataAsMap (en_data e) of None \<Rightarrow> fallback | Some fs \<Rightarrow> fs))"

definition apply_ingress ::
  "('s, 'w) ingress_handler \<Rightarrow> 's \<times> 'w \<Rightarrow> string \<Rightarrow> string \<Rightarrow> manifest option \<Rightarrow> ('s \<times> 'w) \<times> herror option" where
  "apply_ingress h sw scope nm m =
     (case m of
        None \<Rightarrow> (sw, Some (Plain ''put event without manifest''))
      | Some mf \<Rightarrow>
          (case decode_ingress_spec (m_spec mf) of
             Inl e \<Rightarrow> (sw, Some (Plain (''decode ingress spec: '' @ e)))
           | Inr spec0 \<Rightarrow>
               (let spec = spec0\<lparr>is_service := service_of nm spec0\<rparr>
                in if is_host spec = [] then (sw, Some (Plain (''ingress/'' @ nm @ '': host is required'')))
                   else case resolveUpstream h sw scope nm spec of
                          Inl e \<Rightarrow> (sw, Some e)
                        | Inr (spec1, up) \<Rightarrow>
                            (let pn = ingress_plugin (ih_plugin h); app = AppID scope nm
                             in case ih_invoke h (snd sw) pn ''apply'' [app] (ingressApplyEnv app spec1 up) of
                                  (w1, Inl e) \<Rightarrow> ((fst sw, w1), Some (Plain e))
                                | (w1, Inr res) \<Rightarrow>
                                    (case plugin_answer pn spec1 res of
                                       Inl e \<Rightarrow> ((fst sw, w1), Some (Plain e))
                                     | Inr d \<Rightarrow>
                                         (case PutStatus (ih_cl h) (fst sw) ''ingress'' app
                                                 (DIngressStatus (empty_ingress_status\<lparr>ig_plugin := pn, ig_data := d\<rparr>)) of
                                            Inl e \<Rightarrow> ((fst sw, w1), Some (Plain e))
                                          | Inr s1 \<Rightarrow> ((s1, w1), None)))))))"

fun republish_all ::
  "('s, 'w) ingress_handler \<Rightarrow> 's \<times> 'w \<Rightarrow> string \<Rightarrow> string \<Rightarrow> manifest list \<Rightarrow> ('s \<times> 'w) \<times> herror option" where
  "republish_all h sw scope dep [] = (sw, None)"
| "republish_all h sw scope dep (m # ms) =
     (case decode_ingress_spec (m_spec m) of
        Inl e \<Rightarrow> republish_all h sw scope dep ms
      | Inr spec \<Rightarrow>
          if service_of (m_name m) spec \<noteq> dep then republish_all h sw scope dep ms
          else case apply_ingress h sw scope (m_name m) (Some m) of
                 (sw1, Some e) \<Rightarrow> (sw1, Some (wrap (''republish ingress/'' @ m_name m @ '': '') e))
               | (sw1, None) \<Rightarrow> republish_all h sw1 scope dep ms)"

definition RepublishFor ::
  "('s, 'w) ingress_handler \<Rightarrow> 's \<times> 'w \<Rightarrow> string \<Rightarrow> string \<Rightarrow> ('s \<times> 'w) \<times> herror option" where
  "RepublishFor h sw scope dep =
     (case ListByScope (ih_cl h) (fst sw) ''ingress'' scope of
        Inl e \<Rightarrow> (sw, Some (Transient (''list ingresses in scope '' @ scope @ '': '' @ e)))
      | Inr ms \<Rightarrow> republish_all h sw scope dep ms)"

definition remove_ingress ::
  "('s, 'w) ingress_handler \<Rightarrow> 's \<times> 'w \<Rightarrow> string \<Rightarrow> string \<Rightarrow> ('s \<times> 'w) \<times> herror option" where
  "remove_ingress h sw scope nm =
     (let app = AppID scope nm
      in case GetStatus (ih_cl h) (fst sw) ''ingress'' app of
           Inl e \<Rightarrow> (sw, Some (Plain e))
         | Inr None \<Rightarrow> (sw, None)
         | Inr (Some (DIngressStatus st)) \<Rightarrow>
             (let pn = ingress_plugin (ig_plugin st)
              in case ih_invoke h (snd sw) pn ''remove'' [app] [(''VOODU_APP'', JStr app)] of
                   (w1, Inl e) \<Rightarrow> ((fst sw, w1), Some (Plain e))
                 | (w1, Inr res) \<Rightarrow>
                     if pl_exit res \<noteq> 0
                     then ((fst sw, w1), Some (Plain (pn @ '' remove exited '' @ itoa_int (pl_exit res) @ '': '' @ pluginErrorDetail res)))
                     else case DeleteStatus (ih_cl h) (fst sw) ''ingress'' app of
                            Inl e \<Rightarrow> ((fst sw, w1), Some (Plain e))
                          | Inr s1 \<Rightarrow> ((s1, w1), None))
         | Inr (Some _) \<Rightarrow> (sw, Some (Plain ''decode ingress status'')))"

section \<open>Stuck ingresses\<close>

text \<open>An ingress is left alone when its recorded status carries no error.\<close>

definition ingress_healthy :: "'s etcd \<Rightarrow> 's \<Rightarrow> string \<Rightarrow> bool" where
  "ingress_healthy cl s app =
     (case GetStatus cl s ''ingress'' app of
        Inr (Some (DIngressStatus st)) \<Rightarrow> ig_last_error st = []
      | _ \<Rightarrow> False)"

fun retrigger_all :: "'s etcd \<Rightarrow> int \<Rightarrow> 's \<Rightarrow> string \<Rightarrow> manifest list \<Rightarrow> 's" where
  "retrigger_all cl now s dep [] = s"
| "retrigger_all cl now s dep (m # ms) =
     (case decode_ingress_spec (m_spec m) of
        Inl e \<Rightarrow> retrigger_all cl now s dep ms
      | Inr spec \<Rightarrow>
          if service_of (m_name m) spec \<noteq> dep \<or> ingress_healthy cl s (AppID (m_scope m) (m_name m))
          then retrigger_all cl now s dep ms
          else case Put cl s now m of
                 Inl e \<Rightarrow> retrigger_all cl now s dep ms
               | Inr (s1, _) \<Rightarrow> retrigger_all cl now s1 dep ms)"

definition retriggerDependentIngresses :: "'s etcd \<Rightarrow> int \<Rightarrow> 's \<Rightarrow> string \<Rightarrow> string \<Rightarrow> 's" where
  "retriggerDependentIngresses cl now s scope dep =
     (case ListByScope cl s ''ingress'' scope of
        Inl e \<Rightarrow> s
      | Inr ms \<Rightarrow> retrigger_all cl now s dep ms)"

section \<open>What the rolling restart may rely on\<close>

text \<open>A handler over a plugin that leaves the containers of the host alone.\<close>

locale ingress_provider = container_api cm view + etcd_api cl kview
  for cm :: "'w container_manager" and view :: "'w \<Rightarrow> containers"
    and cl :: "'s etcd" and kview :: "'s \<Rightarrow> kv" +
  fixes h :: "('s, 'w) ingress_handler"
  assumes handler_cm: "ih_cm h = cm" and handler_cl: "ih_cl h = cl"
    and invoke_view: "view (fst (ih_invoke h w pn cmd args pe)) = view w"
begin

lemmas handler_simps [simp] = handler_cm handler_cl

lemma invoke_same: "ih_invoke h w pn cmd args pe = (w', r) \<Longrightarrow> view w' = view w"
  using invoke_view [of w pn cmd args pe] by simp

lemma apply_ingress_view: "view (snd (fst (apply_ingress h sw scope nm m))) = view (snd sw)"
  by (auto simp: apply_ingress_def Let_def dest: invoke_same split: option.splits sum.splits prod.splits)

lemma apply_ingress_kview:
  assumes "\<forall>a. k \<noteq> StatusKey ''ingress'' a"
  shows "kview (fst (fst (apply_ingress h sw scope nm m))) k = kview (fst sw) k"
  using assms put_law
  by (auto simp: apply_ingress_def Let_def PutStatus_def split: option.splits sum.splits prod.splits)

lemma republish_step:
  "republish_all h sw scope dep (m # ms) \<in>
     {republish_all h sw scope dep ms, republish_all h (fst (apply_ingress h sw scope (m_name m) (Some m))) scope dep ms}
   \<or> fst (republish_all h sw scope dep (m # ms)) = fst (apply_ingress h sw scope (m_name m) (Some m))"
  by (auto split: sum.split prod.split option.split)

lemma republish_all_same:
  "view (snd (fst (republish_all h sw scope dep ms))) = view (snd sw) \<and>
   ((\<forall>a. k \<noteq> StatusKey ''ingress'' a) \<longrightarrow> kview (fst (fst (republish_all h sw scope dep ms))) k = kview (fst sw) k)"
proof (induction ms arbitrary: sw)
  case (Cons m ms)
  note ap = apply_ingress_view [of sw scope "m_name m" "Some m"] apply_ingress_kview [of k sw scope "m_name m" "Some m"]
  from republish_step [of sw scope dep m ms] Cons.IH [of sw]
    Cons.IH [of "fst (apply_ingress h sw scope (m_name m) (Some m))"] ap
  show ?case by (elim disjE insertE) (simp_all del: republish_all.simps)
qed simp

lemma RepublishFor_view: "view (snd (fst (RepublishFor h sw scope dep))) = view (snd sw)"
  by (auto simp: RepublishFor_def republish_all_same split: sum.splits)

lemma RepublishFor_kview:
  "(\<forall>a. k \<noteq> StatusKey ''ingress'' a) \<Longrightarrow> kview (fst (fst (RepublishFor h sw scope dep))) k = kview (fst sw) k"
  by (auto simp: RepublishFor_def republish_all_same split: sum.splits)

lemma upstreams_exact:
  assumes "deploymentUpstreams h w scope nm port = Inr ups" and "nm \<noteq> []"
  shows "ups \<noteq> [] \<and> sorted_wrt le_str ups
    \<and> set ups = (\<lambda>n. upstream_addr n port) ` running_names (view w) ''deployment'' scope nm"
proof -
  obtain slots where ls: "cm_list cm w ''deployment'' scope nm = Inr slots"
    and ups: "ups = sort_strs (map (\<lambda>s. upstream_addr (sl_name s) port) (filter sl_running slots))"
    and ne: "filter sl_running slots \<noteq> []"
    using assms(1) by (auto simp: deploymentUpstreams_def Let_def split: sum.splits if_splits)
  have "set ups = (\<lambda>n. upstream_addr n port) ` sl_name ` set (filter sl_running slots)"
    unfolding ups by (auto simp: image_image)
  moreover have "set ups \<noteq> {}" using ne unfolding ups by (auto simp: filter_empty_conv)
  moreover have "sl_name ` set (filter sl_running slots) = running_names (view w) ''deployment'' scope nm"
    using listed_names(2) [OF ls] assms(2) by simp
  moreover have "sorted_wrt le_str ups" unfolding ups by (rule sort_strs_sorted)
  ultimately show ?thesis by auto
qed

text \<open>A successful \<open>apply\<close> told the plugin exactly the running replicas of the service.\<close>

lemma apply_tells_plugin:
  assumes ap: "apply_ingress h (s, w) scope nm (Some m) = ((s', w'), None)"
    and spec: "decode_ingress_spec (m_spec m) = Inr spec"
    and local: "lookupDeploymentSpec h s scope (service_of nm spec) = Inr (Some dep)"
    and ne: "service_of nm spec \<noteq> []"
  shows "\<exists>pe res port ups. ih_invoke h w (ingress_plugin (ih_plugin h)) ''apply'' [AppID scope nm] pe = (w', Inr res)
    \<and> pl_exit res = 0 \<and> map_of pe ''VOODU_INGRESS_UPSTREAMS'' = Some (JList (map JStr ups)) \<and> sorted_wrt le_str ups
    \<and> set ups = (\<lambda>n. upstream_addr n port) ` running_names (view w) ''deployment'' scope (service_of nm spec)
    \<and> (\<exists>st. kview s' (StatusKey ''ingress'' (AppID scope nm)) = Some (DIngressStatus st) \<and> ig_last_error st = [])"
proof -
  obtain port ups where up: "deploymentUpstreams h w scope (service_of nm spec) port = Inr ups"
    and rs: "resolveUpstream h (s, w) scope nm (spec\<lparr>is_service := service_of nm spec\<rparr>) =
      Inr (spec\<lparr>is_service := service_of nm spec, is_port := port\<rparr>,
        \<lparr>up_addrs = ups, up_hc_path = healthCheckPathFor dep, up_lb_interval = lbIntervalFor dep (is_lb spec)\<rparr>)"
    using ap spec local
    by (auto simp: apply_ingress_def resolveUpstream_def Let_def split: sum.splits if_splits)
  define pe where "pe = ingressApplyEnv (AppID scope nm) (spec\<lparr>is_service := service_of nm spec, is_port := port\<rparr>)
      \<lparr>up_addrs = ups, up_hc_path = healthCheckPathFor dep, up_lb_interval = lbIntervalFor dep (is_lb spec)\<rparr>"
  obtain w1 r where inv: "ih_invoke h w (ingress_plugin (ih_plugin h)) ''apply'' [AppID scope nm] pe = (w1, r)"
    by (cases "ih_invoke h w (ingress_plugin (ih_plugin h)) ''apply'' [AppID scope nm] pe")
  obtain res d s1 where "r = Inr res" "plugin_answer (ingress_plugin (ih_plugin h))
        (spec\<lparr>is_service := service_of nm spec, is_port := port\<rparr>) res = Inr d" "w' = w1"
      "PutStatus cl s ''ingress'' (AppID scope nm)
        (DIngressStatus (empty_ingress_status\<lparr>ig_plugin := ingress_plugin (ih_plugin h), ig_data := d\<rparr>)) = Inr s1" "s' = s1"
    using ap spec rs inv
    by (auto simp: apply_ingress_def Let_def pe_def split: sum.splits if_splits prod.splits)
  moreover have "map_of pe ''VOODU_INGRESS_UPSTREAMS'' = Some (JList (map JStr ups))"
    using upstreams_exact [OF up ne] by (simp add: pe_def ingressApplyEnv_def env_entry_def)
  moreover have "pl_exit res = 0" using calculation(2) by (simp add: plugin_answer_def Let_def split: if_splits)
  ultimately show ?thesis
    using inv upstreams_exact [OF up ne] put_law [of s "StatusKey ''ingress'' (AppID scope nm)"]
    by (fastforce simp: PutStatus_def empty_ingress_status_def split: sum.splits)
qed

end

section \<open>The reference handler behind the deployment handler\<close>

text \<open>A plugin that always succeeds, over the reference daemon and the reference etcd client.\<close>

definition demo_ingress :: "(kv_state, dockerd) ingress_handler" where
  "demo_ingress = \<lparr>ih_cl = kv_client, ih_cm = docker_manager dockerd_cli, ih_plugin = [],
     ih_invoke = (\<lambda>d pn cmd args pe. (d, Inr \<lparr>pl_exit = 0, pl_envelope = None, pl_stderr = [], pl_raw = []\<rparr>)),
     ih_remote = None\<rparr>"

definition wired_env :: "(kv_state, dockerd) henv" where
  "wired_env = demo_env\<lparr>e_republish := RepublishFor demo_ingress\<rparr>"

interpretation demo_ih: ingress_provider "docker_manager dockerd_cli" dd_view kv_client kv_view demo_ingress
  by unfold_locales (simp_all add: demo_ingress_def)

text \<open>With it as the republisher, the deployment handler has everything it relies on.\<close>

interpretation wired: host "docker_manager dockerd_cli" dd_view kv_client kv_view wired_env
  by unfold_locales
    (simp_all add: wired_env_def demo_env_def draw_id_view demo_ih.RepublishFor_view demo_ih.RepublishFor_kview)

section \<open>Properties\<close>


definition web_ingress :: manifest where
  "web_ingress = \<lparr>m_kind = ''ingress'', m_scope = ''prod'', m_name = ''web'',
     m_spec = JObj [(''host'', JStr ''example.org''), (''port'', JNum 80)], m_metadata = None\<rparr>"

definition web_desired :: kv_state where
  "web_desired = ([(''/desired/deployments/prod/web'', DManifest
     \<lparr>m_kind = ''deployment'', m_scope = ''prod'', m_name = ''web'', m_spec = JObj [(''image'', JStr ''web:1'')],
      m_metadata = None\<rparr>)], False)"


end
