(* ===== verification/Reconciler.thy ===== *)
theory Reconciler
  imports Ingress
begin

text \<open>
  \<open>Reconciler\<close> of \<open>internal/controller/reconciler.go\<close> with \<open>retry.go\<close> and \<open>reconcile_status.go\<close>: events
  go to the handler of their kind; a transient failure is retried after a backoff from a goroutine of
  its own, against the manifest as it is then. The goroutines waiting for their backoff are a list of
  pending retries; a step takes a watch event, fires one pending retry, or lets the rest of the
  control plane (the API, other handlers) change etcd and the host.
\<close>

section \<open>Events and errors\<close>

datatype event_type = WatchPut | WatchDelete

record watch_event =
  ev_type :: event_type
  ev_kind :: string
  ev_scope :: string
  ev_name :: string
  ev_manifest :: "manifest option"
  ev_revision :: int

fun err_text :: "herror \<Rightarrow> string" where
  "err_text (Plain e) = e"
| "err_text (Transient e) = e"

fun isTransient :: "herror \<Rightarrow> bool" where
  "isTransient (Plain e) = False"
| "isTransient (Transient e) = True"

text \<open>Seconds before an attempt.\<close>

definition retryBackoff :: "nat \<Rightarrow> nat" where
  "retryBackoff attempt =
     (if attempt \<le> 1 then 1
      else if attempt = 2 then 2
      else if attempt = 3 then 4
      else if attempt = 4 then 8
      else if attempt = 5 then 16
      else 30)"

definition maxRetryAttempts :: nat where
  "maxRetryAttempts = 6"

section \<open>The outcome recorded\<close>

definition recordOutcome :: "deployment_status \<Rightarrow> int \<Rightarrow> string \<Rightarrow> deployment_status" where
  "recordOutcome st at msg = st\<lparr>ds_last_at := at, ds_last_error := msg\<rparr>"

definition recordIngressOutcome :: "ingress_status \<Rightarrow> int \<Rightarrow> string \<Rightarrow> ingress_status" where
  "recordIngressOutcome st at msg = st\<lparr>ig_last_at := at, ig_last_error := msg\<rparr>"

text \<open>
  The status blob of a kind with the outcome stamped on it: the zero blob when there is none, and
  nothing when the stored blob cannot be read or is of another shape.
\<close>

definition stamped_outcome :: "string \<Rightarrow> doc option \<Rightarrow> int \<Rightarrow> string \<Rightarrow> doc option" where
  "stamped_outcome k stored at msg =
     (if k = ''ingress'' then
        (case stored of
           None \<Rightarrow> Some (DIngressStatus (recordIngressOutcome empty_ingress_status at msg))
         | Some (DIngressStatus st) \<Rightarrow> Some (DIngressStatus (recordIngressOutcome st at msg))
         | Some _ \<Rightarrow> None)
      else
        (case stored of
           None \<Rightarrow> Some (DStatus (recordOutcome empty_status at msg))
         | Some (DStatus st) \<Rightarrow> Some (DStatus (recordOutcome st at msg))
         | Some _ \<Rightarrow> None))"

definition persistReconcileOutcome :: "'s etcd \<Rightarrow> int \<Rightarrow> 's \<Rightarrow> string \<Rightarrow> string \<Rightarrow> herror option \<Rightarrow> 's" where
  "persistReconcileOutcome cl now s k app er =
     (case GetStatus cl s k app of
        Inl e \<Rightarrow> s
      | Inr stored \<Rightarrow>
          (case stamped_outcome k stored now (case er of None \<Rightarrow> [] | Some e \<Rightarrow> err_text e) of
             None \<Rightarrow> s
           | Some d \<Rightarrow> (case PutStatus cl s k app d of Inl e \<Rightarrow> s | Inr s1 \<Rightarrow> s1)))"

definition recordReconcileResult :: "'s etcd \<Rightarrow> int \<Rightarrow> 's \<Rightarrow> watch_event \<Rightarrow> herror option \<Rightarrow> 's" where
  "recordReconcileResult cl now s ev er =
     (let app = AppID (ev_scope ev) (ev_name ev)
      in if ev_kind ev = ''deployment'' \<or> ev_kind ev = ''statefulset'' then
           (let s1 = persistReconcileOutcome cl now s (ev_kind ev) app er
            in if ev_kind ev = ''deployment'' \<and> er = None
               then retriggerDependentIngresses cl now s1 (ev_scope ev) (ev_name ev) else s1)
         else if ev_kind ev = ''ingress'' then persistReconcileOutcome cl now s ''ingress'' app er
         else s)"

section \<open>The reconciler\<close>

type_synonym ('s, 'w) handler = "'s \<times> 'w \<Rightarrow> watch_event \<Rightarrow> ('s \<times> 'w) \<times> herror option"

record ('s, 'w) reconciler =
  rk_cl :: "'s etcd"
  rk_now :: "'w \<Rightarrow> int"
  rk_handlers :: "string \<Rightarrow> ('s, 'w) handler option"

record ('s, 'w) recon =
  rc_state :: "'s \<times> 'w"
  rc_pending :: "(watch_event \<times> nat) list"
  rc_reports :: "(watch_event \<times> herror option) list"

definition fireOnReconcile :: "('s, 'w) reconciler \<Rightarrow> ('s, 'w) recon \<Rightarrow> watch_event \<Rightarrow> herror option \<Rightarrow> ('s, 'w) recon" where
  "fireOnReconcile rk st ev er =
     (case rc_state st of (s, w) \<Rightarrow>
        st\<lparr>rc_state := (recordReconcileResult (rk_cl rk) (rk_now rk w) s ev er, w),
           rc_reports := rc_reports st @ [(ev, er)]\<rparr>)"

definition scheduleRetry :: "('s, 'w) recon \<Rightarrow> watch_event \<Rightarrow> nat \<Rightarrow> ('s, 'w) recon" where
  "scheduleRetry st ev attempt = st\<lparr>rc_pending := rc_pending st @ [(ev, attempt)]\<rparr>"

definition handle_event :: "('s, 'w) reconciler \<Rightarrow> ('s, 'w) recon \<Rightarrow> watch_event \<Rightarrow> nat \<Rightarrow> ('s, 'w) recon" where
  "handle_event rk st ev attempt =
     (case rk_handlers rk (ev_kind ev) of
        None \<Rightarrow> st
      | Some h \<Rightarrow>
          (case h (rc_state st) ev of
             (sw, None) \<Rightarrow> fireOnReconcile rk (st\<lparr>rc_state := sw\<rparr>) ev None
           | (sw, Some e) \<Rightarrow>
               if \<not> isTransient e then fireOnReconcile rk (st\<lparr>rc_state := sw\<rparr>) ev (Some e)
               else if attempt \<ge> maxRetryAttempts then fireOnReconcile rk (st\<lparr>rc_state := sw\<rparr>) ev (Some e)
               else scheduleRetry (st\<lparr>rc_state := sw\<rparr>) ev (attempt + 1)))"

definition put_event :: "manifest \<Rightarrow> watch_event" where
  "put_event m = \<lparr>ev_type = WatchPut, ev_kind = m_kind m, ev_scope = m_scope m, ev_name = m_name m,
     ev_manifest = Some m, ev_revision = (case m_metadata m of None \<Rightarrow> 0 | Some md \<Rightarrow> revision md)\<rparr>"

text \<open>The goroutine of a retry, once its backoff is over.\<close>

definition fire_retry :: "('s, 'w) reconciler \<Rightarrow> ('s, 'w) recon \<Rightarrow> watch_event \<Rightarrow> nat \<Rightarrow> ('s, 'w) recon" where
  "fire_retry rk st ev attempt =
     (case Get (rk_cl rk) (fst (rc_state st)) (ev_kind ev) (ev_scope ev) (ev_name ev) of
        Inl e \<Rightarrow> st
      | Inr None \<Rightarrow> st
      | Inr (Some m) \<Rightarrow> handle_event rk st (put_event m) attempt)"

definition replay :: "('s, 'w) reconciler \<Rightarrow> ('s, 'w) recon \<Rightarrow> string + ('s, 'w) recon" where
  "replay rk st =
     (case ListAll (rk_cl rk) (fst (rc_state st)) of
        Inl e \<Rightarrow> Inl e
      | Inr ms \<Rightarrow> Inr (foldl (\<lambda>st m. handle_event rk st (put_event m) 1) st ms))"

definition drop_nth :: "nat \<Rightarrow> 'a list \<Rightarrow> 'a list" where
  "drop_nth i xs = take i xs @ drop (Suc i) xs"

inductive retry_step :: "('s, 'w) reconciler \<Rightarrow> ('s, 'w) recon \<Rightarrow> ('s, 'w) recon \<Rightarrow> bool" for rk where
  fire: "i < length (rc_pending st) \<Longrightarrow> rc_pending st ! i = (ev, attempt) \<Longrightarrow>
    retry_step rk st (fire_retry rk (st\<lparr>rc_pending := drop_nth i (rc_pending st)\<rparr>) ev attempt)"

inductive recon_step :: "('s, 'w) reconciler \<Rightarrow> ('s, 'w) recon \<Rightarrow> ('s, 'w) recon \<Rightarrow> bool" for rk where
  watch: "recon_step rk st (handle_event rk st ev 1)"
| retry: "retry_step rk st st' \<Longrightarrow> recon_step rk st st'"
| others: "recon_step rk st (st\<lparr>rc_state := sw\<rparr>)"

inductive reachable :: "('s, 'w) reconciler \<Rightarrow> ('s, 'w) recon \<Rightarrow> bool" for rk where
  start: "replay rk \<lparr>rc_state = sw, rc_pending = [], rc_reports = []\<rparr> = Inr st \<Longrightarrow> reachable rk st"
| step: "reachable rk st \<Longrightarrow> recon_step rk st st' \<Longrightarrow> reachable rk st'"

inductive_cases retry_stepE: "retry_step rk st st'"
inductive_cases recon_stepE: "recon_step rk st st'"

section \<open>The handlers of the modelled kinds\<close>

definition DeploymentHandle :: "('s, 'w) henv \<Rightarrow> ('s, 'w) handler" where
  "DeploymentHandle env sw ev =
     (case ev_type ev of
        WatchPut \<Rightarrow> apply_deployment env sw (ev_scope ev) (ev_name ev) (ev_manifest ev)
      | WatchDelete \<Rightarrow> remove_deployment env sw (ev_scope ev) (ev_name ev))"

definition IngressHandle :: "('s, 'w) ingress_handler \<Rightarrow> ('s, 'w) handler" where
  "IngressHandle h sw ev =
     (case ev_type ev of
        WatchPut \<Rightarrow> apply_ingress h sw (ev_scope ev) (ev_name ev) (ev_manifest ev)
      | WatchDelete \<Rightarrow> remove_ingress h sw (ev_scope ev) (ev_name ev))"

section \<open>Lemmas\<close>

lemma report_pending [simp]: "rc_pending (fireOnReconcile rk st ev er) = rc_pending st"
  by (simp add: fireOnReconcile_def split: prod.splits)

lemma report_reports [simp]: "rc_reports (fireOnReconcile rk st ev er) = rc_reports st @ [(ev, er)]"
  by (simp add: fireOnReconcile_def split: prod.splits)

text \<open>Handling an event leaves at most one retry more, of the next attempt.\<close>

lemma handle_event_pending:
  "rc_pending (handle_event rk st ev a) = rc_pending st
   \<or> a < maxRetryAttempts \<and> rc_pending (handle_event rk st ev a) = rc_pending st @ [(ev, Suc a)]"
  by (auto simp: handle_event_def scheduleRetry_def split: option.splits prod.splits)

text \<open>Exactly one of the two happens: a terminal report, or another attempt.\<close>

lemma handle_event_outcome:
  assumes "rk_handlers rk (ev_kind ev) = Some h"
  shows "length (rc_reports (handle_event rk st ev a)) + length (rc_pending (handle_event rk st ev a))
    = Suc (length (rc_reports st) + length (rc_pending st))"
  using assms by (auto simp: handle_event_def scheduleRetry_def split: option.splits prod.splits)

definition attempts_ok :: "('s, 'w) recon \<Rightarrow> bool" where
  "attempts_ok st = list_all (\<lambda>(ev, a). 2 \<le> a \<and> a \<le> maxRetryAttempts) (rc_pending st)"

lemma handle_event_attempts: "attempts_ok st \<Longrightarrow> 1 \<le> a \<Longrightarrow> attempts_ok (handle_event rk st ev a)"
  using handle_event_pending [of rk st ev a] by (auto simp: attempts_ok_def)

lemma replay_attempts:
  assumes "replay rk st = Inr st'" and "attempts_ok st"
  shows "attempts_ok st'"
proof -
  have "attempts_ok (foldl (\<lambda>st m. handle_event rk st (put_event m) 1) st ms)" for ms
    using assms(2) by (induction ms arbitrary: st) (simp_all add: handle_event_attempts)
  then show ?thesis using assms(1) by (auto simp: replay_def split: sum.splits)
qed

lemma list_all_drop_nth: "list_all P xs \<Longrightarrow> list_all P (drop_nth i xs)"
  by (auto simp: list_all_iff drop_nth_def dest: in_set_takeD in_set_dropD)

lemma fire_retry_cases:
  "fire_retry rk st ev a = st \<or> (\<exists>m. fire_retry rk st ev a = handle_event rk st (put_event m) a)"
  by (auto simp: fire_retry_def split: sum.splits option.splits)

lemma retry_step_attempts:
  assumes "retry_step rk st st'" and "attempts_ok st"
  shows "attempts_ok st'"
  using assms(1)
proof cases
  case (fire i ev a)
  have "2 \<le> a" using assms(2) fire(2,3) by (auto simp: attempts_ok_def list_all_length dest: spec [of _ i])
  moreover have "attempts_ok (st\<lparr>rc_pending := drop_nth i (rc_pending st)\<rparr>)"
    using assms(2) by (simp add: attempts_ok_def list_all_drop_nth)
  ultimately show ?thesis
    using fire_retry_cases [of rk "st\<lparr>rc_pending := drop_nth i (rc_pending st)\<rparr>" ev a] fire(1)
      handle_event_attempts [of "st\<lparr>rc_pending := drop_nth i (rc_pending st)\<rparr>" a rk] by fastforce
qed

text \<open>The attempts that are left over all pending retries; it falls with every retry.\<close>

definition attempts_left :: "('s, 'w) recon \<Rightarrow> nat" where
  "attempts_left st = (\<Sum>(ev, a) \<leftarrow> rc_pending st. Suc (maxRetryAttempts - a))"

lemma sum_list_drop_nth:
  fixes f :: "'a \<Rightarrow> nat"
  assumes "i < length xs"
  shows "sum_list (map f xs) = f (xs ! i) + sum_list (map f (drop_nth i xs))"
proof -
  have "xs = take i xs @ xs ! i # drop (Suc i) xs" using assms by (rule id_take_nth_drop)
  then have "sum_list (map f xs) = sum_list (map f (take i xs @ xs ! i # drop (Suc i) xs))" by simp
  then show ?thesis by (simp add: drop_nth_def)
qed

lemma retry_step_decreases:
  assumes "retry_step rk st st'"
  shows "attempts_left st' < attempts_left st"
  using assms
proof cases
  case (fire i ev a)
  let ?st = "st\<lparr>rc_pending := drop_nth i (rc_pending st)\<rparr>"
  have l: "attempts_left st = Suc (maxRetryAttempts - a) + attempts_left ?st"
    using sum_list_drop_nth [OF fire(2), of "\<lambda>(ev, a). Suc (maxRetryAttempts - a)"] fire(3)
    by (simp add: attempts_left_def)
  have "attempts_left (handle_event rk ?st e a) < attempts_left st" for e
    using handle_event_pending [of rk ?st e a] l by (auto simp: attempts_left_def)
  then show ?thesis using fire_retry_cases [of rk ?st ev a] fire(1) l by auto
qed

lemma status_not_desired: "StatusKey k a \<noteq> DesiredKey k' scope nm"
  by (simp add: StatusKey_def DesiredKey_def ScopedPrefix_def DesiredPrefix_def)

context etcd_api
begin

lemma Put_status: "Put cl s now m = Inr (s', m') \<Longrightarrow> view s' (StatusKey k a) = view s (StatusKey k a)"
  using put_law by (auto simp: Put_def Let_def status_not_desired split: sum.splits option.splits)

lemma retrigger_all_status: "view (retrigger_all cl now s dep ms) (StatusKey k a) = view s (StatusKey k a)"
proof (induction ms arbitrary: s)
  case (Cons m ms)
  show ?case
  proof (cases "Put cl s now m")
    case (Inr r)
    then obtain s1 m1 where "Put cl s now m = Inr (s1, m1)" by (cases r) auto
    then show ?thesis using Cons.IH Put_status [of s now m s1 m1] by (auto split: sum.split)
  qed (use Cons.IH in \<open>auto split: sum.split\<close>)
qed simp

lemma retrigger_status:
  "view (retriggerDependentIngresses cl now s scope dep) (StatusKey k a) = view s (StatusKey k a)"
  by (auto simp: retriggerDependentIngresses_def retrigger_all_status split: sum.splits)

lemma removed_then_recorded:
  assumes "remove_deployment env (s, w) scope nm = ((s', w'), None)" and "e_cl env = cl"
    and "GetStatus cl s' ''deployment'' (AppID scope nm) = Inr got"
    and "PutStatus cl s' ''deployment'' (AppID scope nm) (DStatus (recordOutcome empty_status now [])) = Inr s2"
  shows "view (recordReconcileResult cl now s' \<lparr>ev_type = WatchDelete, ev_kind = ''deployment'', ev_scope = scope,
      ev_name = nm, ev_manifest = None, ev_revision = r0\<rparr> None) (StatusKey ''deployment'' (AppID scope nm))
    = Some (DStatus (recordOutcome empty_status now []))"
proof -
  obtain s0 where "DeleteStatus cl s0 ''deployment'' (AppID scope nm) = Inr s'"
    using assms(1,2) by (auto simp: remove_deployment_def Let_def split: sum.splits prod.splits option.splits)
  then obtain n where "etcd_delete cl s0 (StatusKey ''deployment'' (AppID scope nm)) = Inr (s', n)"
    by (auto simp: DeleteStatus_def split: sum.splits prod.splits)
  from delete_law [OF this] have "view s' (StatusKey ''deployment'' (AppID scope nm)) = None" by simp
  then have "got = None"
    using assms(3) get_law by (auto simp: GetStatus_def split: sum.splits)
  then have "persistReconcileOutcome cl now s' ''deployment'' (AppID scope nm) None = s2"
    using assms(3,4) by (simp add: persistReconcileOutcome_def stamped_outcome_def)
  moreover have "view s2 (StatusKey ''deployment'' (AppID scope nm)) = Some (DStatus (recordOutcome empty_status now []))"
    using assms(4) put_law by (auto simp: PutStatus_def split: sum.splits)
  ultimately show ?thesis by (simp add: recordReconcileResult_def Let_def retrigger_status)
qed

end

section \<open>Properties\<close>

text \<open>
  C18: In every reachable state each pending retry is an attempt between the second and the sixth:
  no chain of transient failures goes on past the limit.
\<close>

theorem retry_attempts_bounded:
  assumes "reachable rk st"
  shows "list_all (\<lambda>(ev, a). 2 \<le> a \<and> a \<le> maxRetryAttempts) (rc_pending st)"
proof -
  have "attempts_ok st"
    using assms
  proof induction
    case (start sw st)
    then show ?case by (rule replay_attempts) (simp add: attempts_ok_def)
  next
    case (step st st')
    from step(2) show ?case
    proof cases
      case (watch ev)
      then show ?thesis using step.IH by (simp add: handle_event_attempts)
    next
      case retry
      then show ?thesis using step.IH by (rule retry_step_attempts)
    next
      case (others sw)
      then show ?thesis using step.IH by (simp add: attempts_ok_def)
    qed
  qed
  then show ?thesis by (simp add: attempts_ok_def)
qed

text \<open>
  C19: Retrying ends: from any state, with no new watch event, only finitely many retries can fire,
  whatever the handlers do and in whatever order the backoffs run out.
\<close>

theorem retries_terminate:
  "wfP (\<lambda>st' st. retry_step rk st st')"
proof (rule wfp_if_convertible_to_nat)
  show "attempts_left st' < attempts_left st" if "retry_step rk st st'" for st st'
    using that by (rule retry_step_decreases)
qed

text \<open>
  A removal that fails transiently is not retried: the retry looks the manifest up, finds the key
  gone, and ends without calling the handler and without a report, so what the handler left behind
  stays, and no error is ever recorded for it.
\<close>

theorem transient_delete_is_dropped:
  assumes "rk_handlers rk (ev_kind ev) = Some h" and "ev_type ev = WatchDelete"
    and "h (rc_state st) ev = (sw, Some (Transient e))"
    and "Get (rk_cl rk) (fst sw) (ev_kind ev) (ev_scope ev) (ev_name ev) = Inr None"
  shows "let st1 = handle_event rk st ev 1
    in rc_reports st1 = rc_reports st \<and> rc_pending st1 = rc_pending st @ [(ev, 2)]
       \<and> retry_step rk st1 (st\<lparr>rc_state := sw\<rparr>)"
proof -
  have h1: "handle_event rk st ev 1 = st\<lparr>rc_state := sw, rc_pending := rc_pending st @ [(ev, 2)]\<rparr>"
    using assms(1,3) by (simp add: handle_event_def scheduleRetry_def maxRetryAttempts_def)
  have "retry_step rk (st\<lparr>rc_state := sw, rc_pending := rc_pending st @ [(ev, 2)]\<rparr>)
      (fire_retry rk (st\<lparr>rc_state := sw, rc_pending := drop_nth (length (rc_pending st)) (rc_pending st @ [(ev, 2)])\<rparr>) ev 2)"
    using retry_step.fire [of "length (rc_pending st)" "st\<lparr>rc_state := sw, rc_pending := rc_pending st @ [(ev, 2)]\<rparr>" ev 2 rk]
    by (simp add: nth_append)
  moreover have "fire_retry rk (st\<lparr>rc_state := sw, rc_pending := drop_nth (length (rc_pending st)) (rc_pending st @ [(ev, 2)])\<rparr>) ev 2
      = st\<lparr>rc_state := sw\<rparr>"
    using assms(4) by (simp add: fire_retry_def drop_nth_def)
  ultimately show ?thesis unfolding h1 Let_def by simp
qed

text \<open>
  The status record of a deleted deployment comes back: its removal clears the record, and the
  report that follows the successful removal reads nothing, stamps the zero record and writes it.
\<close>

theorem removed_status_comes_back:
  assumes "etcd_api cl kview" and "rk_cl rk = cl" and "e_cl env = cl"
    and "rk_handlers rk ''deployment'' = Some (DeploymentHandle env)"
    and "rc_state st = (s, w)" and "remove_deployment env (s, w) scope nm = ((s', w'), None)"
    and "GetStatus cl s' ''deployment'' (AppID scope nm) = Inr got"
    and "PutStatus cl s' ''deployment'' (AppID scope nm) (DStatus (recordOutcome empty_status (rk_now rk w') [])) = Inr s2"
  shows "kview (fst (rc_state (handle_event rk st \<lparr>ev_type = WatchDelete, ev_kind = ''deployment'', ev_scope = scope,
      ev_name = nm, ev_manifest = None, ev_revision = r0\<rparr> 1))) (StatusKey ''deployment'' (AppID scope nm))
    = Some (DStatus (recordOutcome empty_status (rk_now rk w') []))"
  using etcd_api.removed_then_recorded [OF assms(1,6,3,7,8)] assms(2,4,5,6)
  by (simp add: handle_event_def DeploymentHandle_def fireOnReconcile_def)

section \<open>Witnesses\<close>

text \<open>A reconciler over the reference client and daemon; asset handling always fails transiently.\<close>

definition stubborn :: "(kv_state, dockerd) handler" where
  "stubborn sw ev = (sw, Some (Transient ''not yet''))"

definition demo_rk :: "(kv_state, dockerd) reconciler" where
  "demo_rk = \<lparr>rk_cl = kv_client, rk_now = (\<lambda>d. 1000),
     rk_handlers = (\<lambda>k. if k = ''deployment'' then Some (DeploymentHandle demo_env) else Some stubborn)\<rparr>"

definition gone_event :: "string \<Rightarrow> watch_event" where
  "gone_event k = \<lparr>ev_type = WatchDelete, ev_kind = k, ev_scope = ''prod'', ev_name = ''web'', ev_manifest = None,
     ev_revision = 0\<rparr>"

definition demo_start :: "(kv_state, dockerd) recon" where
  "demo_start = \<lparr>rc_state = (([], False), quiet_docker), rc_pending = [], rc_reports = []\<rparr>"

lemma demo_replay: "replay demo_rk demo_start = Inr demo_start"
  by (simp add: replay_def demo_start_def demo_rk_def ListAll_def listPrefix_def kv_client_def kv_ret_def)

lemma demo_reachable: "reachable demo_rk (handle_event demo_rk demo_start (gone_event ''asset'') 1)"
proof -
  have "reachable demo_rk demo_start"
    using reachable.start [OF demo_replay [unfolded demo_start_def]] by (simp add: demo_start_def)
  then show ?thesis by (rule reachable.step) (rule recon_step.watch)
qed

lemma demo_pending: "rc_pending (handle_event demo_rk demo_start (gone_event ''asset'') 1) = [(gone_event ''asset'', 2)]"
  by (simp add: handle_event_def demo_rk_def gone_event_def stubborn_def maxRetryAttempts_def scheduleRetry_def demo_start_def)

theorem retry_attempts_bounded_witness:
  "list_all (\<lambda>(ev, a). 2 \<le> a \<and> a \<le> maxRetryAttempts) [(gone_event ''asset'', 2)]"
  using retry_attempts_bounded [OF demo_reachable] unfolding demo_pending .

theorem transient_delete_is_dropped_witness:
  "retry_step demo_rk (handle_event demo_rk demo_start (gone_event ''asset'') 1) demo_start"
proof -
  have "Get kv_client ([], False) ''asset'' ''prod'' ''web'' = Inr None"
    by (simp add: Get_def kv_client_def kv_ret_def Let_def)
  then show ?thesis
    using transient_delete_is_dropped [of demo_rk "gone_event ''asset''" stubborn demo_start "(([], False), quiet_docker)"]
    by (simp add: demo_rk_def gone_event_def stubborn_def demo_start_def Let_def)
qed

theorem removed_status_comes_back_witness:
  "kv_view (fst (rc_state (handle_event demo_rk demo_start (gone_event ''deployment'') 1)))
     (StatusKey ''deployment'' ''prod-web'') = Some (DStatus (recordOutcome empty_status 1000 []))"
proof -
  have e: "case remove_deployment demo_env (([], False), quiet_docker) ''prod'' ''web'' of
      ((s', w'), er) \<Rightarrow> s' = ([], False) \<and> er = None"
    by code_simp
  then obtain w' where r: "remove_deployment demo_env (([], False), quiet_docker) ''prod'' ''web'' = ((([], False), w'), None)"
    by (auto split: prod.splits)
  have g: "GetStatus kv_client ([], False) ''deployment'' (AppID ''prod'' ''web'') = Inr None"
    by (simp add: GetStatus_def kv_client_def kv_ret_def)
  obtain s2 where p: "PutStatus kv_client ([], False) ''deployment'' (AppID ''prod'' ''web'')
      (DStatus (recordOutcome empty_status (rk_now demo_rk w') [])) = Inr s2"
    by (simp add: PutStatus_def kv_client_def kv_ret_def)
  from removed_status_comes_back [OF kv.etcd_api_axioms _ _ _ _ r g p, of demo_start 0] show ?thesis
    by (simp add: demo_rk_def demo_start_def demo_env_def gone_event_def AppID_def)
qed

end
