(* ===== verification/Cron.thy ===== *)
theory Cron
  imports Json
begin

text \<open>
  Cron expressions, \<open>internal/controller/cron.go\<close>: the parser into five bit masks and the search
  for the next tick. Bit masks are words of the code's widths and the arithmetic of the range loop
  is 64-bit; the loop runs on fuel, and \<open>cron_parse_returns\<close> shows the fuel is never used up. Time is
  nanoseconds since Go's zero time; the calendar is Gregorian, and the time-zone database is the
  argument \<open>off\<close>, the offset of a location from UTC at an instant.
\<close>

unbundle bit_operations_syntax

section \<open>Parsing\<close>

datatype cron_error =
    BadTimezone string string | FieldCount nat | EmptyField | EmptyElement | BadStep string
  | BadRangeStart string | BadRangeEnd string | BadValue string | OutOfRange int int int int
  | InField string cron_error | LoopUnfinished

record 'z schedule =
  sc_expr :: string
  sc_minutes :: "64 word"
  sc_hours :: "32 word"
  sc_doms :: "32 word"
  sc_months :: "16 word"
  sc_dows :: "8 word"
  sc_loc :: 'z
  sc_domStar :: bool
  sc_dowStar :: bool

text \<open>\<open>1 << uint(v)\<close> in a \<open>uint64\<close>: a negative \<open>v\<close> converts to a huge shift, which clears the word.\<close>

definition shl1 :: "int \<Rightarrow> 64 word" where
  "shl1 v = (let n = nat (v mod 2 ^ 64) in if n < 64 then push_bit n 1 else 0)"

fun range_loop :: "nat \<Rightarrow> int \<Rightarrow> int \<Rightarrow> int \<Rightarrow> 64 word \<Rightarrow> 64 word option" where
  "range_loop 0 v hi step bits = (if v \<le> hi then None else Some bits)"
| "range_loop (Suc n) v hi step bits =
     (if v \<le> hi then range_loop n (wrap64 (v + step)) hi step (bits OR shl1 v) else Some bits)"

definition split_step :: "string \<Rightarrow> cron_error + string \<times> int" where
  "split_step part =
     (case index_byte CHR ''/'' part of
        None \<Rightarrow> Inr (part, 1)
      | Some i \<Rightarrow>
          (case atoi (drop (Suc i) part) of
             None \<Rightarrow> Inl (BadStep (drop (Suc i) part))
           | Some n \<Rightarrow> if n \<le> 0 then Inl (BadStep (drop (Suc i) part)) else Inr (take i part, n)))"

definition range_ends :: "string \<Rightarrow> int \<Rightarrow> int \<Rightarrow> cron_error + int \<times> int" where
  "range_ends part mn mx =
     (if part = ''*'' then Inr (mn, mx)
      else case index_byte CHR ''-'' part of
        Some (Suc d) \<Rightarrow>
          (case atoi (take (Suc d) part) of
             None \<Rightarrow> Inl (BadRangeStart (take (Suc d) part))
           | Some l \<Rightarrow>
               (case atoi (drop (Suc (Suc d)) part) of
                  None \<Rightarrow> Inl (BadRangeEnd (drop (Suc (Suc d)) part))
                | Some h \<Rightarrow> Inr (l, h)))
      | _ \<Rightarrow> (case atoi part of None \<Rightarrow> Inl (BadValue part) | Some n \<Rightarrow> Inr (n, n)))"

definition loop_fuel :: nat where
  "loop_fuel = 200"

definition parseRange :: "string \<Rightarrow> int \<Rightarrow> int \<Rightarrow> cron_error + 64 word" where
  "parseRange part mn mx =
     bind_ok (split_step part) (\<lambda>(body, step).
     bind_ok (range_ends body mn mx) (\<lambda>(lo, hi).
       if lo < mn \<or> hi > mx \<or> lo > hi then Inl (OutOfRange lo hi mn mx)
       else case range_loop loop_fuel lo hi step 0 of
              None \<Rightarrow> Inl LoopUnfinished
            | Some bits \<Rightarrow> Inr bits))"

fun parse_parts :: "string list \<Rightarrow> int \<Rightarrow> int \<Rightarrow> 64 word \<Rightarrow> cron_error + 64 word" where
  "parse_parts [] mn mx bits = Inr bits"
| "parse_parts (p # ps) mn mx bits =
     (let part = trim_space p
      in if part = [] then Inl EmptyElement
         else bind_ok (parseRange part mn mx) (\<lambda>mask. parse_parts ps mn mx (bits OR mask)))"

definition parseField :: "string \<Rightarrow> int \<Rightarrow> int \<Rightarrow> cron_error + 64 word" where
  "parseField field mn mx =
     (if field = [] then Inl EmptyField else parse_parts (split_char CHR '','' field) mn mx 0)"

text \<open>
  \<open>strings.ReplaceAll\<close> and \<open>normalizeDOW\<close>. Go ranges over the alias map in an unspecified order; the
  order is the argument \<open>order\<close>, a permutation of \<open>dow_aliases\<close>.
\<close>

function replace_all :: "string \<Rightarrow> string \<Rightarrow> string \<Rightarrow> string" where
  "replace_all s old new =
     (if old = [] \<or> s = [] then s
      else if has_prefix s old then new @ replace_all (drop (length old) s) old new
      else hd s # replace_all (tl s) old new)"
  by pat_completeness auto

termination
  by (relation "measure (\<lambda>(s, _, _). length s)") auto

declare replace_all.simps [simp del]

definition dow_aliases :: "(string \<times> string) list" where
  "dow_aliases = [(''sun'', ''0''), (''mon'', ''1''), (''tue'', ''2''), (''wed'', ''3''),
     (''thu'', ''4''), (''fri'', ''5''), (''sat'', ''6'')]"

definition normalizeDOW :: "(string \<times> string) list \<Rightarrow> string \<Rightarrow> string" where
  "normalizeDOW order field = fold (\<lambda>(nm, num) out. replace_all out nm num) order (to_lower field)"

definition expand_macro :: "string \<Rightarrow> string" where
  "expand_macro c =
     (if c = ''@yearly'' \<or> c = ''@annually'' then ''0 0 1 1 *''
      else if c = ''@monthly'' then ''0 0 1 * *''
      else if c = ''@weekly'' then ''0 0 * * 0''
      else if c = ''@daily'' \<or> c = ''@midnight'' then ''0 0 * * *''
      else if c = ''@hourly'' then ''0 * * * *''
      else c)"

text \<open>Day 7 of the week is Sunday as well.\<close>

definition fold_sunday :: "64 word \<Rightarrow> 64 word" where
  "fold_sunday dows =
     (if dows AND push_bit 7 1 \<noteq> 0 then (dows AND NOT (push_bit 7 1)) OR 1 else dows)"

fun schedule_of_fields ::
  "'z \<Rightarrow> (string \<times> string) list \<Rightarrow> string \<Rightarrow> string list \<Rightarrow> cron_error + 'z schedule" where
  "schedule_of_fields loc order expr [f0, f1, f2, f3, f4] =
     bind_ok (map_err (InField ''minute'') (parseField f0 0 59)) (\<lambda>mins.
     bind_ok (map_err (InField ''hour'') (parseField f1 0 23)) (\<lambda>hrs.
     bind_ok (map_err (InField ''day of month'') (parseField f2 1 31)) (\<lambda>doms.
     bind_ok (map_err (InField ''month'') (parseField f3 1 12)) (\<lambda>months.
     bind_ok (map_err (InField ''day of week'') (parseField (normalizeDOW order f4) 0 7)) (\<lambda>dows.
       Inr \<lparr>sc_expr = expr, sc_minutes = mins, sc_hours = ucast hrs, sc_doms = ucast doms,
            sc_months = ucast months, sc_dows = ucast (fold_sunday dows), sc_loc = loc,
            sc_domStar = (f2 = ''*''), sc_dowStar = (f4 = ''*'')\<rparr>)))))"
| "schedule_of_fields loc order expr fs = Inl (FieldCount (length fs))"

definition ParseSchedule ::
  "(string \<Rightarrow> string + 'z) \<Rightarrow> 'z \<Rightarrow> (string \<times> string) list \<Rightarrow> string \<Rightarrow> string \<Rightarrow> cron_error + 'z schedule" where
  "ParseSchedule load_tz utc order expr tz =
     bind_ok (if tz = [] then Inr utc else map_err (BadTimezone tz) (load_tz tz)) (\<lambda>loc.
       schedule_of_fields loc order expr (Prelude.fields (expand_macro (trim_space expr))))"

section \<open>The calendar\<close>

record civil =
  cv_month :: nat
  cv_day :: nat
  cv_weekday :: nat
  cv_hour :: nat
  cv_minute :: nat

definition minute_ns :: int where
  "minute_ns = 60000000000"

definition leap :: "nat \<Rightarrow> bool" where
  "leap y = (y mod 4 = 0 \<and> (y mod 100 \<noteq> 0 \<or> y mod 400 = 0))"

definition month_lengths :: "nat \<Rightarrow> nat list" where
  "month_lengths y = [31, if leap y then 29 else 28, 31, 30, 31, 30, 31, 31, 30, 31, 30, 31]"

text \<open>Month and day of the \<open>d\<close>-th day of a year (from 0), and the year of the \<open>d\<close>-th day of an era.\<close>

fun month_day :: "nat list \<Rightarrow> nat \<Rightarrow> nat \<Rightarrow> nat \<times> nat" where
  "month_day [] m d = (m, Suc d)"
| "month_day (l # ls) m d = (if d < l then (m, Suc d) else month_day ls (Suc m) (d - l))"

function year_day :: "nat \<Rightarrow> nat \<Rightarrow> nat \<times> nat" where
  "year_day y d =
     (let l = sum_list (month_lengths y) in if d < l then (y, d) else year_day (Suc y) (d - l))"
  by pat_completeness auto

termination
  by (relation "measure snd") (auto simp: month_lengths_def)

declare year_day.simps [simp del]

text \<open>Zero time is Monday, 1 January of year 1, the first year of a 400-year cycle of 146097 days.\<close>

definition utc_civil :: "int \<Rightarrow> civil" where
  "utc_civil t =
     (let mins = t div minute_ns; days = mins div 1440;
          (y, d) = year_day 1 (nat (days mod 146097)); (m, dom) = month_day (month_lengths y) 1 d
      in \<lparr>cv_month = m, cv_day = dom, cv_weekday = nat ((days + 1) mod 7),
          cv_hour = nat (mins mod 1440 div 60), cv_minute = nat (mins mod 60)\<rparr>)"

definition local_civil :: "('z \<Rightarrow> int \<Rightarrow> int) \<Rightarrow> 'z \<Rightarrow> int \<Rightarrow> civil" where
  "local_civil off z t = utc_civil (t + off z t)"

section \<open>Matching and the next tick\<close>

definition cron_match :: "'z schedule \<Rightarrow> civil \<Rightarrow> bool" where
  "cron_match s t =
     (if sc_minutes s AND push_bit (cv_minute t) 1 = 0 then False
      else if sc_hours s AND push_bit (cv_hour t) 1 = 0 then False
      else if sc_months s AND push_bit (cv_month t) 1 = 0 then False
      else
        (let domHit = (sc_doms s AND push_bit (cv_day t) 1 \<noteq> 0);
             dowHit = (sc_dows s AND push_bit (cv_weekday t) 1 \<noteq> 0)
         in if sc_domStar s \<and> sc_dowStar s then True
            else if sc_domStar s then dowHit
            else if sc_dowStar s then domHit
            else domHit \<or> dowHit))"

function next_from :: "('z \<Rightarrow> int \<Rightarrow> int) \<Rightarrow> 'z schedule \<Rightarrow> int \<Rightarrow> int \<Rightarrow> int" where
  "next_from off s t limit =
     (if t < limit
      then if cron_match s (local_civil off (sc_loc s) t) then t
           else next_from off s (t + minute_ns) limit
      else 0)"
  by pat_completeness auto

termination
  by (relation "measure (\<lambda>(_, _, t, limit). nat (limit - t))") (auto simp: minute_ns_def)

declare next_from.simps [simp del]

definition search_window :: int where
  "search_window = 4 * 366 * 24 * 60 * minute_ns"

text \<open>\<open>Schedule.Next\<close>; the zero time, 0 here, is its answer when no minute of the window matches.\<close>

definition Next :: "('z \<Rightarrow> int \<Rightarrow> int) \<Rightarrow> 'z schedule \<Rightarrow> int \<Rightarrow> int" where
  "Next off s after =
     (let t = after div minute_ns * minute_ns + minute_ns in next_from off s t (t + search_window))"


section \<open>The range loop\<close>

lemma bit_shl1: "0 \<le> v \<Longrightarrow> v < 64 \<Longrightarrow> bit (shl1 v) n \<longleftrightarrow> int n = v"
  by (auto simp: shl1_def Let_def bit_simps)

lemma shl1_negative: "- (2 ^ 63) \<le> v \<Longrightarrow> v < 0 \<Longrightarrow> shl1 v = 0"
proof -
  assume a: "- (2 ^ 63) \<le> v" "v < 0"
  have "v mod 2 ^ 64 = (v + 2 ^ 64) mod 2 ^ 64" by (rule mod_add_self2 [symmetric])
  also have "\<dots> = v + 2 ^ 64" using a by (intro mod_pos_pos_trivial) auto
  finally show ?thesis using a by (simp add: shl1_def Let_def)
qed

lemma shl1_bit_le: "- (2 ^ 63) \<le> v \<Longrightarrow> v \<le> hi \<Longrightarrow> hi < 64 \<Longrightarrow> bit (shl1 v) n \<Longrightarrow> int n \<le> hi"
  by (cases "v < 0") (simp_all add: shl1_negative bit_shl1)

lemma wrap64_range: "- (2 ^ 63) \<le> wrap64 v \<and> wrap64 v < 2 ^ 63"
  using pos_mod_bound [of "2 ^ 64" "v + 2 ^ 63"] pos_mod_sign [of "2 ^ 64" "v + 2 ^ 63"]
  by (simp add: wrap64_def del: pos_mod_bound pos_mod_sign)

lemma range_loop_mono: "range_loop f v hi step bits = Some w \<Longrightarrow> bit bits n \<Longrightarrow> bit w n"
  by (induction f v hi step bits rule: range_loop.induct) (auto simp: bit_or_iff split: if_splits)

lemma range_loop_bounded:
  "range_loop f v hi step bits = Some w \<Longrightarrow> - (2 ^ 63) \<le> v \<Longrightarrow> hi < 64 \<Longrightarrow>
    bit w n \<Longrightarrow> bit bits n \<or> int n \<le> hi"
proof (induction f v hi step bits rule: range_loop.induct)
  case (2 f v hi step bits)
  show ?case
  proof (cases "v \<le> hi")
    case True
    then have "bit (bits OR shl1 v) n \<or> int n \<le> hi"
      using 2 wrap64_range [of "v + step"] by simp
    then show ?thesis using shl1_bit_le [OF 2(3) True 2(4)] by (auto simp: bit_or_iff)
  qed (use 2 in simp)
qed (auto split: if_splits)

lemma range_loop_first:
  "range_loop (Suc f) v hi step bits = Some w \<Longrightarrow> 0 \<le> v \<Longrightarrow> v \<le> hi \<Longrightarrow> hi < 64 \<Longrightarrow> bit w (nat v)"
  using range_loop_mono [of f "wrap64 (v + step)" hi step "bits OR shl1 v" w "nat v"]
  by (simp add: bit_or_iff bit_shl1)

text \<open>While no addition wraps, the loop visits exactly the values of the progression.\<close>

lemma range_loop_exact:
  assumes "0 \<le> v" and "1 \<le> step" and "hi + step < 2 ^ 63" and "hi < 64" and "nat (hi + 1 - v) \<le> f"
  shows "\<exists>w. range_loop f v hi step bits = Some w \<and>
    (\<forall>n. bit w n \<longleftrightarrow> bit bits n \<or> (v \<le> int n \<and> int n \<le> hi \<and> step dvd int n - v))"
  using assms
proof (induction f arbitrary: v bits)
  case 0
  then show ?case by auto
next
  case (Suc f)
  show ?case
  proof (cases "v \<le> hi")
    case True
    then have w: "wrap64 (v + step) = v + step" using Suc.prems by (intro wrap64_id) auto
    have "\<exists>w. range_loop f (v + step) hi step (bits OR shl1 v) = Some w \<and>
      (\<forall>n. bit w n \<longleftrightarrow> bit (bits OR shl1 v) n \<or>
        (v + step \<le> int n \<and> int n \<le> hi \<and> step dvd int n - (v + step)))"
      using Suc.prems by (intro Suc.IH) auto
    then obtain u where u: "range_loop f (v + step) hi step (bits OR shl1 v) = Some u"
      and b: "\<And>n. bit u n \<longleftrightarrow> bit (bits OR shl1 v) n \<or>
        (v + step \<le> int n \<and> int n \<le> hi \<and> step dvd int n - (v + step))"
      by blast
    have "bit u n \<longleftrightarrow> bit bits n \<or> (v \<le> int n \<and> int n \<le> hi \<and> step dvd int n - v)" for n
    proof -
      have e: "step + (int n - (v + step)) = int n - v" by linarith
      have m: "step dvd int n - (v + step) \<longleftrightarrow> step dvd int n - v"
        by (simp only: dvd_add_triv_left_iff [of step "int n - (v + step)", symmetric] e)
      have "v + step \<le> int n \<or> int n = v" if "v \<le> int n" "step dvd int n - v"
        using zdvd_imp_le [OF that(2)] that(1) by linarith
      then show ?thesis
        unfolding b m using True Suc.prems by (auto simp: bit_or_iff bit_shl1)
    qed
    with u w True show ?thesis by auto
  next
    case False
    then show ?thesis by auto
  qed
qed

text \<open>
  Within \<open>hi\<close> of the largest integer the addition wraps: two rounds later the value is smaller than
  the one the loop started from, so the loop still ends.
\<close>

lemma range_loop_wrap_ends:
  assumes "0 \<le> v" and "v < 64" and "hi < 64" and "2 ^ 63 \<le> hi + step" and "step < 2 ^ 63"
    and "2 * nat v + 4 \<le> f"
  shows "range_loop f v hi step bits \<noteq> None"
  using assms
proof (induction "nat v" arbitrary: v f bits rule: less_induct)
  case less
  define a where "a = v + step - 2 ^ 64"
  define b where "b = a + step"
  obtain g where g: "f = Suc (Suc (Suc (Suc g)))" "2 * nat v \<le> g"
  proof
    show "f = Suc (Suc (Suc (Suc (f - 4))))" "2 * nat v \<le> f - 4" using less.prems(6) by arith+
  qed
  show ?case
  proof (cases "v \<le> hi \<and> 2 ^ 63 \<le> v + step")
    case False
    then show ?thesis
    proof (cases "v \<le> hi")
      case True
      with False less.prems have "wrap64 (v + step) = v + step" by (intro wrap64_id) auto
      moreover have "hi < v + step" using less.prems by auto
      ultimately show ?thesis unfolding g by simp
    qed (use g in simp)
  next
    case True
    have wa: "wrap64 (v + step) = a"
      unfolding a_def using True less.prems by (intro wrap64_over) auto
    have wb: "wrap64 (a + step) = b"
      unfolding b_def a_def using True less.prems by (intro wrap64_id) auto
    have ab: "a \<le> hi" "b < v" "- 126 \<le> b" using True less.prems by (auto simp: a_def b_def)
    show ?thesis
    proof (cases "0 \<le> b")
      case True
      have "range_loop (Suc (Suc g)) b hi step ((bits OR shl1 v) OR shl1 a) \<noteq> None"
        using True ab less.prems g by (intro less.hyps) auto
      then show ?thesis
        using wa wb ab \<open>v \<le> hi \<and> 2 ^ 63 \<le> v + step\<close> unfolding g by simp
    next
      case False
      then have wc: "wrap64 (b + step) = b + step" "hi < b + step"
        using ab less.prems by (auto intro!: wrap64_id)
      have "range_loop (Suc (Suc g)) b hi step ((bits OR shl1 v) OR shl1 a) \<noteq> None"
        using wc by simp
      then show ?thesis
        using wa wb ab \<open>v \<le> hi \<and> 2 ^ 63 \<le> v + step\<close> unfolding g by simp
    qed
  qed
qed

lemma range_loop_returns:
  assumes "0 \<le> lo" and "lo \<le> hi" and "hi < 64" and "1 \<le> step" and "step < 2 ^ 63"
  shows "range_loop loop_fuel lo hi step bits \<noteq> None"
proof (cases "hi + step < 2 ^ 63")
  case True
  then show ?thesis
    using range_loop_exact [of lo step hi loop_fuel bits] assms(1,3,4) loop_fuel_def by force
next
  case False
  then show ?thesis
    using assms by (intro range_loop_wrap_ends) (auto simp: loop_fuel_def)
qed

section \<open>Parsed masks\<close>

lemma atoi_range: "atoi s = Some n \<Longrightarrow> - (2 ^ 63) \<le> n \<and> n < 2 ^ 63"
  by (auto simp: atoi_def Let_def split: list.splits if_splits option.splits)

lemma split_step_range: "split_step part = Inr (body, step) \<Longrightarrow> 1 \<le> step \<and> step < 2 ^ 63"
  by (auto simp: split_step_def dest: atoi_range split: option.splits if_splits)

lemma parseRange_Inr:
  assumes "parseRange part mn mx = Inr w"
  obtains body step lo hi where "split_step part = Inr (body, step)" "range_ends body mn mx = Inr (lo, hi)"
    "mn \<le> lo" "lo \<le> hi" "hi \<le> mx" "range_loop loop_fuel lo hi step 0 = Some w"
  using assms
  by (auto simp: parseRange_def bind_ok_Inr split: if_splits option.splits prod.splits)

lemma parseRange_mask:
  assumes "parseRange part mn mx = Inr w" and "0 \<le> mn" and "mx < 64"
  shows "(\<exists>n. bit w n) \<and> (\<forall>n. bit w n \<longrightarrow> int n \<le> mx)"
proof -
  from assms(1) obtain body step lo hi where r: "range_loop loop_fuel lo hi step 0 = Some w"
    and b: "mn \<le> lo" "lo \<le> hi" "hi \<le> mx" by (rule parseRange_Inr)
  have "loop_fuel = Suc 199" by (simp add: loop_fuel_def)
  then have "bit w (nat lo)"
    using range_loop_first [of 199 lo hi step 0 w] r b assms(2,3) by simp
  moreover have "int n \<le> mx" if "bit w n" for n
    using range_loop_bounded [OF r _ _ that] b assms(2,3) by simp
  ultimately show ?thesis by blast
qed

lemma parseRange_returns: "0 \<le> mn \<Longrightarrow> mx < 64 \<Longrightarrow> parseRange part mn mx \<noteq> Inl LoopUnfinished"
proof
  assume a: "0 \<le> mn" "mx < 64" "parseRange part mn mx = Inl LoopUnfinished"
  have no: "split_step p \<noteq> Inl LoopUnfinished" "range_ends p mn mx \<noteq> Inl LoopUnfinished" for p
    by (auto simp: split_step_def range_ends_def split: option.splits if_splits nat.splits)
  from a(3) obtain body step lo hi where p: "split_step part = Inr (body, step)"
      "\<not> (lo < mn \<or> hi > mx \<or> lo > hi)" "range_loop loop_fuel lo hi step 0 = None"
    using no by (auto simp: parseRange_def bind_ok_def split: sum.splits if_splits option.splits)
  then show False
    using range_loop_returns [of lo hi step 0] split_step_range [OF p(1)] a(1,2) by auto
qed

lemma parse_parts_returns: "0 \<le> mn \<Longrightarrow> mx < 64 \<Longrightarrow> parse_parts ps mn mx bits \<noteq> Inl LoopUnfinished"
proof (induction ps arbitrary: bits)
  case (Cons p ps)
  then show ?case
    using parseRange_returns [of mn mx "trim_space p"]
    by (cases "parseRange (trim_space p) mn mx") (auto simp: Let_def)
qed simp

lemma parseField_returns: "0 \<le> mn \<Longrightarrow> mx < 64 \<Longrightarrow> parseField f mn mx \<noteq> Inl LoopUnfinished"
  by (simp add: parseField_def parse_parts_returns)

lemma parse_parts_mask:
  "parse_parts ps mn mx bits = Inr w \<Longrightarrow> 0 \<le> mn \<Longrightarrow> mx < 64 \<Longrightarrow> \<forall>n. bit bits n \<longrightarrow> int n \<le> mx \<Longrightarrow>
    (\<forall>n. bit w n \<longrightarrow> int n \<le> mx) \<and> (\<forall>n. bit bits n \<longrightarrow> bit w n) \<and> (ps \<noteq> [] \<longrightarrow> (\<exists>n. bit w n))"
proof (induction ps arbitrary: bits)
  case (Cons p ps)
  from Cons.prems(1) obtain mask where m: "parseRange (trim_space p) mn mx = Inr mask"
    and r: "parse_parts ps mn mx (bits OR mask) = Inr w"
    by (auto simp: Let_def bind_ok_Inr split: if_splits)
  note mk = parseRange_mask [OF m Cons.prems(2,3)]
  have "\<forall>n. bit (bits OR mask) n \<longrightarrow> int n \<le> mx" using mk Cons.prems(4) by (simp add: bit_or_iff)
  note ih = Cons.IH [OF r Cons.prems(2,3) this]
  obtain n where "bit mask n" using mk by blast
  then have "bit w n" using ih by (simp add: bit_or_iff)
  moreover have "\<forall>n. bit bits n \<longrightarrow> bit w n" using ih by (simp add: bit_or_iff)
  ultimately show ?case using ih by blast
qed simp

lemma parseField_mask:
  assumes "parseField f mn mx = Inr w" and "0 \<le> mn" and "mx < 64"
  shows "(\<exists>n. bit w n) \<and> (\<forall>n. bit w n \<longrightarrow> int n \<le> mx)"
proof -
  have p: "parse_parts (split_char CHR '','' f) mn mx 0 = Inr w"
    using assms(1) by (simp add: parseField_def split: if_splits)
  show ?thesis
    using parse_parts_mask [OF p assms(2,3)] by simp
qed

lemma bit_fold_sunday:
  "bit (fold_sunday w) n \<longleftrightarrow> (if n = 7 then False else bit w n \<or> (n = 0 \<and> bit w 7))"
proof -
  have "bit (w AND NOT (push_bit 7 1)) n \<longleftrightarrow> bit w n \<and> n \<noteq> 7"
    by (simp only: bit_and_iff bit_not_iff bit_push_bit_iff bit_1_iff)
      (use bit_imp_le_length [of w n] in auto)
  then show ?thesis
    unfolding fold_sunday_def bit_iff_and_push_bit_not_eq_0 [symmetric]
    by (auto simp: bit_or_iff bit_1_iff)
qed

lemma narrow_mask:
  fixes w :: "'a::len word"
  assumes "(\<exists>n. bit w n) \<and> (\<forall>n. bit w n \<longrightarrow> int n \<le> m)" and "m < int LENGTH('b::len)"
  shows "(\<exists>n. bit (ucast w :: 'b word) n) \<and> (\<forall>n. bit (ucast w :: 'b word) n \<longrightarrow> n \<le> nat m)"
proof -
  have "bit (ucast w :: 'b word) n \<longleftrightarrow> bit w n" for n
    using assms by (auto simp: bit_ucast_iff)
  then show ?thesis using assms(1) by auto
qed

section \<open>Searching\<close>

lemma cron_match_bits:
  "cron_match s t \<longleftrightarrow> bit (sc_minutes s) (cv_minute t) \<and> bit (sc_hours s) (cv_hour t) \<and>
     bit (sc_months s) (cv_month t) \<and>
     (if sc_domStar s \<and> sc_dowStar s then True
      else if sc_domStar s then bit (sc_dows s) (cv_weekday t)
      else if sc_dowStar s then bit (sc_doms s) (cv_day t)
      else bit (sc_doms s) (cv_day t) \<or> bit (sc_dows s) (cv_weekday t))"
  by (simp add: cron_match_def bit_iff_and_push_bit_not_eq_0 Let_def)

text \<open>The result is one of the minutes visited, the first that matches, or zero when none does.\<close>

lemma next_from_spec:
  assumes "0 < t"
  shows "(next_from off s t limit = 0 \<and>
      (\<forall>k. t + int k * minute_ns < limit \<longrightarrow> \<not> cron_match s (local_civil off (sc_loc s) (t + int k * minute_ns)))) \<or>
    (\<exists>k. next_from off s t limit = t + int k * minute_ns \<and> t + int k * minute_ns < limit \<and>
      cron_match s (local_civil off (sc_loc s) (t + int k * minute_ns)) \<and>
      (\<forall>j<k. \<not> cron_match s (local_civil off (sc_loc s) (t + int j * minute_ns))))"
  using assms
proof (induction off s t limit rule: next_from.induct)
  case (1 off s t limit)
  let ?m = "\<lambda>k. cron_match s (local_civil off (sc_loc s) (t + int k * minute_ns))"
  have pos: "0 < minute_ns" by (simp add: minute_ns_def)
  consider (past) "\<not> t < limit" | (hit) "t < limit" "?m 0" | (miss) "t < limit" "\<not> ?m 0" by blast
  then show ?case
  proof cases
    case past
    then have "\<not> t + int k * minute_ns < limit" for k
      using pos mult_nonneg_nonneg [of "int k" minute_ns] by linarith
    with past show ?thesis by (simp add: next_from.simps)
  next
    case hit
    then show ?thesis by (intro disjI2 exI [of _ 0]) (simp add: next_from.simps)
  next
    case miss
    have shift: "t + minute_ns + int k * minute_ns = t + int (Suc k) * minute_ns" for k
      by (simp add: algebra_simps)
    have e: "next_from off s t limit = next_from off s (t + minute_ns) limit"
      using miss by (simp add: next_from.simps [of off s t])
    have ih: "(next_from off s (t + minute_ns) limit = 0 \<and>
        (\<forall>k. t + int (Suc k) * minute_ns < limit \<longrightarrow> \<not> ?m (Suc k))) \<or>
      (\<exists>k. next_from off s (t + minute_ns) limit = t + int (Suc k) * minute_ns \<and>
        t + int (Suc k) * minute_ns < limit \<and> ?m (Suc k) \<and> (\<forall>j<k. \<not> ?m (Suc j)))"
      using "1.IH" [OF miss(1)] miss(2) "1.prems" pos unfolding shift by simp
    then show ?thesis
    proof (elim disjE exE conjE)
      assume none: "next_from off s (t + minute_ns) limit = 0"
        "\<forall>k. t + int (Suc k) * minute_ns < limit \<longrightarrow> \<not> ?m (Suc k)"
      have "\<not> ?m k" if "t + int k * minute_ns < limit" for k
        using none(2) miss(2) that by (cases k) blast+
      with none(1) e show ?thesis by auto
    next
      fix k
      assume some: "next_from off s (t + minute_ns) limit = t + int (Suc k) * minute_ns"
        "t + int (Suc k) * minute_ns < limit" "?m (Suc k)" "\<forall>j<k. \<not> ?m (Suc j)"
      have "\<not> ?m j" if "j < Suc k" for j
        using some(4) miss(2) that by (cases j) blast+
      with some(1-3) e show ?thesis by (intro disjI2 exI [of _ "Suc k"]) simp
    qed
  qed
qed

lemma next_minute:
  assumes "0 \<le> after"
  shows "0 < after div minute_ns * minute_ns + minute_ns"
    and "after < after div minute_ns * minute_ns + minute_ns"
    and "after < u \<Longrightarrow> u mod minute_ns = 0 \<Longrightarrow>
      \<exists>k. u = after div minute_ns * minute_ns + minute_ns + int k * minute_ns"
proof -
  have pos: "0 < minute_ns" by (simp add: minute_ns_def)
  show "0 < after div minute_ns * minute_ns + minute_ns"
    using assms pos by (simp add: pos_imp_zdiv_nonneg_iff add_nonneg_pos)
  show lt: "after < after div minute_ns * minute_ns + minute_ns"
    using pos pos_mod_bound [of minute_ns after] by (simp add: minus_mod_eq_div_mult [symmetric])
  assume u: "after < u" "u mod minute_ns = 0"
  then obtain q where q: "u = q * minute_ns" 
    by (metis add.right_neutral div_mult_mod_eq)
  have le: "after div minute_ns * minute_ns \<le> after"
    using pos pos_mod_sign [of minute_ns after] by (simp add: minus_mod_eq_div_mult [symmetric])
  have "after div minute_ns < q"
  proof (rule ccontr)
    assume "\<not> after div minute_ns < q"
    then have "q * minute_ns \<le> after div minute_ns * minute_ns" using pos by (intro mult_right_mono) auto
    with le u(1) q show False by simp
  qed
  then have "u = after div minute_ns * minute_ns + minute_ns + int (nat (q - after div minute_ns - 1)) * minute_ns"
    unfolding q by (simp add: algebra_simps)
  then show "\<exists>k. u = after div minute_ns * minute_ns + minute_ns + int k * minute_ns" by blast
qed

section \<open>Properties\<close>

text \<open>
  A cron range with a step yields the mask of exactly the values \<open>lo, lo + step, ...\<close> up to
  \<open>hi\<close>, as long as \<open>hi + step\<close> does not overflow: nothing outside the range and nothing between the
  steps fires.
\<close>

theorem cron_range_exact:
  assumes "split_step part = Inr (body, step)" and "range_ends body mn mx = Inr (lo, hi)"
    and "0 \<le> mn" and "mn \<le> lo" and "lo \<le> hi" and "hi \<le> mx" and "mx < 64" and "hi + step < 2 ^ 63"
  shows "\<exists>w. parseRange part mn mx = Inr w \<and>
    (\<forall>n. bit w n \<longleftrightarrow> lo \<le> int n \<and> int n \<le> hi \<and> (int n - lo) mod step = 0)"
proof -
  have "\<exists>w. range_loop loop_fuel lo hi step 0 = Some w \<and>
      (\<forall>n. bit w n \<longleftrightarrow> bit (0 :: 64 word) n \<or> (lo \<le> int n \<and> int n \<le> hi \<and> step dvd int n - lo))"
    using assms split_step_range [OF assms(1)] by (intro range_loop_exact) (auto simp: loop_fuel_def)
  then show ?thesis using assms by (auto simp: parseRange_def mod_eq_0_iff_dvd)
qed

lemma business_hours_parts:
  "split_step ''9-17/4'' = Inr (''9-17'', 4)" "range_ends ''9-17'' 0 23 = Inr (9, 17)"
  by (simp_all add: split_step_def range_ends_def atoi_def is_digit_def digit_val_def)

theorem cron_range_exact_witness:
  "\<exists>w. parseRange ''9-17/4'' 0 23 = Inr w \<and> bit w 13 \<and> \<not> bit w 14 \<and> \<not> bit w 21"
proof -
  obtain w where w: "parseRange ''9-17/4'' 0 23 = Inr w"
    and b: "\<And>n. bit w n \<longleftrightarrow> 9 \<le> int n \<and> int n \<le> 17 \<and> (int n - 9) mod 4 = 0"
    using cron_range_exact [OF business_hours_parts] by auto
  have "bit w 13" "\<not> bit w 14" "\<not> bit w 21" by (simp_all add: b)
  with w show ?thesis by blast
qed

text \<open>
  Parsing any expression returns: the loop over a range ends for every pair of bounds the field
  allows and every step \<open>strconv.Atoi\<close> can produce, including the steps whose additions wrap.
\<close>

theorem cron_parse_returns:
  "ParseSchedule load_tz (utc :: 'z) order expr tz \<noteq> Inl (InField fld LoopUnfinished)"
proof -
  have "map_err (InField g) (parseField f mn mx) \<noteq> Inl (InField fld LoopUnfinished)"
    if "0 \<le> mn" "mx < 64" for g f mn mx
    using parseField_returns [OF that, of f] by (cases "parseField f mn mx") auto
  then have five: "schedule_of_fields loc order expr [f0, f1, f2, f3, f4] \<noteq> Inl (InField fld LoopUnfinished)"
    for loc :: 'z and f0 f1 f2 f3 f4
    unfolding schedule_of_fields.simps by (intro bind_ok_not_Inl) simp_all
  have "schedule_of_fields loc order expr fs \<noteq> Inl (InField fld LoopUnfinished)" for loc :: 'z and fs
    by (cases "(loc, order, expr, fs)" rule: schedule_of_fields.cases)
      (use five in \<open>auto simp del: schedule_of_fields.simps(1)\<close>)
  then show ?thesis
    by (auto simp: ParseSchedule_def bind_ok_def map_err_def split: sum.splits if_splits)
qed

text \<open>
  A parsed schedule is well formed: no mask is empty, and none has a bit beyond its field's last
  value (with Sunday as day 7 folded into day 0), so the search of \<open>Next\<close> is never over empty masks.
\<close>

theorem schedule_masks_bounded:
  assumes "ParseSchedule load_tz utc order expr tz = Inr s"
  shows "((\<exists>n. bit (sc_minutes s) n) \<and> (\<forall>n. bit (sc_minutes s) n \<longrightarrow> n \<le> 59)) \<and>
    ((\<exists>n. bit (sc_hours s) n) \<and> (\<forall>n. bit (sc_hours s) n \<longrightarrow> n \<le> 23)) \<and>
    ((\<exists>n. bit (sc_doms s) n) \<and> (\<forall>n. bit (sc_doms s) n \<longrightarrow> n \<le> 31)) \<and>
    ((\<exists>n. bit (sc_months s) n) \<and> (\<forall>n. bit (sc_months s) n \<longrightarrow> n \<le> 12)) \<and>
    ((\<exists>n. bit (sc_dows s) n) \<and> (\<forall>n. bit (sc_dows s) n \<longrightarrow> n \<le> 6))"
proof -
  from assms obtain loc fs where "schedule_of_fields loc order expr fs = Inr s"
    by (auto simp: ParseSchedule_def bind_ok_Inr)
  then obtain f0 f1 f2 f3 f4 mins hrs doms months dows
    where p: "parseField f0 0 59 = Inr mins" "parseField f1 0 23 = Inr hrs" "parseField f2 1 31 = Inr doms"
      "parseField f3 1 12 = Inr months" "parseField (normalizeDOW order f4) 0 7 = Inr dows"
    and s: "s = \<lparr>sc_expr = expr, sc_minutes = mins, sc_hours = ucast hrs, sc_doms = ucast doms,
                 sc_months = ucast months, sc_dows = ucast (fold_sunday dows), sc_loc = loc,
                 sc_domStar = (f2 = ''*''), sc_dowStar = (f4 = ''*'')\<rparr>"
    by (cases "(loc, order, expr, fs)" rule: schedule_of_fields.cases)
      (auto simp: bind_ok_Inr map_err_Inr)
  note m = parseField_mask [OF p(1)] parseField_mask [OF p(2)] parseField_mask [OF p(3)]
    parseField_mask [OF p(4)] parseField_mask [OF p(5)]
  have dows: "(\<exists>n. n \<le> 6 \<and> bit (fold_sunday dows) n) \<and> (\<forall>n. bit (fold_sunday dows) n \<longrightarrow> n \<le> 6)"
  proof -
    obtain n where n: "bit dows n" "int n \<le> 7" using m(5) by auto
    have "bit (fold_sunday dows) (if n = 7 then 0 else n)" using n(1) by (auto simp: bit_fold_sunday)
    moreover have "k \<le> 6" if "bit (fold_sunday dows) k" for k
    proof -
      have "k \<noteq> 7 \<and> (bit dows k \<or> k = 0)" using that by (auto simp: bit_fold_sunday split: if_splits)
      moreover have "bit dows k \<longrightarrow> k \<le> 7" using m(5) by auto
      ultimately show ?thesis by linarith
    qed
    ultimately show ?thesis by blast
  qed
  have mins: "(\<exists>n. bit mins n) \<and> (\<forall>n. bit mins n \<longrightarrow> n \<le> 59)" using m(1) by auto
  have d: "(\<exists>n. bit (fold_sunday dows) n) \<and> (\<forall>n. bit (fold_sunday dows) n \<longrightarrow> int n \<le> 6)"
    using dows by auto
  show ?thesis
    unfolding s using mins
      narrow_mask [where 'b = 32, OF m(2)] narrow_mask [where 'b = 32, OF m(3)]
      narrow_mask [where 'b = 16, OF m(4)] narrow_mask [where 'b = 8, OF d]
    by simp
qed

theorem schedule_masks_bounded_witness:
  "\<exists>s :: unit schedule. ParseSchedule (\<lambda>tz. Inr ()) () [] ''30 4 1 1 0'' [] = Inr s \<and>
    (\<exists>n. bit (sc_minutes s) n) \<and> (\<exists>n. bit (sc_dows s) n)"
proof -
  have "case ParseSchedule (\<lambda>tz. Inr ()) () [] ''30 4 1 1 0'' [] of Inr _ \<Rightarrow> True | Inl _ \<Rightarrow> False"
    by code_simp
  then obtain s where p: "ParseSchedule (\<lambda>tz. Inr ()) () [] ''30 4 1 1 0'' [] = Inr s"
    by (auto split: sum.splits)
  from schedule_masks_bounded [OF p] p show ?thesis by simp
qed

text \<open>The fact the property below and the scheduler rest on.\<close>

lemma Next_spec:
  assumes "0 \<le> after"
  shows "let r = Next off s after; hit = (\<lambda>u. u mod minute_ns = 0 \<and> cron_match s (local_civil off (sc_loc s) u))
    in if r = 0 then \<forall>u. hit u \<longrightarrow> u \<le> after \<or> after div minute_ns * minute_ns + minute_ns + search_window \<le> u
       else after < r \<and> r < after div minute_ns * minute_ns + minute_ns + search_window \<and> hit r \<and> (\<forall>u. after < u \<and> u < r \<longrightarrow> \<not> hit u)"
proof -
  define t where "t = after div minute_ns * minute_ns + minute_ns"
  have pos: "0 < minute_ns" by (simp add: minute_ns_def)
  have t: "0 < t" "after < t" "t \<le> after + minute_ns"
    using next_minute [OF assms] pos pos_mod_sign [of minute_ns after]
    by (simp_all add: t_def minus_mod_eq_div_mult [symmetric])
  have grid: "\<exists>k. u = t + int k * minute_ns" if "after < u" "u mod minute_ns = 0" for u
    using next_minute(3) [OF assms that] by (simp add: t_def)
  have mod: "(t + int k * minute_ns) mod minute_ns = 0" for k by (simp add: t_def)
  have r: "Next off s after = next_from off s t (t + search_window)" by (simp add: Next_def t_def Let_def)
  let ?m = "\<lambda>u. cron_match s (local_civil off (sc_loc s) u)"
  from next_from_spec [OF t(1), of off s "t + search_window"]
  show ?thesis
  proof (elim disjE exE conjE)
    assume none: "next_from off s t (t + search_window) = 0"
      "\<forall>k. t + int k * minute_ns < t + search_window \<longrightarrow> \<not> ?m (t + int k * minute_ns)"
    have "u \<le> after \<or> t + search_window \<le> u" if u: "u mod minute_ns = 0" "?m u" for u
    proof (cases "after < u")
      case True
      then obtain k where k: "u = t + int k * minute_ns" using grid [OF True u(1)] by blast
      then have "t + search_window \<le> u" using none(2) u(2) by force
      then show ?thesis by simp
    qed simp
    with none(1) show ?thesis by (simp add: r Let_def t_def)
  next
    fix k
    assume some: "next_from off s t (t + search_window) = t + int k * minute_ns"
      "t + int k * minute_ns < t + search_window" "?m (t + int k * minute_ns)"
      "\<forall>j<k. \<not> ?m (t + int j * minute_ns)"
    define v where "v = t + int k * minute_ns"
    have "0 \<le> int k * minute_ns" using pos by simp
    then have "0 < v" "after < v" "v < t + search_window"
      using t some(2) unfolding v_def by linarith+
    moreover have first: "\<not> ?m u" if u: "after < u" "u < t + int k * minute_ns" "u mod minute_ns = 0" for u
    proof -
      obtain j where j: "u = t + int j * minute_ns" using grid [OF u(1,3)] by blast
      with u(2) pos have "j < k" by simp
      with some(4) j show ?thesis by blast
    qed
    ultimately show ?thesis
      using some(1,3) mod [of k] first unfolding r v_def [symmetric] by (simp add: Let_def flip: t_def)
  qed
qed

text \<open>
  C30: \<open>Next\<close> returns the first matching whole minute strictly after the given instant, and reports
  that there is none (the zero time) only when no whole minute of the four-year window matches.
\<close>

theorem next_is_first_match:
  assumes "0 \<le> after"
  shows "let r = Next off s after; hit = (\<lambda>u. u mod minute_ns = 0 \<and> cron_match s (local_civil off (sc_loc s) u))
    in if r = 0 then \<forall>u. hit u \<longrightarrow> u \<le> after \<or> after + search_window < u
       else after < r \<and> r \<le> after + minute_ns + search_window \<and> hit r \<and> (\<forall>u. after < u \<and> u < r \<longrightarrow> \<not> hit u)"
proof -
  define T where "T = after div minute_ns * minute_ns + minute_ns"
  have T: "after < T" "T \<le> after + minute_ns"
    using pos_mod_bound [of minute_ns after] pos_mod_sign [of minute_ns after]
    by (simp_all add: T_def minute_ns_def minus_mod_eq_div_mult [symmetric])
  let ?hit = "\<lambda>u. u mod minute_ns = 0 \<and> cron_match s (local_civil off (sc_loc s) u)"
  note N = Next_spec [OF assms, of off s, folded T_def, unfolded Let_def]
  show ?thesis
  proof (cases "Next off s after = 0")
    case True
    with N have n: "\<And>u. ?hit u \<Longrightarrow> u \<le> after \<or> T + search_window \<le> u" by simp
    have "u \<le> after \<or> after + search_window < u" if "?hit u" for u using n [OF that] T(1) by linarith
    then show ?thesis using True by (simp add: Let_def)
  next
    case False
    with N have "Next off s after < T + search_window" by simp
    then have "Next off s after \<le> after + minute_ns + search_window" using T(2) by linarith
    then show ?thesis using False N by (simp add: Let_def)
  qed
qed

text \<open>Every minute, in UTC.\<close>

definition every_minute :: "unit schedule" where
  "every_minute = \<lparr>sc_expr = ''* * * * *'', sc_minutes = - 1, sc_hours = - 1, sc_doms = - 1,
     sc_months = - 1, sc_dows = - 1, sc_loc = (), sc_domStar = True, sc_dowStar = True\<rparr>"

theorem next_is_first_match_witness:
  "Next (\<lambda>_ _. 0) every_minute 90000000000 = 120000000000"
proof -
  have m: "cron_match every_minute (local_civil (\<lambda>_ _. 0) () 120000000000)"
    by (simp add: cron_match_bits every_minute_def local_civil_def utc_civil_def minute_ns_def
        year_day.simps month_lengths_def leap_def)
  define r where "r = Next (\<lambda>_ _. 0) every_minute 90000000000"
  have loc: "sc_loc every_minute = ()" by simp
  note first = next_is_first_match [of 90000000000 "\<lambda>_ _. 0" every_minute, folded r_def, unfolded Let_def loc]
  have "r \<noteq> 0"
  proof
    assume "r = 0"
    with first have "\<forall>u. u mod minute_ns = 0 \<and> cron_match every_minute (local_civil (\<lambda>_ _. 0) () u) \<longrightarrow>
        u \<le> 90000000000 \<or> 90000000000 + search_window < u" by simp
    from this [rule_format, of 120000000000] m show False
      by (simp add: minute_ns_def search_window_def)
  qed
  then have b: "90000000000 < r" "60000000000 dvd r" "\<not> 120000000000 < r"
    using first m by (auto simp: minute_ns_def)
  from b(2) obtain q where q: "r = 60000000000 * q" by (rule dvdE)
  with b(1,3) have "1 < q" "q < 3" by linarith+
  then have "q = 2" by simp
  with q show ?thesis unfolding r_def [symmetric] by simp
qed

text \<open>
  The addition of the range loop wraps when the step is the largest integer, and the loop comes
  back two below its start: a range from \<open>lo\<close> with that step also fires at \<open>lo - 2\<close>, which the range
  excludes.
\<close>

theorem step_overflow_adds_value:
  assumes "split_step part = Inr (body, 2 ^ 63 - 1)" and "range_ends body mn mx = Inr (lo, hi)"
    and "0 \<le> mn" and "mn \<le> lo" and "2 \<le> lo" and "lo \<le> hi" and "hi \<le> mx" and "mx < 64"
  shows "\<exists>w. parseRange part mn mx = Inr w \<and> bit w (nat (lo - 2))"
proof -
  define g where "g = (197 :: nat)"
  have g: "loop_fuel = Suc (Suc (Suc g))" by (simp add: g_def loop_fuel_def)
  have w1: "wrap64 (lo + (2 ^ 63 - 1)) = lo - 1 - 2 ^ 63"
    using assms by (subst wrap64_over) auto
  have w2: "wrap64 (lo - 1 - 2 ^ 63 + (2 ^ 63 - 1)) = lo - 2"
    using assms by (subst wrap64_id) auto
  have e: "range_loop loop_fuel lo hi (2 ^ 63 - 1) 0 =
      range_loop (Suc g) (lo - 2) hi (2 ^ 63 - 1) ((0 OR shl1 lo) OR shl1 (lo - 1 - 2 ^ 63))"
    using assms w1 w2 unfolding g by simp
  have "range_loop loop_fuel lo hi (2 ^ 63 - 1) 0 \<noteq> None"
    using assms by (intro range_loop_returns) auto
  then obtain w where w: "range_loop loop_fuel lo hi (2 ^ 63 - 1) 0 = Some w" by blast
  have "bit w (nat (lo - 2))"
    using range_loop_first [of g "lo - 2" hi "2 ^ 63 - 1" _ w] w assms unfolding e by simp
  with w assms show ?thesis by (auto simp: parseRange_def)
qed

theorem step_overflow_adds_value_witness:
  "\<exists>w. parseRange ''2-59/9223372036854775807'' 0 59 = Inr w \<and> bit w 0"
proof -
  have p: "split_step ''2-59/9223372036854775807'' = Inr (''2-59'', 2 ^ 63 - 1)"
    "range_ends ''2-59'' 0 59 = Inr (2, 59)"
    by (simp_all add: split_step_def range_ends_def atoi_def is_digit_def digit_val_def)
  from step_overflow_adds_value [OF p] show ?thesis by simp
qed

end
