(* ===== verification/Jobs.thy ===== *)
theory Jobs
  imports History Cron
begin

text \<open>
  Jobs and cron jobs: \<open>handlers_job.go\<close> and \<open>handlers_cronjob.go\<close>. The two run a container to its end
  the same way; \<open>run_to_end\<close> is that common part, with the two status records and their upserts as
  arguments. The run itself blocks on \<open>docker wait\<close>, one call of the manager.
\<close>

section \<open>Specs\<close>

record job_spec =
  jb_image :: string
  jb_env :: vars
  jb_network :: string
  jb_shape :: pod_shape
  jb_timeout :: string
  jb_env_from :: "string list"
  jb_build_args :: vars
  jb_ok_limit :: int
  jb_fail_limit :: int
  jb_labels :: vars
  jb_resources :: "resource_limits option option"
  jb_logs :: "logs_spec option"
  jb_digests :: vars

record cron_spec =
  cj_schedule :: string
  cj_job :: job_spec
  cj_policy :: string
  cj_timezone :: string
  cj_suspend :: bool
  cj_ok_limit :: int
  cj_fail_limit :: int

definition decode_job :: "(string \<times> json) list \<Rightarrow> string + job_spec" where
  "decode_job ob =
     bind_ok (jstr ''image'' ob) (\<lambda>image. bind_ok (jvars ''env'' ob) (\<lambda>env. bind_ok (jstr ''network'' ob) (\<lambda>net.
     bind_ok (decode_shape ob) (\<lambda>shape. bind_ok (jstr ''timeout'' ob) (\<lambda>timeout.
     bind_ok (jstrs ''env_from'' ob) (\<lambda>env_from. bind_ok (jvars ''build_args'' ob) (\<lambda>build_args.
     bind_ok (jint ''successful_history_limit'' ob) (\<lambda>ok. bind_ok (jint ''failed_history_limit'' ob) (\<lambda>fl.
     bind_ok (jvars ''labels'' ob) (\<lambda>labels. bind_ok (jopt ''resources'' ob decode_resources) (\<lambda>res.
     bind_ok (jopt ''logs'' ob decode_logs) (\<lambda>logs. bind_ok (jvars ''_asset_digests'' ob) (\<lambda>digests.
       Inr \<lparr>jb_image = image, jb_env = env, jb_network = net, jb_shape = shape, jb_timeout = timeout,
            jb_env_from = env_from, jb_build_args = build_args, jb_ok_limit = ok, jb_fail_limit = fl,
            jb_labels = labels, jb_resources = res, jb_logs = logs, jb_digests = digests\<rparr>)))))))))))))"

definition decodeJobSpec :: "manifest \<Rightarrow> string + job_spec" where
  "decodeJobSpec m =
     (if m_spec m = JNull then Inl (''job/'' @ m_name m @ '': empty spec'')
      else map_err (\<lambda>e. ''decode job spec: '' @ e) (bind_ok (jobj (m_spec m)) decode_job))"

definition decode_cron :: "(string \<times> json) list \<Rightarrow> string + cron_spec" where
  "decode_cron ob =
     bind_ok (jstr ''schedule'' ob) (\<lambda>sched. bind_ok (bind_ok (jsub ''job'' ob) decode_job) (\<lambda>job.
     bind_ok (jstr ''concurrency_policy'' ob) (\<lambda>policy. bind_ok (jstr ''timezone'' ob) (\<lambda>tz.
     bind_ok (jbool ''suspend'' ob) (\<lambda>suspend. bind_ok (jint ''successful_history_limit'' ob) (\<lambda>ok.
     bind_ok (jint ''failed_history_limit'' ob) (\<lambda>fl.
       Inr \<lparr>cj_schedule = sched, cj_job = job, cj_policy = policy, cj_timezone = tz, cj_suspend = suspend,
            cj_ok_limit = ok, cj_fail_limit = fl\<rparr>)))))))"

definition decodeCronJobSpec :: "manifest \<Rightarrow> string + cron_spec" where
  "decodeCronJobSpec m =
     (if m_spec m = JNull then Inl (''cronjob/'' @ m_name m @ '': empty spec'')
      else bind_ok (map_err (\<lambda>e. ''decode cronjob spec: '' @ e) (bind_ok (jobj (m_spec m)) decode_cron))
             (\<lambda>spec. if cj_schedule spec = [] then Inl (''cronjob/'' @ m_name m @ '': schedule is required'')
                     else Inr spec))"

definition validateJobNetwork :: "string \<Rightarrow> job_spec \<Rightarrow> string + job_spec" where
  "validateJobNetwork nm spec =
     (let sh = jb_shape spec; mode = sh_network_mode sh
      in if mode = [] then
           (let nets = (if sh_networks sh = [] \<and> jb_network spec \<noteq> [] then [jb_network spec] else sh_networks sh)
            in Inr (spec\<lparr>jb_shape := sh\<lparr>sh_networks := if ''voodu0'' \<in> set nets then nets else nets @ [''voodu0'']\<rparr>\<rparr>))
         else if mode = ''host'' \<or> mode = ''none'' then
           (if sh_networks sh \<noteq> [] \<or> jb_network spec \<noteq> []
            then Inl (''job/'' @ nm @ '': network_mode is mutually exclusive with network/networks'')
            else Inr spec)
         else Inl (''job/'' @ nm @ '': network_mode not supported''))"

definition default_image :: "job_spec \<Rightarrow> string \<Rightarrow> job_spec" where
  "default_image spec app = (if jb_image spec = [] then spec\<lparr>jb_image := app @ '':latest''\<rparr> else spec)"

definition history_limits :: "int \<Rightarrow> int \<Rightarrow> int \<times> int" where
  "history_limits ok fl = (if ok \<le> 0 then 3 else ok, if fl \<le> 0 then 1 else fl)"

definition jobHistoryLimits :: "job_spec \<Rightarrow> int \<times> int" where
  "jobHistoryLimits spec = history_limits (jb_ok_limit spec) (jb_fail_limit spec)"

definition cronHistoryLimits :: "cron_spec \<Rightarrow> int \<times> int" where
  "cronHistoryLimits spec = history_limits (cj_ok_limit spec) (cj_fail_limit spec)"

section \<open>The run history\<close>

definition empty_job_status :: job_status where
  "empty_job_status = \<lparr>js_schedule = [], js_image = [], js_history = [], js_last_run = None\<rparr>"

definition loadJobStatus :: "'s etcd \<Rightarrow> 's \<Rightarrow> string \<Rightarrow> string \<Rightarrow> string + job_status option" where
  "loadJobStatus cl s k app =
     (case GetStatus cl s k app of
        Inl e \<Rightarrow> Inl e
      | Inr (Some (DJobStatus st)) \<Rightarrow> Inr (Some st)
      | Inr _ \<Rightarrow> Inr None)"

fun upsert_run :: "job_run \<Rightarrow> job_run list \<Rightarrow> job_run list option" where
  "upsert_run run [] = None"
| "upsert_run run (r # rs) =
     (if jr_id r = jr_id run then Some (run # rs)
      else case upsert_run run rs of None \<Rightarrow> None | Some rs' \<Rightarrow> Some (r # rs'))"

fun cap_from :: "int \<Rightarrow> int \<Rightarrow> int \<Rightarrow> int \<Rightarrow> job_run list \<Rightarrow> job_run list" where
  "cap_from ok fl okCap flCap [] = []"
| "cap_from ok fl okCap flCap (r # rs) =
     (case jr_status r of
        RunSucceeded \<Rightarrow> if ok \<ge> okCap then cap_from ok fl okCap flCap rs
                        else r # cap_from (ok + 1) fl okCap flCap rs
      | RunFailed \<Rightarrow> if fl \<ge> flCap then cap_from ok fl okCap flCap rs
                     else r # cap_from ok (fl + 1) okCap flCap rs
      | RunRunning \<Rightarrow> r # cap_from ok fl okCap flCap rs)"

definition capHistory :: "job_run list \<Rightarrow> int \<Rightarrow> int \<Rightarrow> job_run list" where
  "capHistory history okCap flCap = cap_from 0 0 okCap flCap history"

definition with_run :: "job_status \<Rightarrow> job_run \<Rightarrow> int \<times> int \<Rightarrow> job_status" where
  "with_run st run caps =
     st\<lparr>js_history := capHistory (case upsert_run run (js_history st) of None \<Rightarrow> run # js_history st | Some h \<Rightarrow> h)
          (fst caps) (snd caps),
        js_last_run := Some (if jr_ended run \<noteq> 0 then jr_ended run else jr_started run)\<rparr>"

text \<open>\<open>appendRun\<close> of the two handlers; the cron job's also keeps the schedule.\<close>

definition job_appendRun :: "'s etcd \<Rightarrow> 's \<Rightarrow> string \<Rightarrow> string \<Rightarrow> int \<times> int \<Rightarrow> job_run \<Rightarrow> string + 's" where
  "job_appendRun cl s app img caps run =
     (case loadJobStatus cl s ''job'' app of
        Inl e \<Rightarrow> Inl e
      | Inr found \<Rightarrow>
          (let st = (case found of None \<Rightarrow> empty_job_status | Some st \<Rightarrow> st);
               st1 = (if img \<noteq> [] then st\<lparr>js_image := img\<rparr> else st)
           in PutStatus cl s ''job'' app (DJobStatus (with_run st1 run caps))))"

definition cron_appendRun :: "'s etcd \<Rightarrow> 's \<Rightarrow> string \<Rightarrow> string \<Rightarrow> string \<Rightarrow> int \<times> int \<Rightarrow> job_run \<Rightarrow> string + 's" where
  "cron_appendRun cl s app sched img caps run =
     (case loadJobStatus cl s ''cronjob'' app of
        Inl e \<Rightarrow> Inl e
      | Inr found \<Rightarrow>
          (let st = (case found of None \<Rightarrow> empty_job_status | Some st \<Rightarrow> st)\<lparr>js_schedule := sched\<rparr>;
               st1 = (if img \<noteq> [] then st\<lparr>js_image := img\<rparr> else st)
           in PutStatus cl s ''cronjob'' app (DJobStatus (with_run st1 run caps))))"

definition gcRuns :: "('s, 'w) henv \<Rightarrow> 's \<times> 'w \<Rightarrow> string \<Rightarrow> string \<Rightarrow> string \<Rightarrow> 'w \<times> string option" where
  "gcRuns env sw k scope nm =
     (case loadJobStatus (e_cl env) (fst sw) k (AppID scope nm) of
        Inl e \<Rightarrow> (snd sw, Some e)
      | Inr found \<Rightarrow>
          gcRunContainers env (snd sw) k scope nm
            (jr_id ` set (case found of None \<Rightarrow> [] | Some st \<Rightarrow> js_history st)))"

section \<open>Running\<close>

definition reserved_labels :: "string list" where
  "reserved_labels = [''createdby'', ''voodu.kind'', ''voodu.scope'', ''voodu.name'', ''voodu.replica_id'',
     ''voodu.manifest_hash'', ''voodu.created_at'', ''voodu.release_id'', ''voodu.replica_ordinal'']"

definition isVooduReservedLabel :: "string \<Rightarrow> bool" where
  "isVooduReservedLabel k = (k \<in> set reserved_labels)"

definition extra_labels :: "vars \<Rightarrow> string list" where
  "extra_labels ls = map (\<lambda>(k, v). k @ ''='' @ v) (filter (\<lambda>(k, v). \<not> isVooduReservedLabel k) ls)"

definition run_labels :: "string \<Rightarrow> string \<Rightarrow> string \<Rightarrow> string \<Rightarrow> string \<Rightarrow> string list" where
  "run_labels k scope nm runID created =
     BuildLabels \<lparr>id_kind = k, id_scope = scope, id_name = nm, id_replica = runID, id_hash = [],
       id_created = created, id_release = [], id_ordinal = 0, id_role = []\<rparr>"

text \<open>\<open>linkEnv\<close>: config below the spec's own environment, a config that cannot be read is skipped.\<close>

definition job_linkEnv ::
  "('s, 'w) henv \<Rightarrow> 's \<times> 'w \<Rightarrow> string \<Rightarrow> string \<Rightarrow> string \<Rightarrow> vars \<Rightarrow> 'w \<times> (string + string)" where
  "job_linkEnv env sw scope nm app vs =
     (let merged = vs @ (case ResolveConfig (e_cl env) (fst sw) scope nm of Inl _ \<Rightarrow> [] | Inr c \<Rightarrow> c)
      in case e_write_env env (snd sw) app (envMapToPairs merged) of
           (w1, Inl e) \<Rightarrow> (w1, Inl (''write job env: '' @ e))
         | (w1, Inr _) \<Rightarrow> (w1, Inr (e_app_env_file env app)))"

definition run_container ::
  "job_spec \<Rightarrow> string \<Rightarrow> string list \<Rightarrow> string \<Rightarrow> string list \<Rightarrow> string \<times> int \<Rightarrow> container_spec" where
  "run_container spec cname labels envFile extraEnv limits =
     \<lparr>k_name = cname, k_image = jb_image spec, k_shape = jb_shape spec, k_ports = [], k_restart = [],
      k_env_file = envFile, k_extra_env_files = extraEnv, k_env = [], k_labels = labels, k_ip = [],
      k_auto_remove = False, k_tty = False, k_aliases = [], k_cpu = fst limits, k_memory = snd limits,
      k_log_size = fst (effectiveLogs (jb_logs spec)), k_log_files = snd (effectiveLogs (jb_logs spec))\<rparr>"

definition keep_state :: "'s \<Rightarrow> string + 's \<Rightarrow> 's" where
  "keep_state s r = (case r of Inl _ \<Rightarrow> s | Inr s' \<Rightarrow> s')"

definition ended_run :: "job_run \<Rightarrow> int \<Rightarrow> int \<Rightarrow> run_status \<Rightarrow> string \<Rightarrow> job_run" where
  "ended_run run at code st er = run\<lparr>jr_ended := at, jr_exit := code, jr_status := st, jr_error := er\<rparr>"

text \<open>
  From the drawn run id to the end: record the run as running, spawn, wait, record the outcome,
  collect the containers that fell out of the history. Failures to write the status are logged.
\<close>

definition run_to_end ::
  "('s, 'w) henv \<Rightarrow> ('s \<Rightarrow> job_run \<Rightarrow> string + 's) \<Rightarrow> string \<Rightarrow> string list \<Rightarrow> 's \<times> 'w \<Rightarrow> string \<Rightarrow> string
    \<Rightarrow> job_spec \<Rightarrow> string \<Rightarrow> string list \<Rightarrow> string \<Rightarrow> ('s \<times> 'w) \<times> job_run \<times> string option" where
  "run_to_end env append_run k own_labels sw scope nm spec envFile extraEnv runID =
     (case sw of (s, w) \<Rightarrow>
       (let cname = ContainerName scope nm runID;
            run = \<lparr>jr_id = runID, jr_started = e_clock env w, jr_ended = 0, jr_exit = 0, jr_status = RunRunning, jr_error = []\<rparr>;
            labels = run_labels k scope nm runID (e_now env w) @ own_labels;
            s1 = keep_state s (append_run s run)
        in case dockerResources (e_floats env) (jb_resources spec) of
             Inl e \<Rightarrow>
               (let r = ended_run run (e_clock env w) 0 RunFailed (''invalid resources: '' @ e)
                in ((keep_state s1 (append_run s1 r), w), r, Some (k @ ''/'' @ AppID scope nm @ '': '' @ e)))
           | Inr limits \<Rightarrow>
               (case cm_recreate (e_cm env) w (run_container spec cname labels envFile extraEnv limits) of
                  (w1, Some e) \<Rightarrow>
                    (let r = ended_run run (e_clock env w1) 0 RunFailed (''spawn: '' @ e)
                     in ((keep_state s1 (append_run s1 r), w1), r,
                         Some (''spawn '' @ k @ '' container '' @ cname @ '': '' @ e)))
                | (w1, None) \<Rightarrow>
                    (case cm_wait (e_cm env) w1 cname of
                       (w2, code, werr) \<Rightarrow>
                         (let r = ended_run run (e_clock env w2) code
                                    (if werr = None \<and> code = 0 then RunSucceeded else RunFailed)
                                    (case werr of None \<Rightarrow> [] | Some e \<Rightarrow> e);
                              s2 = keep_state s1 (append_run s1 r);
                              w3 = fst (gcRuns env (s2, w2) k scope nm)
                          in ((s2, w3), r,
                              case werr of
                                Some e \<Rightarrow> Some e
                              | None \<Rightarrow> if code \<noteq> 0
                                        then Some (k @ ''/'' @ AppID scope nm @ (if k = ''job'' then '' run '' else '' tick '')
                                                   @ runID @ '' exited '' @ itoa_int code)
                                        else None))))))"

definition no_run :: job_run where
  "no_run = \<lparr>jr_id = [], jr_started = 0, jr_ended = 0, jr_exit = 0, jr_status = RunRunning, jr_error = []\<rparr>"

definition RunOnce ::
  "('s, 'w) henv \<Rightarrow> 's \<times> 'w \<Rightarrow> string \<Rightarrow> string \<Rightarrow> ('s \<times> 'w) \<times> job_run \<times> string option" where
  "RunOnce env sw scope nm =
     (let app = AppID scope nm
      in case Get (e_cl env) (fst sw) ''job'' scope nm of
           Inl e \<Rightarrow> (sw, no_run, Some (''read job manifest: '' @ e))
         | Inr None \<Rightarrow> (sw, no_run, Some (''job/'' @ app @ '' not found''))
         | Inr (Some m) \<Rightarrow>
             (case bind_ok (decodeJobSpec m) (\<lambda>sp. validateJobNetwork nm (default_image sp app)) of
                Inl e \<Rightarrow> (sw, no_run, Some e)
              | Inr spec \<Rightarrow>
                  (case job_linkEnv env sw scope nm app (jb_env spec) of
                     (w1, Inl e) \<Rightarrow> ((fst sw, w1), no_run, Some e)
                   | (w1, Inr envFile) \<Rightarrow>
                       (case resolveEnvFromList env w1 (jb_env_from spec) scope of
                          Inl e \<Rightarrow> ((fst sw, w1), no_run, Some (''resolve env_from: '' @ e))
                        | Inr extraEnv \<Rightarrow>
                            (case e_new_id env w1 of
                               (w2, runID) \<Rightarrow>
                                 run_to_end env
                                   (\<lambda>s. job_appendRun (e_cl env) s app (jb_image spec) (jobHistoryLimits spec))
                                   ''job'' (extra_labels (jb_labels spec)) (fst sw, w2) scope nm spec envFile extraEnv runID)))))"

section \<open>Declaring and removing\<close>

definition baseline_job :: "'s etcd \<Rightarrow> 's \<Rightarrow> string \<Rightarrow> string \<Rightarrow> string \<Rightarrow> string \<Rightarrow> string + 's" where
  "baseline_job cl s k app sched img =
     (case loadJobStatus cl s k app of
        Inl e \<Rightarrow> Inl e
      | Inr found \<Rightarrow>
          PutStatus cl s k app (DJobStatus
            (case found of
               None \<Rightarrow> empty_job_status\<lparr>js_schedule := sched, js_image := img\<rparr>
             | Some prev \<Rightarrow> \<lparr>js_schedule = sched, js_image = img, js_history = js_history prev,
                             js_last_run = js_last_run prev\<rparr>)))"

definition apply_job :: "'s etcd \<Rightarrow> 's \<Rightarrow> string \<Rightarrow> string \<Rightarrow> manifest option \<Rightarrow> string + 's" where
  "apply_job cl s scope nm m =
     (case m of
        None \<Rightarrow> Inl ''put event without manifest''
      | Some mf \<Rightarrow>
          (let app = AppID scope nm
           in bind_ok (decodeJobSpec mf) (\<lambda>spec0.
              bind_ok (validateJobNetwork nm (default_image spec0 app)) (\<lambda>spec.
                baseline_job cl s ''job'' app [] (jb_image spec)))))"

fun remove_run_slots :: "('s, 'w) henv \<Rightarrow> 'w \<Rightarrow> slot list \<Rightarrow> 'w \<times> string option" where
  "remove_run_slots env w [] = (w, None)"
| "remove_run_slots env w (s # ss) =
     (case cm_remove (e_cm env) w (sl_name s) of
        (w1, Some e) \<Rightarrow> (w1, Some (''remove '' @ sl_name s @ '': '' @ e))
      | (w1, None) \<Rightarrow> remove_run_slots env w1 ss)"

text \<open>\<open>remove\<close> of both handlers.\<close>

definition remove_runs ::
  "('s, 'w) henv \<Rightarrow> string \<Rightarrow> 's \<times> 'w \<Rightarrow> string \<Rightarrow> string \<Rightarrow> ('s \<times> 'w) \<times> string option" where
  "remove_runs env k sw scope nm =
     (case cm_list (e_cm env) (snd sw) k scope nm of
        Inl e \<Rightarrow> (sw, Some (''list '' @ k @ '' containers: '' @ e))
      | Inr slots \<Rightarrow>
          (case remove_run_slots env (snd sw) slots of
             (w1, Some e) \<Rightarrow> ((fst sw, w1), Some e)
           | (w1, None) \<Rightarrow>
               (case DeleteStatus (e_cl env) (fst sw) k (AppID scope nm) of
                  Inl e \<Rightarrow> ((fst sw, w1), Some (''clear '' @ k @ '' status: '' @ e))
                | Inr s1 \<Rightarrow> ((s1, w1), None))))"

section \<open>Cron jobs\<close>

definition cron_policies :: "string list" where
  "cron_policies = [[], ''Allow'', ''Forbid'']"

definition apply_cronjob ::
  "(string \<Rightarrow> string \<Rightarrow> cron_error + 'z schedule) \<Rightarrow> 's etcd \<Rightarrow> 's \<Rightarrow> string \<Rightarrow> string \<Rightarrow> manifest option \<Rightarrow> string + 's" where
  "apply_cronjob parse cl s scope nm m =
     (case m of
        None \<Rightarrow> Inl ''put event without manifest''
      | Some mf \<Rightarrow>
          (let app = AppID scope nm
           in bind_ok (decodeCronJobSpec mf) (\<lambda>spec.
              bind_ok (map_err (\<lambda>e. ''cronjob/'' @ app @ '': schedule'') (parse (cj_schedule spec) (cj_timezone spec))) (\<lambda>_.
              if cj_policy spec \<notin> set cron_policies
              then Inl (''cronjob/'' @ app @ '': concurrency_policy not supported'')
              else bind_ok (map_err (\<lambda>e. ''cronjob/'' @ app @ '': '' @ e)
                              (validateJobNetwork nm (default_image (cj_job spec) app))) (\<lambda>job.
                     baseline_job cl s ''cronjob'' app (cj_schedule spec) (jb_image job))))))"

text \<open>
  \<open>Tick\<close> in two parts, for the ticks of other cron jobs run in between: up to the mark of the
  \<open>Forbid\<close> policy, and the run. The marks are a set of keys.
\<close>

definition cron_key :: "string \<Rightarrow> string \<Rightarrow> string" where
  "cron_key scope nm = scope @ ''/'' @ nm"

definition markInFlight :: "string list \<Rightarrow> string \<Rightarrow> bool \<Rightarrow> string list \<times> bool" where
  "markInFlight marks key v =
     (if \<not> v then (removeAll key marks, False)
      else if key \<in> set marks then (marks, True)
      else (key # marks, False))"

datatype tick_start = TickRefused string | TickSkipped | TickRun cron_spec

definition tick_begin ::
  "('s, 'w) henv \<Rightarrow> 's \<Rightarrow> string list \<Rightarrow> string \<Rightarrow> string \<Rightarrow> string list \<times> tick_start" where
  "tick_begin env s marks scope nm =
     (case Get (e_cl env) s ''cronjob'' scope nm of
        Inl e \<Rightarrow> (marks, TickRefused (''read cronjob manifest: '' @ e))
      | Inr None \<Rightarrow> (marks, TickRefused (''cronjob/'' @ AppID scope nm @ '' not found''))
      | Inr (Some m) \<Rightarrow>
          (case decodeCronJobSpec m of
             Inl e \<Rightarrow> (marks, TickRefused e)
           | Inr spec \<Rightarrow>
               if cj_suspend spec then (marks, TickSkipped)
               else if cj_policy spec = ''Forbid'' then
                 (case markInFlight marks (cron_key scope nm) True of
                    (marks1, True) \<Rightarrow> (marks1, TickSkipped)
                  | (marks1, False) \<Rightarrow> (marks1, TickRun spec))
               else (marks, TickRun spec)))"

definition tick_run ::
  "('s, 'w) henv \<Rightarrow> 's \<times> 'w \<Rightarrow> string \<Rightarrow> string \<Rightarrow> cron_spec \<Rightarrow> ('s \<times> 'w) \<times> job_run \<times> string option" where
  "tick_run env sw scope nm spec =
     (let app = AppID scope nm
      in case validateJobNetwork nm (default_image (cj_job spec) app) of
           Inl e \<Rightarrow> (sw, no_run, Some e)
         | Inr job \<Rightarrow>
             (case job_linkEnv env sw scope nm app (jb_env job) of
                (w1, Inl e) \<Rightarrow> ((fst sw, w1), no_run, Some e)
              | (w1, Inr envFile) \<Rightarrow>
                  (case resolveEnvFromList env w1 (jb_env_from job) scope of
                     Inl e \<Rightarrow> ((fst sw, w1), no_run, Some (''resolve env_from: '' @ e))
                   | Inr extraEnv \<Rightarrow>
                       (case e_new_id env w1 of
                          (w2, runID) \<Rightarrow>
                            run_to_end env
                              (\<lambda>s. cron_appendRun (e_cl env) s app (cj_schedule spec) (jb_image job) (cronHistoryLimits spec))
                              ''cronjob'' [] (fst sw, w2) scope nm job envFile extraEnv runID))))"

text \<open>The deferred unmark runs on every return after the policy check, whatever the policy.\<close>

definition tick_end :: "string list \<Rightarrow> string \<Rightarrow> string \<Rightarrow> string list" where
  "tick_end marks scope nm = fst (markInFlight marks (cron_key scope nm) False)"

definition Tick ::
  "('s, 'w) henv \<Rightarrow> string list \<Rightarrow> 's \<times> 'w \<Rightarrow> string \<Rightarrow> string \<Rightarrow> string list \<times> ('s \<times> 'w) \<times> job_run \<times> string option" where
  "Tick env marks sw scope nm =
     (case tick_begin env (fst sw) marks scope nm of
        (marks1, TickRefused e) \<Rightarrow> (marks1, sw, no_run, Some e)
      | (marks1, TickSkipped) \<Rightarrow> (marks1, sw, no_run, None)
      | (marks1, TickRun spec) \<Rightarrow> (tick_end marks1 scope nm, tick_run env sw scope nm spec))"

section \<open>What a run leaves\<close>

definition insert_run :: "job_run \<Rightarrow> job_run list \<Rightarrow> job_run list" where
  "insert_run run h = (case upsert_run run h of None \<Rightarrow> run # h | Some h' \<Rightarrow> h')"

lemma upsert_run_None: "upsert_run run h = None \<longleftrightarrow> jr_id run \<notin> jr_id ` set h"
  by (induction h) (auto split: option.splits)

lemma insert_run_new: "jr_id run \<notin> jr_id ` set h \<Longrightarrow> insert_run run h = run # h"
  using upsert_run_None [of run h] by (simp add: insert_run_def)

lemma insert_run_head: "jr_id r = jr_id run \<Longrightarrow> insert_run run (r # h) = run # h"
  by (simp add: insert_run_def)

lemma cap_from_subset: "set (cap_from ok fl a b h) \<subseteq> set h"
  by (induction ok fl a b h rule: cap_from.induct) (auto split: run_status.splits if_splits)

lemma capHistory_head:
  "0 < a \<Longrightarrow> 0 < b \<Longrightarrow> \<exists>rest. capHistory (r # h) a b = r # rest \<and> set rest \<subseteq> set h"
  unfolding capHistory_def using cap_from_subset by (cases "jr_status r") auto

lemma history_limits_pos: "0 < fst (history_limits a b)" "0 < snd (history_limits a b)"
  by (simp_all add: history_limits_def)

definition job_history :: "kv \<Rightarrow> string \<Rightarrow> string \<Rightarrow> job_run list" where
  "job_history kv k app = (case kv (StatusKey k app) of Some (DJobStatus st) \<Rightarrow> js_history st | _ \<Rightarrow> [])"

locale running_host = host cm view cl kview env + answering_etcd cl kview up
  for cm :: "'w container_manager" and view :: "'w \<Rightarrow> containers"
    and cl :: "'s etcd" and kview :: "'s \<Rightarrow> kv" and env :: "('s, 'w) henv" and up :: "'s \<Rightarrow> bool"
begin

lemma loadJobStatus_up:
  "up s \<Longrightarrow> \<exists>found. loadJobStatus cl s k app = Inr found \<and>
     job_history (kview s) k app = (case found of None \<Rightarrow> [] | Some st \<Rightarrow> js_history st)"
  by (auto simp: loadJobStatus_def GetStatus_def get_up job_history_def split: option.splits doc.splits)

lemma PutStatus_up: "up s \<Longrightarrow> \<exists>s'. PutStatus cl s k app d = Inr s' \<and> up s' \<and> kview s' = (kview s)(StatusKey k app \<mapsto> d)"
  using put_view [of s "StatusKey k app" d] by (auto simp: PutStatus_def)

lemma with_run_history:
  "js_history (with_run st run caps) = capHistory (insert_run run (js_history st)) (fst caps) (snd caps)"
  by (simp add: with_run_def insert_run_def)

lemma job_appendRun_up:
  assumes "up s"
  shows "\<exists>s'. job_appendRun cl s app img caps run = Inr s' \<and> up s' \<and>
    job_history (kview s') ''job'' app = capHistory (insert_run run (job_history (kview s) ''job'' app)) (fst caps) (snd caps)"
proof -
  from loadJobStatus_up [OF assms] obtain found where
    l: "loadJobStatus cl s ''job'' app = Inr found"
    and h: "job_history (kview s) ''job'' app = (case found of None \<Rightarrow> [] | Some st \<Rightarrow> js_history st)" by blast
  define st where "st = (case found of None \<Rightarrow> empty_job_status | Some st \<Rightarrow> st)"
  define st1 where "st1 = (if img \<noteq> [] then st\<lparr>js_image := img\<rparr> else st)"
  have st1: "js_history st1 = job_history (kview s) ''job'' app"
    by (simp add: st1_def st_def h empty_job_status_def split: option.splits)
  have "job_appendRun cl s app img caps run = PutStatus cl s ''job'' app (DJobStatus (with_run st1 run caps))"
    by (simp add: job_appendRun_def l st1_def st_def Let_def)
  moreover obtain s' where "PutStatus cl s ''job'' app (DJobStatus (with_run st1 run caps)) = Inr s'" "up s'"
    "kview s' = (kview s)(StatusKey ''job'' app \<mapsto> DJobStatus (with_run st1 run caps))"
    using PutStatus_up [OF assms] by blast
  ultimately show ?thesis by (simp add: job_history_def with_run_history st1)
qed

lemma cron_appendRun_up:
  assumes "up s"
  shows "\<exists>s'. cron_appendRun cl s app sched img caps run = Inr s' \<and> up s' \<and>
    job_history (kview s') ''cronjob'' app = capHistory (insert_run run (job_history (kview s) ''cronjob'' app)) (fst caps) (snd caps)"
proof -
  from loadJobStatus_up [OF assms] obtain found where
    l: "loadJobStatus cl s ''cronjob'' app = Inr found"
    and h: "job_history (kview s) ''cronjob'' app = (case found of None \<Rightarrow> [] | Some st \<Rightarrow> js_history st)" by blast
  define st where "st = (case found of None \<Rightarrow> empty_job_status | Some st \<Rightarrow> st)\<lparr>js_schedule := sched\<rparr>"
  define st1 where "st1 = (if img \<noteq> [] then st\<lparr>js_image := img\<rparr> else st)"
  have st1: "js_history st1 = job_history (kview s) ''cronjob'' app"
    by (simp add: st1_def st_def h empty_job_status_def split: option.splits)
  have "cron_appendRun cl s app sched img caps run = PutStatus cl s ''cronjob'' app (DJobStatus (with_run st1 run caps))"
    by (simp add: cron_appendRun_def l st1_def st_def Let_def)
  moreover obtain s' where "PutStatus cl s ''cronjob'' app (DJobStatus (with_run st1 run caps)) = Inr s'" "up s'"
    "kview s' = (kview s)(StatusKey ''cronjob'' app \<mapsto> DJobStatus (with_run st1 run caps))"
    using PutStatus_up [OF assms] by blast
  ultimately show ?thesis by (simp add: job_history_def with_run_history st1)
qed

text \<open>The second append finds the run where the first one put it: at the head.\<close>

lemma recorded_twice:
  assumes "\<And>s run. up s \<Longrightarrow> \<exists>s'. ar s run = Inr s' \<and> up s' \<and> hist s' = capHistory (insert_run run (hist s)) a b"
    and "0 < a" "0 < b" "up s" and "jr_id run \<notin> jr_id ` set (hist s)" and "jr_id r = jr_id run"
  shows "\<exists>rest. hist (keep_state (keep_state s (ar s run)) (ar (keep_state s (ar s run)) r)) = r # rest
    \<and> set rest \<subseteq> set (hist s) \<and> up (keep_state (keep_state s (ar s run)) (ar (keep_state s (ar s run)) r))"
proof -
  obtain s1 where s1: "ar s run = Inr s1" "up s1" "hist s1 = capHistory (insert_run run (hist s)) a b"
    using assms(1) [OF assms(4), of run] by blast
  obtain h1 where h1: "hist s1 = run # h1" "set h1 \<subseteq> set (hist s)"
    using s1(3) insert_run_new [OF assms(5)] capHistory_head [OF assms(2,3), of run "hist s"] by auto
  obtain s2 where s2: "ar s1 r = Inr s2" "up s2" "hist s2 = capHistory (insert_run r (hist s1)) a b"
    using assms(1) [OF s1(2), of r] by blast
  have "hist s2 = capHistory (r # h1) a b" using s2(3) h1(1) insert_run_head [of run r h1] assms(6) by simp
  then show ?thesis using capHistory_head [OF assms(2,3), of r h1] h1(2) s1(1) s2(1,2) by (auto simp: keep_state_def)
qed

lemma run_to_end_records:
  assumes "\<And>s run. up s \<Longrightarrow> \<exists>s'. ar s run = Inr s' \<and> up s' \<and> hist s' = capHistory (insert_run run (hist s)) a b"
    and "0 < a" "0 < b" "up s" and fr: "runID \<notin> jr_id ` set (hist s)"
    and run: "run_to_end env ar k labs (s, w) scope nm spec ef ee runID = ((s', w'), r, er)"
  shows "jr_id r = runID \<and> jr_status r \<noteq> RunRunning \<and> (er = None \<longleftrightarrow> jr_status r = RunSucceeded)
    \<and> (\<exists>rest. hist s' = r # rest \<and> set rest \<subseteq> set (hist s))"
proof -
  define r0 where "r0 = \<lparr>jr_id = runID, jr_started = e_clock env w, jr_ended = 0, jr_exit = 0, jr_status = RunRunning, jr_error = []\<rparr>"
  have id0: "jr_id r0 = runID" by (simp add: r0_def)
  have idr: "jr_id (ended_run r0 at code st e) = runID" for at code st e by (simp add: ended_run_def id0)
  note twice = recorded_twice [where ar = ar and hist = hist and a = a and b = b, OF assms(1-4), where run = r0]
  have tw: "\<exists>rest. hist (keep_state (keep_state s (ar s r0)) (ar (keep_state s (ar s r0)) (ended_run r0 at code st e)))
      = ended_run r0 at code st e # rest \<and> set rest \<subseteq> set (hist s)" for at code st e
    using twice [of "ended_run r0 at code st e"] fr unfolding id0 idr by blast
  note unfolded = run [unfolded run_to_end_def Let_def prod.case, folded r0_def, unfolded env_cm]
  show ?thesis
  proof (cases "dockerResources (e_floats env) (jb_resources spec)")
    case (Inl e)
    then show ?thesis using unfolded tw idr by (auto simp: ended_run_def)
  next
    case (Inr limits)
    let ?c = "run_container spec (ContainerName scope nm runID) (run_labels k scope nm runID (e_now env w) @ labs) ef ee limits"
    obtain w1 e1 where rc: "cm_recreate cm w ?c = (w1, e1)" by fastforce
    show ?thesis
    proof (cases e1)
      case (Some e)
      then show ?thesis using unfolded tw idr Inr rc by (auto simp: ended_run_def)
    next
      case None
      obtain w2 code werr where wt: "cm_wait cm w1 (ContainerName scope nm runID) = (w2, code, werr)" by (cases "cm_wait cm w1 (ContainerName scope nm runID)") auto
      show ?thesis using unfolded tw idr Inr rc None wt by (auto simp: ended_run_def split: option.splits if_splits)
    qed
  qed
qed

lemma run_to_end_keeps:
  assumes run: "run_to_end env ar k labs (s, w) scope nm spec ef ee runID = ((s', w'), r, er)"
    and up: "\<And>s run. up s \<Longrightarrow> up (keep_state s (ar s run))" "up s" and "k \<noteq> []" "nm \<noteq> []"
    and c: "view w n = Some c" "n \<noteq> ContainerName scope nm runID"
    and i: "\<And>i. ctr_identity c = Some i \<Longrightarrow> Matches i k scope nm \<Longrightarrow>
      id_replica i \<in> jr_id ` set (job_history (kview s') k (AppID scope nm))"
  shows "view w' n = Some c"
proof -
  define r0 where "r0 = \<lparr>jr_id = runID, jr_started = e_clock env w, jr_ended = 0, jr_exit = 0, jr_status = RunRunning, jr_error = []\<rparr>"
  note unfolded = run [unfolded run_to_end_def Let_def prod.case, folded r0_def, unfolded env_cm]
  show ?thesis
  proof (cases "dockerResources (e_floats env) (jb_resources spec)")
    case (Inl e)
    then show ?thesis using unfolded c by auto
  next
    case (Inr limits)
    let ?c = "run_container spec (ContainerName scope nm runID) (run_labels k scope nm runID (e_now env w) @ labs) ef ee limits"
    obtain w1 e1 where rc: "cm_recreate cm w ?c = (w1, e1)" by fastforce
    have v1: "view w1 n = Some c" using recreate_frame [OF rc] c by (simp add: run_container_def)
    show ?thesis
    proof (cases e1)
      case (Some e)
      then show ?thesis using unfolded Inr rc v1 by auto
    next
      case None
      obtain w2 code werr where wt: "cm_wait cm w1 (ContainerName scope nm runID) = (w2, code, werr)" by (cases "cm_wait cm w1 (ContainerName scope nm runID)") auto
      have v2: "view w2 n = Some c" using wait_frame [OF wt c(2)] v1 by simp
      from unfolded Inr rc None wt obtain r1 where s': "s' = keep_state (keep_state s (ar s r0)) (ar (keep_state s (ar s r0)) r1)"
        and w': "w' = fst (gcRuns env (s', w2) k scope nm)" by auto
      have "up s'" unfolding s' by (intro up)
      from loadJobStatus_up [OF this] obtain found where l: "loadJobStatus cl s' k (AppID scope nm) = Inr found"
        and h: "job_history (kview s') k (AppID scope nm) = (case found of None \<Rightarrow> [] | Some st \<Rightarrow> js_history st)" by blast
      have g: "gcRuns env (s', w2) k scope nm = gcRunContainers env w2 k scope nm (jr_id ` set (job_history (kview s') k (AppID scope nm)))"
        by (simp add: gcRuns_def env_cl l h)
      have "view (fst (gcRunContainers env w2 k scope nm (jr_id ` set (job_history (kview s') k (AppID scope nm))))) n = Some c"
        by (rule gcRunContainers_keeps [OF prod.collapse [symmetric] assms(4,5) v2]) (use i in blast)
      then show ?thesis using w' g by simp
    qed
  qed
qed

lemma RunOnce_run:
  assumes "RunOnce env (s, w) scope nm = ((s', w'), r, er)" and "jr_id r \<noteq> []"
  shows "\<exists>spec w2 ef ee runID. view w2 = view w \<and>
    run_to_end env (\<lambda>s. job_appendRun cl s (AppID scope nm) (jb_image spec) (jobHistoryLimits spec)) ''job''
      (extra_labels (jb_labels spec)) (s, w2) scope nm spec ef ee runID = ((s', w'), r, er)"
proof -
  note u = assms(1) [unfolded RunOnce_def Let_def env_cl fst_conv snd_conv]
  have no: "jr_id no_run = []" by (simp add: no_run_def)
  obtain m where m: "Get cl s ''job'' scope nm = Inr (Some m)" using u no assms(2) by (auto split: sum.splits option.splits)
  obtain spec where sp: "bind_ok (decodeJobSpec m) (\<lambda>sp. validateJobNetwork nm (default_image sp (AppID scope nm))) = Inr spec"
    using u m no assms(2) by (auto split: sum.splits)
  obtain w1 ef where l: "job_linkEnv env (s, w) scope nm (AppID scope nm) (jb_env spec) = (w1, Inr ef)"
    using u m sp no assms(2) by (auto split: sum.splits prod.splits)
  obtain ee where e: "resolveEnvFromList env w1 (jb_env_from spec) scope = Inr ee"
    using u m sp l no assms(2) by (auto split: sum.splits)
  obtain w2 runID where d: "e_new_id env w1 = (w2, runID)" by fastforce
  have "view w1 = view w"
  proof -
    let ?ps = "envMapToPairs (jb_env spec @ (case ResolveConfig (e_cl env) s scope nm of Inl _ \<Rightarrow> [] | Inr c \<Rightarrow> c))"
    obtain w3 wr where wr: "e_write_env env w (AppID scope nm) ?ps = (w3, wr)" by fastforce
    have "w3 = w1" using l wr by (cases wr) (simp_all add: job_linkEnv_def Let_def)
    then show ?thesis using write_env_view [of w "AppID scope nm" ?ps] wr by simp
  qed
  then have "view w2 = view w" using new_id_view [of w1] d by simp
  moreover have "run_to_end env (\<lambda>s. job_appendRun cl s (AppID scope nm) (jb_image spec) (jobHistoryLimits spec)) ''job''
      (extra_labels (jb_labels spec)) (s, w2) scope nm spec ef ee runID = ((s', w'), r, er)"
    using u m sp l e d by simp
  ultimately show ?thesis by blast
qed

lemma job_appendRun_keep_up: "up s \<Longrightarrow> up (keep_state s (job_appendRun cl s app img caps run))"
  using job_appendRun_up [of s app img caps run] by (auto simp: keep_state_def)

lemma RunOnce_records:
  assumes "RunOnce env (s, w) scope nm = ((s', w'), r, er)" and "jr_id r \<noteq> []" and "up s" and "nm \<noteq> []"
    and fr: "jr_id r \<notin> jr_id ` set (job_history (kview s) ''job'' (AppID scope nm))"
  shows "jr_status r \<noteq> RunRunning \<and> (er = None \<longleftrightarrow> jr_status r = RunSucceeded)
    \<and> (\<exists>rest. job_history (kview s') ''job'' (AppID scope nm) = r # rest \<and>
              set rest \<subseteq> set (job_history (kview s) ''job'' (AppID scope nm)))
    \<and> (\<forall>n c i. view w n = Some c \<longrightarrow> ctr_identity c = Some i \<longrightarrow> n \<noteq> ContainerName scope nm (jr_id r) \<longrightarrow>
          id_replica i \<in> jr_id ` set (job_history (kview s') ''job'' (AppID scope nm)) \<longrightarrow> view w' n = Some c)"
proof -
  from RunOnce_run [OF assms(1,2)] obtain spec w2 ef ee runID where v: "view w2 = view w" and
    run: "run_to_end env (\<lambda>s. job_appendRun cl s (AppID scope nm) (jb_image spec) (jobHistoryLimits spec)) ''job''
      (extra_labels (jb_labels spec)) (s, w2) scope nm spec ef ee runID = ((s', w'), r, er)" by blast
  have "jr_id r = runID" using run by (auto simp: run_to_end_def Let_def ended_run_def split: sum.splits prod.splits option.splits)
  note rec = run_to_end_records [where hist = "\<lambda>s. job_history (kview s) ''job'' (AppID scope nm)"
      and a = "fst (jobHistoryLimits spec)" and b = "snd (jobHistoryLimits spec)", OF job_appendRun_up _ _ assms(3) _ run]
  have "jr_id r = runID \<and> jr_status r \<noteq> RunRunning \<and> (er = None \<longleftrightarrow> jr_status r = RunSucceeded)
    \<and> (\<exists>rest. job_history (kview s') ''job'' (AppID scope nm) = r # rest \<and>
              set rest \<subseteq> set (job_history (kview s) ''job'' (AppID scope nm)))"
    by (rule rec) (use fr \<open>jr_id r = runID\<close> in \<open>simp_all add: jobHistoryLimits_def history_limits_pos\<close>)
  moreover have "view w' n = Some c" if "view w n = Some c" "ctr_identity c = Some i" "n \<noteq> ContainerName scope nm (jr_id r)"
    "id_replica i \<in> jr_id ` set (job_history (kview s') ''job'' (AppID scope nm))" for n c i
    by (rule run_to_end_keeps [OF run job_appendRun_keep_up assms(3)]) (use that v assms(4) \<open>jr_id r = runID\<close> in auto)
  ultimately show ?thesis by blast
qed

end

interpretation running: running_host "docker_manager dockerd_cli" dd_view kv_client kv_view demo_env "\<lambda>s. \<not> snd s"
  by unfold_locales

section \<open>Ticks side by side\<close>

text \<open>
  The scheduler dispatches every tick in a goroutine of its own. A state is the marks and the ticks
  between their policy check and their deferred unmark, each with the policy it began under; a tick begins in any of the stores \<open>S\<close> that
  etcd holds along the way.
\<close>

inductive cron_step ::
  "('s, 'w) henv \<Rightarrow> 's set \<Rightarrow> string list \<times> (string \<times> string \<times> string) list \<Rightarrow> string list \<times> (string \<times> string \<times> string) list \<Rightarrow> bool"
  for env S where
  begin_run: "s \<in> S \<Longrightarrow> tick_begin env s marks scope nm = (marks', TickRun spec) \<Longrightarrow>
    cron_step env S (marks, act) (marks', (scope, nm, cj_policy spec) # act)"
| begin_skip: "s \<in> S \<Longrightarrow> tick_begin env s marks scope nm = (marks', TickSkipped) \<Longrightarrow>
    cron_step env S (marks, act) (marks', act)"
| begin_refused: "s \<in> S \<Longrightarrow> tick_begin env s marks scope nm = (marks', TickRefused e) \<Longrightarrow>
    cron_step env S (marks, act) (marks', act)"
| finish: "(scope, nm, pol) \<in> set act \<Longrightarrow> cron_step env S (marks, act) (tick_end marks scope nm, remove1 (scope, nm, pol) act)"

inductive cron_reach :: "('s, 'w) henv \<Rightarrow> 's set \<Rightarrow> string list \<times> (string \<times> string \<times> string) list \<Rightarrow> bool" for env S where
  start: "cron_reach env S ([], [])"
| step: "cron_reach env S st \<Longrightarrow> cron_step env S st st' \<Longrightarrow> cron_reach env S st'"

definition ticks_of :: "string \<Rightarrow> (string \<times> string \<times> string) list \<Rightarrow> nat" where
  "ticks_of key act = length (filter (\<lambda>(sc, nm, _). cron_key sc nm = key) act)"

definition forbidden_in :: "('s, 'w) henv \<Rightarrow> 's \<Rightarrow> string \<Rightarrow> bool" where
  "forbidden_in env s key = (\<forall>scope nm m spec. cron_key scope nm = key \<longrightarrow>
     Get (e_cl env) s ''cronjob'' scope nm = Inr (Some m) \<longrightarrow> decodeCronJobSpec m = Inr spec \<longrightarrow> cj_policy spec = ''Forbid'')"

lemma tick_begin_run:
  assumes "tick_begin env s marks scope nm = (marks', TickRun spec)"
  shows "\<exists>m. Get (e_cl env) s ''cronjob'' scope nm = Inr (Some m) \<and> decodeCronJobSpec m = Inr spec \<and> \<not> cj_suspend spec \<and>
    (if cj_policy spec = ''Forbid'' then cron_key scope nm \<notin> set marks \<and> marks' = cron_key scope nm # marks else marks' = marks)"
  using assms by (auto simp: tick_begin_def markInFlight_def split: sum.splits option.splits if_splits prod.splits bool.splits)

lemma tick_begin_other:
  assumes "tick_begin env s marks scope nm = (marks', r)" and "\<And>spec. r \<noteq> TickRun spec"
  shows "marks' = marks"
  using assms by (auto simp: tick_begin_def markInFlight_def split: sum.splits option.splits if_splits prod.splits bool.splits)

lemma ticks_of_Cons: "ticks_of key ((scope, nm, pol) # act) = (if cron_key scope nm = key then Suc (ticks_of key act) else ticks_of key act)"
  by (simp add: ticks_of_def)

lemma ticks_of_remove1:
  "(scope, nm, pol) \<in> set act \<Longrightarrow> ticks_of key act =
     (if cron_key scope nm = key then Suc (ticks_of key (remove1 (scope, nm, pol) act)) else ticks_of key (remove1 (scope, nm, pol) act))"
  by (induction act) (auto simp: ticks_of_def)

lemma forbid_begin:
  assumes "tick_begin env s marks scope nm = (marks', TickRun spec)" and "forbidden_in env s key"
    and "ticks_of key act = length (filter ((=) key) marks)"
  shows "ticks_of key ((scope, nm, pol) # act) = length (filter ((=) key) marks')
    \<and> (ticks_of key act \<le> 1 \<longrightarrow> ticks_of key ((scope, nm, pol) # act) \<le> 1)"
proof -
  from tick_begin_run [OF assms(1)] obtain m where m: "Get (e_cl env) s ''cronjob'' scope nm = Inr (Some m)"
    "decodeCronJobSpec m = Inr spec" and mk: "if cj_policy spec = ''Forbid''
      then cron_key scope nm \<notin> set marks \<and> marks' = cron_key scope nm # marks else marks' = marks" by blast
  show ?thesis
  proof (cases "cron_key scope nm = key")
    case True
    with assms(2) m have "cj_policy spec = ''Forbid''" unfolding forbidden_in_def by blast
    with mk have n: "key \<notin> set marks" and e: "marks' = key # marks" using True by auto
    from n have "filter ((=) key) marks = []" by (auto simp: filter_empty_conv)
    then show ?thesis using assms(3) True e by (simp add: ticks_of_Cons)
  next
    case False
    then have "filter ((=) key) marks' = filter ((=) key) marks" using mk by (auto split: if_splits)
    then show ?thesis using assms(3) False by (simp add: ticks_of_Cons)
  qed
qed

lemma forbid_finish:
  assumes "(scope, nm, pol) \<in> set act" and "ticks_of key act = length (filter ((=) key) marks)" and "ticks_of key act \<le> 1"
  shows "ticks_of key (remove1 (scope, nm, pol) act) = length (filter ((=) key) (tick_end marks scope nm))
    \<and> ticks_of key (remove1 (scope, nm, pol) act) \<le> 1"
proof (cases "cron_key scope nm = key")
  case True
  have "ticks_of key (remove1 (scope, nm, pol) act) = 0" using ticks_of_remove1 [OF assms(1), of key] True assms(3) by simp
  moreover have "filter ((=) key) (tick_end marks scope nm) = []"
    using True by (auto simp: filter_empty_conv tick_end_def markInFlight_def)
  ultimately show ?thesis by simp
next
  case False
  have "filter ((=) key) (tick_end marks scope nm) = filter ((=) key) marks"
    unfolding tick_end_def markInFlight_def by (induction marks) (use False in auto)
  then show ?thesis using ticks_of_remove1 [OF assms(1), of key] False assms(2,3) by simp
qed

lemma forbid_step:
  "cron_step env S st st' \<Longrightarrow> (\<And>s. s \<in> S \<Longrightarrow> forbidden_in env s key) \<Longrightarrow>
    ticks_of key (snd st) = length (filter ((=) key) (fst st)) \<and> ticks_of key (snd st) \<le> 1 \<Longrightarrow>
    ticks_of key (snd st') = length (filter ((=) key) (fst st')) \<and> ticks_of key (snd st') \<le> 1"
proof (induction rule: cron_step.induct)
  case (begin_run s marks scope nm marks' spec act)
  then show ?case using forbid_begin [of env s marks scope nm marks' spec key act "cj_policy spec"] by simp
next
  case (begin_skip s marks scope nm marks' act)
  then show ?case using tick_begin_other [OF begin_skip(2)] by simp
next
  case (begin_refused s marks scope nm marks' e act)
  then show ?case using tick_begin_other [OF begin_refused(2)] by simp
next
  case (finish scope nm pol act marks)
  then show ?case using forbid_finish [of scope nm pol act key marks] by simp
qed

lemma forbid_reach:
  assumes "cron_reach env S st" and "\<And>s. s \<in> S \<Longrightarrow> forbidden_in env s key"
  shows "ticks_of key (snd st) = length (filter ((=) key) (fst st)) \<and> ticks_of key (snd st) \<le> 1"
  using assms(1)
proof (induction rule: cron_reach.induct)
  case start
  then show ?case by (simp add: ticks_of_def)
next
  case (step st st')
  then show ?case using forbid_step [of env S st st' key] assms(2) by simp
qed

section \<open>Stores for the witnesses\<close>

definition tick_store :: "string \<Rightarrow> kv_state" where
  "tick_store policy = ([(DesiredKey ''cronjob'' ''prod'' ''report'', DManifest
     \<lparr>m_kind = ''cronjob'', m_scope = ''prod'', m_name = ''report'',
      m_spec = JObj [(''schedule'', JStr ''* * * * *''), (''job'', JObj []), (''concurrency_policy'', JStr policy)],
      m_metadata = None\<rparr>)], False)"

lemma tick_store_key: "cron_key scope nm = ''prod/report'' \<Longrightarrow> DesiredKey ''cronjob'' scope nm = ''/desired/cronjobs/prod/report''"
proof -
  have "is_scoped_str ''cronjob''" by code_simp
  then show "cron_key scope nm = ''prod/report'' \<Longrightarrow> DesiredKey ''cronjob'' scope nm = ''/desired/cronjobs/prod/report''"
    by (simp add: cron_key_def DesiredKey_def DesiredPrefix_def ScopedPrefix_def)
qed

lemma tick_store_forbids: "forbidden_in demo_env (tick_store ''Forbid'') ''prod/report''"
proof -
  have "case etcd_get (e_cl demo_env) (tick_store ''Forbid'') ''/desired/cronjobs/prod/report'' of
      Inr (Some d) \<Rightarrow> (case decodeManifest d (etcd_revision (e_cl demo_env) (tick_store ''Forbid'') ''/desired/cronjobs/prod/report'') of
         Inr m \<Rightarrow> (case decodeCronJobSpec m of Inr sp \<Rightarrow> cj_policy sp = ''Forbid'' | _ \<Rightarrow> True) | _ \<Rightarrow> True)
    | _ \<Rightarrow> True" by code_simp
  note ev = this
  show ?thesis unfolding forbidden_in_def
  proof (intro allI impI)
    fix scope nm m spec
    assume k: "cron_key scope nm = ''prod/report''" and sp: "decodeCronJobSpec m = Inr spec"
      and g: "Get (e_cl demo_env) (tick_store ''Forbid'') ''cronjob'' scope nm = Inr (Some m)"
    from g obtain d where "etcd_get (e_cl demo_env) (tick_store ''Forbid'') ''/desired/cronjobs/prod/report'' = Inr (Some d)"
      "decodeManifest d (etcd_revision (e_cl demo_env) (tick_store ''Forbid'') ''/desired/cronjobs/prod/report'') = Inr m"
      unfolding Get_def tick_store_key [OF k] Let_def by (auto split: sum.splits option.splits)
    with ev sp show "cj_policy spec = ''Forbid''" by simp
  qed
qed

lemma tick_store_begins:
  "tick_begin demo_env (tick_store ''Forbid'') [] ''prod'' ''report'' = ([''prod/report''], snd (tick_begin demo_env (tick_store ''Forbid'') [] ''prod'' ''report''))"
  "\<exists>spec. snd (tick_begin demo_env (tick_store ''Forbid'') [] ''prod'' ''report'') = TickRun spec \<and> cj_policy spec = ''Forbid''"
  "\<exists>spec. tick_begin demo_env (tick_store ''Allow'') [] ''prod'' ''report'' = ([], TickRun spec) \<and> cj_policy spec = ''Allow''"
proof -
  have a: "case tick_begin demo_env (tick_store ''Forbid'') [] ''prod'' ''report'' of (ms, r) \<Rightarrow> ms = [''prod/report''] \<and>
    (case r of TickRun sp \<Rightarrow> cj_policy sp = ''Forbid'' | _ \<Rightarrow> False)" by code_simp
  then show "tick_begin demo_env (tick_store ''Forbid'') [] ''prod'' ''report'' = ([''prod/report''], snd (tick_begin demo_env (tick_store ''Forbid'') [] ''prod'' ''report''))"
    by (auto split: prod.splits)
  show "\<exists>spec. snd (tick_begin demo_env (tick_store ''Forbid'') [] ''prod'' ''report'') = TickRun spec \<and> cj_policy spec = ''Forbid''"
    using a by (auto split: prod.splits tick_start.splits)
  have "case tick_begin demo_env (tick_store ''Allow'') [] ''prod'' ''report'' of (ms, r) \<Rightarrow> ms = [] \<and>
    (case r of TickRun sp \<Rightarrow> cj_policy sp = ''Allow'' | _ \<Rightarrow> False)" by code_simp
  then show "\<exists>spec. tick_begin demo_env (tick_store ''Allow'') [] ''prod'' ''report'' = ([], TickRun spec) \<and> cj_policy spec = ''Allow''"
    by (auto split: prod.splits tick_start.splits)
qed

lemma forbid_demo: "\<exists>spec. tick_begin demo_env (tick_store ''Forbid'') [] ''prod'' ''report'' = ([''prod/report''], TickRun spec)
    \<and> cj_policy spec = ''Forbid''"
  using tick_store_begins(1,2) by (metis prod.collapse snd_conv)

definition job_store :: kv_state where
  "job_store = ([(DesiredKey ''job'' ''prod'' ''migrate'', DManifest
     \<lparr>m_kind = ''job'', m_scope = ''prod'', m_name = ''migrate'', m_spec = JObj [(''image'', JStr ''app:1'')],
      m_metadata = None\<rparr>)], False)"

definition job_host :: dockerd where
  "job_host = \<lparr>dd_ctrs = [], dd_broken = [], dd_codes = [], dd_fresh = [''9f3c''], dd_tags = [], dd_volumes = [],
     dd_down = False\<rparr>"

section \<open>Properties\<close>

text \<open>
  C10: While every manifest a cron job has had says Forbid, no two of its ticks run at the same time,
  whatever ticks of other cron jobs begin and end in between.
\<close>

theorem forbid_never_overlaps:
  assumes "cron_reach env S (marks, act)" and "\<And>s. s \<in> S \<Longrightarrow> forbidden_in env s key"
  shows "ticks_of key act \<le> 1"
  using forbid_reach [OF assms] by simp

theorem forbid_never_overlaps_witness:
  "cron_reach demo_env {tick_store ''Forbid''} ([''prod/report''], [(''prod'', ''report'', ''Forbid'')])
    \<and> ticks_of ''prod/report'' [(''prod'', ''report'', ''Forbid'')] \<le> 1"
proof -
  obtain spec where b: "tick_begin demo_env (tick_store ''Forbid'') [] ''prod'' ''report'' = ([''prod/report''], TickRun spec)"
    "cj_policy spec = ''Forbid''" using forbid_demo by blast
  have r: "cron_reach demo_env {tick_store ''Forbid''} ([''prod/report''], [(''prod'', ''report'', ''Forbid'')])"
    using cron_reach.step [OF cron_reach.start cron_step.begin_run [OF _ b(1), of "{tick_store ''Forbid''}" "[]"]] b(2) by simp
  from forbid_never_overlaps [OF r, of "''prod/report''"] tick_store_forbids r show ?thesis by simp
qed

text \<open>
  A tick that began under another policy clears the mark of a running Forbid tick when it ends,
  and the next tick runs beside it: two ticks that both began under Forbid overlap.
\<close>

theorem other_tick_unmarks_forbid:
  assumes "cron_reach env S (marks, act)" and "(scope, nm, pol) \<in> set act" and "pol \<noteq> ''Forbid''"
    and "s \<in> S" and "tick_begin env s marks scope nm = (marks1, TickRun spec)" and "cj_policy spec = ''Forbid''"
  shows "\<exists>marks2 rest. cron_reach env S (marks2, (scope, nm, ''Forbid'') # (scope, nm, ''Forbid'') # rest)"
proof -
  have b: "tick_begin env s ms scope nm = (cron_key scope nm # ms, TickRun spec)" if "cron_key scope nm \<notin> set ms" for ms
    using assms(5,6) that
    by (auto simp: tick_begin_def markInFlight_def split: sum.splits option.splits if_splits prod.splits bool.splits)
  let ?a1 = "(scope, nm, ''Forbid'') # act"
  have r1: "cron_reach env S (marks1, ?a1)"
    using cron_reach.step [OF assms(1) cron_step.begin_run [OF assms(4,5)]] assms(6) by simp
  have r2: "cron_reach env S (tick_end marks1 scope nm, remove1 (scope, nm, pol) ?a1)"
    by (rule cron_reach.step [OF r1 cron_step.finish]) (simp add: assms(2))
  have e: "remove1 (scope, nm, pol) ?a1 = (scope, nm, ''Forbid'') # remove1 (scope, nm, pol) act" using assms(3) by simp
  have "cron_key scope nm \<notin> set (tick_end marks1 scope nm)" by (simp add: tick_end_def markInFlight_def)
  from cron_reach.step [OF r2 cron_step.begin_run [OF assms(4) b [OF this]]] assms(6) e show ?thesis by auto
qed

theorem other_tick_unmarks_forbid_witness:
  "\<exists>marks rest. cron_reach demo_env {tick_store ''Allow'', tick_store ''Forbid''}
     (marks, (''prod'', ''report'', ''Forbid'') # (''prod'', ''report'', ''Forbid'') # rest)"
proof -
  let ?S = "{tick_store ''Allow'', tick_store ''Forbid''}"
  obtain sp where f: "tick_begin demo_env (tick_store ''Forbid'') [] ''prod'' ''report'' = ([''prod/report''], TickRun sp)"
    "cj_policy sp = ''Forbid''" using forbid_demo by blast
  obtain sq where a: "tick_begin demo_env (tick_store ''Allow'') [] ''prod'' ''report'' = ([], TickRun sq)" "cj_policy sq = ''Allow''"
    using tick_store_begins(3) by blast
  have "cron_reach demo_env ?S ([], [(''prod'', ''report'', ''Allow'')])"
    using cron_reach.step [OF cron_reach.start cron_step.begin_run [OF _ a(1), of ?S "[]"]] a(2) by simp
  from other_tick_unmarks_forbid [OF this _ _ _ f, of "''Allow''"] show ?thesis by simp
qed



end
