(* ===== verification/Scheduler.thy ===== *)
theory Scheduler
  imports Jobs
begin

text \<open>
  The cron scheduler of \<open>scheduler.go\<close>: \<open>evaluate\<close> is one pass over the declared cron jobs,
  \<open>dispatchOne\<close> its step for one of them. The map from keys to parsed schedules is an explicit state;
  a dispatched tick is the (scope, name) handed to \<open>Tick\<close>, which runs in a goroutine of its own. Time
  is nanoseconds since the zero time.
\<close>

section \<open>The scheduler\<close>

text \<open>The time zone database, UTC, the iteration order of the weekday aliases, the offset of a zone.\<close>

record 'z clock_env =
  cl_load_tz :: "string \<Rightarrow> string + 'z"
  cl_utc :: 'z
  cl_order :: "(string \<times> string) list"
  cl_offset :: "'z \<Rightarrow> int \<Rightarrow> int"

record 'z schedule_state =
  st_expr :: string
  st_schedule :: "'z schedule"
  st_next :: int

type_synonym 'z cron_table = "string \<Rightarrow> 'z schedule_state option"

definition next_fire :: "'z clock_env \<Rightarrow> 'z schedule \<Rightarrow> int \<Rightarrow> int" where
  "next_fire tz sch t = Next (cl_offset tz) sch t"

definition dispatchOne ::
  "'z clock_env \<Rightarrow> manifest \<Rightarrow> string \<Rightarrow> int \<Rightarrow> 'z cron_table \<Rightarrow> 'z cron_table \<times> (string \<times> string) option" where
  "dispatchOne tz m key now tab =
     (case decodeCronJobSpec m of
        Inl e \<Rightarrow> (tab, None)
      | Inr spec \<Rightarrow>
          if cj_suspend spec then (tab(key := None), None)
          else
            (let reparse =
               (case ParseSchedule (cl_load_tz tz) (cl_utc tz) (cl_order tz) (cj_schedule spec) (cj_timezone spec) of
                  Inl e \<Rightarrow> (tab, None)
                | Inr sch \<Rightarrow> (tab(key \<mapsto> \<lparr>st_expr = cj_schedule spec, st_schedule = sch, st_next = next_fire tz sch now\<rparr>), None))
             in case tab key of
                  None \<Rightarrow> reparse
                | Some st \<Rightarrow>
                    if st_expr st \<noteq> cj_schedule spec then reparse
                    else if now < st_next st then (tab, None)
                    else (tab(key \<mapsto> st\<lparr>st_next := next_fire tz (st_schedule st) now\<rparr>), Some (m_scope m, m_name m))))"

definition manifest_key :: "manifest \<Rightarrow> string" where
  "manifest_key m = cron_key (m_scope m) (m_name m)"

fun dispatch_all ::
  "'z clock_env \<Rightarrow> int \<Rightarrow> manifest list \<Rightarrow> 'z cron_table \<Rightarrow> 'z cron_table \<times> (string \<times> string) list" where
  "dispatch_all tz now [] tab = (tab, [])"
| "dispatch_all tz now (m # ms) tab =
     (case dispatchOne tz m (manifest_key m) now tab of
        (tab1, fired) \<Rightarrow>
          (case dispatch_all tz now ms tab1 of
             (tab2, rest) \<Rightarrow> (tab2, (case fired of None \<Rightarrow> [] | Some f \<Rightarrow> [f]) @ rest)))"

definition evaluate ::
  "'z clock_env \<Rightarrow> 's etcd \<Rightarrow> 's \<Rightarrow> int \<Rightarrow> 'z cron_table \<Rightarrow> 'z cron_table \<times> (string \<times> string) list" where
  "evaluate tz cl s now tab =
     (case ListKind cl s ''cronjob'' of
        Inl e \<Rightarrow> (tab, [])
      | Inr ms \<Rightarrow>
          (case dispatch_all tz now ms tab of
             (tab1, fired) \<Rightarrow> (\<lambda>k. if k \<in> set (map manifest_key ms) then tab1 k else None, fired)))"

section \<open>When a tick fires\<close>

lemma dispatchOne_frame: "dispatchOne tz m key now tab = (tab', f) \<Longrightarrow> k \<noteq> key \<Longrightarrow> tab' k = tab k"
  by (auto simp: dispatchOne_def Let_def split: sum.splits option.splits if_splits)

lemma dispatchOne_fired: "dispatchOne tz m key now tab = (tab', Some f) \<Longrightarrow> f = (m_scope m, m_name m)"
  by (auto simp: dispatchOne_def Let_def split: sum.splits option.splits if_splits)

lemma dispatch_all_frame:
  "dispatch_all tz now ms tab = (tab', fired) \<Longrightarrow> k \<notin> manifest_key ` set ms \<Longrightarrow> tab' k = tab k"
proof (induction ms arbitrary: tab tab' fired)
  case (Cons x ms)
  obtain tab1 g where d: "dispatchOne tz x (manifest_key x) now tab = (tab1, g)" by fastforce
  obtain tab2 rest where r: "dispatch_all tz now ms tab1 = (tab2, rest)" by fastforce
  show ?case using Cons.IH [OF r] Cons.prems d r dispatchOne_frame [OF d, of k] by auto
qed simp

lemma dispatch_all_fired:
  "dispatch_all tz now ms tab = (tab', fired) \<Longrightarrow> f \<in> set fired \<Longrightarrow> \<exists>m\<in>set ms. f = (m_scope m, m_name m)"
proof (induction ms arbitrary: tab tab' fired)
  case (Cons x ms)
  obtain tab1 g where d: "dispatchOne tz x (manifest_key x) now tab = (tab1, g)" by fastforce
  obtain tab2 rest where r: "dispatch_all tz now ms tab1 = (tab2, rest)" by fastforce
  from Cons.prems d r have "g = Some f \<or> f \<in> set rest" by (auto split: option.splits)
  then show ?case using Cons.IH [OF r] d dispatchOne_fired [of tz x "manifest_key x" now tab tab1 f] by auto
qed simp

lemma dispatch_all_at:
  assumes "dispatch_all tz now ms tab = (tab', fired)" and "distinct (map manifest_key ms)" and "m \<in> set ms"
  shows "\<exists>tab1 tab2 f. dispatchOne tz m (manifest_key m) now tab1 = (tab2, f) \<and> tab1 (manifest_key m) = tab (manifest_key m)
    \<and> tab' (manifest_key m) = tab2 (manifest_key m) \<and> ((m_scope m, m_name m) \<in> set fired \<longleftrightarrow> f \<noteq> None)"
  using assms
proof (induction ms arbitrary: tab tab' fired)
  case (Cons x ms)
  obtain tab1 f where d: "dispatchOne tz x (manifest_key x) now tab = (tab1, f)" by fastforce
  obtain tab2 rest where r: "dispatch_all tz now ms tab1 = (tab2, rest)" by fastforce
  have out: "tab' = tab2" "fired = (case f of None \<Rightarrow> [] | Some f \<Rightarrow> [f]) @ rest" using Cons.prems(1) d r by auto
  show ?case
  proof (cases "x = m")
    case True
    have n: "manifest_key m \<notin> manifest_key ` set ms" using Cons.prems(2) True by auto
    have "(m_scope m, m_name m) \<notin> set rest"
      using dispatch_all_fired [OF r, of "(m_scope m, m_name m)"] n by (force simp: manifest_key_def)
    then show ?thesis using d True out dispatch_all_frame [OF r n] dispatchOne_fired [of tz m "manifest_key m" now tab tab1]
      by (intro exI [of _ tab] exI [of _ tab1] exI [of _ f]) (auto split: option.splits)
  next
    case False
    then have m: "m \<in> set ms" using Cons.prems(3) by simp
    then have "manifest_key m \<in> manifest_key ` set ms" by blast
    then have k: "manifest_key m \<noteq> manifest_key x" using Cons.prems(2) by auto
    then have nf: "f \<noteq> Some (m_scope m, m_name m)"
      using dispatchOne_fired [of tz x "manifest_key x" now tab tab1 "(m_scope m, m_name m)"] d
      by (auto simp: manifest_key_def)
    from Cons.IH [OF r _ m] Cons.prems(2) obtain t1 t2 f' where
      "dispatchOne tz m (manifest_key m) now t1 = (t2, f')" "t1 (manifest_key m) = tab1 (manifest_key m)"
      "tab2 (manifest_key m) = t2 (manifest_key m)" "(m_scope m, m_name m) \<in> set rest \<longleftrightarrow> f' \<noteq> None" by auto
    then show ?thesis using dispatchOne_frame [OF d k] out nf
      by (intro exI [of _ t1] exI [of _ t2] exI [of _ f']) (auto split: option.splits)
  qed
qed simp

definition due :: "'z clock_env \<Rightarrow> 'z schedule \<Rightarrow> int \<Rightarrow> bool" where
  "due tz sch u = (u mod minute_ns = 0 \<and> cron_match sch (local_civil (cl_offset tz) (sc_loc sch) u))"

lemma next_fire_first:
  assumes "0 \<le> t" and "next_fire tz sch t \<noteq> 0"
  shows "t < next_fire tz sch t" "due tz sch (next_fire tz sch t)" "t < u \<Longrightarrow> u < next_fire tz sch t \<Longrightarrow> \<not> due tz sch u"
    "next_fire tz sch t < t div minute_ns * minute_ns + minute_ns + search_window"
  using Next_spec [OF assms(1), of "cl_offset tz" sch] assms(2) by (auto simp: Let_def next_fire_def due_def)

lemma next_fire_none:
  assumes "0 \<le> t" and "next_fire tz sch t = 0" and "due tz sch u" and "t < u"
  shows "t div minute_ns * minute_ns + minute_ns + search_window \<le> u"
proof -
  have "\<forall>u. due tz sch u \<longrightarrow> u \<le> t \<or> t div minute_ns * minute_ns + minute_ns + search_window \<le> u"
    using Next_spec [OF assms(1), of "cl_offset tz" sch] assms(2) by (simp add: Let_def next_fire_def due_def)
  with assms(3,4) show ?thesis by (meson linorder_not_less)
qed

text \<open>A tick that is still ahead is also the next one seen from a later instant.\<close>

lemma next_fire_later:
  assumes "0 \<le> t" and "t \<le> t'" and "next_fire tz sch t \<noteq> 0" and "t' < next_fire tz sch t"
  shows "next_fire tz sch t' = next_fire tz sch t"
proof -
  define r where "r = next_fire tz sch t"
  have r: "due tz sch r" "r < t div minute_ns * minute_ns + minute_ns + search_window"
    "\<And>u. t < u \<Longrightarrow> u < r \<Longrightarrow> \<not> due tz sch u"
    using next_fire_first [OF assms(1,3)] unfolding r_def by blast+
  have t': "0 \<le> t'" using assms(1,2) by linarith
  have "t div minute_ns * minute_ns \<le> t' div minute_ns * minute_ns"
    using zdiv_mono1 [OF assms(2), of minute_ns] by (simp add: minute_ns_def)
  then have nz: "next_fire tz sch t' \<noteq> 0" using next_fire_none [OF t' _ r(1)] r(2) assms(4) unfolding r_def by force
  define q where "q = next_fire tz sch t'"
  have q: "t' < q" "due tz sch q" "\<And>u. t' < u \<Longrightarrow> u < q \<Longrightarrow> \<not> due tz sch u"
    using next_fire_first [OF t' nz] unfolding q_def by blast+
  have "\<not> q < r" using r(3) [of q] q(1,2) assms(2) by auto
  moreover have "\<not> r < q" using q(3) [of r] r(1) assms(4) unfolding r_def by auto
  ultimately show ?thesis unfolding r_def q_def by linarith
qed

text \<open>What one step does to a job whose entry is up to date with its manifest.\<close>

lemma dispatchOne_tracked:
  assumes "dispatchOne tz m key now tab = (tab', f)" and "decodeCronJobSpec m = Inr spec" and "\<not> cj_suspend spec"
    and "tab key = Some st" and "st_expr st = cj_schedule spec"
  shows "f \<noteq> None \<longleftrightarrow> st_next st \<le> now"
    and "tab' key = Some (if st_next st \<le> now then st\<lparr>st_next := next_fire tz (st_schedule st) now\<rparr> else st)"
  using assms by (auto simp: dispatchOne_def Let_def split: if_splits)

lemma tracked_step:
  assumes "0 \<le> before" and "before \<le> now" and "next_fire tz sch before \<noteq> 0"
  shows "next_fire tz sch before \<le> now \<longleftrightarrow> (\<exists>u. due tz sch u \<and> before < u \<and> u \<le> now)"
  using next_fire_first [OF assms(1,3)] by (meson leI less_le_trans order_trans)

lemma evaluate_at:
  assumes "evaluate tz cl s now tab = (tab', fired)" and "ListKind cl s ''cronjob'' = Inr ms"
    and "distinct (map manifest_key ms)" and "m \<in> set ms"
  shows "\<exists>tab1 tab2 f. dispatchOne tz m (manifest_key m) now tab1 = (tab2, f) \<and> tab1 (manifest_key m) = tab (manifest_key m)
    \<and> tab' (manifest_key m) = tab2 (manifest_key m) \<and> ((m_scope m, m_name m) \<in> set fired \<longleftrightarrow> f \<noteq> None)"
proof -
  obtain t2 where d: "dispatch_all tz now ms tab = (t2, fired)" and t2: "tab' = (\<lambda>k. if k \<in> set (map manifest_key ms) then t2 k else None)"
    using assms(1,2) by (auto simp: evaluate_def split: prod.splits)
  have "tab' (manifest_key m) = t2 (manifest_key m)" using assms(4) t2 by simp
  with dispatch_all_at [OF d assms(3,4)] show ?thesis by simp
qed

section \<open>Dates that do not exist\<close>

lemma month_day_ge: "month_day ls k d = (m, dy) \<Longrightarrow> k \<le> m"
  by (induction ls k d rule: month_day.induct) (auto split: if_splits)

lemma month_day_february: "month_day (a # b # ls) 1 d = (m, dy) \<Longrightarrow> m = 2 \<Longrightarrow> dy \<le> b"
  using month_day_ge [of ls 3 "d - a - b" m dy] by (cases "d < a"; cases "d - a < b") (auto simp: numeral_3_eq_3)

lemma february_short: "cv_month (local_civil off z u) = 2 \<Longrightarrow> cv_day (local_civil off z u) \<le> 29"
proof -
  obtain y d where yd: "year_day 1 (nat ((u + off z u) div minute_ns div 1440 mod 146097)) = (y, d)" by fastforce
  obtain m dy where md: "month_day (month_lengths y) 1 d = (m, dy)" by fastforce
  have "m = 2 \<Longrightarrow> dy \<le> (if leap y then 29 else 28)"
    using month_day_february [OF md [unfolded month_lengths_def]] .
  moreover have "cv_month (local_civil off z u) = m" "cv_day (local_civil off z u) = dy"
    using yd md by (simp_all add: local_civil_def utc_civil_def Let_def)
  ultimately show "cv_month (local_civil off z u) = 2 \<Longrightarrow> cv_day (local_civil off z u) \<le> 29" by (simp split: if_splits)
qed

lemma bit_exp_word:
  "bit (2 ^ 2 :: 16 word) n \<Longrightarrow> n = 2" "bit (2 ^ 30 :: 32 word) n \<Longrightarrow> n = 30"
  unfolding bit_exp_iff by simp_all

lemma february_30_never_due:
  assumes "sc_months sch = 2 ^ 2" and "sc_doms sch = 2 ^ 30" and "\<not> sc_domStar sch" and "sc_dowStar sch"
  shows "\<not> due tz sch u"
proof
  let ?c = "local_civil (cl_offset tz) (sc_loc sch) u"
  assume "due tz sch u"
  then have "bit (sc_months sch) (cv_month ?c)" "bit (sc_doms sch) (cv_day ?c)"
    using assms(3,4) unfolding due_def cron_match_bits by simp_all
  then have "cv_month ?c = 2" "cv_day ?c = 30" using bit_exp_word unfolding assms(1,2) by blast+
  with february_short [of "cl_offset tz" "sc_loc sch" u] show False by simp
qed

definition utc_clock :: "unit clock_env" where
  "utc_clock = \<lparr>cl_load_tz = (\<lambda>s. Inr ()), cl_utc = (), cl_order = [], cl_offset = (\<lambda>_ _. 0)\<rparr>"

definition cron_store :: "string \<Rightarrow> kv_state" where
  "cron_store expr = ([(DesiredKey ''cronjob'' ''prod'' ''report'', DManifest
     \<lparr>m_kind = ''cronjob'', m_scope = ''prod'', m_name = ''report'',
      m_spec = JObj [(''schedule'', JStr expr), (''job'', JObj [])], m_metadata = None\<rparr>)], False)"

text \<open>The one manifest of such a store, as it is listed.\<close>

definition listed_cron :: "string \<Rightarrow> manifest" where
  "listed_cron expr = (case ListKind kv_client (cron_store expr) ''cronjob'' of Inr [m] \<Rightarrow> m | _ \<Rightarrow> undefined)"

section \<open>Properties\<close>



text \<open>
  A schedule without any matching minute is taken for one that is always due: from the second
  evaluation on the job fires at every evaluation.
\<close>

theorem impossible_schedule_always_fires:
  assumes "ListKind cl s ''cronjob'' = Inr ms" and "distinct (map manifest_key ms)" and "m \<in> set ms"
    and "decodeCronJobSpec m = Inr spec" and "\<not> cj_suspend spec"
    and "ParseSchedule (cl_load_tz tz) (cl_utc tz) (cl_order tz) (cj_schedule spec) (cj_timezone spec) = Inr sch"
    and "\<And>u. \<not> due tz sch u" and "0 \<le> now"
    and "evaluate tz cl s now tab = (tab1, fired1)" and "tab (manifest_key m) = None"
    and "0 \<le> later" and "evaluate tz cl s later tab1 = (tab2, fired2)"
  shows "(m_scope m, m_name m) \<in> set fired2 \<and>
    tab2 (manifest_key m) = Some \<lparr>st_expr = cj_schedule spec, st_schedule = sch, st_next = 0\<rparr>"
proof -
  have z: "next_fire tz sch t = 0" if "0 \<le> t" for t using next_fire_first(2) [OF that, of tz sch] assms(7) by blast
  from evaluate_at [OF assms(9,1-3)] obtain a b f where
    ab: "dispatchOne tz m (manifest_key m) now a = (b, f)" "a (manifest_key m) = tab (manifest_key m)"
    "tab1 (manifest_key m) = b (manifest_key m)" by blast
  have e: "tab1 (manifest_key m) = Some \<lparr>st_expr = cj_schedule spec, st_schedule = sch, st_next = 0\<rparr>"
    using ab assms(4-6,8,10) z by (auto simp: dispatchOne_def Let_def)
  from evaluate_at [OF assms(12,1-3)] obtain c d g where
    cd: "dispatchOne tz m (manifest_key m) later c = (d, g)" and c: "c (manifest_key m) = tab1 (manifest_key m)"
    and d: "tab2 (manifest_key m) = d (manifest_key m)" and g: "(m_scope m, m_name m) \<in> set fired2 \<longleftrightarrow> g \<noteq> None" by blast
  note tr = dispatchOne_tracked [OF cd assms(4,5) c [unfolded e]]
  show ?thesis using tr g d z assms(11) by simp
qed

theorem impossible_schedule_always_fires_witness:
  "(''prod'', ''report'') \<in> set (snd (evaluate utc_clock kv_client (cron_store ''0 0 30 2 *'') 120000000000
     (fst (evaluate utc_clock kv_client (cron_store ''0 0 30 2 *'') 60000000000 Map.empty))))"
proof -
  let ?s = "cron_store ''0 0 30 2 *''"
  have l: "ListKind kv_client ?s ''cronjob'' = Inr [listed_cron ''0 0 30 2 *'']" by code_simp
  have d: "case decodeCronJobSpec (listed_cron ''0 0 30 2 *'') of Inr sp \<Rightarrow> cj_schedule sp = ''0 0 30 2 *'' \<and>
      cj_timezone sp = [] \<and> \<not> cj_suspend sp | _ \<Rightarrow> False" by code_simp
  then obtain spec where sp: "decodeCronJobSpec (listed_cron ''0 0 30 2 *'') = Inr spec" "cj_schedule spec = ''0 0 30 2 *''"
    "cj_timezone spec = []" "\<not> cj_suspend spec" by (auto split: sum.splits)
  have k: "manifest_key (listed_cron ''0 0 30 2 *'') = ''prod/report''" "m_scope (listed_cron ''0 0 30 2 *'') = ''prod''"
    "m_name (listed_cron ''0 0 30 2 *'') = ''report''" by code_simp+
  have "case ParseSchedule (cl_load_tz utc_clock) (cl_utc utc_clock) (cl_order utc_clock) ''0 0 30 2 *'' [] of
      Inr sch \<Rightarrow> sc_months sch = 2 ^ 2 \<and> sc_doms sch = 2 ^ 30 \<and> \<not> sc_domStar sch \<and> sc_dowStar sch | _ \<Rightarrow> False" by code_simp
  then obtain sch where p: "ParseSchedule (cl_load_tz utc_clock) (cl_utc utc_clock) (cl_order utc_clock) ''0 0 30 2 *'' [] = Inr sch"
    and m: "sc_months sch = 2 ^ 2" "sc_doms sch = 2 ^ 30" "\<not> sc_domStar sch" "sc_dowStar sch" by (auto split: sum.splits)
  note nd = february_30_never_due [OF m]
  obtain t1 f1 where e1: "evaluate utc_clock kv_client ?s 60000000000 Map.empty = (t1, f1)" by fastforce
  obtain t2 f2 where e2: "evaluate utc_clock kv_client ?s 120000000000 t1 = (t2, f2)" by fastforce
  from impossible_schedule_always_fires [OF l _ _ sp(1,4) _ nd _ e1 _ _ e2] p sp(2,3) k e1 e2 show ?thesis by simp
qed

end
