(* ===== verification/Stateful.thy ===== *)
theory Stateful
  imports Apply PodIPs
begin

text \<open>
  \<open>StatefulsetHandler\<close> of \<open>internal/controller/handlers_statefulset.go\<close>: ordinals with volumes and fixed
  addresses of their own, brought up from below, pruned and replaced from above, with \<open>apply\<close>,
  \<open>remove\<close>, \<open>Restart\<close>, the rollback and the two destructive operations on volumes. The pauses between
  ordinals, logging and the lock per statefulset carry no state.
\<close>

section \<open>Spec and handler\<close>

record volume_claim =
  vc_name :: string
  vc_mount :: string
  vc_size :: string

record statefulset_spec =
  ss_image :: string
  ss_replicas :: int
  ss_env :: vars
  ss_ports :: "string list"
  ss_network :: string
  ss_shape :: pod_shape
  ss_restart :: string
  ss_health_check :: string
  ss_env_from :: "string list"
  ss_build_args :: vars
  ss_claims :: "volume_claim list"
  ss_resources :: "resource_limits option option"
  ss_logs :: "logs_spec option"
  ss_inits :: "init_spec list"
  ss_probes :: "probes_spec option"
  ss_on_probe :: "json option"
  ss_digests :: vars
  ss_plugin_blocks :: "json list"
  ss_drain :: "drain_spec option"

text \<open>The content \<open>statefulsetSpecHash\<close> serialises. \<open>env_from\<close> is not part of it.\<close>

record sts_hash_input =
  xi_image :: string
  xi_shape :: pod_shape
  xi_ports :: "string list"
  xi_env :: vars
  xi_restart :: string
  xi_build_args :: vars
  xi_resources :: "resource_limits option option"
  xi_logs :: "logs_spec option"
  xi_claims :: "volume_claim list"
  xi_inits :: "init_spec list"
  xi_probes :: "probes_spec option"
  xi_assets :: "string list"

text \<open>
  The handler: what it shares with the deployment handler, SHA-256 over its own hash content, asset
  references, the address plan of \<open>voodu0\<close> (absent when fixed addresses are off) and the URL of the
  controller.
\<close>

record ('s, 'w) sts_handler =
  st_env :: "('s, 'w) henv"
  st_sha :: "sts_hash_input \<Rightarrow> string"
  st_interp :: "'s \<Rightarrow> statefulset_spec \<Rightarrow> string + statefulset_spec"
  st_lookup :: "'s \<Rightarrow> statefulset_spec \<Rightarrow> vars"
  st_plan :: "('w \<Rightarrow> string + plan option) option"
  st_url :: string

definition decode_claim :: "json \<Rightarrow> string + volume_claim" where
  "decode_claim j =
     bind_ok (jobj j) (\<lambda>ob. bind_ok (jstr ''name'' ob) (\<lambda>n. bind_ok (jstr ''mount_path'' ob) (\<lambda>p.
     bind_ok (jstr ''size'' ob) (\<lambda>s. Inr \<lparr>vc_name = n, vc_mount = p, vc_size = s\<rparr>))))"

definition decodeStatefulsetSpec :: "manifest \<Rightarrow> string + statefulset_spec" where
  "decodeStatefulsetSpec m =
     (if m_spec m = JNull then Inl (''statefulset/'' @ m_name m @ '': empty spec'')
      else map_err (\<lambda>e. ''decode statefulset spec: '' @ e)
        (bind_ok (jobj (m_spec m)) (\<lambda>ob.
         bind_ok (jstr ''image'' ob) (\<lambda>image. bind_ok (jint ''replicas'' ob) (\<lambda>replicas.
         bind_ok (jvars ''env'' ob) (\<lambda>env. bind_ok (jstrs ''ports'' ob) (\<lambda>ports.
         bind_ok (jstr ''network'' ob) (\<lambda>network. bind_ok (decode_shape ob) (\<lambda>shape.
         bind_ok (jstr ''restart'' ob) (\<lambda>restart. bind_ok (jstr ''health_check'' ob) (\<lambda>health.
         bind_ok (jstrs ''env_from'' ob) (\<lambda>env_from. bind_ok (jvars ''build_args'' ob) (\<lambda>build_args.
         bind_ok (bind_ok (jlist ''volume_claims'' ob) (decode_list decode_claim)) (\<lambda>claims.
         bind_ok (jopt ''resources'' ob decode_resources) (\<lambda>res. bind_ok (jopt ''logs'' ob decode_logs) (\<lambda>logs.
         bind_ok (bind_ok (jlist ''inits'' ob) (decode_list decode_init)) (\<lambda>inits.
         bind_ok (jopt ''probes'' ob decode_probes) (\<lambda>probes. bind_ok (jvars ''_asset_digests'' ob) (\<lambda>digests.
         bind_ok (jlist ''plugin_blocks'' ob) (\<lambda>blocks. bind_ok (jopt ''drain'' ob decode_drain) (\<lambda>drain.
           Inr \<lparr>ss_image = image, ss_replicas = replicas, ss_env = env, ss_ports = ports, ss_network = network,
                ss_shape = shape, ss_restart = restart, ss_health_check = health, ss_env_from = env_from,
                ss_build_args = build_args, ss_claims = claims, ss_resources = res, ss_logs = logs,
                ss_inits = inits, ss_probes = probes, ss_on_probe = jget ''on_probe'' ob, ss_digests = digests,
                ss_plugin_blocks = blocks, ss_drain = drain\<rparr>)))))))))))))))))))))"

definition statefulsetReplicas :: "statefulset_spec \<Rightarrow> int" where
  "statefulsetReplicas spec = (if ss_replicas spec < 1 then 1 else ss_replicas spec)"

definition applyStatefulsetSpecDefaults :: "statefulset_spec \<Rightarrow> string \<Rightarrow> string + statefulset_spec" where
  "applyStatefulsetSpecDefaults spec app =
     (if ss_image spec = [] then Inl (''statefulset/'' @ app @ '': image is required'')
      else
        (let sh = ss_shape spec; mode = sh_network_mode sh;
             finish = (\<lambda>nets. Inr (spec\<lparr>ss_shape := sh\<lparr>sh_networks := nets\<rparr>, ss_ports := normalizePorts (ss_ports spec),
                        ss_restart := (if ss_restart spec = [] then ''unless-stopped'' else ss_restart spec)\<rparr>))
         in if mode = [] then
              (let nets = (if sh_networks sh = [] \<and> ss_network spec \<noteq> [] then [ss_network spec] else sh_networks sh)
               in finish (if ''voodu0'' \<in> set nets then nets else nets @ [''voodu0'']))
            else if mode = ''host'' \<or> mode = ''none'' then
              (if sh_networks sh \<noteq> [] \<or> ss_network spec \<noteq> []
               then Inl (''statefulset/'' @ app @ '': network_mode is mutually exclusive with network/networks'')
               else finish (sh_networks sh))
            else Inl (''statefulset/'' @ app @ '': network_mode not supported'')))"

fun insert_claim :: "volume_claim \<Rightarrow> volume_claim list \<Rightarrow> volume_claim list" where
  "insert_claim x [] = [x]"
| "insert_claim x (y # ys) = (if le_str (vc_name x) (vc_name y) then x # y # ys else y # insert_claim x ys)"

definition statefulset_hash_input :: "statefulset_spec \<Rightarrow> vars \<Rightarrow> sts_hash_input" where
  "statefulset_hash_input spec digests =
     \<lparr>xi_image = ss_image spec,
      xi_shape = (ss_shape spec)\<lparr>sh_networks := sort_strs (sh_networks (ss_shape spec)),
        sh_extra_hosts := sort_strs (sh_extra_hosts (ss_shape spec)),
        sh_cap_add := sort_strs (sh_cap_add (ss_shape spec)),
        sh_ulimits := sort_vars (sh_ulimits (ss_shape spec))\<rparr>,
      xi_ports = ss_ports spec, xi_env = sort_vars (ss_env spec), xi_restart = ss_restart spec,
      xi_build_args = sort_vars (ss_build_args spec), xi_resources = ss_resources spec, xi_logs = ss_logs spec,
      xi_claims = foldr insert_claim (ss_claims spec) [], xi_inits = ss_inits spec, xi_probes = ss_probes spec,
      xi_assets = flattenAssetDigests digests\<rparr>"

definition statefulsetSpecHash :: "(sts_hash_input \<Rightarrow> string) \<Rightarrow> statefulset_spec \<Rightarrow> vars \<Rightarrow> string" where
  "statefulsetSpecHash sha spec digests = sha (statefulset_hash_input spec digests)"

section \<open>Status\<close>

definition sts_loadStatus :: "'s etcd \<Rightarrow> 's \<Rightarrow> string \<Rightarrow> string + deployment_status" where
  "sts_loadStatus cl s app =
     (case GetStatus cl s ''statefulset'' app of
        Inl e \<Rightarrow> Inl e
      | Inr None \<Rightarrow> Inr empty_status
      | Inr (Some (DStatus st)) \<Rightarrow> Inr st
      | Inr (Some _) \<Rightarrow> Inl ''json: cannot unmarshal status'')"

definition sts_writeStatus :: "'s etcd \<Rightarrow> 's \<Rightarrow> string \<Rightarrow> string \<Rightarrow> string \<Rightarrow> int \<Rightarrow> string + 's" where
  "sts_writeStatus cl s app img hash replicas =
     (let prev = status_or_empty (sts_loadStatus cl s app)
      in PutStatus cl s ''statefulset'' app
           (DStatus (prev\<lparr>ds_image := img, ds_spec_hash := hash, ds_replicas := replicas\<rparr>)))"

definition sts_put_or_keep :: "'s etcd \<Rightarrow> 's \<Rightarrow> string \<Rightarrow> deployment_status \<Rightarrow> 's" where
  "sts_put_or_keep cl s app st =
     (case PutStatus cl s ''statefulset'' app (DStatus st) of Inl _ \<Rightarrow> s | Inr s' \<Rightarrow> s')"

definition sts_RecordInitFailure :: "'s etcd \<Rightarrow> 's \<Rightarrow> string \<Rightarrow> init_failure \<Rightarrow> 's" where
  "sts_RecordInitFailure cl s app failure =
     (let prev = status_or_empty (sts_loadStatus cl s app)
      in sts_put_or_keep cl s app (prev\<lparr>ds_init_failures := appendInitFailure (ds_init_failures prev) failure\<rparr>))"

definition sts_ClearInitFailures :: "'s etcd \<Rightarrow> 's \<Rightarrow> string \<Rightarrow> string \<Rightarrow> 's" where
  "sts_ClearInitFailures cl s app replicaID =
     (let prev = status_or_empty (sts_loadStatus cl s app)
      in if ds_init_failures prev = [] then s
         else let filtered = filter (\<lambda>f. if_replica_id f \<noteq> replicaID) (ds_init_failures prev)
              in if length filtered = length (ds_init_failures prev) then s
                 else sts_put_or_keep cl s app (prev\<lparr>ds_init_failures := filtered\<rparr>))"

definition sts_RecordReplicaReadiness :: "'s etcd \<Rightarrow> 's \<Rightarrow> string \<Rightarrow> readiness_status \<Rightarrow> 's" where
  "sts_RecordReplicaReadiness cl s app st =
     (let prev = status_or_empty (sts_loadStatus cl s app)
      in sts_put_or_keep cl s app
           (prev\<lparr>ds_readiness := truncateReplicaReadiness (kv_set (rs_container st) st (ds_readiness prev))\<rparr>))"

definition sts_ClearReplicaReadiness :: "'s etcd \<Rightarrow> 's \<Rightarrow> string \<Rightarrow> string \<Rightarrow> 's" where
  "sts_ClearReplicaReadiness cl s app cname =
     (let prev = status_or_empty (sts_loadStatus cl s app)
      in if map_of (ds_readiness prev) cname = None then s
         else sts_put_or_keep cl s app (prev\<lparr>ds_readiness := kv_del cname (ds_readiness prev)\<rparr>))"

definition sts_appendReleaseRecord :: "'s etcd \<Rightarrow> 's \<Rightarrow> string \<Rightarrow> release_record \<Rightarrow> string + 's" where
  "sts_appendReleaseRecord cl s app r =
     (let prev = status_or_empty (sts_loadStatus cl s app)
      in PutStatus cl s ''statefulset'' app
           (DStatus (prev\<lparr>ds_releases := take max_release_history (r # ds_releases prev)\<rparr>)))"

section \<open>The pod of an ordinal\<close>

definition volumeName :: "string \<Rightarrow> string \<Rightarrow> string \<Rightarrow> int \<Rightarrow> string" where
  "volumeName scope nm claim ordinal =
     ''voodu-'' @ (if scope \<noteq> [] then scope @ ''-'' @ nm else nm) @ ''-'' @ claim @ ''-'' @ itoa_int ordinal"

definition volumeLabels :: "string \<Rightarrow> string \<Rightarrow> string \<Rightarrow> int \<Rightarrow> string list" where
  "volumeLabels scope nm claim ordinal =
     [''createdby=voodu'', ''voodu.kind=statefulset'', ''voodu.name='' @ nm,
      ''voodu.replica_ordinal='' @ OrdinalReplicaID ordinal, ''voodu.claim='' @ claim]
     @ (if scope \<noteq> [] then [''voodu.scope='' @ scope] else [])"

fun ensureClaimsForOrdinal ::
  "('s, 'w) henv \<Rightarrow> 'w \<Rightarrow> string \<Rightarrow> string \<Rightarrow> int \<Rightarrow> volume_claim list \<Rightarrow> 'w \<times> (string + string list)" where
  "ensureClaimsForOrdinal env w scope nm ordinal [] = (w, Inr [])"
| "ensureClaimsForOrdinal env w scope nm ordinal (c # cs) =
     (if vc_name c = [] \<or> vc_mount c = []
      then (w, Inl (''statefulset/'' @ scope @ ''-'' @ nm @ '' ordinal '' @ itoa_int ordinal @
                    '': volume_claim needs both name and mount_path''))
      else
        (let v = volumeName scope nm (vc_name c) ordinal
         in case cm_ensure_volume (e_cm env) w v (volumeLabels scope nm (vc_name c) ordinal) of
              (w1, Some e) \<Rightarrow> (w1, Inl (''ensure volume '' @ v @ '': '' @ e))
            | (w1, None) \<Rightarrow>
                (case ensureClaimsForOrdinal env w1 scope nm ordinal cs of
                   (w2, Inl e) \<Rightarrow> (w2, Inl e)
                 | (w2, Inr ms) \<Rightarrow> (w2, Inr ((v @ '':'' @ vc_mount c) # ms)))))"

definition BuildPlatformEnv :: "string \<Rightarrow> vars" where
  "BuildPlatformEnv url = (if url = [] then [] else [(''VOODU_CONTROLLER_URL'', url)])"

definition sts_pod_env :: "('s, 'w) sts_handler \<Rightarrow> string \<Rightarrow> string \<Rightarrow> statefulset_spec \<Rightarrow> int \<Rightarrow> vars" where
  "sts_pod_env h scope nm spec n =
     MergePodEnv (BuildPlatformEnv (st_url h)) (MergePodEnv (BuildStatefulsetPodEnv scope nm n) (ss_env spec))"

definition sts_labels :: "('s, 'w) sts_handler \<Rightarrow> 'w \<Rightarrow> string \<Rightarrow> string \<Rightarrow> int \<Rightarrow> string \<Rightarrow> string \<Rightarrow> string list" where
  "sts_labels h w scope nm n hash releaseID =
     BuildLabels \<lparr>id_kind = ''statefulset'', id_scope = scope, id_name = nm, id_replica = OrdinalReplicaID n,
       id_hash = hash, id_created = e_now (st_env h) w, id_release = releaseID, id_ordinal = n, id_role = []\<rparr>"

definition sts_aliases :: "string \<Rightarrow> string \<Rightarrow> int \<Rightarrow> string list" where
  "sts_aliases scope nm n = BuildPodNetworkAliases scope nm n @ BuildNetworkAliases scope nm"

definition sts_mounted :: "statefulset_spec \<Rightarrow> string list \<Rightarrow> pod_shape" where
  "sts_mounted spec mounts = (ss_shape spec)\<lparr>sh_volumes := sh_volumes (ss_shape spec) @ mounts\<rparr>"

definition sts_container ::
  "('s, 'w) sts_handler \<Rightarrow> string list \<Rightarrow> string \<Rightarrow> string \<Rightarrow> string \<Rightarrow> statefulset_spec \<Rightarrow> string list
    \<Rightarrow> string list \<Rightarrow> string \<times> int \<Rightarrow> string \<Rightarrow> int \<Rightarrow> container_spec" where
  "sts_container h labels scope nm app spec extraEnv mounts limits ip n =
     \<lparr>k_name = ContainerName scope nm (OrdinalReplicaID n), k_image = ss_image spec, k_shape = sts_mounted spec mounts,
      k_ports = ss_ports spec, k_restart = ss_restart spec, k_env_file = e_app_env_file (st_env h) app,
      k_extra_env_files = extraEnv, k_env = sts_pod_env h scope nm spec n, k_labels = labels, k_ip = ip,
      k_auto_remove = False, k_tty = False, k_aliases = sts_aliases scope nm n, k_cpu = fst limits,
      k_memory = snd limits, k_log_size = fst (effectiveLogs (ss_logs spec)),
      k_log_files = snd (effectiveLogs (ss_logs spec))\<rparr>"

definition sts_parent ::
  "('s, 'w) sts_handler \<Rightarrow> string \<Rightarrow> string \<Rightarrow> string \<Rightarrow> statefulset_spec \<Rightarrow> string \<Rightarrow> string list \<Rightarrow> string list
    \<Rightarrow> int \<Rightarrow> init_parent" where
  "sts_parent h scope nm app spec hash extraEnv mounts n =
     \<lparr>pa_image = ss_image spec, pa_hash = hash, pa_shape = sts_mounted spec mounts,
      pa_env_file = e_app_env_file (st_env h) app, pa_extra_env_files = extraEnv,
      pa_env = sts_pod_env h scope nm spec n, pa_aliases = sts_aliases scope nm n, pa_logs = ss_logs spec\<rparr>"

definition sts_inits ::
  "('s, 'w) sts_handler \<Rightarrow> 's \<times> 'w \<Rightarrow> string \<Rightarrow> string \<Rightarrow> string \<Rightarrow> statefulset_spec \<Rightarrow> string \<Rightarrow> string list
    \<Rightarrow> string list \<Rightarrow> int \<Rightarrow> ('s \<times> 'w) \<times> string option" where
  "sts_inits h sw scope nm app spec hash extraEnv mounts n =
     (let cl = e_cl (st_env h)
      in if ss_inits spec = [] then (sw, None)
         else runInitChain (st_env h) (\<lambda>s f. sts_RecordInitFailure cl s app f) (\<lambda>s r. sts_ClearInitFailures cl s app r)
                sw ''statefulset'' scope nm (OrdinalReplicaID n) (ss_inits spec)
                (sts_parent h scope nm app spec hash extraEnv mounts n))"

definition podIP ::
  "('s, 'w) sts_handler \<Rightarrow> 's \<times> 'w \<Rightarrow> string \<Rightarrow> string \<Rightarrow> statefulset_spec \<Rightarrow> int \<Rightarrow> 's \<times> (string + string)" where
  "podIP h sw scope nm spec n =
     (case sh_networks (ss_shape spec) of
        net # _ \<Rightarrow>
          if sh_network_mode (ss_shape spec) \<noteq> [] \<or> net \<noteq> ''voodu0'' then (fst sw, Inr [])
          else (case st_plan h of
                  None \<Rightarrow> (fst sw, Inr [])
                | Some plan_of \<Rightarrow>
                    addressFor (etcd_pod_store (e_cl (st_env h))) (plan_of (snd sw)) (fst sw) scope nm n)
      | [] \<Rightarrow> (fst sw, Inr []))"

text \<open>
  The common part of the two loops, from the labels to the start of the probes. \<open>labels\<close> are drawn
  before; only the error texts tell a first spawn from a respawn.
\<close>

definition spawn_ordinal ::
  "('s, 'w) sts_handler \<Rightarrow> bool \<Rightarrow> string list \<Rightarrow> 's \<times> 'w \<Rightarrow> string \<Rightarrow> string \<Rightarrow> string \<Rightarrow> statefulset_spec \<Rightarrow> string
    \<Rightarrow> string list \<Rightarrow> int \<Rightarrow> ('s \<times> 'w) \<times> string option" where
  "spawn_ordinal h respawn labels sw scope nm app spec hash extraEnv n =
     (let env = st_env h; cname = ContainerName scope nm (OrdinalReplicaID n); num = itoa_int n
      in case ensureClaimsForOrdinal env (snd sw) scope nm n (ss_claims spec) of
           (w1, Inl e) \<Rightarrow> ((fst sw, w1), Some e)
         | (w1, Inr mounts) \<Rightarrow>
             (case dockerResources (e_floats env) (ss_resources spec) of
                Inl e \<Rightarrow> ((fst sw, w1), Some (''statefulset/'' @ nm @ (if respawn then '' respawn'' else []) @ '' ordinal '' @ num @ '': '' @ e))
              | Inr limits \<Rightarrow>
                  (case sts_inits h (fst sw, w1) scope nm app spec hash extraEnv mounts n of
                     (sw2, Some e) \<Rightarrow> (sw2, Some (''statefulset/'' @ nm @ '' init flow for ordinal '' @ num
                                                 @ (if respawn then '' respawn: '' else '': '') @ e))
                   | ((s2, w2), None) \<Rightarrow>
                       (case podIP h (s2, w2) scope nm spec n of
                          (s3, Inl e) \<Rightarrow> ((s3, w2), Some (if respawn then ''respawn ordinal '' @ num @ '': '' @ e
                                                         else ''ordinal '' @ num @ '' ('' @ cname @ ''): '' @ e))
                        | (s3, Inr ip) \<Rightarrow>
                            (case cm_ensure (e_cm env) w2 (sts_container h labels scope nm app spec extraEnv mounts limits ip n) of
                               (w3, Inl e) \<Rightarrow> ((s3, w3), Some (if respawn then ''respawn ordinal '' @ num @ '': '' @ e
                                                              else ''ensure ordinal '' @ num @ '' ('' @ cname @ ''): '' @ e))
                             | (w3, Inr _) \<Rightarrow>
                                 ((s3, e_probe_start env w3 app cname (ss_probes spec) (ss_on_probe spec)), None))))))"

section \<open>Scaling and replacing\<close>

definition ordinals_of :: "slot list \<Rightarrow> int list" where
  "ordinals_of ss = List.map_filter (\<lambda>s. Ordinal (sl_identity s)) ss"

fun spawn_missing ::
  "('s, 'w) sts_handler \<Rightarrow> 's \<times> 'w \<Rightarrow> string \<Rightarrow> string \<Rightarrow> string \<Rightarrow> int list \<Rightarrow> int list \<Rightarrow> statefulset_spec \<Rightarrow> string
    \<Rightarrow> string \<Rightarrow> string list \<Rightarrow> string set \<Rightarrow> ('s \<times> 'w) \<times> string option" where
  "spawn_missing h sw scope nm app present [] spec hash releaseID extraEnv frozen = (sw, None)"
| "spawn_missing h sw scope nm app present (n # ns) spec hash releaseID extraEnv frozen =
     (if n \<in> set present \<or> OrdinalReplicaID n \<in> frozen
      then spawn_missing h sw scope nm app present ns spec hash releaseID extraEnv frozen
      else case spawn_ordinal h False (sts_labels h (snd sw) scope nm n hash releaseID) sw scope nm app spec hash extraEnv n of
             (sw1, Some e) \<Rightarrow> (sw1, Some e)
           | (sw1, None) \<Rightarrow> spawn_missing h sw1 scope nm app present ns spec hash releaseID extraEnv frozen)"

definition ensureOrdinalsUp ::
  "('s, 'w) sts_handler \<Rightarrow> 's \<times> 'w \<Rightarrow> string \<Rightarrow> string \<Rightarrow> string \<Rightarrow> slot list \<Rightarrow> int \<Rightarrow> statefulset_spec \<Rightarrow> string
    \<Rightarrow> string \<Rightarrow> string set \<Rightarrow> ('s \<times> 'w) \<times> string option" where
  "ensureOrdinalsUp h sw scope nm app live want spec hash releaseID frozen =
     (if ss_image spec = [] then (sw, Some (''statefulset/'' @ app @ '': image is required''))
      else case resolveEnvFromList (st_env h) (snd sw) (ss_env_from spec) scope of
             Inl e \<Rightarrow> (sw, Some (''resolve env_from: '' @ e))
           | Inr extraEnv \<Rightarrow>
               spawn_missing h sw scope nm app (ordinals_of live) (map int [0..<nat want]) spec hash releaseID extraEnv frozen)"

text \<open>\<open>sort.Slice\<close> by \<open>sortSlotsByOrdinalDesc\<close>: slots without an ordinal last.\<close>

definition ordinal_before :: "slot \<Rightarrow> slot \<Rightarrow> bool" where
  "ordinal_before a b =
     (case (Ordinal (sl_identity a), Ordinal (sl_identity b)) of
        (Some m, Some n) \<Rightarrow> m > n
      | (Some m, None) \<Rightarrow> True
      | _ \<Rightarrow> False)"

fun insert_desc :: "slot \<Rightarrow> slot list \<Rightarrow> slot list" where
  "insert_desc x [] = [x]"
| "insert_desc x (y # ys) = (if ordinal_before y x then y # insert_desc x ys else x # y # ys)"

definition sortSlotsByOrdinalDesc :: "slot list \<Rightarrow> slot list" where
  "sortSlotsByOrdinalDesc ss = foldr insert_desc ss []"

fun prune_above :: "('s, 'w) henv \<Rightarrow> 'w \<Rightarrow> string \<Rightarrow> int \<Rightarrow> slot list \<Rightarrow> 'w \<times> string option" where
  "prune_above env w app want [] = (w, None)"
| "prune_above env w app want (s # ss) =
     (case Ordinal (sl_identity s) of
        None \<Rightarrow> prune_above env w app want ss
      | Some n \<Rightarrow>
          if n < want then prune_above env w app want ss
          else case cm_remove (e_cm env) (e_probe_stop env w app (sl_name s)) (sl_name s) of
                 (w1, Some e) \<Rightarrow> (w1, Some (''remove '' @ sl_name s @ '': '' @ e))
               | (w1, None) \<Rightarrow> prune_above env w1 app want ss)"

definition pruneOrdinalsAbove :: "('s, 'w) henv \<Rightarrow> 'w \<Rightarrow> string \<Rightarrow> string \<Rightarrow> string \<Rightarrow> int \<Rightarrow> 'w \<times> string option" where
  "pruneOrdinalsAbove env w scope nm app want =
     (case cm_list (e_cm env) w ''statefulset'' scope nm of
        Inl e \<Rightarrow> (w, Some e)
      | Inr live \<Rightarrow> prune_above env w app want (sortSlotsByOrdinalDesc live))"

definition sts_drainReplica :: "('s, 'w) henv \<Rightarrow> 'w \<Rightarrow> statefulset_spec \<Rightarrow> string \<Rightarrow> 'w \<times> string option" where
  "sts_drainReplica env w spec replicaID =
     (if ss_plugin_blocks spec = [] then (w, None) else e_drain env w replicaID (drainBudgetOf (ss_drain spec)))"

definition replace_ordinal ::
  "('s, 'w) sts_handler \<Rightarrow> 's \<times> 'w \<Rightarrow> string \<Rightarrow> string \<Rightarrow> string \<Rightarrow> slot \<Rightarrow> int \<Rightarrow> statefulset_spec \<Rightarrow> string \<Rightarrow> string
    \<Rightarrow> string list \<Rightarrow> ('s \<times> 'w) \<times> string option" where
  "replace_ordinal h sw scope nm app s n spec hash releaseID extraEnv =
     (let env = st_env h; labels = sts_labels h (snd sw) scope nm n hash releaseID
      in case sts_drainReplica env (e_probe_stop env (snd sw) app (sl_name s)) spec (id_replica (sl_identity s)) of
           (w1, Some e) \<Rightarrow> ((fst sw, w1), Some e)
         | (w1, None) \<Rightarrow>
             (case cm_remove_grace (e_cm env) w1 (sl_name s) (graceOf (ss_drain spec)) of
                (w2, Some e) \<Rightarrow> ((fst sw, w2), Some (''remove '' @ sl_name s @ '' during rolling restart: '' @ e))
              | (w2, None) \<Rightarrow> spawn_ordinal h True labels (fst sw, w2) scope nm app spec hash extraEnv n))"

fun replace_down ::
  "('s, 'w) sts_handler \<Rightarrow> 's \<times> 'w \<Rightarrow> string \<Rightarrow> string \<Rightarrow> string \<Rightarrow> slot list \<Rightarrow> statefulset_spec \<Rightarrow> string \<Rightarrow> string
    \<Rightarrow> string list \<Rightarrow> string set \<Rightarrow> ('s \<times> 'w) \<times> string option" where
  "replace_down h sw scope nm app [] spec hash releaseID extraEnv frozen = (sw, None)"
| "replace_down h sw scope nm app (s # ss) spec hash releaseID extraEnv frozen =
     (case Ordinal (sl_identity s) of
        None \<Rightarrow> replace_down h sw scope nm app ss spec hash releaseID extraEnv frozen
      | Some n \<Rightarrow>
          if OrdinalReplicaID n \<in> frozen then replace_down h sw scope nm app ss spec hash releaseID extraEnv frozen
          else case replace_ordinal h sw scope nm app s n spec hash releaseID extraEnv of
                 (sw1, Some e) \<Rightarrow> (sw1, Some e)
               | (sw1, None) \<Rightarrow> replace_down h sw1 scope nm app ss spec hash releaseID extraEnv frozen)"

definition rollingReplaceTopDown ::
  "('s, 'w) sts_handler \<Rightarrow> 's \<times> 'w \<Rightarrow> string \<Rightarrow> string \<Rightarrow> string \<Rightarrow> statefulset_spec \<Rightarrow> string \<Rightarrow> string
    \<Rightarrow> string set \<Rightarrow> ('s \<times> 'w) \<times> string option" where
  "rollingReplaceTopDown h sw scope nm app spec hash releaseID frozen =
     (case cm_list (e_cm (st_env h)) (snd sw) ''statefulset'' scope nm of
        Inl e \<Rightarrow> (sw, Some (''list replicas: '' @ e))
      | Inr live \<Rightarrow>
          (case resolveEnvFromList (st_env h) (snd sw) (ss_env_from spec) scope of
             Inl e \<Rightarrow> (sw, Some (''resolve env_from: '' @ e))
           | Inr extraEnv \<Rightarrow>
               replace_down h sw scope nm app (sortSlotsByOrdinalDesc live) spec hash releaseID extraEnv frozen))"

definition recreateOrdinalsIfSpecChanged ::
  "('s, 'w) sts_handler \<Rightarrow> 's \<times> 'w \<Rightarrow> string \<Rightarrow> string \<Rightarrow> string \<Rightarrow> statefulset_spec \<Rightarrow> string \<Rightarrow> string
    \<Rightarrow> string set \<Rightarrow> ('s \<times> 'w) \<times> (string + bool)" where
  "recreateOrdinalsIfSpecChanged h sw scope nm app spec hash releaseID frozen =
     (let cl = e_cl (st_env h);
          write = (\<lambda>s. sts_writeStatus cl s app (ss_image spec) hash (statefulsetReplicas spec))
      in case sts_loadStatus cl (fst sw) app of
           Inl e \<Rightarrow> (sw, Inl (''read statefulset status: '' @ e))
         | Inr prev \<Rightarrow>
             if ds_spec_hash prev = [] \<or>
                (ds_spec_hash prev = hash \<and>
                 \<not> (case cm_list (e_cm (st_env h)) (snd sw) ''statefulset'' scope nm of
                      Inl _ \<Rightarrow> False
                    | Inr live \<Rightarrow> image_id_drift (st_env h) (snd sw) live (ss_image spec)))
             then (case write (fst sw) of Inl e \<Rightarrow> (sw, Inl e) | Inr s1 \<Rightarrow> ((s1, snd sw), Inr False))
             else (case rollingReplaceTopDown h sw scope nm app spec hash releaseID frozen of
                     (sw1, Some e) \<Rightarrow> (sw1, Inl e)
                   | (sw1, None) \<Rightarrow>
                       (case write (fst sw1) of Inl e \<Rightarrow> (sw1, Inl e) | Inr s1 \<Rightarrow> ((s1, snd sw1), Inr True))))"

section \<open>Apply, remove, restart\<close>

definition sts_mints_release :: "('s, 'w) henv \<Rightarrow> 'w \<Rightarrow> deployment_status \<Rightarrow> string \<Rightarrow> string \<Rightarrow> int \<Rightarrow> slot list \<Rightarrow> bool" where
  "sts_mints_release env w prev img hash want live =
     (let firstApply = (ds_spec_hash prev = []);
          specDrifted = (\<not> firstApply \<and> ds_spec_hash prev \<noteq> hash);
          countChanged = (\<not> firstApply \<and> ds_replicas prev \<noteq> 0 \<and> ds_replicas prev \<noteq> want);
          idDrift = (\<not> firstApply \<and> \<not> specDrifted \<and> image_id_drift env w live img)
      in firstApply \<or> specDrifted \<or> countChanged \<or> idDrift)"

definition sts_release :: "string \<Rightarrow> string \<Rightarrow> string \<Rightarrow> string \<Rightarrow> json option \<Rightarrow> release_record" where
  "sts_release releaseID from hash img raw =
     \<lparr>rr_id = releaseID, rr_rolled_back_from = from, rr_spec_hash = hash, rr_image = img, rr_build_id = [],
      rr_status = ReleaseSucceeded, rr_pre_exit = 0, rr_exit = 0, rr_post_exit = 0, rr_error = [], rr_snapshot = raw\<rparr>"

text \<open>What follows the drift check: the environment that moved, the record, the plugins.\<close>

definition sts_finish ::
  "('s, 'w) sts_handler \<Rightarrow> 's \<times> 'w \<Rightarrow> string \<Rightarrow> string \<Rightarrow> string \<Rightarrow> statefulset_spec \<Rightarrow> string \<Rightarrow> string \<Rightarrow> bool
    \<Rightarrow> string set \<Rightarrow> json \<Rightarrow> ('s \<times> 'w) \<times> herror option" where
  "sts_finish h sw scope nm app spec hash releaseID roll_env frozen raw =
     (let sw1 = (if roll_env then fst (rollingReplaceTopDown h sw scope nm app spec hash [] frozen) else sw);
          s2 = (if releaseID = [] then fst sw1
                else case sts_appendReleaseRecord (e_cl (st_env h)) (fst sw1) app
                            (sts_release releaseID [] hash (ss_image spec) (Some raw)) of
                       Inl _ \<Rightarrow> fst sw1 | Inr s' \<Rightarrow> s')
      in case publishEndpoints (st_env h) (snd sw1) ''statefulset'' scope nm raw of
           (w2, er) \<Rightarrow> ((s2, w2), er))"

definition apply_sts_spec ::
  "('s, 'w) sts_handler \<Rightarrow> 's \<times> 'w \<Rightarrow> string \<Rightarrow> string \<Rightarrow> string \<Rightarrow> statefulset_spec \<Rightarrow> string \<Rightarrow> bool \<Rightarrow> json
    \<Rightarrow> ('s \<times> 'w) \<times> herror option" where
  "apply_sts_spec h sw scope nm app spec hash envChanged raw =
     (let env = st_env h; cl = e_cl env; want = statefulsetReplicas spec
      in case cm_list (e_cm env) (snd sw) ''statefulset'' scope nm of
           Inl e \<Rightarrow> (sw, Some (Plain (''list statefulset '' @ app @ '' replicas: '' @ e)))
         | Inr live \<Rightarrow>
             (let frozen = frozen_of cl (fst sw) ''statefulset'' scope nm;
                  prev = status_or_empty (sts_loadStatus cl (fst sw) app);
                  (w1, releaseID) = (if sts_mints_release env (snd sw) prev (ss_image spec) hash want live
                                     then e_release_id env (snd sw) else (snd sw, []))
              in case ensureOrdinalsUp h (fst sw, w1) scope nm app live want spec hash releaseID frozen of
                   (sw2, Some e) \<Rightarrow> (sw2, Some (Plain e))
                 | ((s2, w2), None) \<Rightarrow>
                     (case recreateOrdinalsIfSpecChanged h (s2, fst (pruneOrdinalsAbove env w2 scope nm app want))
                             scope nm app spec hash releaseID frozen of
                        (sw3, Inl e) \<Rightarrow> (sw3, Some (Plain e))
                      | (sw3, Inr restarted) \<Rightarrow>
                          sts_finish h sw3 scope nm app spec hash releaseID
                            (envChanged \<and> \<not> restarted \<and> ds_spec_hash prev \<noteq> []) frozen raw)))"

definition sts_hash_of :: "('s, 'w) sts_handler \<Rightarrow> 's \<Rightarrow> statefulset_spec \<Rightarrow> string" where
  "sts_hash_of h s spec =
     statefulsetSpecHash (st_sha h) spec (resolveStampedOrLookup (ss_digests spec) (st_lookup h s spec))"

definition apply_statefulset ::
  "('s, 'w) sts_handler \<Rightarrow> 's \<times> 'w \<Rightarrow> string \<Rightarrow> string \<Rightarrow> manifest option \<Rightarrow> ('s \<times> 'w) \<times> herror option" where
  "apply_statefulset h sw scope nm m =
     (let app = AppID scope nm
      in case m of
           None \<Rightarrow> (sw, Some (Plain ''put event without manifest''))
         | Some mf \<Rightarrow>
             (case bind_ok (decodeStatefulsetSpec mf) (\<lambda>sp. applyStatefulsetSpecDefaults sp app) of
                Inl e \<Rightarrow> (sw, Some (Plain e))
              | Inr spec0 \<Rightarrow>
                  (case st_interp h (fst sw) spec0 of
                     Inl e \<Rightarrow> (sw, Some (Plain e))
                   | Inr spec \<Rightarrow>
                       (case resolveAppEnv (st_env h) sw scope nm app (ss_env spec) of
                          (w1, Inl e) \<Rightarrow> ((fst sw, w1), Some e)
                        | (w1, Inr changed) \<Rightarrow>
                            apply_sts_spec h (fst sw, w1) scope nm app spec (sts_hash_of h (fst sw) spec0) changed (m_spec mf)))))"

fun remove_pods :: "('s, 'w) henv \<Rightarrow> 'w \<Rightarrow> string \<Rightarrow> slot list \<Rightarrow> 'w \<times> string option" where
  "remove_pods env w app [] = (w, None)"
| "remove_pods env w app (s # ss) =
     (case cm_remove (e_cm env) (e_probe_stop env w app (sl_name s)) (sl_name s) of
        (w1, Some e) \<Rightarrow> (w1, Some (''remove '' @ sl_name s @ '': '' @ e))
      | (w1, None) \<Rightarrow> remove_pods env w1 app ss)"

definition remove_statefulset ::
  "('s, 'w) sts_handler \<Rightarrow> 's \<times> 'w \<Rightarrow> string \<Rightarrow> string \<Rightarrow> ('s \<times> 'w) \<times> string option" where
  "remove_statefulset h sw scope nm =
     (let env = st_env h; cl = e_cl env; app = AppID scope nm
      in case cm_list (e_cm env) (snd sw) ''statefulset'' scope nm of
           Inl e \<Rightarrow> (sw, Some (''list replicas: '' @ e))
         | Inr slots \<Rightarrow>
             (case remove_pods env (snd sw) app (sortSlotsByOrdinalDesc slots) of
                (w1, Some e) \<Rightarrow> ((fst sw, w1), Some e)
              | (w1, None) \<Rightarrow>
                  (case (if st_plan h = None then (fst sw, None) else ReleasePodIPs cl (fst sw) scope nm) of
                     (s1, Some e) \<Rightarrow> ((s1, w1), Some (''release pod addresses: '' @ e))
                   | (s1, None) \<Rightarrow>
                       (case DeleteStatus cl s1 ''statefulset'' app of
                          Inl e \<Rightarrow> ((s1, w1), Some (''clear statefulset status: '' @ e))
                        | Inr s2 \<Rightarrow> ((s2, w1), None)))))"

definition sts_Restart ::
  "('s, 'w) sts_handler \<Rightarrow> 's \<times> 'w \<Rightarrow> string \<Rightarrow> string \<Rightarrow> ('s \<times> 'w) \<times> herror option" where
  "sts_Restart h sw scope nm =
     (let env = st_env h; cl = e_cl env; app = AppID scope nm
      in case Get cl (fst sw) ''statefulset'' scope nm of
           Inl e \<Rightarrow> (sw, Some (Plain (''read statefulset manifest: '' @ e)))
         | Inr None \<Rightarrow> (sw, Some (Plain (''statefulset/'' @ scope @ ''/'' @ nm @ '' not found'')))
         | Inr (Some m) \<Rightarrow>
             (case bind_ok (decodeStatefulsetSpec m) (\<lambda>sp. applyStatefulsetSpecDefaults sp app) of
                Inl e \<Rightarrow> (sw, Some (Plain e))
              | Inr spec0 \<Rightarrow>
                  (case st_interp h (fst sw) spec0 of
                     Inl e \<Rightarrow> (sw, Some (Plain e))
                   | Inr spec \<Rightarrow>
                       (case cm_list (e_cm env) (snd sw) ''statefulset'' scope nm of
                          Inl e \<Rightarrow> (sw, Some (Plain (''list replicas: '' @ e)))
                        | Inr [] \<Rightarrow> (sw, Some (Plain (''statefulset/'' @ app @ '' has no live replicas to restart'')))
                        | Inr live \<Rightarrow>
                            (case resolveAppEnv env sw scope nm app (ss_env spec) of
                               (w1, Inl e) \<Rightarrow> ((fst sw, w1), Some (wrap ''link env: '' e))
                             | (w1, Inr _) \<Rightarrow>
                                 (case rollingReplaceTopDown h (fst sw, w1) scope nm app spec (sts_hash_of h (fst sw) spec0) []
                                         (frozen_of cl (fst sw) ''statefulset'' scope nm) of
                                    (sw2, er) \<Rightarrow> (sw2, map_option Plain er)))))))"

section \<open>Rollback\<close>

definition keep_write :: "'s \<Rightarrow> string + 's \<Rightarrow> 's" where
  "keep_write s r = (case r of Inl _ \<Rightarrow> s | Inr s' \<Rightarrow> s')"

definition sts_rollback_spec :: "('s, 'w) sts_handler \<Rightarrow> 's \<Rightarrow> string \<Rightarrow> manifest \<Rightarrow> string + statefulset_spec" where
  "sts_rollback_spec h s app m =
     bind_ok (map_err (\<lambda>e. ''decode rollback spec: '' @ e) (decodeStatefulsetSpec m)) (\<lambda>sp0.
     bind_ok (map_err (\<lambda>e. ''apply defaults: '' @ e) (applyStatefulsetSpecDefaults sp0 app)) (\<lambda>sp1.
       map_err (\<lambda>e. ''resolve asset refs: '' @ e) (st_interp h s sp1)))"

definition sts_listed :: "('s, 'w) sts_handler \<Rightarrow> 'w \<Rightarrow> string \<Rightarrow> string \<Rightarrow> string \<Rightarrow> string + slot list" where
  "sts_listed h w scope nm when =
     map_err (\<lambda>e. ''list replicas ('' @ when @ ''): '' @ e) (cm_list (e_cm (st_env h)) w ''statefulset'' scope nm)"

text \<open>Phase 4 and the status; a failing status write is logged.\<close>

definition sts_restamp ::
  "('s, 'w) sts_handler \<Rightarrow> 's \<times> 'w \<Rightarrow> string \<Rightarrow> string \<Rightarrow> string \<Rightarrow> statefulset_spec \<Rightarrow> string \<Rightarrow> string \<Rightarrow> string set
    \<Rightarrow> ('s \<times> 'w) \<times> string option" where
  "sts_restamp h sw scope nm app spec hash newID frozen =
     (case sts_listed h (snd sw) scope nm ''post scale'' of
        Inl e \<Rightarrow> (sw, Some e)
      | Inr final \<Rightarrow>
          (case (if filterSlots final (\<lambda>s. id_release (sl_identity s) \<noteq> newID) = [] then (sw, None)
                 else rollingReplaceTopDown h sw scope nm app spec hash newID frozen) of
             (sw1, Some e) \<Rightarrow> (sw1, Some (''re-stamp replicas: '' @ e))
           | (sw1, None) \<Rightarrow>
               ((keep_write (fst sw1) (sts_writeStatus (e_cl (st_env h)) (fst sw1) app (ss_image spec) hash (statefulsetReplicas spec)),
                 snd sw1), None)))"

definition sts_rolloutRollback ::
  "('s, 'w) sts_handler \<Rightarrow> 's \<times> 'w \<Rightarrow> string \<Rightarrow> string \<Rightarrow> string \<Rightarrow> manifest \<Rightarrow> release_record \<Rightarrow> string
    \<Rightarrow> ('s \<times> 'w) \<times> string option" where
  "sts_rolloutRollback h sw scope nm app m target newID =
     (case sts_rollback_spec h (fst sw) app m of
        Inl e \<Rightarrow> (sw, Some e)
      | Inr spec \<Rightarrow>
          (let want = statefulsetReplicas spec; hash = rr_spec_hash target;
               frozen = frozen_of (e_cl (st_env h)) (fst sw) ''statefulset'' scope nm
           in case pruneOrdinalsAbove (st_env h) (snd sw) scope nm app want of
                (w1, Some e) \<Rightarrow> ((fst sw, w1), Some (''scale down for rollback: '' @ e))
              | (w1, None) \<Rightarrow>
                  (case sts_listed h w1 scope nm ''post scale-down'' of
                     Inl e \<Rightarrow> ((fst sw, w1), Some e)
                   | Inr live \<Rightarrow>
                       (case (if live = [] then ((fst sw, w1), None)
                              else rollingReplaceTopDown h (fst sw, w1) scope nm app spec hash newID frozen) of
                          (sw2, Some e) \<Rightarrow> (sw2, Some e)
                        | (sw2, None) \<Rightarrow>
                            (case sts_listed h (snd sw2) scope nm ''post replace'' of
                               Inl e \<Rightarrow> (sw2, Some e)
                             | Inr live2 \<Rightarrow>
                                 (case (if int (length live2) < want
                                        then ensureOrdinalsUp h sw2 scope nm app live2 want spec hash newID frozen
                                        else (sw2, None)) of
                                    (sw3, Some e) \<Rightarrow> (sw3, Some (''scale up for rollback: '' @ e))
                                  | (sw3, None) \<Rightarrow> sts_restamp h sw3 scope nm app spec hash newID frozen))))))"

datatype rollback_failure = StoreFailed string | NoTarget rollback_error | RolloutFailed string

definition sts_Rollback ::
  "('s, 'w) sts_handler \<Rightarrow> 's \<times> 'w \<Rightarrow> string \<Rightarrow> string \<Rightarrow> string \<Rightarrow> ('s \<times> 'w) \<times> string \<times> rollback_failure option" where
  "sts_Rollback h sw scope nm targetID =
     (let env = st_env h; cl = e_cl env; app = AppID scope nm
      in case Get cl (fst sw) ''statefulset'' scope nm of
           Inl e \<Rightarrow> (sw, [], Some (StoreFailed (''read current manifest: '' @ e)))
         | Inr None \<Rightarrow> (sw, [], Some (StoreFailed (''statefulset/'' @ scope @ ''/'' @ nm @ '' not found'')))
         | Inr (Some current) \<Rightarrow>
             (case sts_loadStatus cl (fst sw) app of
                Inl e \<Rightarrow> (sw, [], Some (StoreFailed (''read status: '' @ e)))
              | Inr prev \<Rightarrow>
                  (case pickRollbackTarget (ds_releases prev) targetID of
                     Inl e \<Rightarrow> (sw, [], Some (NoTarget e))
                   | Inr target \<Rightarrow>
                       (let m = current\<lparr>m_spec := (case rr_snapshot target of None \<Rightarrow> JNull | Some j \<Rightarrow> j)\<rparr>
                        in case Put cl (fst sw) (e_clock env (snd sw)) m of
                             Inl _ \<Rightarrow> (sw, [], Some (StoreFailed ''apply rollback manifest''))
                           | Inr (s1, m1) \<Rightarrow>
                               (case e_release_id env (snd sw) of
                                  (w1, newID) \<Rightarrow>
                                    (let record = sts_release newID (rr_id target) (rr_spec_hash target) (rr_image target) (rr_snapshot target);
                                         s2 = keep_write s1 (sts_appendReleaseRecord cl s1 app record)
                                     in case sts_rolloutRollback h (s2, w1) scope nm app m1 target newID of
                                          (sw3, Some e) \<Rightarrow> (sw3, newID, Some (RolloutFailed e))
                                        | (sw3, None) \<Rightarrow> (sw3, newID, None)))))))"

section \<open>Volumes\<close>

definition volume_filters :: "string \<Rightarrow> string \<Rightarrow> string list" where
  "volume_filters scope nm =
     [''createdby=voodu'', ''voodu.kind=statefulset'', ''voodu.name='' @ nm]
     @ (if scope \<noteq> [] then [''voodu.scope='' @ scope] else [])"

definition ordinal_filters :: "string \<Rightarrow> string \<Rightarrow> int \<Rightarrow> string list" where
  "ordinal_filters scope nm n =
     [''createdby=voodu'', ''voodu.kind=statefulset'', ''voodu.name='' @ nm,
      ''voodu.replica_ordinal='' @ OrdinalReplicaID n]
     @ (if scope \<noteq> [] then [''voodu.scope='' @ scope] else [])"

definition Volumes :: "('s, 'w) henv \<Rightarrow> 'w \<Rightarrow> string \<Rightarrow> string \<Rightarrow> string + string list" where
  "Volumes env w scope nm = cm_list_volumes (e_cm env) w (volume_filters scope nm)"

text \<open>Up to four attempts for one volume, with pauses in between.\<close>

fun remove_volume_tries :: "('s, 'w) henv \<Rightarrow> nat \<Rightarrow> 'w \<Rightarrow> string \<Rightarrow> 'w \<times> string option" where
  "remove_volume_tries env 0 w v = (w, None)"
| "remove_volume_tries env (Suc k) w v =
     (case cm_remove_volume (e_cm env) w v of
        (w1, None) \<Rightarrow> (w1, None)
      | (w1, Some e) \<Rightarrow> if k = 0 then (w1, Some e) else remove_volume_tries env k w1 v)"

text \<open>The volumes removed, and those that were not.\<close>

fun remove_volumes :: "('s, 'w) henv \<Rightarrow> 'w \<Rightarrow> string list \<Rightarrow> 'w \<times> string list \<times> string list" where
  "remove_volumes env w [] = (w, [], [])"
| "remove_volumes env w (v # vs) =
     (case remove_volume_tries env 4 w v of
        (w1, er) \<Rightarrow>
          (case remove_volumes env w1 vs of
             (w2, gone, failed) \<Rightarrow> if er = None then (w2, v # gone, failed) else (w2, gone, v # failed)))"

fun force_remove :: "('s, 'w) henv \<Rightarrow> 'w \<Rightarrow> string \<Rightarrow> slot list \<Rightarrow> 'w" where
  "force_remove env w app [] = w"
| "force_remove env w app (s # ss) =
     force_remove env (fst (cm_remove (e_cm env) (e_probe_stop env w app (sl_name s)) (sl_name s))) app ss"

definition PruneVolumes :: "('s, 'w) henv \<Rightarrow> 'w \<Rightarrow> string \<Rightarrow> string \<Rightarrow> 'w \<times> (string + string list)" where
  "PruneVolumes env w scope nm =
     (let w1 = (case cm_list (e_cm env) w ''statefulset'' scope nm of
                  Inl _ \<Rightarrow> w | Inr pods \<Rightarrow> force_remove env w (AppID scope nm) pods)
      in case cm_list_volumes (e_cm env) w1 (volume_filters scope nm) of
           Inl e \<Rightarrow> (w1, Inl (''list volumes: '' @ e))
         | Inr vols \<Rightarrow> (case remove_volumes env w1 vols of (w2, gone, _) \<Rightarrow> (w2, Inr gone)))"

record rebootstrap_summary =
  rb_container :: string
  rb_volumes :: "string list"
  rb_errors :: "string list"

definition rebootstrap_volumes ::
  "('s, 'w) henv \<Rightarrow> 'w \<Rightarrow> string \<Rightarrow> string \<Rightarrow> int \<Rightarrow> rebootstrap_summary \<Rightarrow> 'w \<times> rebootstrap_summary" where
  "rebootstrap_volumes env w scope nm n sm =
     (case cm_list_volumes (e_cm env) w (ordinal_filters scope nm n) of
        Inl e \<Rightarrow> (w, sm\<lparr>rb_errors := rb_errors sm @ [''list volumes: '' @ e]\<rparr>)
      | Inr vols \<Rightarrow>
          (case remove_volumes env w vols of
             (w1, gone, failed) \<Rightarrow>
               (w1, sm\<lparr>rb_volumes := gone, rb_errors := rb_errors sm @ map (\<lambda>v. ''remove volume '' @ v) failed\<rparr>)))"

definition RebootstrapPod ::
  "('s, 'w) sts_handler \<Rightarrow> 's \<times> 'w \<Rightarrow> string \<Rightarrow> string \<Rightarrow> int \<Rightarrow> bool \<Rightarrow> ('s \<times> 'w) \<times> rebootstrap_summary" where
  "RebootstrapPod h sw scope nm n prune =
     (let env = st_env h; app = AppID scope nm; cname = ContainerName scope nm (OrdinalReplicaID n)
      in case cm_remove (e_cm env) (e_probe_stop env (snd sw) app cname) cname of
           (w1, er) \<Rightarrow>
             (let sum1 = (case er of
                  Some e \<Rightarrow> \<lparr>rb_container = [], rb_volumes = [], rb_errors = [''remove container '' @ cname @ '': '' @ e]\<rparr>
                | None \<Rightarrow> \<lparr>rb_container = cname, rb_volumes = [], rb_errors = []\<rparr>)
              in case (if prune then rebootstrap_volumes env w1 scope nm n sum1 else (w1, sum1)) of
                   (w2, sum2) \<Rightarrow>
                     (case Get (e_cl env) (fst sw) ''statefulset'' scope nm of
                        Inl e \<Rightarrow> ((fst sw, w2), sum2\<lparr>rb_errors := rb_errors sum2 @ [''read manifest: '' @ e]\<rparr>)
                      | Inr None \<Rightarrow> ((fst sw, w2), sum2)
                      | Inr (Some m) \<Rightarrow>
                          (case apply_statefulset h (fst sw, w2) scope nm (Some m) of
                             (sw3, None) \<Rightarrow> (sw3, sum2)
                           | (sw3, Some e) \<Rightarrow> (sw3, sum2\<lparr>rb_errors := rb_errors sum2 @ [''trigger reconcile'']\<rparr>)))))"

end
