(* ===== verification/TopDown.thy ===== *)
theory TopDown
  imports Stateful Rolling
begin

text \<open>
  What bringing up, pruning and replacing ordinals does to the containers of a statefulset: which
  names each step may touch, what it leaves in them, and the order from the highest ordinal down.
\<close>

section \<open>How a spawn goes\<close>

lemma spawn_ordinal_cases [consumes 1, case_names claims limits inits address create finished]:
  assumes run: "spawn_ordinal h rs ls sw scope nm app spec hash ee n = (sw', e)"
  obtains w1 x where "ensureClaimsForOrdinal (st_env h) (snd sw) scope nm n (ss_claims spec) = (w1, Inl x)"
      "sw' = (fst sw, w1)" "e \<noteq> None"
  | w1 ms x where "ensureClaimsForOrdinal (st_env h) (snd sw) scope nm n (ss_claims spec) = (w1, Inr ms)"
      "dockerResources (e_floats (st_env h)) (ss_resources spec) = Inl x" "sw' = (fst sw, w1)" "e \<noteq> None"
  | w1 ms x where "ensureClaimsForOrdinal (st_env h) (snd sw) scope nm n (ss_claims spec) = (w1, Inr ms)"
      "sts_inits h (fst sw, w1) scope nm app spec hash ee ms n = (sw', Some x)" "e \<noteq> None"
  | w1 ms s2 w2 s3 x where "ensureClaimsForOrdinal (st_env h) (snd sw) scope nm n (ss_claims spec) = (w1, Inr ms)"
      "sts_inits h (fst sw, w1) scope nm app spec hash ee ms n = ((s2, w2), None)"
      "podIP h (s2, w2) scope nm spec n = (s3, Inl x)" "sw' = (s3, w2)" "e \<noteq> None"
  | w1 ms l s2 w2 s3 ip w3 x where "ensureClaimsForOrdinal (st_env h) (snd sw) scope nm n (ss_claims spec) = (w1, Inr ms)"
      "sts_inits h (fst sw, w1) scope nm app spec hash ee ms n = ((s2, w2), None)"
      "podIP h (s2, w2) scope nm spec n = (s3, Inr ip)"
      "cm_ensure (e_cm (st_env h)) w2 (sts_container h ls scope nm app spec ee ms l ip n) = (w3, Inl x)"
      "sw' = (s3, w3)" "e \<noteq> None"
  | w1 ms l s2 w2 s3 ip w3 b where "ensureClaimsForOrdinal (st_env h) (snd sw) scope nm n (ss_claims spec) = (w1, Inr ms)"
      "sts_inits h (fst sw, w1) scope nm app spec hash ee ms n = ((s2, w2), None)"
      "podIP h (s2, w2) scope nm spec n = (s3, Inr ip)"
      "cm_ensure (e_cm (st_env h)) w2 (sts_container h ls scope nm app spec ee ms l ip n) = (w3, Inr b)"
      "sw' = (s3, e_probe_start (st_env h) w3 app (ContainerName scope nm (OrdinalReplicaID n)) (ss_probes spec) (ss_on_probe spec))"
      "e = None"
proof -
  note u = run [unfolded spawn_ordinal_def Let_def]
  obtain w1 r1 where c: "ensureClaimsForOrdinal (st_env h) (snd sw) scope nm n (ss_claims spec) = (w1, r1)" by fastforce
  show thesis
  proof (cases r1)
    case (Inl x)
    then show thesis using u c that(1) by auto
  next
    case ms: (Inr ms)
    show thesis
    proof (cases "dockerResources (e_floats (st_env h)) (ss_resources spec)")
      case (Inl x)
      then show thesis using u c ms that(2) by auto
    next
      case l: (Inr l)
      obtain s2 w2 e2 where i: "sts_inits h (fst sw, w1) scope nm app spec hash ee ms n = ((s2, w2), e2)" by (metis surj_pair)
      show thesis
      proof (cases e2)
        case (Some x)
        then show thesis using u c ms l i that(3) by auto
      next
        case None
        obtain s3 r3 where ip: "podIP h (s2, w2) scope nm spec n = (s3, r3)" by fastforce
        show thesis
        proof (cases r3)
          case (Inl x)
          then show thesis using u c ms l i None ip that(4) by auto
        next
          case a: (Inr a)
          obtain w3 r4 where en: "cm_ensure (e_cm (st_env h)) w2 (sts_container h ls scope nm app spec ee ms l a n) = (w3, r4)" by fastforce
          show thesis
          proof (cases r4)
            case (Inl x)
            then show thesis using u c ms l i None ip a en
              by (intro that(5) [OF c [unfolded ms] i [unfolded None] ip [unfolded a] en [unfolded Inl]]) auto
          next
            case (Inr b)
            then show thesis using u c ms l i None ip a en
              by (intro that(6) [OF c [unfolded ms] i [unfolded None] ip [unfolded a] en [unfolded Inr]]) auto
          qed
        qed
      qed
    qed
  qed
qed

section \<open>From the highest ordinal down\<close>

lemma insert_desc_set [simp]: "set (insert_desc x ys) = insert x (set ys)"
  by (induction ys) auto

lemma sortDesc_set [simp]: "set (sortSlotsByOrdinalDesc ss) = set ss"
  unfolding sortSlotsByOrdinalDesc_def by (induction ss) auto

lemma insert_desc_distinct: "distinct (map sl_name (insert_desc x ys)) \<longleftrightarrow> distinct (map sl_name (x # ys))"
  by (induction ys) auto

lemma sortDesc_distinct [simp]: "distinct (map sl_name (sortSlotsByOrdinalDesc ss)) \<longleftrightarrow> distinct (map sl_name ss)"
  unfolding sortSlotsByOrdinalDesc_def
proof (induction ss)
  case (Cons s ss)
  have "set (foldr insert_desc ss []) = set ss" by (induction ss) auto
  then show ?case using Cons by (simp add: insert_desc_distinct)
qed simp

lemma ordinal_before_trans: "\<not> ordinal_before b a \<Longrightarrow> \<not> ordinal_before c b \<Longrightarrow> \<not> ordinal_before c a"
  by (auto simp: ordinal_before_def split: option.splits)

lemma ordinal_before_asym: "ordinal_before a b \<Longrightarrow> \<not> ordinal_before b a"
  by (auto simp: ordinal_before_def split: option.splits)

lemma insert_desc_sorted:
  "sorted_wrt (\<lambda>a b. \<not> ordinal_before b a) ys \<Longrightarrow> sorted_wrt (\<lambda>a b. \<not> ordinal_before b a) (insert_desc x ys)"
  by (induction ys) (auto dest: ordinal_before_asym ordinal_before_trans)

lemma sortDesc_sorted: "sorted_wrt (\<lambda>a b. \<not> ordinal_before b a) (sortSlotsByOrdinalDesc ss)"
  unfolding sortSlotsByOrdinalDesc_def by (induction ss) (auto intro: insert_desc_sorted)

section \<open>Ordinals\<close>

lemma atoi_less: "atoi s = Some v \<Longrightarrow> v < 2 ^ 63"
  unfolding atoi_def Let_def by (simp split: prod.splits if_splits option.splits)

lemma Ordinal_bounds: "Ordinal i = Some n \<Longrightarrow> 0 \<le> n \<and> n < 2 ^ 63"
  using atoi_less by (auto simp: Ordinal_def split: if_splits option.splits)

lemma ordinal_id_inj: "0 \<le> m \<Longrightarrow> 0 \<le> n \<Longrightarrow> OrdinalReplicaID m = OrdinalReplicaID n \<longleftrightarrow> m = n"
  by (simp add: OrdinalReplicaID_def itoa_int_inj)

lemma pod_name_inj [simp]: "ContainerName scope nm a = ContainerName scope nm b \<longleftrightarrow> a = b"
  by (simp add: ContainerName_def)

definition pod_name :: "string \<Rightarrow> string \<Rightarrow> int \<Rightarrow> string" where
  "pod_name scope nm n = ContainerName scope nm (OrdinalReplicaID n)"

lemma pod_names_inj: "0 \<le> m \<Longrightarrow> 0 \<le> n \<Longrightarrow> pod_name scope nm m = pod_name scope nm n \<longleftrightarrow> m = n"
  by (simp add: pod_name_def ordinal_id_inj)

text \<open>The pod of ordinal \<open>n\<close>, running the given image, stamped with the given hash.\<close>

definition is_current :: "string \<Rightarrow> string \<Rightarrow> string \<Rightarrow> string \<Rightarrow> int \<Rightarrow> ctr \<Rightarrow> bool" where
  "is_current scope nm img hash n c \<longleftrightarrow>
     ct_running c \<and> k_image (ct_spec c) = img \<and>
     (\<exists>i. ctr_identity c = Some i \<and> Matches i ''statefulset'' scope nm \<and> Ordinal i = Some n \<and> id_hash i = hash)"

lemma is_current_restart: "is_current scope nm img hash n \<lparr>ct_spec = (ct_spec c)\<lparr>k_restart := r\<rparr>, ct_running = True\<rparr>
    \<longleftrightarrow> is_current scope nm img hash n (c\<lparr>ct_running := True\<rparr>)"
  by (simp add: is_current_def ctr_identity_def)

lemma sts_container_current:
  assumes "0 \<le> n" and "n < 2 ^ 63"
  shows "is_current scope nm (ss_image spec) hash n
    \<lparr>ct_spec = sts_container h (sts_labels h w scope nm n hash rel) scope nm app spec ee ms l ip n, ct_running = True\<rparr>"
proof -
  have "atoi (OrdinalReplicaID n) = Some n" using assms by (simp add: OrdinalReplicaID_def atoi_itoa_int)
  then show ?thesis using assms
    by (simp add: is_current_def ctr_identity_def sts_container_def sts_labels_def parse_built_labels Matches_def Ordinal_def)
qed

definition pod_current :: "containers \<Rightarrow> string \<Rightarrow> string \<Rightarrow> statefulset_spec \<Rightarrow> string \<Rightarrow> int \<Rightarrow> bool" where
  "pod_current v scope nm spec hash n \<longleftrightarrow>
     (\<exists>c. v (pod_name scope nm n) = Some c \<and> is_current scope nm (ss_image spec) hash n c)"

text \<open>Ordinal \<open>k\<close> is settled by \<open>ss\<close>: a slot of \<open>ss\<close> is its pod, or its pod is current and no slot of \<open>ss\<close>.\<close>

definition settled :: "containers \<Rightarrow> string \<Rightarrow> string \<Rightarrow> statefulset_spec \<Rightarrow> string \<Rightarrow> slot list \<Rightarrow> int \<Rightarrow> bool" where
  "settled v scope nm spec hash ss k \<longleftrightarrow>
     (pod_current v scope nm spec hash k \<and> pod_name scope nm k \<notin> sl_name ` set ss) \<or>
     (\<exists>s \<in> set ss. Ordinal (sl_identity s) = Some k \<and> sl_name s = pod_name scope nm k)"

section \<open>What the addresses touch\<close>

definition podip_key :: "key \<Rightarrow> bool" where
  "podip_key k \<longleftrightarrow> take 8 k = ''/podips/''"

lemma podip_keys [simp]: "podip_key (PodIPAddrKey ip)" "podip_key (PodIPPodKey scope nm n)" "\<not> podip_key (StatusKey k a)"
  by (simp_all add: podip_key_def PodIPAddrKey_def PodIPPodKey_def PodIPPodPrefix_def StatusKey_def)

lemma podip_neq: "\<not> podip_key k \<Longrightarrow> k \<noteq> PodIPAddrKey ip" "\<not> podip_key k \<Longrightarrow> k \<noteq> PodIPPodKey scope nm n"
  by auto

context etcd_api
begin

lemma reserve_outside:
  assumes "ReservePodIP cl s scope nm n ip = Inr (s', ok)" and "\<not> podip_key k"
  shows "view s' k = view s k"
  using assms podip_neq [OF assms(2)]
  by (auto simp: ReservePodIP_def Let_def apply_txn_def dest!: txn_law split: sum.splits if_splits)

lemma release_outside:
  assumes "ReleasePodIP cl s scope nm n = Inr s'" and "\<not> podip_key k"
  shows "view s' k = view s k"
  using assms podip_neq [OF assms(2)]
  by (auto simp: ReleasePodIP_def Let_def apply_txn_def dest!: txn_law split: sum.splits option.splits if_splits)

lemma draw_outside:
  "draw_address (etcd_pod_store cl) s scope nm n pool = (s', r) \<Longrightarrow> \<not> podip_key k \<Longrightarrow> view s' k = view s k"
proof (induction pool arbitrary: s)
  case (Cons a pool)
  show ?case
  proof (cases "ReservePodIP cl s scope nm n (addr_string a)")
    case (Inr x)
    obtain s1 ok where x: "x = (s1, ok)" by fastforce
    have v: "view s1 k = view s k" using reserve_outside [OF Inr [unfolded x] Cons.prems(2)] .
    show ?thesis using Cons Inr x v
      by (cases ok; cases "GetPodIP cl s1 scope nm n") (auto simp: etcd_pod_store_def split: if_splits)
  qed (use Cons in \<open>simp add: etcd_pod_store_def\<close>)
qed simp

lemma release_store: "ps_release (etcd_pod_store cl) = ReleasePodIP cl"
  by (simp add: etcd_pod_store_def)

lemma addressFor_outside:
  assumes "addressFor (etcd_pod_store cl) pl s scope nm n = (s', r)" and "\<not> podip_key k"
  shows "view s' k = view s k"
  using assms unfolding addressFor_def
  by (auto split: sum.splits option.splits if_splits dest: draw_outside simp: release_store release_outside)

end

section \<open>What the steps touch\<close>

text \<open>Bringing ordinal \<open>n\<close> up may touch its pod and its init containers.\<close>

definition ordinal_names :: "string \<Rightarrow> string \<Rightarrow> statefulset_spec \<Rightarrow> int \<Rightarrow> string set" where
  "ordinal_names scope nm spec n = insert (pod_name scope nm n) (init_names scope nm (OrdinalReplicaID n) (ss_inits spec))"

lemma pod_outside: "0 \<le> m \<Longrightarrow> 0 \<le> n \<Longrightarrow> m \<noteq> n \<Longrightarrow> pod_name scope nm m \<notin> ordinal_names scope nm spec n"
  using replica_not_init_name by (simp add: ordinal_names_def pod_names_inj) (simp add: pod_name_def replica_not_init_name)

locale ordinal_host = host cm view cl kview env
  for cm :: "'w container_manager" and view :: "'w \<Rightarrow> containers"
    and cl :: "'s etcd" and kview :: "'s \<Rightarrow> kv" and env :: "('s, 'w) henv" +
  fixes h :: "('s, 'w) sts_handler"
  assumes handler_env: "st_env h = env"
begin

lemma claims_view: "ensureClaimsForOrdinal env w scope nm n cs = (w', r) \<Longrightarrow> view w' = view w"
proof (induction cs arbitrary: w w' r)
  case (Cons c cs)
  obtain w1 e1 where v: "cm_ensure_volume cm w (volumeName scope nm (vc_name c) n) (volumeLabels scope nm (vc_name c) n) = (w1, e1)"
    by fastforce
  have v1: "view w1 = view w"
    using ensure_volume_view [of w "volumeName scope nm (vc_name c) n" "volumeLabels scope nm (vc_name c) n"] v by simp
  obtain w2 r2 where t: "ensureClaimsForOrdinal env w1 scope nm n cs = (w2, r2)" by fastforce
  show ?case
  proof (cases "vc_name c = [] \<or> vc_mount c = []")
    case False
    then show ?thesis using Cons.prems v v1 t Cons.IH [OF t] by (cases e1; cases r2) (auto simp: Let_def)
  qed (use Cons.prems in simp)
qed simp

lemma sts_inits_frame:
  assumes "sts_inits h sw scope nm app spec hash ee ms n = (sw', er)"
  shows "same_outside (init_names scope nm (OrdinalReplicaID n) (ss_inits spec)) (view (snd sw)) (view (snd sw'))"
proof (cases "ss_inits spec = []")
  case False
  obtain s w where sw: "sw = (s, w)" by (cases sw)
  define fh where "fh = (\<lambda>s f. sts_RecordInitFailure cl s app f)"
  obtain s1 w1 er1 where c: "init_chain env fh (s, w) ''statefulset'' scope nm (OrdinalReplicaID n) (ss_inits spec)
      (sts_parent h scope nm app spec hash ee ms n) = ((s1, w1), er1)" by (metis surj_pair)
  have "snd sw' = w1" using assms False c sw
    by (cases er1) (auto simp: sts_inits_def Let_def handler_env runInitChain_def fh_def)
  then show ?thesis using init_chain_frame [OF c] sw by simp
qed (use assms in \<open>simp add: sts_inits_def Let_def\<close>)

lemma spawn_frame:
  assumes "spawn_ordinal h rs ls sw scope nm app spec hash ee n = (sw', e)"
  shows "same_outside (ordinal_names scope nm spec n) (view (snd sw)) (view (snd sw'))"
  using assms
proof (cases rule: spawn_ordinal_cases)
  case (claims w1 x)
  then show ?thesis using claims_view by (simp add: handler_env)
next
  case (limits w1 ms x)
  then show ?thesis using claims_view by (simp add: handler_env)
next
  case (inits w1 ms x)
  then show ?thesis using claims_view [OF inits(1) [unfolded handler_env]] sts_inits_frame [OF inits(2)]
    by (auto simp: ordinal_names_def elim: same_outside_mono)
next
  case (address w1 ms s2 w2 s3 x)
  then show ?thesis using claims_view [OF address(1) [unfolded handler_env]] sts_inits_frame [OF address(2)]
    by (auto simp: ordinal_names_def elim: same_outside_mono)
next
  case (create w1 ms l s2 w2 s3 ip w3 x)
  have "same_outside (init_names scope nm (OrdinalReplicaID n) (ss_inits spec)) (view (snd sw)) (view w2)"
    using claims_view [OF create(1) [unfolded handler_env]] sts_inits_frame [OF create(2)] by simp
  moreover have "same_outside {pod_name scope nm n} (view w2) (view w3)"
    using ensure_frame [OF create(4) [unfolded handler_env env_cm]]
    by (simp add: same_outside_def sts_container_def pod_name_def)
  ultimately show ?thesis using same_outside_trans create(5) by (fastforce simp: ordinal_names_def)
next
  case (finished w1 ms l s2 w2 s3 ip w3 b)
  have "same_outside (init_names scope nm (OrdinalReplicaID n) (ss_inits spec)) (view (snd sw)) (view w2)"
    using claims_view [OF finished(1) [unfolded handler_env]] sts_inits_frame [OF finished(2)] by simp
  moreover have "same_outside {pod_name scope nm n} (view w2) (view w3)"
    using ensure_frame [OF finished(4) [unfolded handler_env env_cm]]
    by (simp add: same_outside_def sts_container_def pod_name_def)
  ultimately show ?thesis using same_outside_trans finished(5) by (fastforce simp: ordinal_names_def handler_env)
qed

text \<open>A pod that was gone comes back from the spec; one that was there keeps what it was made from.\<close>

lemma spawn_pod:
  assumes "spawn_ordinal h rs (sts_labels h w0 scope nm n hash rel) sw scope nm app spec hash ee n = (sw', None)"
    and "0 \<le> n" and "n < 2 ^ 63"
    and "\<forall>c. view (snd sw) (pod_name scope nm n) = Some c \<longrightarrow> is_current scope nm (ss_image spec) hash n c"
  shows "\<exists>c. view (snd sw') (pod_name scope nm n) = Some c \<and> is_current scope nm (ss_image spec) hash n c"
  using assms(1)
proof (cases rule: spawn_ordinal_cases)
  case (finished w1 ms l s2 w2 s3 ip w3 b)
  let ?k = "sts_container h (sts_labels h w0 scope nm n hash rel) scope nm app spec ee ms l ip n"
  have same: "view w2 (pod_name scope nm n) = view (snd sw) (pod_name scope nm n)"
    using claims_view [OF finished(1) [unfolded handler_env]] sts_inits_frame [OF finished(2)]
    by (simp add: same_outside_at pod_name_def replica_not_init_name)
  have k: "k_name ?k = pod_name scope nm n" by (simp add: sts_container_def pod_name_def)
  have v: "view (snd sw') = view w3" using finished(5) by (simp add: handler_env)
  show ?thesis
  proof (cases "view w2 (pod_name scope nm n)")
    case None
    then have "view w3 = (view w2)(pod_name scope nm n \<mapsto> \<lparr>ct_spec = ?k, ct_running = True\<rparr>)"
      using ensure_new [OF finished(4) [unfolded handler_env env_cm]] k by simp
    then show ?thesis using v sts_container_current [OF assms(2,3)] by simp
  next
    case (Some c)
    then have cur: "is_current scope nm (ss_image spec) hash n c" using same assms(4) by simp
    have "ct_running c" using cur by (simp add: is_current_def)
    then have "c\<lparr>ct_running := True\<rparr> = c" by simp
    then show ?thesis
      using ensure_existing [OF finished(4) [unfolded handler_env env_cm]] Some k v cur
      by (auto simp: is_current_restart)
  qed
qed simp_all

section \<open>Pruning\<close>

lemma prune_above_exact:
  "prune_above env w app want ss = (w', None) \<Longrightarrow>
     view w' = (\<lambda>x. if \<exists>s \<in> set ss. sl_name s = x \<and> (\<exists>n. Ordinal (sl_identity s) = Some n \<and> want \<le> n) then None else view w x)"
proof (induction ss arbitrary: w)
  case (Cons s ss)
  show ?case
  proof (cases "\<exists>n. Ordinal (sl_identity s) = Some n \<and> want \<le> n")
    case False
    then have "prune_above env w app want ss = (w', None)"
      using Cons.prems by (auto split: option.splits if_splits)
    from Cons.IH [OF this] show ?thesis using False by (auto simp: fun_eq_iff)
  next
    case True
    obtain w1 e1 where r: "cm_remove cm (e_probe_stop env w app (sl_name s)) (sl_name s) = (w1, e1)" by fastforce
    have e: "e1 = None" and rest: "prune_above env w1 app want ss = (w', None)"
      using Cons.prems True r by (auto split: option.splits)
    have "view w1 = (view w)(sl_name s := None)" using remove_ok [OF r [unfolded e]] by simp
    with Cons.IH [OF rest] True show ?thesis by (auto simp: fun_eq_iff)
  qed
qed simp

lemma prune_above_frame:
  "prune_above env w app want ss = (w', e) \<Longrightarrow>
     same_outside {sl_name s | s. s \<in> set ss \<and> (\<exists>n. Ordinal (sl_identity s) = Some n \<and> want \<le> n)} (view w) (view w')"
proof (induction ss arbitrary: w)
  case (Cons s ss)
  show ?case
  proof (cases "\<exists>n. Ordinal (sl_identity s) = Some n \<and> want \<le> n")
    case False
    then have "prune_above env w app want ss = (w', e)"
      using Cons.prems by (auto split: option.splits if_splits)
    from Cons.IH [OF this] show ?thesis by (rule same_outside_mono) auto
  next
    case True
    obtain w1 e1 where r: "cm_remove cm (e_probe_stop env w app (sl_name s)) (sl_name s) = (w1, e1)" by fastforce
    have f: "same_outside {sl_name s} (view w) (view w1)" using remove_frame [OF r] by (simp add: same_outside_def)
    show ?thesis
    proof (cases e1)
      case None
      then have "prune_above env w1 app want ss = (w', e)" using Cons.prems True r by (auto split: option.splits)
      from same_outside_trans [OF f Cons.IH [OF this]] show ?thesis by (rule same_outside_mono) (use True in auto)
    next
      case (Some x)
      then have w: "w' = w1" using Cons.prems True r by (auto split: option.splits)
      show ?thesis unfolding w by (rule same_outside_mono [OF f]) (use True in auto)
    qed
  qed
qed simp

section \<open>Bringing ordinals up\<close>

lemma spawn_missing_frame:
  "spawn_missing h sw scope nm app present ns spec hash rel ee fz = (sw', e) \<Longrightarrow>
     same_outside (\<Union>n \<in> {n \<in> set ns. n \<notin> set present \<and> OrdinalReplicaID n \<notin> fz}. ordinal_names scope nm spec n)
       (view (snd sw)) (view (snd sw'))"
proof (induction ns arbitrary: sw)
  case (Cons n ns)
  show ?case
  proof (cases "n \<in> set present \<or> OrdinalReplicaID n \<in> fz")
    case True
    then have "spawn_missing h sw scope nm app present ns spec hash rel ee fz = (sw', e)" using Cons.prems by simp
    from Cons.IH [OF this] show ?thesis by (rule same_outside_mono) auto
  next
    case False
    obtain sw1 e1 where r: "spawn_ordinal h False (sts_labels h (snd sw) scope nm n hash rel) sw scope nm app spec hash ee n = (sw1, e1)"
      by fastforce
    note f = spawn_frame [OF r]
    show ?thesis
    proof (cases e1)
      case None
      then have "spawn_missing h sw1 scope nm app present ns spec hash rel ee fz = (sw', e)" using Cons.prems False r by simp
      from same_outside_trans [OF f Cons.IH [OF this]] show ?thesis by (rule same_outside_mono) (use False in auto)
    next
      case (Some x)
      then have "sw' = sw1" using Cons.prems False r by simp
      then show ?thesis using f False by (auto elim: same_outside_mono)
    qed
  qed
qed simp

lemma spawn_missing_pods:
  assumes "spawn_missing h sw scope nm app present ns spec hash rel ee fz = (sw', None)"
    and "distinct ns" and "\<forall>n \<in> set ns. 0 \<le> n \<and> n < 2 ^ 63"
    and "n \<in> set ns" and "n \<notin> set present" and "OrdinalReplicaID n \<notin> fz"
    and "\<forall>c. view (snd sw) (pod_name scope nm n) = Some c \<longrightarrow> is_current scope nm (ss_image spec) hash n c"
  shows "\<exists>c. view (snd sw') (pod_name scope nm n) = Some c \<and> is_current scope nm (ss_image spec) hash n c"
  using assms
proof (induction ns arbitrary: sw)
  case (Cons m ns)
  show ?case
  proof (cases "m \<in> set present \<or> OrdinalReplicaID m \<in> fz")
    case True
    then have "m \<noteq> n" using Cons.prems(5,6) by auto
    then show ?thesis using True Cons by simp
  next
    case False
    obtain sw1 e1 where r: "spawn_ordinal h False (sts_labels h (snd sw) scope nm m hash rel) sw scope nm app spec hash ee m = (sw1, e1)"
      by fastforce
    have e1: "e1 = None" and rest: "spawn_missing h sw1 scope nm app present ns spec hash rel ee fz = (sw', None)"
      using Cons.prems(1) False r by (cases e1, simp_all)+
    show ?thesis
    proof (cases "m = n")
      case True
      obtain c where c: "view (snd sw1) (pod_name scope nm n) = Some c" "is_current scope nm (ss_image spec) hash n c"
        using spawn_pod [OF r [unfolded e1 True]] Cons.prems(3,7) True by auto
      have "view (snd sw') (pod_name scope nm n) = view (snd sw1) (pod_name scope nm n)"
      proof (rule same_outside_at [OF spawn_missing_frame [OF rest]])
        show "pod_name scope nm n \<notin> (\<Union>k \<in> {k \<in> set ns. k \<notin> set present \<and> OrdinalReplicaID k \<notin> fz}. ordinal_names scope nm spec k)"
          using pod_outside [of n] Cons.prems(2,3) True by fastforce
      qed
      then show ?thesis using c by simp
    next
      case False
      have "view (snd sw1) (pod_name scope nm n) = view (snd sw) (pod_name scope nm n)"
        using same_outside_at [OF spawn_frame [OF r] pod_outside [of n m]] Cons.prems(3,4) False by auto
      then show ?thesis using Cons.IH [OF rest] Cons.prems False by simp
    qed
  qed
qed simp

section \<open>Replacing from above\<close>

lemma drain_sts_view: "sts_drainReplica env w spec r = (w', e) \<Longrightarrow> view w' = view w"
  by (cases "ss_plugin_blocks spec = []") (auto simp: sts_drainReplica_def intro: drain_view [THEN subst, of _ w r "drainBudgetOf (ss_drain spec)"])

lemma replace_ordinal_frame:
  assumes "replace_ordinal h sw scope nm app s n spec hash rel ee = (sw', e)"
  shows "same_outside (insert (sl_name s) (ordinal_names scope nm spec n)) (view (snd sw)) (view (snd sw'))"
proof -
  obtain w1 e1 where d: "sts_drainReplica env (e_probe_stop env (snd sw) app (sl_name s)) spec (id_replica (sl_identity s)) = (w1, e1)"
    by fastforce
  have v1: "view w1 = view (snd sw)" using drain_sts_view [OF d] by simp
  show ?thesis
  proof (cases e1)
    case (Some x)
    then show ?thesis using assms d v1 by (auto simp: replace_ordinal_def Let_def handler_env)
  next
    case None
    obtain w2 e2 where g: "cm_remove_grace cm w1 (sl_name s) (graceOf (ss_drain spec)) = (w2, e2)" by fastforce
    have f2: "same_outside {sl_name s} (view (snd sw)) (view w2)"
      using remove_grace_frame [OF g] v1 by (simp add: same_outside_def)
    show ?thesis
    proof (cases e2)
      case (Some x)
      then have "snd sw' = w2" using assms d None g by (auto simp: replace_ordinal_def Let_def handler_env)
      then show ?thesis using same_outside_mono [OF f2] by simp
    next
      case e2: None
      then have "spawn_ordinal h True (sts_labels h (snd sw) scope nm n hash rel) (fst sw, w2) scope nm app spec hash ee n = (sw', e)"
        using assms d None g by (simp add: replace_ordinal_def Let_def handler_env)
      from same_outside_trans [OF f2] spawn_frame [OF this] show ?thesis by fastforce
    qed
  qed
qed

text \<open>After a replacement that succeeds the pod of its ordinal is current, if it was, or if it was the one replaced.\<close>

lemma replace_ordinal_pod:
  assumes "replace_ordinal h sw scope nm app s n spec hash rel ee = (sw', None)" and "0 \<le> n" and "n < 2 ^ 63"
    and "sl_name s = pod_name scope nm n \<or>
      (\<exists>c. view (snd sw) (pod_name scope nm n) = Some c \<and> is_current scope nm (ss_image spec) hash n c)"
  shows "\<exists>c. view (snd sw') (pod_name scope nm n) = Some c \<and> is_current scope nm (ss_image spec) hash n c"
proof -
  obtain w1 e1 where d: "sts_drainReplica env (e_probe_stop env (snd sw) app (sl_name s)) spec (id_replica (sl_identity s)) = (w1, e1)"
    by fastforce
  have v1: "view w1 = view (snd sw)" using drain_sts_view [OF d] by simp
  have e1: "e1 = None" using assms(1) d by (cases e1) (auto simp: replace_ordinal_def Let_def handler_env)
  obtain w2 e2 where g: "cm_remove_grace cm w1 (sl_name s) (graceOf (ss_drain spec)) = (w2, e2)" by fastforce
  have e2: "e2 = None" using assms(1) d e1 g by (cases e2) (auto simp: replace_ordinal_def Let_def handler_env)
  have sp: "spawn_ordinal h True (sts_labels h (snd sw) scope nm n hash rel) (fst sw, w2) scope nm app spec hash ee n = (sw', None)"
    using assms(1) d e1 g e2 by (simp add: replace_ordinal_def Let_def handler_env)
  have "view w2 = (view (snd sw))(sl_name s := None)" using remove_grace_ok [OF g [unfolded e2]] v1 by simp
  then show ?thesis using spawn_pod [OF sp assms(2,3)] assms(4) by auto
qed

lemma settled_step:
  assumes "replace_ordinal h sw scope nm app s n spec hash rel ee = (sw1, None)"
    and "Ordinal (sl_identity s) = Some n" and "sl_name s \<notin> sl_name ` set ss" and "0 \<le> k"
    and "settled (view (snd sw)) scope nm spec hash (s # ss) k"
  shows "settled (view (snd sw1)) scope nm spec hash ss k"
proof -
  note b = Ordinal_bounds [OF assms(2)]
  show ?thesis
  proof (cases "k = n")
    case True
    show ?thesis
    proof (cases "\<exists>t \<in> set ss. Ordinal (sl_identity t) = Some k \<and> sl_name t = pod_name scope nm k")
      case False
      then have "pod_current (view (snd sw1)) scope nm spec hash n"
        using replace_ordinal_pod [OF assms(1)] b assms(5) True by (auto simp: settled_def pod_current_def)
      then show ?thesis using True assms(3,5) False by (auto simp: settled_def)
    qed (simp add: settled_def)
  next
    case False
    then have "view (snd sw1) (pod_name scope nm k) = view (snd sw) (pod_name scope nm k)" if "sl_name s \<noteq> pod_name scope nm k"
      using same_outside_at [OF replace_ordinal_frame [OF assms(1)]] pod_outside [of k n] b assms(4) that by auto
    then show ?thesis using assms(2,5) False by (auto simp: settled_def pod_current_def)
  qed
qed

lemma settled_skip:
  assumes "Ordinal (sl_identity s) \<noteq> Some k" and "settled v scope nm spec hash (s # ss) k"
  shows "settled v scope nm spec hash ss k"
  using assms by (auto simp: settled_def)

lemma replace_down_all:
  "replace_down h sw scope nm app ss spec hash rel ee fz = (sw', None) \<Longrightarrow> distinct (map sl_name ss) \<Longrightarrow>
     0 \<le> k \<Longrightarrow> OrdinalReplicaID k \<notin> fz \<Longrightarrow> settled (view (snd sw)) scope nm spec hash ss k \<Longrightarrow>
     pod_current (view (snd sw')) scope nm spec hash k"
proof (induction ss arbitrary: sw)
  case (Cons s ss)
  show ?case
  proof (cases "\<exists>n. Ordinal (sl_identity s) = Some n \<and> OrdinalReplicaID n \<notin> fz")
    case False
    then have "replace_down h sw scope nm app ss spec hash rel ee fz = (sw', None)"
      using Cons.prems(1) by (auto split: option.splits if_splits)
    moreover have "Ordinal (sl_identity s) \<noteq> Some k" using False Cons.prems(4) by auto
    ultimately show ?thesis using Cons.IH settled_skip Cons.prems by simp
  next
    case True
    then obtain n where n: "Ordinal (sl_identity s) = Some n" "OrdinalReplicaID n \<notin> fz" by blast
    obtain sw1 e1 where r: "replace_ordinal h sw scope nm app s n spec hash rel ee = (sw1, e1)" by fastforce
    have e1: "e1 = None" and rest: "replace_down h sw1 scope nm app ss spec hash rel ee fz = (sw', None)"
      using Cons.prems(1) n r by (cases e1, simp_all)+
    have "settled (view (snd sw1)) scope nm spec hash ss k"
      using settled_step [OF r [unfolded e1] n(1)] Cons.prems by simp
    then show ?thesis using Cons.IH [OF rest] Cons.prems by simp
  qed
qed (simp add: settled_def)

lemma replace_down_fails:
  "replace_down h sw scope nm app ss spec hash rel ee fz = (sw', Some e) \<Longrightarrow> distinct (map sl_name ss) \<Longrightarrow>
     sorted_wrt (\<lambda>a b. \<not> ordinal_before b a) ss \<Longrightarrow>
     \<exists>s f. s \<in> set ss \<and> Ordinal (sl_identity s) = Some f \<and> OrdinalReplicaID f \<notin> fz \<and>
       (\<forall>k. 0 \<le> k \<longrightarrow> k < f \<longrightarrow> (\<forall>t \<in> set ss. sl_name t = pod_name scope nm k \<longrightarrow> Ordinal (sl_identity t) = Some k) \<longrightarrow>
          view (snd sw') (pod_name scope nm k) = view (snd sw) (pod_name scope nm k)) \<and>
       (\<forall>k. f < k \<longrightarrow> OrdinalReplicaID k \<notin> fz \<longrightarrow> settled (view (snd sw)) scope nm spec hash ss k \<longrightarrow>
          pod_current (view (snd sw')) scope nm spec hash k)"
proof (induction ss arbitrary: sw)
  case (Cons s ss)
  show ?case
  proof (cases "\<exists>n. Ordinal (sl_identity s) = Some n \<and> OrdinalReplicaID n \<notin> fz")
    case False
    then have r: "replace_down h sw scope nm app ss spec hash rel ee fz = (sw', Some e)"
      using Cons.prems(1) by (auto split: option.splits if_splits)
    have sk: "OrdinalReplicaID k \<notin> fz \<Longrightarrow> settled (view (snd sw)) scope nm spec hash (s # ss) k \<Longrightarrow>
        settled (view (snd sw)) scope nm spec hash ss k" for k
      using settled_skip False by blast
    from Cons.IH [OF r] Cons.prems(2,3) obtain u f where u: "u \<in> set ss" "Ordinal (sl_identity u) = Some f" "OrdinalReplicaID f \<notin> fz"
      "\<forall>k. 0 \<le> k \<longrightarrow> k < f \<longrightarrow> (\<forall>t \<in> set ss. sl_name t = pod_name scope nm k \<longrightarrow> Ordinal (sl_identity t) = Some k) \<longrightarrow>
          view (snd sw') (pod_name scope nm k) = view (snd sw) (pod_name scope nm k)"
      "\<forall>k. f < k \<longrightarrow> OrdinalReplicaID k \<notin> fz \<longrightarrow> settled (view (snd sw)) scope nm spec hash ss k \<longrightarrow>
          pod_current (view (snd sw')) scope nm spec hash k"
      by auto
    then show ?thesis using sk by (intro exI [of _ u] exI [of _ f]) auto
  next
    case True
    then obtain n where n: "Ordinal (sl_identity s) = Some n" "OrdinalReplicaID n \<notin> fz" by blast
    note b = Ordinal_bounds [OF n(1)]
    obtain sw1 e1 where r: "replace_ordinal h sw scope nm app s n spec hash rel ee = (sw1, e1)" by fastforce
    have step: "view (snd sw1) (pod_name scope nm k) = view (snd sw) (pod_name scope nm k)"
      if "0 \<le> k" "k < n" "sl_name s = pod_name scope nm k \<longrightarrow> Ordinal (sl_identity s) = Some k" for k
      using same_outside_at [OF replace_ordinal_frame [OF r]] pod_outside [of k n] b that n(1) by auto
    have low: "m \<le> n" if "t \<in> set ss" "Ordinal (sl_identity t) = Some m" for t m
      using Cons.prems(3) that n(1) by (auto simp: ordinal_before_def)
    show ?thesis
    proof (cases e1)
      case (Some x)
      have sw: "sw' = sw1" using Cons.prems(1) n r Some by simp
      have "\<not> settled (view (snd sw)) scope nm spec hash (s # ss) k \<or> pod_current (view (snd sw')) scope nm spec hash k" if "n < k" for k
      proof -
        have "view (snd sw1) (pod_name scope nm k) = view (snd sw) (pod_name scope nm k)" if "sl_name s \<noteq> pod_name scope nm k"
          using same_outside_at [OF replace_ordinal_frame [OF r]] pod_outside [of k n] b \<open>n < k\<close> that by auto
        then show ?thesis using low n(1) that sw by (fastforce simp: settled_def pod_current_def)
      qed
      then show ?thesis using step n sw by (intro exI [of _ s] exI [of _ n]) auto
    next
      case None
      have rest: "replace_down h sw1 scope nm app ss spec hash rel ee fz = (sw', Some e)"
        using Cons.prems(1) n r None by simp
      have st: "0 \<le> k \<Longrightarrow> settled (view (snd sw)) scope nm spec hash (s # ss) k \<Longrightarrow> settled (view (snd sw1)) scope nm spec hash ss k" for k
        using settled_step [OF r [unfolded None] n(1)] Cons.prems(2) by simp
      from Cons.IH [OF rest] Cons.prems(2,3) obtain u f where u: "u \<in> set ss" "Ordinal (sl_identity u) = Some f" "OrdinalReplicaID f \<notin> fz"
        "\<forall>k. 0 \<le> k \<longrightarrow> k < f \<longrightarrow> (\<forall>t \<in> set ss. sl_name t = pod_name scope nm k \<longrightarrow> Ordinal (sl_identity t) = Some k) \<longrightarrow>
            view (snd sw') (pod_name scope nm k) = view (snd sw1) (pod_name scope nm k)"
        "\<forall>k. f < k \<longrightarrow> OrdinalReplicaID k \<notin> fz \<longrightarrow> settled (view (snd sw1)) scope nm spec hash ss k \<longrightarrow>
            pod_current (view (snd sw')) scope nm spec hash k"
        by auto
      have "f \<le> n" "0 \<le> f" using low u Ordinal_bounds [OF u(2)] by auto
      then show ?thesis using u st step by (intro exI [of _ u] exI [of _ f]) auto
    qed
  qed
qed simp

section \<open>An apply that rolls\<close>

lemma ordinals_of_iff: "n \<in> set (ordinals_of ss) \<longleftrightarrow> (\<exists>s \<in> set ss. Ordinal (sl_identity s) = Some n)"
proof (induction ss)
  case (Cons s ss)
  then show ?case by (cases "Ordinal (sl_identity s)") (auto simp: ordinals_of_def List.map_filter_def)
qed (simp add: ordinals_of_def List.map_filter_def)

lemma ordinals_missing:
  assumes "ensureOrdinalsUp h sw scope nm app live want spec hash rel fz = (sw', e)"
  shows "sw' = sw \<or> (\<exists>ee. spawn_missing h sw scope nm app (ordinals_of live) (map int [0..<nat want]) spec hash rel ee fz = (sw', e))"
    and "e = None \<Longrightarrow> \<exists>ee. spawn_missing h sw scope nm app (ordinals_of live) (map int [0..<nat want]) spec hash rel ee fz = (sw', e)"
  using assms by (auto simp: ensureOrdinalsUp_def split: if_splits sum.splits)

lemma missing_range: "n \<in> set (map int [0..<nat want]) \<longleftrightarrow> 0 \<le> n \<and> n < want"
proof
  assume "0 \<le> n \<and> n < want"
  then have "n = int (nat n)" "nat n \<in> set [0..<nat want]" by auto
  then show "n \<in> set (map int [0..<nat want])" by (metis image_eqI set_map)
qed auto

lemma missing_distinct: "distinct (map int [0..<nat want])"
  by (simp add: distinct_map)

text \<open>Without init containers the store changes under the keys of the addresses only.\<close>

lemma spawn_kview:
  assumes "spawn_ordinal h rs ls sw scope nm app spec hash ee n = (sw', e)" and "ss_inits spec = []" and "\<not> podip_key k"
  shows "kview (fst sw') k = kview (fst sw) k"
proof -
  have ni: "sts_inits h sw1 scope nm app spec hash ee ms n = (sw1, None)" for sw1 ms
    using assms(2) by (simp add: sts_inits_def Let_def)
  have ip: "podIP h (s2, w2) scope nm spec n = (s3, r) \<Longrightarrow> kview s3 k = kview s2 k" for s2 w2 s3 r
    using addressFor_outside [OF _ assms(3)]
    by (auto simp: podIP_def handler_env split: list.splits if_splits option.splits)
  from assms(1) show ?thesis
    by (cases rule: spawn_ordinal_cases) (auto simp: ni dest: ip)
qed

lemma spawn_missing_kview:
  "spawn_missing h sw scope nm app present ns spec hash rel ee fz = (sw', e) \<Longrightarrow> ss_inits spec = [] \<Longrightarrow> \<not> podip_key k \<Longrightarrow>
     kview (fst sw') k = kview (fst sw) k"
proof (induction ns arbitrary: sw)
  case (Cons n ns)
  show ?case
  proof (cases "n \<in> set present \<or> OrdinalReplicaID n \<in> fz")
    case True
    then show ?thesis using Cons by simp
  next
    case False
    obtain sw1 e1 where r: "spawn_ordinal h False (sts_labels h (snd sw) scope nm n hash rel) sw scope nm app spec hash ee n = (sw1, e1)"
      by fastforce
    show ?thesis using Cons.prems False r Cons.IH [of sw1] spawn_kview [OF r Cons.prems(2,3)] by (cases e1) auto
  qed
qed simp

end

definition pod_listed :: "containers \<Rightarrow> string \<Rightarrow> string \<Rightarrow> int \<Rightarrow> bool" where
  "pod_listed v scope nm k \<longleftrightarrow>
     (\<exists>c i. v (pod_name scope nm k) = Some c \<and> ctr_identity c = Some i \<and> Matches i ''statefulset'' scope nm \<and> Ordinal i = Some k)"

lemma pod_current_listed: "pod_current v scope nm spec hash k \<Longrightarrow> pod_listed v scope nm k"
  by (auto simp: pod_current_def is_current_def pod_listed_def)

text \<open>The names of a statefulset are in order: what carries an ordinal is its pod, and only that.\<close>

definition pods_named :: "string \<Rightarrow> string \<Rightarrow> slot list \<Rightarrow> bool" where
  "pods_named scope nm ss = (\<forall>s \<in> set ss. case Ordinal (sl_identity s) of None \<Rightarrow> True | Some n \<Rightarrow> sl_name s = pod_name scope nm n)"

lemma pods_namedD: "pods_named scope nm ss \<Longrightarrow> s \<in> set ss \<Longrightarrow> Ordinal (sl_identity s) = Some n \<Longrightarrow> sl_name s = pod_name scope nm n"
  by (auto simp: pods_named_def split: option.splits)

context ordinal_host
begin

lemma rolling_settles:
  assumes "rollingReplaceTopDown h sw scope nm app spec hash rel fz = (sw', None)" and "nm \<noteq> []"
    and "0 \<le> k" and "OrdinalReplicaID k \<notin> fz"
    and "pod_listed (view (snd sw)) scope nm k"
  shows "pod_current (view (snd sw')) scope nm spec hash k"
proof -
  obtain live where l: "cm_list cm (snd sw) ''statefulset'' scope nm = Inr live"
    using assms(1) by (auto simp: rollingReplaceTopDown_def handler_env split: sum.splits)
  obtain ee where r: "replace_down h sw scope nm app (sortSlotsByOrdinalDesc live) spec hash rel ee fz = (sw', None)"
    using assms(1) l by (auto simp: rollingReplaceTopDown_def handler_env split: sum.splits)
  from assms(5) [unfolded pod_listed_def] obtain c i where c: "view (snd sw) (pod_name scope nm k) = Some c" "ctr_identity c = Some i"
    "Matches i ''statefulset'' scope nm" "Ordinal i = Some k" by blast
  let ?s = "\<lparr>sl_name = pod_name scope nm k, sl_identity = i, sl_image = k_image (ct_spec c), sl_running = ct_running c\<rparr>"
  have "?s \<in> set live" using list_slots [OF l] assms(2) c by (simp add: is_slot_def)
  then have "settled (view (snd sw)) scope nm spec hash (sortSlotsByOrdinalDesc live) k"
    using c(4) by (auto simp: settled_def intro!: bexI [of _ ?s])
  then show ?thesis using replace_down_all [OF r] list_names [OF l] assms(3,4) by simp
qed

lemma slot_listed:
  assumes "cm_list cm w ''statefulset'' scope nm = Inr ss" and "nm \<noteq> []" and "s \<in> set ss"
    and "Ordinal (sl_identity s) = Some k" and "sl_name s = pod_name scope nm k"
  shows "pod_listed (view w) scope nm k"
  using list_slots [OF assms(1)] assms(2-5) by (auto simp: is_slot_def pod_listed_def split: option.splits)

text \<open>After the scale-up every ordinal below the target has its pod, old or current.\<close>

lemma ordinals_up:
  assumes "ensureOrdinalsUp h sw scope nm app live want spec hash rel fz = (sw', None)" and "want < 2 ^ 63"
    and "0 \<le> k" and "k < want"
  shows "k \<in> set (ordinals_of live) \<or> OrdinalReplicaID k \<in> fz \<Longrightarrow> view (snd sw') (pod_name scope nm k) = view (snd sw) (pod_name scope nm k)"
    and "k \<notin> set (ordinals_of live) \<Longrightarrow> OrdinalReplicaID k \<notin> fz \<Longrightarrow> view (snd sw) (pod_name scope nm k) = None \<Longrightarrow>
      pod_current (view (snd sw')) scope nm spec hash k"
proof -
  obtain ee where r: "spawn_missing h sw scope nm app (ordinals_of live) (map int [0..<nat want]) spec hash rel ee fz = (sw', None)"
    using ordinals_missing(2) [OF assms(1)] by blast
  show "view (snd sw') (pod_name scope nm k) = view (snd sw) (pod_name scope nm k)"
    if "k \<in> set (ordinals_of live) \<or> OrdinalReplicaID k \<in> fz"
  proof (rule same_outside_at [OF spawn_missing_frame [OF r]])
    show "pod_name scope nm k \<notin> (\<Union>n \<in> {n \<in> set (map int [0..<nat want]). n \<notin> set (ordinals_of live) \<and> OrdinalReplicaID n \<notin> fz}.
        ordinal_names scope nm spec n)"
    proof (rule notI, elim UN_E)
      fix n assume n: "n \<in> {n \<in> set (map int [0..<nat want]). n \<notin> set (ordinals_of live) \<and> OrdinalReplicaID n \<notin> fz}"
        and m: "pod_name scope nm k \<in> ordinal_names scope nm spec n"
      from n that have "0 \<le> n" "k \<noteq> n" using missing_range [of n want] by auto
      then show False using pod_outside [OF assms(3)] m by blast
    qed
  qed
  show "pod_current (view (snd sw')) scope nm spec hash k"
    if "k \<notin> set (ordinals_of live)" "OrdinalReplicaID k \<notin> fz" "view (snd sw) (pod_name scope nm k) = None"
    unfolding pod_current_def
    by (rule spawn_missing_pods [OF r missing_distinct])
      (use assms(2-4) that missing_range [of _ want] in auto)
qed

lemma prune_keeps_low:
  assumes "pod_listed (view w) scope nm k" and "k < want" and "nm \<noteq> []"
  shows "pod_listed (view (fst (pruneOrdinalsAbove env w scope nm app want))) scope nm k"
proof (cases "cm_list cm w ''statefulset'' scope nm")
  case (Inr live)
  obtain w' e where r: "prune_above env w app want (sortSlotsByOrdinalDesc live) = (w', e)" by fastforce
  have p: "pruneOrdinalsAbove env w scope nm app want = (w', e)" using Inr r by (simp add: pruneOrdinalsAbove_def)
  from assms(1) [unfolded pod_listed_def] obtain c i where c: "view w (pod_name scope nm k) = Some c" "ctr_identity c = Some i"
    "Matches i ''statefulset'' scope nm" "Ordinal i = Some k" by blast
  have "view w' (pod_name scope nm k) = view w (pod_name scope nm k)"
  proof (rule same_outside_at [OF prune_above_frame [OF r]])
    show "pod_name scope nm k \<notin> {sl_name s | s. s \<in> set (sortSlotsByOrdinalDesc live) \<and> (\<exists>n. Ordinal (sl_identity s) = Some n \<and> want \<le> n)}"
      using list_slots [OF Inr] assms(2,3) c by (auto simp: is_slot_def split: option.splits)
  qed
  then show ?thesis using p c by (simp add: pod_listed_def)
qed (use assms(1) in \<open>simp add: pruneOrdinalsAbove_def\<close>)

lemma finish_keeps_pods:
  "view (snd (fst (sts_finish h sw scope nm app spec hash rel False fz raw))) = view (snd sw)"
  by (simp add: sts_finish_def Let_def handler_env publishEndpoints_def split: sum.splits prod.splits) (metis fst_conv publish_view)

lemma recreate_rolls:
  assumes "recreateOrdinalsIfSpecChanged h sw scope nm app spec hash rel fz = (sw', Inr b)"
    and "kview (fst sw) (StatusKey ''statefulset'' app) = Some (DStatus prev)"
    and "ds_spec_hash prev \<noteq> []" and "ds_spec_hash prev \<noteq> hash"
  shows "b \<and> (\<exists>sw1. rollingReplaceTopDown h sw scope nm app spec hash rel fz = (sw1, None) \<and> snd sw' = snd sw1)"
proof -
  have ld: "sts_loadStatus cl (fst sw) app = Inr prev"
  proof (cases "etcd_get cl (fst sw) (StatusKey ''statefulset'' app)")
    case (Inl e)
    then show ?thesis using assms(1) by (simp add: recreateOrdinalsIfSpecChanged_def Let_def handler_env sts_loadStatus_def GetStatus_def)
  next
    case (Inr r)
    then show ?thesis using get_law [OF Inr] assms(2) by (simp add: sts_loadStatus_def GetStatus_def)
  qed
  obtain sw1 e1 where r: "rollingReplaceTopDown h sw scope nm app spec hash rel fz = (sw1, e1)" by fastforce
  show ?thesis using assms(1,3,4) ld r
    by (cases e1) (auto simp: recreateOrdinalsIfSpecChanged_def Let_def handler_env split: sum.splits)
qed

lemma apply_rolls:
  assumes run: "apply_sts_spec h sw scope nm app spec hash envChanged raw = (sw', None)"
    and "nm \<noteq> []" and ni: "ss_inits spec = []"
    and l: "cm_list cm (snd sw) ''statefulset'' scope nm = Inr live" and named: "pods_named scope nm live"
    and st: "kview (fst sw) (StatusKey ''statefulset'' app) = Some (DStatus prev)" "ds_spec_hash prev \<noteq> []" "ds_spec_hash prev \<noteq> hash"
    and w63: "statefulsetReplicas spec < 2 ^ 63" and k: "0 \<le> k" "k < statefulsetReplicas spec"
    and fz: "OrdinalReplicaID k \<notin> frozen_of cl (fst sw) ''statefulset'' scope nm"
    and free: "k \<notin> set (ordinals_of live) \<Longrightarrow> view (snd sw) (pod_name scope nm k) = None"
  shows "pod_current (view (snd sw')) scope nm spec hash k"
proof -
  let ?fz = "frozen_of cl (fst sw) ''statefulset'' scope nm"
  let ?want = "statefulsetReplicas spec"
  let ?pr = "status_or_empty (sts_loadStatus cl (fst sw) app)"
  obtain w1 rel where m: "(if sts_mints_release env (snd sw) ?pr (ss_image spec) hash ?want live
      then e_release_id env (snd sw) else (snd sw, [])) = (w1, rel)" by fastforce
  have v1: "view w1 = view (snd sw)" using m release_id_view [of "snd sw"] by (auto split: if_splits simp del: hook_views)
  obtain sw2 e2 where up: "ensureOrdinalsUp h (fst sw, w1) scope nm app live ?want spec hash rel ?fz = (sw2, e2)" by fastforce
  obtain s2 w2 where sw2: "sw2 = (s2, w2)" by fastforce
  define w3 where "w3 = fst (pruneOrdinalsAbove env w2 scope nm app ?want)"
  obtain sw4 r4 where rc: "recreateOrdinalsIfSpecChanged h (s2, w3) scope nm app spec hash rel ?fz = (sw4, r4)" by fastforce
  note u = run [unfolded apply_sts_spec_def Let_def handler_env env_cm env_cl l sum.case m prod.case up]
  have e2: "e2 = None" using u sw2 by (cases e2) auto
  obtain b where r4: "r4 = Inr b" using u e2 sw2 rc w3_def by (cases r4) auto
  have fin: "snd sw' = snd (fst (sts_finish h sw4 scope nm app spec hash rel (envChanged \<and> \<not> b \<and> ds_spec_hash ?pr \<noteq> []) ?fz raw))"
    using u e2 sw2 rc w3_def r4 by simp
  have k2: "kview s2 (StatusKey ''statefulset'' app) = Some (DStatus prev)"
    using ordinals_missing(2) [OF up [unfolded e2]] spawn_missing_kview ni st(1) sw2 by fastforce
  from recreate_rolls [OF rc [unfolded r4]] k2 st(2,3) obtain sw5
    where b: b and ro: "rollingReplaceTopDown h (s2, w3) scope nm app spec hash rel ?fz = (sw5, None)" "snd sw4 = snd sw5"
    by auto
  have "pod_listed (view w2) scope nm k"
  proof (cases "k \<in> set (ordinals_of live)")
    case True
    then obtain s where s: "s \<in> set live" "Ordinal (sl_identity s) = Some k" by (auto simp: ordinals_of_iff)
    have "pod_listed (view (snd sw)) scope nm k" using slot_listed [OF l assms(2) s pods_namedD [OF named s]] .
    then show ?thesis using ordinals_up(1) [OF up [unfolded e2] w63 k] True v1 sw2 by (simp add: pod_listed_def)
  next
    case False
    then show ?thesis using ordinals_up(2) [OF up [unfolded e2] w63 k False fz] free v1 sw2 pod_current_listed by simp
  qed
  then have "pod_listed (view w3) scope nm k" unfolding w3_def by (rule prune_keeps_low [OF _ k(2) assms(2)])
  then have "pod_current (view (snd sw5)) scope nm spec hash k"
    using rolling_settles [OF ro(1) assms(2) k(1) fz] by simp
  then show ?thesis using fin b ro(2) finish_keeps_pods by simp
qed

lemma rolling_outcome:
  assumes "rollingReplaceTopDown h sw scope nm app spec hash rel fz = (sw', er)"
    and l: "cm_list cm (snd sw) ''statefulset'' scope nm = Inr live" and ee: "resolveEnvFromList env (snd sw) (ss_env_from spec) scope = Inr ee"
    and named: "pods_named scope nm live"
  shows "case er of
      None \<Rightarrow> \<forall>k \<in> set (ordinals_of live). OrdinalReplicaID k \<notin> fz \<longrightarrow> pod_current (view (snd sw')) scope nm spec hash k
    | Some e \<Rightarrow> \<exists>f \<in> set (ordinals_of live). OrdinalReplicaID f \<notin> fz \<and>
        (\<forall>k \<in> set (ordinals_of live).
          (k < f \<longrightarrow> view (snd sw') (pod_name scope nm k) = view (snd sw) (pod_name scope nm k)) \<and>
          (f < k \<longrightarrow> OrdinalReplicaID k \<notin> fz \<longrightarrow> pod_current (view (snd sw')) scope nm spec hash k))"
proof -
  let ?ss = "sortSlotsByOrdinalDesc live"
  have r: "replace_down h sw scope nm app ?ss spec hash rel ee fz = (sw', er)"
    using assms(1) l ee by (simp add: rollingReplaceTopDown_def handler_env)
  have d: "distinct (map sl_name ?ss)" using list_names [OF l] by simp
  have slot: "\<exists>s \<in> set live. Ordinal (sl_identity s) = Some k \<and> sl_name s = pod_name scope nm k" if "k \<in> set (ordinals_of live)" for k
    using that named by (auto simp: ordinals_of_iff dest: pods_namedD)
  have st: "settled (view (snd sw)) scope nm spec hash ?ss k" if "k \<in> set (ordinals_of live)" for k
    using slot [OF that] by (auto simp: settled_def)
  have nn: "0 \<le> k" if "k \<in> set (ordinals_of live)" for k using that by (auto simp: ordinals_of_iff dest: Ordinal_bounds)
  show ?thesis
  proof (cases er)
    case None
    then show ?thesis using replace_down_all [OF r [unfolded None] d nn _ st] by simp
  next
    case (Some e)
    from replace_down_fails [OF r [unfolded Some] d sortDesc_sorted] obtain s f where f: "s \<in> set live" "Ordinal (sl_identity s) = Some f"
      "OrdinalReplicaID f \<notin> fz"
      "\<And>k. 0 \<le> k \<Longrightarrow> k < f \<Longrightarrow> (\<forall>t \<in> set ?ss. sl_name t = pod_name scope nm k \<longrightarrow> Ordinal (sl_identity t) = Some k) \<Longrightarrow>
          view (snd sw') (pod_name scope nm k) = view (snd sw) (pod_name scope nm k)"
      "\<And>k. f < k \<Longrightarrow> OrdinalReplicaID k \<notin> fz \<Longrightarrow> settled (view (snd sw)) scope nm spec hash ?ss k \<Longrightarrow>
          pod_current (view (snd sw')) scope nm spec hash k"
      by (auto simp del: sortDesc_set) (metis sortDesc_set)
    have own: "Ordinal (sl_identity t) = Some k"
      if "k \<in> set (ordinals_of live)" "t \<in> set live" "sl_name t = pod_name scope nm k" for t k
      using slot [OF that(1)] that(2,3) list_names [OF l] by (metis distinct_map inj_onD)
    have fo: "f \<in> set (ordinals_of live)" using f(1,2) by (auto simp: ordinals_of_iff)
    have low: "view (snd sw') (pod_name scope nm k) = view (snd sw) (pod_name scope nm k)"
      if "k \<in> set (ordinals_of live)" "k < f" for k
      using f(4) [OF nn [OF that(1)] that(2)] own [OF that(1)] by simp
    have "(k < f \<longrightarrow> view (snd sw') (pod_name scope nm k) = view (snd sw) (pod_name scope nm k)) \<and>
          (f < k \<longrightarrow> OrdinalReplicaID k \<notin> fz \<longrightarrow> pod_current (view (snd sw')) scope nm spec hash k)"
      if "k \<in> set (ordinals_of live)" for k
      using low [OF that] f(5) [OF _ _ st [OF that]] by blast
    with fo f(3) Some show ?thesis by auto
  qed
qed

end

end
