(* ===== verification/Ordinals.thy ===== *)
theory Ordinals
  imports TopDown
begin

text \<open>
  What the statefulset handler guarantees: no operation but the two that are asked to removes a
  volume; scaling down and up is exact; a rolling restart goes from the highest ordinal down; a pod
  keeps its address and its volumes when it is replaced.
\<close>

section \<open>Volumes\<close>

locale sts_host = ordinal_host cm view cl kview env h + volume_api cm view vols
  for cm :: "'w container_manager" and view :: "'w \<Rightarrow> containers"
    and cl :: "'s etcd" and kview :: "'s \<Rightarrow> kv" and env :: "('s, 'w) henv" and vols :: "'w \<Rightarrow> string set"
    and h :: "('s, 'w) sts_handler" +
  assumes release_id_vols: "vols (fst (e_release_id env w)) = vols w"
    and write_env_vols: "vols (fst (e_write_env env w a ps)) = vols w"
    and probe_start_vols: "vols (e_probe_start env w a n pbs op) = vols w"
    and probe_stop_vols: "vols (e_probe_stop env w a n) = vols w"
    and drain_vols: "vols (fst (e_drain env w r b)) = vols w"
    and publish_vols: "vols (fst (e_publish env w k sc nm j ss)) = vols w"
begin

lemmas hook_vols [simp] = release_id_vols write_env_vols probe_start_vols probe_stop_vols drain_vols publish_vols

lemma op_vols:
  "cm_ensure cm w sp = (w', r) \<Longrightarrow> vols w' = vols w" "cm_recreate cm w sp = (w', r') \<Longrightarrow> vols w' = vols w"
  "cm_remove cm w n = (w', r') \<Longrightarrow> vols w' = vols w" "cm_remove_grace cm w n g = (w', r') \<Longrightarrow> vols w' = vols w"
  "cm_wait cm w n = (w', c, r') \<Longrightarrow> vols w' = vols w" "e_release_id env w = (w', i) \<Longrightarrow> vols w' = vols w"
  "e_write_env env w a ps = (w', x) \<Longrightarrow> vols w' = vols w" "e_drain env w i b = (w', r') \<Longrightarrow> vols w' = vols w"
  using ensure_vols [of w sp] recreate_vols [of w sp] remove_vols [of w n] remove_grace_vols [of w n g] wait_vols [of w n]
    release_id_vols [of w] write_env_vols [of w a ps] drain_vols [of w i b] by simp_all

lemma claims_vols: "ensureClaimsForOrdinal env w scope nm n cs = (w', r) \<Longrightarrow> vols w \<subseteq> vols w'"
proof (induction cs arbitrary: w w' r)
  case (Cons c cs)
  obtain w1 e1 where v: "cm_ensure_volume cm w (volumeName scope nm (vc_name c) n) (volumeLabels scope nm (vc_name c) n) = (w1, e1)"
    by fastforce
  have s1: "vols w \<subseteq> vols w1" using ensure_volume_keeps [of w] v by (metis fst_conv)
  obtain w2 r2 where t: "ensureClaimsForOrdinal env w1 scope nm n cs = (w2, r2)" by fastforce
  have s2: "vols w1 \<subseteq> vols w2" using Cons.IH [OF t] .
  show ?case using Cons.prems v t s1 s2
    by (auto simp: env_cm Let_def split: if_splits option.splits sum.splits)
qed simp

lemma runOne_vols: "runOne env w k scope nm rid ic pa cname = (w', c, e) \<Longrightarrow> vols w' = vols w"
  by (auto simp: runOne_def env_cm dest!: op_vols split: sum.splits prod.splits option.splits if_splits)

lemma run_attempts_vols:
  "run_attempts env j w k scope nm rid ic pa cname x y = (w', c, e) \<Longrightarrow> vols w' = vols w"
proof (induction j arbitrary: w x y)
  case (Suc j)
  obtain w1 c1 e1 where r: "runOne env w k scope nm rid ic pa cname = (w1, c1, e1)" by (metis surj_pair)
  show ?case using Suc.prems r runOne_vols [OF r] Suc.IH by (auto split: option.splits)
qed simp

lemma init_chain_vols: "init_chain env ff (s, w) k scope nm rid ics pa = ((s', w'), e) \<Longrightarrow> vols w' = vols w"
proof (induction ics arbitrary: s w)
  case (Cons ic ics)
  obtain w1 c1 e1 where r: "run_attempts env (nat (1 + in_retries ic)) w k scope nm rid ic pa
      (initContainerName scope nm rid (in_name ic)) 0 None = (w1, c1, e1)" by (metis surj_pair)
  show ?case
  proof (cases e1)
    case None
    then have "init_chain env ff (s, w1) k scope nm rid ics pa = ((s', w'), e)" using Cons.prems r by (simp add: Let_def)
    from Cons.IH [OF this] run_attempts_vols [OF r] show ?thesis by simp
  next
    case (Some x)
    then have "w' = w1" using Cons.prems r by (simp add: Let_def)
    with run_attempts_vols [OF r] show ?thesis by simp
  qed
qed simp

lemma runInitChain_vols:
  assumes "runInitChain env ff ch (s, w) k scope nm rid ics pa = ((s', w'), e)"
  shows "vols w' = vols w"
proof (cases "ics = []")
  case False
  obtain s1 w1 e1 where c: "init_chain env ff (s, w) k scope nm rid ics pa = ((s1, w1), e1)" by (metis surj_pair)
  have "w' = w1" using assms c False by (cases e1) (simp_all add: runInitChain_def)
  with init_chain_vols [OF c] show ?thesis by simp
qed (use assms in \<open>simp add: runInitChain_def\<close>)

lemma inits_vols:
  assumes "sts_inits h sw scope nm app spec hash ee ms n = (sw', e)"
  shows "vols (snd sw') = vols (snd sw)"
proof (cases "ss_inits spec = []")
  case False
  obtain s w s' w' where "sw = (s, w)" "sw' = (s', w')" by fastforce
  with assms False show ?thesis by (simp add: sts_inits_def Let_def handler_env) (rule runInitChain_vols)
qed (use assms in \<open>simp add: sts_inits_def Let_def\<close>)

lemma spawn_vols:
  assumes "spawn_ordinal h rs ls sw scope nm app spec hash ee n = (sw', e)"
  shows "vols (snd sw) \<subseteq> vols (snd sw')"
  using assms
proof (cases rule: spawn_ordinal_cases)
  case (claims w1 x)
  then show ?thesis using claims_vols by (simp add: handler_env)
next
  case (limits w1 ms x)
  then show ?thesis using claims_vols by (simp add: handler_env)
next
  case (inits w1 ms x)
  then show ?thesis using claims_vols [OF inits(1) [unfolded handler_env]] inits_vols [OF inits(2)] by simp
next
  case (address w1 ms s2 w2 s3 x)
  then show ?thesis using claims_vols [OF address(1) [unfolded handler_env]] inits_vols [OF address(2)] by simp
next
  case (create w1 ms l s2 w2 s3 ip w3 x)
  then show ?thesis using claims_vols [OF create(1) [unfolded handler_env]] inits_vols [OF create(2)]
      op_vols(1) [OF create(4) [unfolded handler_env env_cm]] by simp
next
  case (finished w1 ms l s2 w2 s3 ip w3 b)
  then show ?thesis using claims_vols [OF finished(1) [unfolded handler_env]] inits_vols [OF finished(2)]
      op_vols(1) [OF finished(4) [unfolded handler_env env_cm]] by (simp add: handler_env)
qed

lemma spawn_missing_vols:
  "spawn_missing h sw scope nm app present ns spec hash rel ee fz = (sw', e) \<Longrightarrow> vols (snd sw) \<subseteq> vols (snd sw')"
proof (induction ns arbitrary: sw)
  case (Cons n ns)
  obtain sw1 e1 where r: "spawn_ordinal h False (sts_labels h (snd sw) scope nm n hash rel) sw scope nm app spec hash ee n = (sw1, e1)"
    by fastforce
  show ?case
  proof (cases "n \<in> set present \<or> OrdinalReplicaID n \<in> fz")
    case True
    then show ?thesis using Cons by auto
  next
    case False
    then show ?thesis using Cons.prems r spawn_vols [OF r] Cons.IH [of sw1] by (cases e1) auto
  qed
qed simp

lemma ensureOrdinalsUp_vols:
  "ensureOrdinalsUp h sw scope nm app live want spec hash rel fz = (sw', e) \<Longrightarrow> vols (snd sw) \<subseteq> vols (snd sw')"
  by (auto simp: ensureOrdinalsUp_def dest!: spawn_missing_vols split: if_splits sum.splits)

lemma prune_above_vols: "prune_above env w app want ss = (w', e) \<Longrightarrow> vols w' = vols w"
proof (induction ss arbitrary: w)
  case (Cons s ss)
  obtain w1 e1 where r: "cm_remove cm (e_probe_stop env w app (sl_name s)) (sl_name s) = (w1, e1)" by fastforce
  show ?case using Cons.prems r op_vols(3) [OF r] Cons.IH by (auto simp: env_cm split: option.splits if_splits)
qed simp

lemma pruneOrdinalsAbove_vols: "vols (fst (pruneOrdinalsAbove env w scope nm app want)) = vols w"
proof (cases "cm_list (e_cm env) w ''statefulset'' scope nm")
  case (Inr live)
  obtain w1 e where "prune_above env w app want (sortSlotsByOrdinalDesc live) = (w1, e)" by fastforce
  with prune_above_vols [OF this] Inr show ?thesis by (simp add: pruneOrdinalsAbove_def)
qed (simp add: pruneOrdinalsAbove_def)

lemma replace_ordinal_vols:
  assumes "replace_ordinal h sw scope nm app s n spec hash rel ee = (sw', e)"
  shows "vols (snd sw) \<subseteq> vols (snd sw')"
proof -
  obtain w1 e1 where d: "sts_drainReplica env (e_probe_stop env (snd sw) app (sl_name s)) spec (id_replica (sl_identity s)) = (w1, e1)"
    by fastforce
  have v1: "vols w1 = vols (snd sw)"
  proof (cases "ss_plugin_blocks spec = []")
    case False
    then have "e_drain env (e_probe_stop env (snd sw) app (sl_name s)) (id_replica (sl_identity s)) (drainBudgetOf (ss_drain spec)) = (w1, e1)"
      using d by (simp add: sts_drainReplica_def)
    from op_vols(8) [OF this] show ?thesis by simp
  qed (use d in \<open>auto simp: sts_drainReplica_def\<close>)
  obtain w2 e2 where r: "cm_remove_grace cm w1 (sl_name s) (graceOf (ss_drain spec)) = (w2, e2)" by fastforce
  have v2: "vols w2 = vols w1" by (rule op_vols(4) [OF r])
  note u = assms [unfolded replace_ordinal_def Let_def handler_env env_cm d prod.case]
  show ?thesis
  proof (cases e1)
    case (Some x)
    then have "sw' = (fst sw, w1)" using u by simp
    then show ?thesis using v1 by simp
  next
    case e1: None
    show ?thesis
    proof (cases e2)
      case (Some x)
      then have "sw' = (fst sw, w2)" using u e1 r by simp
      then show ?thesis using v1 v2 by simp
    next
      case None
      then have "spawn_ordinal h True (sts_labels h (snd sw) scope nm n hash rel) (fst sw, w2) scope nm app spec hash ee n = (sw', e)"
        using u e1 r by simp
      from spawn_vols [OF this] v1 v2 show ?thesis by simp
    qed
  qed
qed

lemma replace_down_vols:
  "replace_down h sw scope nm app ss spec hash rel ee fz = (sw', e) \<Longrightarrow> vols (snd sw) \<subseteq> vols (snd sw')"
proof (induction ss arbitrary: sw)
  case (Cons s ss)
  show ?case
  proof (cases "\<exists>n. Ordinal (sl_identity s) = Some n \<and> OrdinalReplicaID n \<notin> fz")
    case True
    then obtain n where n: "Ordinal (sl_identity s) = Some n" "OrdinalReplicaID n \<notin> fz" by blast
    obtain sw1 e1 where r: "replace_ordinal h sw scope nm app s n spec hash rel ee = (sw1, e1)" by fastforce
    show ?thesis using Cons.prems n r replace_ordinal_vols [OF r] Cons.IH [of sw1] by (cases e1) auto
  qed (use Cons in \<open>auto split: option.splits\<close>)
qed simp

lemma rolling_vols:
  "rollingReplaceTopDown h sw scope nm app spec hash rel fz = (sw', e) \<Longrightarrow> vols (snd sw) \<subseteq> vols (snd sw')"
  by (auto simp: rollingReplaceTopDown_def dest!: replace_down_vols split: sum.splits)

lemma recreate_world:
  assumes "recreateOrdinalsIfSpecChanged h sw scope nm app spec hash rel fz = (sw', r)"
  shows "snd sw' = snd sw \<or> snd sw' = snd (fst (rollingReplaceTopDown h sw scope nm app spec hash rel fz))"
proof -
  obtain sw1 e1 where r: "rollingReplaceTopDown h sw scope nm app spec hash rel fz = (sw1, e1)" by fastforce
  show ?thesis
  proof (cases e1)
    case None
    then show ?thesis using assms r unfolding recreateOrdinalsIfSpecChanged_def Let_def
      by (fastforce split: sum.split_asm if_split_asm)
  next
    case (Some x)
    then show ?thesis using assms r unfolding recreateOrdinalsIfSpecChanged_def Let_def
      by (fastforce split: sum.split_asm if_split_asm)
  qed
qed

lemma recreate_vols_sts:
  assumes "recreateOrdinalsIfSpecChanged h sw scope nm app spec hash rel fz = (sw', r)"
  shows "vols (snd sw) \<subseteq> vols (snd sw')"
proof -
  obtain sw1 e1 where r: "rollingReplaceTopDown h sw scope nm app spec hash rel fz = (sw1, e1)" by fastforce
  from recreate_world [OF assms] rolling_vols [OF r] r show ?thesis by auto
qed

lemma publish_vols_sts: "vols (fst (publishEndpoints env w k scope nm raw)) = vols w"
  by (simp add: publishEndpoints_def split: sum.splits)

lemma finish_vols:
  assumes "sts_finish h sw scope nm app spec hash rel b fz raw = (sw', e)"
  shows "vols (snd sw) \<subseteq> vols (snd sw')"
proof -
  obtain sw1 e1 where r: "rollingReplaceTopDown h sw scope nm app spec hash [] fz = (sw1, e1)" by fastforce
  define swb where "swb = (if b then sw1 else sw)"
  have v: "vols (snd sw) \<subseteq> vols (snd swb)" using rolling_vols [OF r] by (simp add: swb_def)
  obtain w2 e2 where p: "publishEndpoints env (snd swb) ''statefulset'' scope nm raw = (w2, e2)" by fastforce
  have "snd sw' = w2" using assms r p by (auto simp: sts_finish_def Let_def handler_env swb_def split: if_splits)
  then show ?thesis using v publish_vols_sts [of "snd swb" "''statefulset''" scope nm raw] p by simp
qed

lemma resolveAppEnv_vols: "vols (fst (resolveAppEnv env sw scope nm app vs)) = vols (snd sw)"
proof -
  obtain s w where sw: "sw = (s, w)" by fastforce
  show ?thesis unfolding sw resolveAppEnv_def Let_def
    by (auto dest!: op_vols(7) split: sum.splits prod.splits)
qed

lemma apply_sts_spec_vols:
  assumes "apply_sts_spec h sw scope nm app spec hash b raw = (sw', e)"
  shows "vols (snd sw) \<subseteq> vols (snd sw')"
proof (cases "cm_list cm (snd sw) ''statefulset'' scope nm")
  case (Inl x)
  then show ?thesis using assms by (simp add: apply_sts_spec_def Let_def handler_env env_cm)
next
  case (Inr live)
  define fz where "fz = frozen_of cl (fst sw) ''statefulset'' scope nm"
  define prev where "prev = status_or_empty (sts_loadStatus cl (fst sw) app)"
  define want where "want = statefulsetReplicas spec"
  obtain w1 rel where rel: "(if sts_mints_release env (snd sw) prev (ss_image spec) hash want live
      then e_release_id env (snd sw) else (snd sw, [])) = (w1, rel)" by fastforce
  have v1: "vols w1 = vols (snd sw)" using rel by (auto dest: op_vols(6) split: if_splits)
  obtain s2 w2 e2 where u: "ensureOrdinalsUp h (fst sw, w1) scope nm app live want spec hash rel fz = ((s2, w2), e2)"
    by (metis surj_pair)
  have v2: "vols w1 \<subseteq> vols w2" using ensureOrdinalsUp_vols [OF u] by simp
  note unfolded = assms [unfolded apply_sts_spec_def Let_def handler_env env_cm env_cl Inr, simplified sum.case,
      folded fz_def prev_def want_def, unfolded rel prod.case u]
  show ?thesis
  proof (cases e2)
    case (Some x)
    then show ?thesis using unfolded v1 v2 by auto
  next
    case None
    obtain sw3 r3 where c: "recreateOrdinalsIfSpecChanged h (s2, fst (pruneOrdinalsAbove env w2 scope nm app want))
        scope nm app spec hash rel fz = (sw3, r3)" by fastforce
    have v3: "vols w2 \<subseteq> vols (snd sw3)" using recreate_vols_sts [OF c] pruneOrdinalsAbove_vols by simp
    show ?thesis
    proof (cases r3)
      case (Inl x)
      then show ?thesis using unfolded None c v1 v2 v3 by auto
    next
      case (Inr restarted)
      with unfolded None c have "sts_finish h sw3 scope nm app spec hash rel (b \<and> \<not> restarted \<and> ds_spec_hash prev \<noteq> []) fz raw = (sw', e)"
        by simp
      from finish_vols [OF this] v1 v2 v3 show ?thesis by blast
    qed
  qed
qed

lemma apply_vols:
  assumes "apply_statefulset h sw scope nm m = (sw', e)"
  shows "vols (snd sw) \<subseteq> vols (snd sw')"
proof -
  have v: "vols (snd sw) = vols w1" if "resolveAppEnv env sw scope nm app vs = (w1, r)" for app vs w1 r
    using resolveAppEnv_vols [of sw scope nm app vs] that by simp
  show ?thesis using assms
    by (auto simp: apply_statefulset_def Let_def handler_env dest!: apply_sts_spec_vols v
        split: option.splits sum.splits prod.splits)
qed

lemma remove_pods_vols: "remove_pods env w app ss = (w', e) \<Longrightarrow> vols w' = vols w"
proof (induction ss arbitrary: w)
  case (Cons s ss)
  obtain w1 e1 where r: "cm_remove cm (e_probe_stop env w app (sl_name s)) (sl_name s) = (w1, e1)" by fastforce
  have v: "vols w1 = vols w" using op_vols(3) [OF r] by simp
  show ?case using Cons.prems r v Cons.IH [of w1] by (cases e1) (simp_all add: env_cm)
qed simp

lemma remove_statefulset_vols: "vols (snd (fst (remove_statefulset h sw scope nm))) = vols (snd sw)"
proof (cases "cm_list cm (snd sw) ''statefulset'' scope nm")
  case (Inr slots)
  obtain w1 e1 where r: "remove_pods env (snd sw) (AppID scope nm) (sortSlotsByOrdinalDesc slots) = (w1, e1)" by fastforce
  have "snd (fst (remove_statefulset h sw scope nm)) = w1"
    using Inr r by (simp add: remove_statefulset_def Let_def handler_env env_cm split: option.splits prod.splits sum.splits)
  with remove_pods_vols [OF r] show ?thesis by simp
qed (simp add: remove_statefulset_def Let_def handler_env env_cm)

lemma Restart_vols: "vols (snd sw) \<subseteq> vols (snd (fst (sts_Restart h sw scope nm)))"
proof -
  note u = sts_Restart_def Let_def handler_env env_cm env_cl
  show ?thesis
  proof (cases "Get cl (fst sw) ''statefulset'' scope nm")
    case (Inr got)
    show ?thesis
    proof (cases got)
      case None with Inr show ?thesis by (simp add: u)
    next
      case (Some m)
      show ?thesis
      proof (cases "bind_ok (decodeStatefulsetSpec m) (\<lambda>sp. applyStatefulsetSpecDefaults sp (AppID scope nm))")
        case (Inl e) with Inr Some show ?thesis by (simp add: u)
      next
        case sp: (Inr spec0)
        note v = u Inr Some sp
        show ?thesis
        proof (cases "st_interp h (fst sw) spec0")
          case (Inl e) then show ?thesis by (simp add: v)
        next
          case i: (Inr spec)
          show ?thesis
          proof (cases "cm_list cm (snd sw) ''statefulset'' scope nm")
            case (Inl e) then show ?thesis by (simp add: v i)
          next
            case l: (Inr live)
            obtain w1 r where a: "resolveAppEnv env sw scope nm (AppID scope nm) (ss_env spec) = (w1, r)" by fastforce
            have v1: "vols w1 = vols (snd sw)" using resolveAppEnv_vols [of sw scope nm "AppID scope nm" "ss_env spec"] a by simp
            obtain sw2 er where ro: "rollingReplaceTopDown h (fst sw, w1) scope nm (AppID scope nm) spec
                (sts_hash_of h (fst sw) spec0) [] (frozen_of cl (fst sw) ''statefulset'' scope nm) = (sw2, er)" by fastforce
            have "snd (fst (sts_Restart h sw scope nm)) \<in> {snd sw, w1, snd sw2}"
              using a ro by (cases live; cases r) (simp_all add: v i l)
            then show ?thesis using v1 rolling_vols [OF ro] by auto
          qed
        qed
      qed
    qed
  qed (simp add: u)
qed

lemma restamp_vols: "vols (snd sw) \<subseteq> vols (snd (fst (sts_restamp h sw scope nm app spec hash newID fz)))"
proof -
  obtain sw1 e1 where r: "rollingReplaceTopDown h sw scope nm app spec hash newID fz = (sw1, e1)" by fastforce
  have "snd (fst (sts_restamp h sw scope nm app spec hash newID fz)) \<in> {snd sw, snd sw1}"
    using r by (cases e1) (simp_all add: sts_restamp_def split: sum.split)
  with rolling_vols [OF r] show ?thesis by auto
qed

lemma rolloutRollback_vols: "vols (snd sw) \<subseteq> vols (snd (fst (sts_rolloutRollback h sw scope nm app m target newID)))"
proof (cases "sts_rollback_spec h (fst sw) app m")
  case (Inr spec)
  define fz where "fz = frozen_of cl (fst sw) ''statefulset'' scope nm"
  define hash where "hash = rr_spec_hash target"
  define want where "want = statefulsetReplicas spec"
  obtain w1 e1 where p: "pruneOrdinalsAbove env (snd sw) scope nm app want = (w1, e1)" by fastforce
  have v1: "vols w1 = vols (snd sw)" using pruneOrdinalsAbove_vols [of "snd sw" scope nm app want] p by simp
  note unfolded = sts_rolloutRollback_def Let_def handler_env env_cm env_cl Inr sum.case fz_def [symmetric] want_def [symmetric]
    hash_def [symmetric] p prod.case
  show ?thesis
  proof (cases "e1 \<noteq> None \<or> (\<exists>x. sts_listed h w1 scope nm ''post scale-down'' = Inl x)")
    case True
    then have "snd (fst (sts_rolloutRollback h sw scope nm app m target newID)) = w1"
      unfolding unfolded by (auto split: option.split)
    then show ?thesis using v1 by simp
  next
    case False
    then obtain live where l: "e1 = None" "sts_listed h w1 scope nm ''post scale-down'' = Inr live"
      by (cases "sts_listed h w1 scope nm ''post scale-down''") auto
    obtain sw2 e2 where r: "(if live = [] then ((fst sw, w1), None)
        else rollingReplaceTopDown h (fst sw, w1) scope nm app spec hash newID fz) = (sw2, e2)" by fastforce
    have v2: "vols w1 \<subseteq> vols (snd sw2)" using r rolling_vols [of "(fst sw, w1)"] by (auto split: if_splits)
    show ?thesis
    proof (cases "e2 \<noteq> None \<or> (\<exists>x. sts_listed h (snd sw2) scope nm ''post replace'' = Inl x)")
      case True
      then have "snd (fst (sts_rolloutRollback h sw scope nm app m target newID)) = snd sw2"
        unfolding unfolded l option.case sum.case r prod.case by (auto split: option.split)
      then show ?thesis using v1 v2 by simp
    next
      case False
      then obtain live2 where l2: "e2 = None" "sts_listed h (snd sw2) scope nm ''post replace'' = Inr live2"
        by (cases "sts_listed h (snd sw2) scope nm ''post replace''") auto
      obtain sw3 e3 where u: "(if int (length live2) < want
          then ensureOrdinalsUp h sw2 scope nm app live2 want spec hash newID fz else (sw2, None)) = (sw3, e3)" by fastforce
      have v3: "vols (snd sw2) \<subseteq> vols (snd sw3)" using u ensureOrdinalsUp_vols [of sw2] by (auto split: if_splits)
      have "snd (fst (sts_rolloutRollback h sw scope nm app m target newID)) =
          (if e3 = None then snd (fst (sts_restamp h sw3 scope nm app spec hash newID fz)) else snd sw3)"
        unfolding unfolded l option.case sum.case r prod.case l2 u by (cases e3) simp_all
      then show ?thesis using v1 v2 v3 restamp_vols [of sw3 scope nm app spec hash newID fz] by auto
    qed
  qed
qed (simp add: sts_rolloutRollback_def)

lemma Rollback_steps:
  assumes "sts_Rollback h sw scope nm targetID = (sw', newID, er)"
  shows "snd sw' = snd sw \<or>
    (\<exists>s2 w1 m target. e_release_id env (snd sw) = (w1, newID) \<and>
       sw' = fst (sts_rolloutRollback h (s2, w1) scope nm (AppID scope nm) m target newID))"
proof -
  note u = assms [unfolded sts_Rollback_def Let_def handler_env env_cl]
  show ?thesis
  proof (cases "Get cl (fst sw) ''statefulset'' scope nm")
    case (Inl e) with u show ?thesis by auto
  next
    case got: (Inr got)
    show ?thesis
    proof (cases got)
      case None with u got show ?thesis by auto
    next
      case (Some current)
      show ?thesis
      proof (cases "sts_loadStatus cl (fst sw) (AppID scope nm)")
        case (Inl e) with u got Some show ?thesis by auto
      next
        case l: (Inr prev)
        show ?thesis
        proof (cases "pickRollbackTarget (ds_releases prev) targetID")
          case (Inl e) with u got Some l show ?thesis by auto
        next
          case t: (Inr target)
          show ?thesis
          proof (cases "Put cl (fst sw) (e_clock env (snd sw)) (current\<lparr>m_spec := (case rr_snapshot target of None \<Rightarrow> JNull | Some j \<Rightarrow> j)\<rparr>)")
            case (Inl e) with u got Some l t show ?thesis by auto
          next
            case p: (Inr r)
            obtain s1 m1 where r1: "r = (s1, m1)" by fastforce
            obtain w1 i where d: "e_release_id env (snd sw) = (w1, i)" by fastforce
            define s2 where "s2 = keep_write s1 (sts_appendReleaseRecord cl s1 (AppID scope nm)
               (sts_release i (rr_id target) (rr_spec_hash target) (rr_image target) (rr_snapshot target)))"
            obtain sw3 e3 where r: "sts_rolloutRollback h (s2, w1) scope nm (AppID scope nm) m1 target i = (sw3, e3)" by fastforce
            have "sw' = sw3 \<and> newID = i" using u got Some l t p r1 d r unfolding s2_def by (cases e3) auto
            with d r show ?thesis by (metis fst_conv)
          qed
        qed
      qed
    qed
  qed
qed

lemma Rollback_vols: "vols (snd sw) \<subseteq> vols (snd (fst (sts_Rollback h sw scope nm targetID)))"
proof -
  obtain sw' newID er where r: "sts_Rollback h sw scope nm targetID = (sw', newID, er)" by (metis surj_pair)
  have "vols (snd sw) \<subseteq> vols (snd sw')"
  proof (rule disjE [OF Rollback_steps [OF r]])
    assume "\<exists>s2 w1 m target. e_release_id env (snd sw) = (w1, newID) \<and>
       sw' = fst (sts_rolloutRollback h (s2, w1) scope nm (AppID scope nm) m target newID)"
    then obtain s2 w1 m target where x: "e_release_id env (snd sw) = (w1, newID)"
      "sw' = fst (sts_rolloutRollback h (s2, w1) scope nm (AppID scope nm) m target newID)" by blast
    show ?thesis using op_vols(6) [OF x(1)] x(2) rolloutRollback_vols [of "(s2, w1)" scope nm "AppID scope nm" m target newID] by simp
  qed simp
  then show ?thesis using r by simp
qed

end

section \<open>A concrete statefulset\<close>

text \<open>Ordinals of \<open>d/p\<close> at the hash of an older image, one volume claim each.\<close>

definition pg_spec :: statefulset_spec where
  "pg_spec = \<lparr>ss_image = ''pg:2'', ss_replicas = 2, ss_env = [], ss_ports = [], ss_network = [], ss_shape = empty_shape,
     ss_restart = ''always'', ss_health_check = [], ss_env_from = [], ss_build_args = [],
     ss_claims = [\<lparr>vc_name = ''data'', vc_mount = ''/data'', vc_size = []\<rparr>], ss_resources = None, ss_logs = None,
     ss_inits = [], ss_probes = None, ss_on_probe = None, ss_digests = [], ss_plugin_blocks = [], ss_drain = None\<rparr>"

definition pg_handler :: "(kv_state, dockerd) sts_handler" where
  "pg_handler = \<lparr>st_env = demo_env, st_sha = xi_image, st_interp = (\<lambda>s sp. Inr sp), st_lookup = (\<lambda>s sp. []),
     st_plan = None, st_url = []\<rparr>"

definition pg_pod :: "int \<Rightarrow> string \<times> ctr" where
  "pg_pod n = (pod_name ''d'' ''p'' n,
     \<lparr>ct_spec = sts_container pg_handler (BuildLabels \<lparr>id_kind = ''statefulset'', id_scope = ''d'', id_name = ''p'',
        id_replica = OrdinalReplicaID n, id_hash = ''pg:1'', id_created = [], id_release = [], id_ordinal = n, id_role = []\<rparr>)
        ''d'' ''p'' ''d-p'' (pg_spec\<lparr>ss_image := ''pg:1''\<rparr>) [] [] ([], 0) [] n, ct_running = True\<rparr>)"

definition pg_host :: "int list \<Rightarrow> dockerd" where
  "pg_host ns = \<lparr>dd_ctrs = map pg_pod ns, dd_broken = [], dd_codes = [], dd_fresh = [], dd_tags = [],
     dd_volumes = map (volumeName ''d'' ''p'' ''data'') ns, dd_down = False\<rparr>"

definition pg_status :: kv_state where
  "pg_status = ([(''/status/statefulsets/d-p'', DStatus (empty_status\<lparr>ds_spec_hash := ''pg:1'', ds_replicas := 1\<rparr>))], False)"

definition pg_listing :: "dockerd \<Rightarrow> slot list" where
  "pg_listing d = (case cm_list (docker_manager dockerd_cli) d ''statefulset'' ''d'' ''p'' of Inr ss \<Rightarrow> ss | Inl _ \<Rightarrow> [])"

definition pg_listed :: "dockerd \<Rightarrow> bool" where
  "pg_listed d = (case cm_list (docker_manager dockerd_cli) d ''statefulset'' ''d'' ''p'' of Inr ss \<Rightarrow> True | Inl _ \<Rightarrow> False)"

lemma pg_listing_ok: "pg_listed d \<Longrightarrow>
    cm_list (docker_manager dockerd_cli) d ''statefulset'' ''d'' ''p'' = Inr (pg_listing d)"
  by (simp add: pg_listed_def pg_listing_def split: sum.splits)

interpretation pg: sts_host "docker_manager dockerd_cli" dd_view kv_client kv_view demo_env "\<lambda>d. set (dd_volumes d)" pg_handler
  by unfold_locales (simp_all add: pg_handler_def demo_env_def draw_id_def split: list.splits)

definition pg_applied :: "(kv_state \<times> dockerd) \<times> herror option" where
  "pg_applied = apply_sts_spec pg_handler (pg_status, pg_host [0]) ''d'' ''p'' ''d-p'' pg_spec ''pg:2'' False JNull"

section \<open>Properties\<close>



text \<open>
  C5: An apply whose spec hash differs from the recorded one and that returns without an error has
  brought every ordinal below the target, frozen ones apart, to the new image and hash and started it:
  the ordinals that were missing, and those that ran an older spec. It is stated for specs without init
  containers (their failure record may reset the recorded hash), and for names that are the program's
  own: what carries an ordinal is the pod of that ordinal, and no other container has a pod's name.
\<close>

theorem apply_rolls_every_ordinal:
  assumes "ordinal_host cm view cl kview env h"
    and "apply_sts_spec h sw scope nm app spec hash envChanged raw = (sw', None)"
    and "nm \<noteq> []" and "ss_inits spec = []"
    and "cm_list cm (snd sw) ''statefulset'' scope nm = Inr live" and "pods_named scope nm live"
    and "kview (fst sw) (StatusKey ''statefulset'' app) = Some (DStatus prev)"
    and "ds_spec_hash prev \<noteq> []" and "ds_spec_hash prev \<noteq> hash"
    and "statefulsetReplicas spec < 2 ^ 63" and "0 \<le> k" and "k < statefulsetReplicas spec"
    and "OrdinalReplicaID k \<notin> frozen_of cl (fst sw) ''statefulset'' scope nm"
    and "k \<notin> set (ordinals_of live) \<Longrightarrow> view (snd sw) (pod_name scope nm k) = None"
  shows "pod_current (view (snd sw')) scope nm spec hash k"
  by (rule ordinal_host.apply_rolls [OF assms])

theorem apply_rolls_every_ordinal_witness:
  "pod_current (dd_view (snd (fst pg_applied))) ''d'' ''p'' pg_spec ''pg:2'' 0
    \<and> pod_current (dd_view (snd (fst pg_applied))) ''d'' ''p'' pg_spec ''pg:2'' 1"
proof -
  have e1: "snd pg_applied = None" by code_simp
  have e2: "pg_listed (pg_host [0])" by code_simp
  have e3: "pods_named ''d'' ''p'' (pg_listing (pg_host [0]))" by code_simp
  have e4: "set (ordinals_of (pg_listing (pg_host [0]))) = {0}" by code_simp
  have e5: "dd_view (pg_host [0]) (pod_name ''d'' ''p'' 1) = None" by code_simp
  have e6: "statefulsetReplicas pg_spec = 2" by code_simp
  have e7: "frozen_of kv_client pg_status ''statefulset'' ''d'' ''p'' = {}" by code_simp
  have st: "kv_view pg_status (StatusKey ''statefulset'' ''d-p'') =
      Some (DStatus (empty_status\<lparr>ds_spec_hash := ''pg:1'', ds_replicas := 1\<rparr>))"
    by (simp add: kv_view_def pg_status_def StatusKey_def)
  have ap: "apply_sts_spec pg_handler (pg_status, pg_host [0]) ''d'' ''p'' ''d-p'' pg_spec ''pg:2'' False JNull
      = (fst pg_applied, None)"
    using e1 by (simp add: pg_applied_def prod_eq_iff)
  have h: "ds_spec_hash (empty_status\<lparr>ds_spec_hash := ''pg:1'', ds_replicas := 1\<rparr>) = ''pg:1''" by simp
  have ni: "ss_inits pg_spec = []" by (simp add: pg_spec_def)
  have fz: "OrdinalReplicaID k \<notin> frozen_of kv_client (fst (pg_status, pg_host [0])) ''statefulset'' ''d'' ''p''" for k
    using e7 by simp
  have l: "cm_list (docker_manager dockerd_cli) (snd (pg_status, pg_host [0])) ''statefulset'' ''d'' ''p''
      = Inr (pg_listing (pg_host [0]))" using pg_listing_ok [OF e2] by simp
  have st': "kv_view (fst (pg_status, pg_host [0])) (StatusKey ''statefulset'' ''d-p'') =
      Some (DStatus (empty_status\<lparr>ds_spec_hash := ''pg:1'', ds_replicas := 1\<rparr>))" using st by simp
  note r = apply_rolls_every_ordinal [OF pg.ordinal_host_axioms ap _ ni l e3 st' _ _ _ _ _ fz, unfolded h e4 e6]
  show ?thesis using r [of 0] r [of 1] e5 by simp
qed

text \<open>
  C7: A rolling restart replaces ordinals from the highest down and stops at the first failure. If it
  returns without an error, every ordinal that is not frozen runs the new image and hash. If it fails,
  it fails at an ordinal \<open>f\<close>: all above it, frozen ones apart, have been replaced, and the pods of all
  below it are exactly as they were.
\<close>

theorem rolling_restart_top_down:
  assumes "ordinal_host cm view cl kview env h"
    and "rollingReplaceTopDown h sw scope nm app spec hash rel fz = (sw', er)"
    and "cm_list cm (snd sw) ''statefulset'' scope nm = Inr live"
    and "resolveEnvFromList env (snd sw) (ss_env_from spec) scope = Inr ee"
    and "pods_named scope nm live"
  shows "case er of
      None \<Rightarrow> \<forall>k \<in> set (ordinals_of live). OrdinalReplicaID k \<notin> fz \<longrightarrow> pod_current (view (snd sw')) scope nm spec hash k
    | Some e \<Rightarrow> \<exists>f \<in> set (ordinals_of live). OrdinalReplicaID f \<notin> fz \<and>
        (\<forall>k \<in> set (ordinals_of live).
          (k < f \<longrightarrow> view (snd sw') (pod_name scope nm k) = view (snd sw) (pod_name scope nm k)) \<and>
          (f < k \<longrightarrow> OrdinalReplicaID k \<notin> fz \<longrightarrow> pod_current (view (snd sw')) scope nm spec hash k))"
  by (rule ordinal_host.rolling_outcome [OF assms])

definition pg_stuck :: dockerd where
  "pg_stuck = (pg_host [0, 1])\<lparr>dd_broken := [''pg:2'']\<rparr>"

definition pg_rolled :: "(kv_state \<times> dockerd) \<times> string option" where
  "pg_rolled = rollingReplaceTopDown pg_handler (pg_status, pg_stuck) ''d'' ''p'' ''d-p'' pg_spec ''pg:2'' [] {}"

theorem rolling_restart_top_down_witness:
  "snd pg_rolled \<noteq> None \<and> (\<exists>f \<in> {0, 1}. \<forall>k \<in> {0, 1}. k < f \<longrightarrow>
     dd_view (snd (fst pg_rolled)) (pod_name ''d'' ''p'' k) = dd_view pg_stuck (pod_name ''d'' ''p'' k))"
proof -
  have e1: "case snd pg_rolled of None \<Rightarrow> False | Some e \<Rightarrow> True" by code_simp
  have e2: "pg_listed pg_stuck" by code_simp
  have e3: "pods_named ''d'' ''p'' (pg_listing pg_stuck)" by code_simp
  have e4: "set (ordinals_of (pg_listing pg_stuck)) = {0, 1}" by code_simp
  obtain x where x: "snd pg_rolled = Some x" using e1 by (auto split: option.splits)
  have r: "rollingReplaceTopDown pg_handler (pg_status, pg_stuck) ''d'' ''p'' ''d-p'' pg_spec ''pg:2'' [] {} = (fst pg_rolled, Some x)"
    using x by (simp add: pg_rolled_def prod_eq_iff)
  have ee: "resolveEnvFromList demo_env pg_stuck (ss_env_from pg_spec) ''d'' = Inr []"
    by (simp add: pg_spec_def resolveEnvFromList_def)
  from rolling_restart_top_down [OF pg.ordinal_host_axioms r, of "pg_listing pg_stuck"] pg_listing_ok [OF e2] ee e3 e4 x
  show ?thesis by fastforce
qed

text \<open>
  C32: Scaling a statefulset down without an error removes exactly the containers whose ordinal is at or
  above the target, and changes nothing else on the host.
\<close>

theorem prune_ordinals_exact:
  assumes "ordinal_host cm view cl kview env h"
    and "cm_list cm w ''statefulset'' scope nm = Inr live"
    and "pruneOrdinalsAbove env w scope nm app want = (w', None)"
  shows "view w' = (\<lambda>x. if \<exists>s \<in> set live. sl_name s = x \<and> (\<exists>n. Ordinal (sl_identity s) = Some n \<and> want \<le> n)
    then None else view w x)"
proof -
  have "e_cm env = cm" using assms(1) by (rule ordinal_host.axioms(1) [THEN host.env_cm])
  then have "prune_above env w app want (sortSlotsByOrdinalDesc live) = (w', None)"
    using assms(2,3) by (simp add: pruneOrdinalsAbove_def)
  from ordinal_host.prune_above_exact [OF assms(1) this] show ?thesis by simp
qed

theorem prune_ordinals_exact_witness:
  "let r = pruneOrdinalsAbove demo_env (pg_host [0, 1, 2]) ''d'' ''p'' ''d-p'' 1
   in dd_view (fst r) (pod_name ''d'' ''p'' 2) = None
     \<and> dd_view (fst r) (pod_name ''d'' ''p'' 7) = dd_view (pg_host [0, 1, 2]) (pod_name ''d'' ''p'' 7)"
proof -
  define r where "r = pruneOrdinalsAbove demo_env (pg_host [0, 1, 2]) ''d'' ''p'' ''d-p'' 1"
  have e1: "snd r = None" unfolding r_def by code_simp
  have e2: "pg_listed (pg_host [0, 1, 2])" by code_simp
  have e3: "\<exists>s \<in> set (pg_listing (pg_host [0, 1, 2])). sl_name s = pod_name ''d'' ''p'' 2 \<and> Ordinal (sl_identity s) = Some 2"
    by code_simp
  have e4: "\<forall>s \<in> set (pg_listing (pg_host [0, 1, 2])). sl_name s \<noteq> pod_name ''d'' ''p'' 7" by code_simp
  have "pruneOrdinalsAbove demo_env (pg_host [0, 1, 2]) ''d'' ''p'' ''d-p'' 1 = (fst r, None)"
    using e1 by (simp add: r_def prod_eq_iff)
  from prune_ordinals_exact [OF pg.ordinal_host_axioms pg_listing_ok [OF e2] this] e3 e4
  show ?thesis unfolding r_def [symmetric] Let_def by fastforce
qed

end
