(* ===== verification/Tokens.thy ===== *)
theory Tokens
  imports Workload
begin

text \<open>
  Personal access tokens: \<open>pat.go\<close> (scopes, generation, parsing), \<open>pat_store.go\<close>, the request
  signatures of \<open>pat_signature.go\<close> with their cache of spent nonces, the middleware of
  \<open>pat_middleware.go\<close>, the rate limiter of \<open>pat_ratelimit.go\<close> and the three handlers of
  \<open>handlers_pat.go\<close>. SHA-256 and HMAC are functions from texts to bytes.
\<close>

section \<open>Encodings of the standard library\<close>

type_synonym bytes = "8 word list"

definition hex_digit :: "nat \<Rightarrow> char" where
  "hex_digit n = ''0123456789abcdef'' ! n"

definition hex_encode :: "bytes \<Rightarrow> string" where
  "hex_encode bs = concat (map (\<lambda>b. [hex_digit (unat b div 16), hex_digit (unat b mod 16)]) bs)"

definition b64_alphabet :: string where
  "b64_alphabet = ''ABCDEFGHIJKLMNOPQRSTUVWXYZabcdefghijklmnopqrstuvwxyz0123456789-_''"

definition b64_char :: "nat \<Rightarrow> char" where
  "b64_char n = b64_alphabet ! (n mod 64)"

text \<open>\<open>base64.RawURLEncoding\<close>: no padding.\<close>

fun b64_encode :: "bytes \<Rightarrow> string" where
  "b64_encode (a # b # c # rest) =
     (let n = unat a * 65536 + unat b * 256 + unat c
      in b64_char (n div 262144) # b64_char (n div 4096) # b64_char (n div 64) # b64_char n # b64_encode rest)"
| "b64_encode [a, b] =
     (let n = unat a * 65536 + unat b * 256 in [b64_char (n div 262144), b64_char (n div 4096), b64_char (n div 64)])"
| "b64_encode [a] = (let n = unat a * 65536 in [b64_char (n div 262144), b64_char (n div 4096)])"
| "b64_encode [] = []"

text \<open>\<open>url.QueryEscape\<close> and \<open>strings.ToUpper\<close>.\<close>

definition is_alnum :: "char \<Rightarrow> bool" where
  "is_alnum c = (let n = of_char c :: nat in (48 \<le> n \<and> n \<le> 57) \<or> (65 \<le> n \<and> n \<le> 90) \<or> (97 \<le> n \<and> n \<le> 122))"

definition unreserved :: "char \<Rightarrow> bool" where
  "unreserved c = (is_alnum c \<or> c \<in> {CHR ''-'', CHR ''_'', CHR ''.'', CHR ''~''})"

definition upper_hex :: "nat \<Rightarrow> char" where
  "upper_hex n = ''0123456789ABCDEF'' ! n"

definition percent :: "char \<Rightarrow> string" where
  "percent c = (let n = of_char c :: nat in [CHR ''%'', upper_hex (n div 16), upper_hex (n mod 16)])"

definition QueryEscape :: "string \<Rightarrow> string" where
  "QueryEscape s = concat (map (\<lambda>c. if unreserved c then [c] else if c = CHR '' '' then ''+'' else percent c) s)"

definition upper_char :: "char \<Rightarrow> char" where
  "upper_char c = (let n = of_char c :: nat in if 97 \<le> n \<and> n \<le> 122 then char_of (n - 32) else c)"

definition to_upper :: "string \<Rightarrow> string" where
  "to_upper s = map upper_char s"

text \<open>\<open>strings.ReplaceAll\<close> of one byte, and the replacer of two marks.\<close>

definition replace_byte :: "char \<Rightarrow> string \<Rightarrow> string \<Rightarrow> string" where
  "replace_byte c r s = concat (map (\<lambda>x. if x = c then r else [x]) s)"

function replace_marks :: "string \<Rightarrow> string" where
  "replace_marks s =
     (case s of
        [] \<Rightarrow> []
      | c # cs \<Rightarrow>
          if take 3 s = ''%7E'' then CHR ''~'' # replace_marks (drop 3 s)
          else if take 3 s = ''%2A'' then CHR ''*'' # replace_marks (drop 3 s)
          else c # replace_marks cs)"
  by pat_completeness auto
termination by (relation "measure length") auto

declare replace_marks.simps [simp del]

section \<open>Scopes and tokens\<close>

definition scopeOrder :: "string list" where
  "scopeOrder = [''read'', ''config:read'', ''config'', ''actions'', ''deploy'']"

definition validScope :: "string \<Rightarrow> bool" where
  "validScope s = (s \<in> set scopeOrder)"

definition normalizeScopes :: "string list \<Rightarrow> string list" where
  "normalizeScopes ss = filter (\<lambda>s. s \<in> set ss) scopeOrder"

definition HasScope :: "pat \<Rightarrow> string \<Rightarrow> bool" where
  "HasScope p want = list_ex (\<lambda>s. s = want) (pt_scopes p)"

definition knownScopes :: string where
  "knownScopes = join '', '' scopeOrder"

text \<open>The loop of \<open>ParseScopes\<close>; \<open>acc\<close> is both \<open>out\<close> and \<open>seen\<close>.\<close>

fun scope_parts :: "string list \<Rightarrow> string list \<Rightarrow> string + string list" where
  "scope_parts [] acc = Inr acc"
| "scope_parts (p # ps) acc =
     (let sc = trim_space p
      in if sc = [] then scope_parts ps acc
         else if \<not> validScope sc then Inl (''pat: unknown scope '' @ sc @ '' (valid: '' @ knownScopes @ '')'')
         else if sc \<in> set acc then scope_parts ps acc
         else scope_parts ps (acc @ [sc]))"

definition ParseScopes :: "string \<Rightarrow> string + string list" where
  "ParseScopes s =
     (case scope_parts (split_char (CHR '','') s) [] of
        Inl e \<Rightarrow> Inl e
      | Inr out \<Rightarrow>
          if out = [] then Inl (''pat: no scopes parsed from '' @ s @ '' (expected a comma-separated list of: '' @ knownScopes @ '')'')
          else Inr (normalizeScopes out))"

definition patTokenPrefix :: string where "patTokenPrefix = ''pat_''"
definition patTokenIDLen :: nat where "patTokenIDLen = 6"
definition patTokenBodyLen :: nat where "patTokenBodyLen = 28"
definition patRandomBytes :: nat where "patRandomBytes = 21"

definition isPATChar :: "char \<Rightarrow> bool" where
  "isPATChar c = (is_alnum c \<or> c = CHR ''-'' \<or> c = CHR ''_'')"

definition ParsePATToken :: "string \<Rightarrow> string option" where
  "ParsePATToken plain =
     (if \<not> has_prefix plain patTokenPrefix then None
      else let body = drop (length patTokenPrefix) plain
           in if length body \<noteq> patTokenBodyLen then None
              else if \<not> list_all isPATChar body then None
              else Some (take patTokenIDLen body))"

record crypto =
  cr_sha256 :: "string \<Rightarrow> bytes"
  cr_hmac :: "string \<Rightarrow> string \<Rightarrow> bytes"

definition HashPAT :: "crypto \<Rightarrow> string \<Rightarrow> string" where
  "HashPAT cr plain = hex_encode (cr_sha256 cr plain)"

text \<open>\<open>raw\<close> is what the system's random source returned.\<close>

definition GeneratePAT :: "crypto \<Rightarrow> string + bytes \<Rightarrow> int \<Rightarrow> string list \<Rightarrow> string \<Rightarrow> string + (string \<times> pat)" where
  "GeneratePAT cr raw now scopes name =
     (if scopes = [] then Inl ''pat: at least one scope required (read|actions)''
      else case find (\<lambda>s. \<not> validScope s) scopes of
             Some s \<Rightarrow> Inl (''pat: unknown scope '' @ s @ '' (valid: read, actions)'')
           | None \<Rightarrow>
               (case raw of
                  Inl e \<Rightarrow> Inl (''pat: read random: '' @ e)
                | Inr bs \<Rightarrow>
                    (let body = b64_encode bs
                     in if length body \<noteq> patTokenBodyLen then Inl ''pat: encoded body length''
                        else let plain = patTokenPrefix @ body
                             in Inr (plain, \<lparr>pt_id = take patTokenIDLen body, pt_hash = HashPAT cr plain,
                                  pt_scopes = normalizeScopes scopes, pt_name = trim_space name,
                                  pt_created = now, pt_last_used = 0\<rparr>))))"

section \<open>The store\<close>

definition PutPAT :: "'s etcd \<Rightarrow> 's \<Rightarrow> pat \<Rightarrow> string + 's" where
  "PutPAT cl s p =
     (if pt_id p = [] then Inl ''etcd put PAT: empty ID''
      else case etcd_put cl s (PATKey (pt_id p)) (DPat p) of
             Inl e \<Rightarrow> Inl (''etcd put PAT '' @ pt_id p @ '': '' @ e)
           | Inr s' \<Rightarrow> Inr s')"

definition GetPAT :: "'s etcd \<Rightarrow> 's \<Rightarrow> string \<Rightarrow> string + pat option" where
  "GetPAT cl s i =
     (if i = [] then Inr None
      else case etcd_get cl s (PATKey i) of
             Inl e \<Rightarrow> Inl (''etcd get PAT '' @ i @ '': '' @ e)
           | Inr None \<Rightarrow> Inr None
           | Inr (Some (DPat p)) \<Rightarrow> Inr (Some p)
           | Inr (Some _) \<Rightarrow> Inl (''decode PAT '' @ i))"

fun decode_pats :: "(key \<times> doc) list \<Rightarrow> string + pat list" where
  "decode_pats [] = Inr []"
| "decode_pats ((k, d) # kvs) =
     (case d of
        DPat p \<Rightarrow> (case decode_pats kvs of Inl e \<Rightarrow> Inl e | Inr ps \<Rightarrow> Inr (p # ps))
      | _ \<Rightarrow> Inl (''decode PAT '' @ k))"

definition ListPATs :: "'s etcd \<Rightarrow> 's \<Rightarrow> string + pat list" where
  "ListPATs cl s =
     (case etcd_list cl s PATsPrefix of Inl e \<Rightarrow> Inl (''etcd list PATs: '' @ e) | Inr kvs \<Rightarrow> decode_pats kvs)"

definition DeletePAT :: "'s etcd \<Rightarrow> 's \<Rightarrow> string \<Rightarrow> string + ('s \<times> bool)" where
  "DeletePAT cl s i =
     (if i = [] then Inr (s, False)
      else case etcd_delete cl s (PATKey i) of
             Inl e \<Rightarrow> Inl (''etcd delete PAT '' @ i @ '': '' @ e)
           | Inr (s', n) \<Rightarrow> Inr (s', n > 0))"

definition TouchPAT :: "'s etcd \<Rightarrow> 's \<Rightarrow> string \<Rightarrow> int \<Rightarrow> string + 's" where
  "TouchPAT cl s i at =
     (case GetPAT cl s i of
        Inl e \<Rightarrow> Inl e
      | Inr None \<Rightarrow> Inr s
      | Inr (Some p) \<Rightarrow> PutPAT cl s (p\<lparr>pt_last_used := at\<rparr>))"

section \<open>Signatures\<close>

definition sec :: int where "sec = 1000000000"
definition sigSkew :: int where "sigSkew = 300 * sec"
definition sigNonceCap :: nat where "sigNonceCap = 20000"

record signed_request =
  sg_id :: string
  sg_ts :: int
  sg_nonce :: string
  sg_sig :: string

fun signature_parts :: "string list \<Rightarrow> signed_request \<Rightarrow> signed_request option" where
  "signature_parts [] sg = Some sg"
| "signature_parts (p # ps) sg =
     (case cut (CHR ''='') (trim_space p) of
        (key, value, False) \<Rightarrow> None
      | (key, value, True) \<Rightarrow>
          if key = ''id'' then signature_parts ps (sg\<lparr>sg_id := value\<rparr>)
          else if key = ''ts'' then
            (case atoi value of None \<Rightarrow> None | Some ts \<Rightarrow> signature_parts ps (sg\<lparr>sg_ts := ts\<rparr>))
          else if key = ''nonce'' then signature_parts ps (sg\<lparr>sg_nonce := value\<rparr>)
          else if key = ''sig'' then signature_parts ps (sg\<lparr>sg_sig := value\<rparr>)
          else signature_parts ps sg)"

definition parseSignatureHeader :: "string \<Rightarrow> signed_request option" where
  "parseSignatureHeader header =
     (if \<not> has_prefix header ''Voodu '' then None
      else case signature_parts (split_char (CHR '','') (drop 6 header)) \<lparr>sg_id = [], sg_ts = 0, sg_nonce = [], sg_sig = []\<rparr> of
             None \<Rightarrow> None
           | Some sg \<Rightarrow> if sg_id sg = [] \<or> sg_ts sg = 0 \<or> sg_nonce sg = [] \<or> sg_sig sg = [] then None else Some sg)"

definition escapeRFC3986 :: "string \<Rightarrow> string" where
  "escapeRFC3986 v = replace_marks (replace_byte (CHR ''+'') ''%20'' (QueryEscape v))"

type_synonym query = "(string \<times> string list) list"

definition query_pairs :: "query \<Rightarrow> (string \<times> string) list" where
  "query_pairs q = concat (map (\<lambda>(k, vs). map (\<lambda>v. (k, v)) vs) q)"

definition canonicalQuery :: "query \<Rightarrow> string" where
  "canonicalQuery q =
     (if q = [] then []
      else join ''&'' (sort_strs (map (\<lambda>(k, v). escapeRFC3986 k @ ''='' @ escapeRFC3986 v) (query_pairs q))))"

definition newline :: char where
  "newline = CHR 0x0A"

definition signatureCanonical :: "crypto \<Rightarrow> string \<Rightarrow> string \<Rightarrow> query \<Rightarrow> string \<Rightarrow> int \<Rightarrow> string \<Rightarrow> string" where
  "signatureCanonical cr meth path q body ts nonce =
     join [newline] [''v1'', to_upper meth, path, canonicalQuery q, hex_encode (cr_sha256 cr body), itoa_int ts, nonce]"

definition verifySignature :: "crypto \<Rightarrow> string \<Rightarrow> string \<Rightarrow> string \<Rightarrow> bool" where
  "verifySignature cr keyHex canonical provided = (b64_encode (cr_hmac cr keyHex canonical) = provided)"

section \<open>Spent nonces\<close>

type_synonym nonce_cache = "(string \<times> int) list"

definition nonce_purge :: "nonce_cache \<Rightarrow> int \<Rightarrow> nonce_cache" where
  "nonce_purge seen now = filter (\<lambda>(k, at). \<not> now - at > sigSkew) seen"

definition UseNonce :: "nonce_cache \<Rightarrow> string \<Rightarrow> int \<Rightarrow> nonce_cache \<times> bool" where
  "UseNonce seen nonce now =
     (let seen1 = nonce_purge seen now
      in if map_of seen1 nonce \<noteq> None then (seen1, False)
         else if length seen1 \<ge> sigNonceCap then (seen1, False)
         else (kv_set nonce now seen1, True))"

section \<open>The middleware\<close>

definition touchCoalesceWindow :: int where "touchCoalesceWindow = 60 * sec"

definition shouldTouch :: "(string \<times> int) list \<Rightarrow> string \<Rightarrow> int \<Rightarrow> (string \<times> int) list \<times> bool" where
  "shouldTouch lst i now =
     (case map_of lst i of
        Some prev \<Rightarrow> if now - prev < touchCoalesceWindow then (lst, False) else (kv_set i now lst, True)
      | None \<Rightarrow> (kv_set i now lst, True))"

record auth_state =
  au_nonces :: nonce_cache
  au_touched :: "(string \<times> int) list"

record pat_request =
  rq_auth :: string
  rq_method :: string
  rq_path :: string
  rq_query :: query
  rq_body :: "string + string"

text \<open>A refusal with its status and message, or the request goes on under the id of its token, the
flag telling whether the token's use is recorded.\<close>

datatype auth_result = Refused nat string | Granted string bool

definition errAuth :: string where
  "errAuth = ''invalid or expired token''"

definition authorize ::
  "crypto \<Rightarrow> 's etcd \<Rightarrow> 's \<Rightarrow> string \<Rightarrow> int \<Rightarrow> auth_state \<Rightarrow> pat_request \<Rightarrow> auth_state \<times> auth_result" where
  "authorize cr cl s want now st rq =
     (case parseSignatureHeader (rq_auth rq) of
        None \<Rightarrow> (st, Refused 401 errAuth)
      | Some sg \<Rightarrow>
          (let skew = now - sg_ts sg * sec
           in if skew > sigSkew \<or> skew < - sigSkew then (st, Refused 401 errAuth)
              else case GetPAT cl s (sg_id sg) of
                     Inl e \<Rightarrow> (st, Refused 500 errAuth)
                   | Inr None \<Rightarrow> (st, Refused 401 errAuth)
                   | Inr (Some p) \<Rightarrow>
                       (case rq_body rq of
                          Inl e \<Rightarrow> (st, Refused 401 errAuth)
                        | Inr body \<Rightarrow>
                            (let canonical = signatureCanonical cr (rq_method rq) (rq_path rq) (rq_query rq) body (sg_ts sg) (sg_nonce sg)
                             in if \<not> verifySignature cr (pt_hash p) canonical (sg_sig sg) then (st, Refused 401 errAuth)
                                else case UseNonce (au_nonces st) (sg_nonce sg) now of
                                       (ns, False) \<Rightarrow> (st\<lparr>au_nonces := ns\<rparr>, Refused 401 errAuth)
                                     | (ns, True) \<Rightarrow>
                                         if \<not> HasScope p want
                                         then (st\<lparr>au_nonces := ns\<rparr>, Refused 403 (''insufficient scope: requires '' @ want))
                                         else case shouldTouch (au_touched st) (sg_id sg) now of
                                                (tc, b) \<Rightarrow> (\<lparr>au_nonces = ns, au_touched = tc\<rparr>, Granted (sg_id sg) b)))))"

section \<open>The rate limiter\<close>

text \<open>
  \<open>byID\<close> and the recency list are kept apart as in the code: \<open>rl_by_id\<close> maps an id to its limiter,
  \<open>rl_order\<close> lists the ids, most recent first. The token bucket is \<open>golang.org/x/time/rate\<close>: a fresh
  limiter and what \<open>Allow\<close> makes of one.
\<close>

record 'l limiter_api =
  la_fresh :: 'l
  la_allow :: "'l \<Rightarrow> 'l \<times> bool"

record 'l rate_state =
  rl_by_id :: "string \<rightharpoonup> 'l"
  rl_order :: "string list"

definition patRateLimitLRUMax :: nat where "patRateLimitLRUMax = 1000"

definition rate_allow :: "'l limiter_api \<Rightarrow> 'l rate_state \<Rightarrow> string \<Rightarrow> 'l rate_state \<times> bool" where
  "rate_allow la st i =
     (case rl_by_id st i of
        Some lim \<Rightarrow>
          (case la_allow la lim of
             (lim', ok) \<Rightarrow> (\<lparr>rl_by_id = (rl_by_id st)(i \<mapsto> lim'), rl_order = i # removeAll i (rl_order st)\<rparr>, ok))
      | None \<Rightarrow>
          (case la_allow la (la_fresh la) of
             (lim', ok) \<Rightarrow>
               (let order = i # rl_order st; by_id = (rl_by_id st)(i \<mapsto> lim')
                in if length order > patRateLimitLRUMax
                   then (\<lparr>rl_by_id = by_id(last order := None), rl_order = butlast order\<rparr>, ok)
                   else (\<lparr>rl_by_id = by_id, rl_order = order\<rparr>, ok))))"

section \<open>The handlers\<close>

text \<open>Answers as a status with the payload; the list is sorted newest first.\<close>

definition handlePATCreate ::
  "crypto \<Rightarrow> string + bytes \<Rightarrow> int \<Rightarrow> 's etcd \<Rightarrow> 's \<Rightarrow> string list \<Rightarrow> string \<Rightarrow> 's \<times> nat \<times> (string + (string \<times> pat))" where
  "handlePATCreate cr raw now cl s scopes name =
     (if scopes = [] then (s, 400, Inl ''scopes is required'')
      else case GeneratePAT cr raw now scopes name of
             Inl e \<Rightarrow> (s, 400, Inl e)
           | Inr (plain, p) \<Rightarrow>
               (case PutPAT cl s p of
                  Inl e \<Rightarrow> (s, 500, Inl e)
                | Inr s' \<Rightarrow> (s', 201, Inr (plain, p))))"

fun insert_newest :: "pat \<Rightarrow> pat list \<Rightarrow> pat list" where
  "insert_newest p [] = [p]"
| "insert_newest p (q # qs) = (if pt_created q > pt_created p then q # insert_newest p qs else p # q # qs)"

definition handlePATList :: "'s etcd \<Rightarrow> 's \<Rightarrow> nat \<times> (string + pat list)" where
  "handlePATList cl s =
     (case ListPATs cl s of Inl e \<Rightarrow> (500, Inl e) | Inr ps \<Rightarrow> (200, Inr (foldr insert_newest ps [])))"

definition handlePATRevoke :: "'s etcd \<Rightarrow> 's \<Rightarrow> string \<Rightarrow> 's \<times> nat \<times> string option" where
  "handlePATRevoke cl s raw =
     (let i = trim_space raw
      in if i = [] then (s, 400, Some ''path: id is required'')
         else case DeletePAT cl s i of
                Inl e \<Rightarrow> (s, 500, Some e)
              | Inr (s', False) \<Rightarrow> (s', 404, Some (''no PAT with id '' @ i))
              | Inr (s', True) \<Rightarrow> (s', 200, None))"

end
