(* ===== verification/Signed.thy ===== *)
theory Signed
  imports Tokens "HOL-Library.Multiset"
begin

text \<open>
  What the access plane guarantees: a generated token parses back to the id of its record, a signature
  binds every part of its request, a spent nonce is refused while the window it may be replayed in is
  open, and the rate limiter's map and list agree within their capacity.
\<close>

section \<open>Escaping\<close>

text \<open>What \<open>escapeRFC3986\<close> makes of one byte: itself, or a percent sign and two digits.\<close>

definition esc_char :: "char \<Rightarrow> string" where
  "esc_char c = (if unreserved c \<or> c = CHR ''*'' then [c] else percent c)"

lemma upper_hex_inj: "m < 16 \<Longrightarrow> n < 16 \<Longrightarrow> upper_hex m = upper_hex n \<longleftrightarrow> m = n"
proof -
  have "list_all (\<lambda>n. list_all (\<lambda>m. (upper_hex n = upper_hex m) = (n = m)) [0..<16]) [0..<16]" by code_simp
  then show "m < 16 \<Longrightarrow> n < 16 \<Longrightarrow> upper_hex m = upper_hex n \<longleftrightarrow> m = n" by (auto simp: list_all_iff)
qed

lemma of_char_256: "(of_char c :: nat) < 256"
  by (metis mod_less_divisor of_char_mod_256 zero_less_numeral)

lemma percent_inj: "percent c = percent d \<longleftrightarrow> c = d"
proof
  let ?m = "of_char c :: nat" and ?n = "of_char d :: nat"
  assume "percent c = percent d"
  then have e: "upper_hex (?m div 16) = upper_hex (?n div 16)" "upper_hex (?m mod 16) = upper_hex (?n mod 16)"
    by (simp_all add: percent_def Let_def)
  have b: "?m < 256" "?n < 256" by (rule of_char_256)+
  have "?m div 16 = ?n div 16" "?m mod 16 = ?n mod 16" using e b by (simp_all add: upper_hex_inj div_less_iff_less_mult)
  then have "?m = ?n" by (metis div_mult_mod_eq)
  then show "c = d" by simp
qed simp

lemma upper_hex_alnum: "n < 16 \<Longrightarrow> is_alnum (upper_hex n)"
proof -
  have "list_all (\<lambda>n. is_alnum (upper_hex n)) [0..<16]" by code_simp
  then show "n < 16 \<Longrightarrow> is_alnum (upper_hex n)" by (simp add: list_all_iff)
qed

lemma percent_facts:
  "percent c = ''%2A'' \<longleftrightarrow> c = CHR ''*''" "percent c = ''%7E'' \<longleftrightarrow> c = CHR ''~''"
  "\<exists>a b. percent c = [CHR ''%'', a, b] \<and> is_alnum a \<and> is_alnum b"
proof -
  have "percent (CHR ''*'') = ''%2A''" "percent (CHR ''~'') = ''%7E''" by code_simp+
  then show "percent c = ''%2A'' \<longleftrightarrow> c = CHR ''*''" "percent c = ''%7E'' \<longleftrightarrow> c = CHR ''~''"
    by (metis percent_inj)+
  show "\<exists>a b. percent c = [CHR ''%'', a, b] \<and> is_alnum a \<and> is_alnum b"
    using of_char_256 [of c] upper_hex_alnum by (simp add: percent_def Let_def div_less_iff_less_mult)
qed

lemma unreserved_plain: "unreserved c \<Longrightarrow> c \<noteq> CHR ''%'' \<and> c \<noteq> CHR ''+'' \<and> c \<noteq> CHR ''*''"
  by (auto simp: unreserved_def is_alnum_def Let_def)

lemma alnum_plain: "is_alnum c \<Longrightarrow> c \<notin> {CHR ''%'', CHR ''+'', CHR ''='', CHR ''&'', newline}"
  by (auto simp: is_alnum_def Let_def newline_def)

definition pre_char :: "char \<Rightarrow> string" where
  "pre_char c = (if unreserved c then [c] else percent c)"

lemma space_percent: "percent (CHR '' '') = ''%20''"
  by code_simp

lemma pre_escape: "replace_byte (CHR ''+'') ''%20'' (QueryEscape s) = concat (map pre_char s)"
proof (induction s)
  case (Cons c s)
  obtain a b where p: "percent c = [CHR ''%'', a, b]" "is_alnum a" "is_alnum b" using percent_facts(3) by blast
  have "replace_byte (CHR ''+'') ''%20'' (if unreserved c then [c] else if c = CHR '' '' then ''+'' else percent c) = pre_char c"
    using p alnum_plain [of a] alnum_plain [of b] unreserved_plain [of c] space_percent
    by (auto simp: replace_byte_def pre_char_def unreserved_def is_alnum_def Let_def)
  then show ?case using Cons by (simp add: replace_byte_def QueryEscape_def)
qed (simp add: replace_byte_def QueryEscape_def)

lemma replace_pre: "replace_marks (pre_char c @ t) = esc_char c @ replace_marks t"
proof (cases "unreserved c")
  case True
  then have n: "c \<noteq> CHR ''%''" using unreserved_plain by blast
  have "take 3 (c # t) \<noteq> ''%7E''" "take 3 (c # t) \<noteq> ''%2A''" using n by (auto simp: numeral_3_eq_3)
  then show ?thesis using True by (subst replace_marks.simps) (simp add: pre_char_def esc_char_def)
next
  case False
  obtain a b where p: "percent c = [CHR ''%'', a, b]" "is_alnum a" "is_alnum b" using percent_facts(3) by blast
  have "c \<noteq> CHR ''~''" using False by (auto simp: unreserved_def)
  then have n7: "percent c \<noteq> ''%7E''" using percent_facts(2) by blast
  show ?thesis
  proof (cases "c = CHR ''*''")
    case True
    then have "percent c = ''%2A''" using percent_facts(1) by blast
    then show ?thesis using False True by (subst replace_marks.simps) (simp add: pre_char_def esc_char_def)
  next
    case ns: False
    then have n2: "percent c \<noteq> ''%2A''" using percent_facts(1) by blast
    have one: "x \<noteq> CHR ''%'' \<Longrightarrow> replace_marks (x # u) = x # replace_marks u" for x u
      by (subst replace_marks.simps) (auto simp: numeral_3_eq_3)
    have "replace_marks (CHR ''%'' # a # b # t) = CHR ''%'' # replace_marks (a # b # t)"
      using n7 n2 p by (subst replace_marks.simps) simp
    also have "\<dots> = CHR ''%'' # a # b # replace_marks t"
      using alnum_plain [OF p(2)] alnum_plain [OF p(3)] by (simp add: one)
    finally show ?thesis using False ns p by (simp add: pre_char_def esc_char_def)
  qed
qed

lemma escape_concat: "escapeRFC3986 v = concat (map esc_char v)"
proof -
  have "replace_marks (concat (map pre_char v)) = concat (map esc_char v)"
  proof (induction v)
    case Nil then show ?case by (simp add: replace_marks.simps)
  qed (simp add: replace_pre)
  then show ?thesis by (simp add: escapeRFC3986_def pre_escape)
qed

lemma esc_char_cases:
  obtains "esc_char c = [c]" "c \<noteq> CHR ''%''" | a b where "esc_char c = [CHR ''%'', a, b]" "esc_char c = percent c"
proof (cases "unreserved c \<or> c = CHR ''*''")
  case True
  then show thesis using that(1) unreserved_plain by (auto simp: esc_char_def)
next
  case False
  then show thesis using that(2) percent_facts(3) [of c] by (auto simp: esc_char_def)
qed

lemma esc_char_prefix: "esc_char c @ s = esc_char d @ t \<Longrightarrow> c = d \<and> s = t"
  by (cases c rule: esc_char_cases; cases d rule: esc_char_cases) (auto simp: percent_inj [symmetric])

lemma escape_inj: "escapeRFC3986 v = escapeRFC3986 w \<longleftrightarrow> v = w"
proof -
  have "concat (map esc_char v) = concat (map esc_char w) \<Longrightarrow> v = w"
  proof (induction v arbitrary: w)
    case Nil
    then show ?case by (cases w; cases "hd w" rule: esc_char_cases) auto
  next
    case (Cons c v)
    show ?case
    proof (cases w)
      case Nil
      then show ?thesis using Cons.prems by (cases c rule: esc_char_cases) auto
    next
      case (Cons d u)
      then show ?thesis using Cons.prems Cons.IH [of u] esc_char_prefix by auto
    qed
  qed
  then show ?thesis by (auto simp: escape_concat)
qed

lemma escape_plain: "c \<in> set (escapeRFC3986 v) \<Longrightarrow> c \<notin> {CHR ''='', CHR ''&'', newline}"
proof -
  have "c \<in> set (esc_char x) \<Longrightarrow> c \<notin> {CHR ''='', CHR ''&'', newline}" for x
    using percent_facts(3) [of x] alnum_plain
    by (auto simp: esc_char_def unreserved_def newline_def split: if_splits)
  then show "c \<in> set (escapeRFC3986 v) \<Longrightarrow> c \<notin> {CHR ''='', CHR ''&'', newline}"
    by (auto simp: escape_concat)
qed

section \<open>The signed text\<close>

lemma mset_insert_str [simp]: "mset (insert_str x ys) = add_mset x (mset ys)"
  by (induction ys) auto

lemma mset_sort_strs [simp]: "mset (sort_strs xs) = mset xs"
proof -
  have "mset (foldr insert_str xs []) = mset xs" by (induction xs) auto
  then show ?thesis by (simp add: sort_strs_def)
qed

text \<open>A list is read back from its join when no part holds the separator.\<close>

lemma split_join:
  "ps \<noteq> [] \<Longrightarrow> \<forall>p \<in> set ps. c \<notin> set p \<Longrightarrow> split_char c (join [c] ps) = ps"
proof (induction ps rule: induct_list012)
  case (2 x) then show ?case by (simp add: split_char_absent)
next
  case (3 x y zs) then show ?case by (simp add: split_char_append)
qed simp

definition query_term :: "string \<times> string \<Rightarrow> string" where
  "query_term = (\<lambda>(k, v). escapeRFC3986 k @ ''='' @ escapeRFC3986 v)"

lemma query_term_inj: "query_term p = query_term q \<longleftrightarrow> p = q"
proof
  obtain k v l w where pq: "p = (k, v)" "q = (l, w)" by fastforce
  assume "query_term p = query_term q"
  then have "cut (CHR ''='') (query_term p) = cut (CHR ''='') (query_term q)" by simp
  moreover have nk: "CHR ''='' \<notin> set (escapeRFC3986 x)" for x using escape_plain by blast
  ultimately show "p = q" using pq by (simp add: query_term_def escape_inj cut_append [OF nk])
qed simp

lemma query_term_plain: "CHR ''&'' \<notin> set (query_term p)" "newline \<notin> set (query_term p)"
  using escape_plain [of "CHR ''&''"] escape_plain [of newline]
  by (auto simp: query_term_def newline_def split: prod.splits)

lemma query_term_nonempty: "query_term p \<noteq> []"
  by (simp add: query_term_def split: prod.splits)

lemma canonical_terms: "canonicalQuery q = join ''&'' (sort_strs (map query_term (query_pairs q)))"
  by (cases "q = []") (simp_all add: canonicalQuery_def query_term_def query_pairs_def sort_strs_def)

lemma join_empty: "\<forall>p \<in> set ps. p \<noteq> [] \<Longrightarrow> join c ps = [] \<longleftrightarrow> ps = []"
  by (induction ps rule: induct_list012) auto

lemma canonical_query_inj:
  assumes "canonicalQuery q = canonicalQuery q'"
  shows "mset (query_pairs q) = mset (query_pairs q')"
proof -
  let ?t = "\<lambda>q. sort_strs (map query_term (query_pairs q))"
  have ne: "\<forall>p \<in> set (?t q). p \<noteq> []" for q using query_term_nonempty by auto
  have pl: "\<forall>p \<in> set (?t q). CHR ''&'' \<notin> set p" for q using query_term_plain(1) by auto
  have j: "join ''&'' (?t q) = join ''&'' (?t q')" using assms by (simp add: canonical_terms)
  have "?t q = ?t q'"
  proof (cases "?t q = []")
    case True
    then have "join ''&'' (?t q') = []" using j by simp
    then show ?thesis using True join_empty [OF ne] by simp
  next
    case False
    then have "?t q' \<noteq> []" using j join_empty [OF ne] by metis
    then show ?thesis using split_join [OF False pl] split_join [OF _ pl] j by metis
  qed
  then have "mset (map query_term (query_pairs q)) = mset (map query_term (query_pairs q'))"
    by (metis mset_sort_strs)
  then have "image_mset query_term (mset (query_pairs q)) = image_mset query_term (mset (query_pairs q'))" by simp
  moreover have "inj query_term" by (auto simp: inj_def query_term_inj)
  ultimately show ?thesis by (metis image_mset.comp image_mset.id inv_o_cancel multiset.map_comp multiset.map_id)
qed

lemma canonical_query_plain: "newline \<notin> set (canonicalQuery q)"
proof -
  have "newline \<notin> set (join ''&'' ps)" if "\<forall>p \<in> set ps. newline \<notin> set p" for ps
    using that by (induction ps rule: induct_list012) (auto simp: newline_def)
  then show ?thesis using query_term_plain(2) by (simp add: canonical_terms)
qed

lemma hex_plain: "newline \<notin> set (hex_encode bs)"
proof -
  have "list_all (\<lambda>n. hex_digit n \<noteq> newline) [0..<16]" by code_simp
  then have d: "\<forall>n \<in> {0..<16}. hex_digit n \<noteq> newline" by (simp add: list_all_iff)
  have "n < 16 \<Longrightarrow> newline \<noteq> hex_digit n" for n by (rule not_sym) (use d in auto)
  moreover have "unat b div 16 < 16" for b :: "8 word"
    using unsigned_less [of b, where 'a = nat] by (simp add: div_less_iff_less_mult)
  ultimately show ?thesis by (auto simp: hex_encode_def)
qed

lemma itoa_plain: "newline \<notin> set (itoa_int n)"
proof -
  have "\<not> is_digit newline" by (simp add: is_digit_def newline_def)
  then show ?thesis using itoa_digits by (auto simp: itoa_int_def newline_def)
qed

lemma upper_plain: "newline \<in> set (to_upper m) \<longleftrightarrow> newline \<in> set m"
proof -
  have "upper_char c = newline \<longleftrightarrow> c = newline" for c
  proof
    assume u: "upper_char c = newline"
    show "c = newline"
    proof (cases "97 \<le> (of_char c :: nat) \<and> (of_char c :: nat) \<le> 122")
      case True
      then have "(of_char c :: nat) - 32 < 256" by linarith
      then have "(of_char (upper_char c) :: nat) = of_char c - 32" using True by (simp add: upper_char_def Let_def)
      moreover have "(of_char (upper_char c) :: nat) = 10" using u by (simp add: newline_def)
      ultimately have False using True by linarith
      then show ?thesis ..
    next
      case False
      then have "upper_char c = c" by (auto simp: upper_char_def Let_def)
      then show ?thesis using u by simp
    qed
  qed (simp add: upper_char_def newline_def Let_def)
  then show ?thesis unfolding to_upper_def set_map image_iff by metis
qed

lemma first_line:
  fixes c :: char
  assumes "a @ c # b = a' @ c # b'" and "c \<notin> set a" and "c \<notin> set a'"
  shows "a = a' \<and> b = b'"
  using arg_cong [OF assms(1), of "cut c"] assms(2,3) by simp

lemma last_line:
  fixes c :: char
  assumes "a @ c # b = a' @ c # b'" and "c \<notin> set b" and "c \<notin> set b'"
  shows "a = a' \<and> b = b'"
proof -
  have "rev b @ c # rev a = rev b' @ c # rev a'" using arg_cong [OF assms(1), of rev] by simp
  from first_line [OF this] show ?thesis using assms(2,3) by simp
qed

lemma canonical_binds:
  assumes e: "signatureCanonical cr m p q b ts n = signatureCanonical cr m' p' q' b' ts' n'"
    and pl: "newline \<notin> set m" "newline \<notin> set m'" "newline \<notin> set n" "newline \<notin> set n'"
  shows "to_upper m = to_upper m' \<and> p = p' \<and> mset (query_pairs q) = mset (query_pairs q')
    \<and> hex_encode (cr_sha256 cr b) = hex_encode (cr_sha256 cr b') \<and> ts = ts' \<and> n = n'"
proof -
  define h where "h b = hex_encode (cr_sha256 cr b)" for b
  have "to_upper m @ newline # p @ newline # canonicalQuery q @ newline # h b @ newline # itoa_int ts @ newline # n
      = to_upper m' @ newline # p' @ newline # canonicalQuery q' @ newline # h b' @ newline # itoa_int ts' @ newline # n'"
    using e by (simp add: signatureCanonical_def h_def)
  from first_line [OF this] pl(1,2) have m: "to_upper m = to_upper m'"
    and r: "p @ newline # canonicalQuery q @ newline # h b @ newline # itoa_int ts @ newline # n
      = p' @ newline # canonicalQuery q' @ newline # h b' @ newline # itoa_int ts' @ newline # n'"
    unfolding upper_plain by blast+
  from r have "(p @ newline # canonicalQuery q @ newline # h b @ newline # itoa_int ts) @ newline # n
      = (p' @ newline # canonicalQuery q' @ newline # h b' @ newline # itoa_int ts') @ newline # n'" by simp
  from last_line [OF this pl(3,4)] have n: "n = n'"
    and "(p @ newline # canonicalQuery q @ newline # h b) @ newline # itoa_int ts
      = (p' @ newline # canonicalQuery q' @ newline # h b') @ newline # itoa_int ts'" by simp_all
  from last_line [OF this(2) itoa_plain itoa_plain] have ts: "ts = ts'"
    and "(p @ newline # canonicalQuery q) @ newline # h b = (p' @ newline # canonicalQuery q') @ newline # h b'"
    by (simp_all add: itoa_int_inj)
  have hp: "newline \<notin> set (h x)" for x by (simp add: h_def hex_plain)
  note x1 = last_line [OF \<open>(p @ newline # canonicalQuery q) @ newline # h b = _\<close> hp hp]
  have hb: "h b = h b'" using x1 by (rule conjunct2)
  note x2 = last_line [OF x1 [THEN conjunct1] canonical_query_plain canonical_query_plain]
  show ?thesis using m n ts hb x2 canonical_query_inj unfolding h_def by blast
qed

section \<open>Tokens\<close>

lemma b64_chars: "c \<in> set (b64_encode bs) \<Longrightarrow> isPATChar c"
proof -
  have "list_all isPATChar b64_alphabet" by code_simp
  moreover have "length b64_alphabet = 64" by (simp add: b64_alphabet_def)
  ultimately have "isPATChar (b64_char n)" for n by (simp add: b64_char_def list_all_length)
  then show "c \<in> set (b64_encode bs) \<Longrightarrow> isPATChar c"
    by (induction bs rule: b64_encode.induct) (auto simp: Let_def)
qed

lemma find_None_all: "find P xs = None \<longleftrightarrow> (\<forall>x \<in> set xs. \<not> P x)"
  by (induction xs) auto

lemma generated_token:
  assumes "GeneratePAT cr raw now scopes name = Inr (plain, p)"
  shows "ParsePATToken plain = Some (pt_id p)" and "length (pt_id p) = patTokenIDLen" and "pt_hash p = HashPAT cr plain"
    and "set (pt_scopes p) = set scopes" and "distinct (pt_scopes p)" and "pt_scopes p \<noteq> []"
proof -
  obtain bs where bs: "raw = Inr bs" "length (b64_encode bs) = patTokenBodyLen" "scopes \<noteq> []" "\<forall>s \<in> set scopes. validScope s"
    and p: "plain = patTokenPrefix @ b64_encode bs"
      "p = \<lparr>pt_id = take patTokenIDLen (b64_encode bs), pt_hash = HashPAT cr plain, pt_scopes = normalizeScopes scopes,
        pt_name = trim_space name, pt_created = now, pt_last_used = 0\<rparr>"
    using assms by (auto simp: GeneratePAT_def Let_def find_None_all split: if_splits option.splits sum.splits)
  show "ParsePATToken plain = Some (pt_id p)"
    using bs(2) b64_chars by (simp add: ParsePATToken_def p list_all_iff)
  show "length (pt_id p) = patTokenIDLen" using bs(2) by (simp add: p patTokenIDLen_def patTokenBodyLen_def)
  show "pt_hash p = HashPAT cr plain" by (simp add: p)
  show sc: "set (pt_scopes p) = set scopes" using bs(4) by (auto simp: p normalizeScopes_def validScope_def)
  have "distinct scopeOrder" by code_simp
  then show "distinct (pt_scopes p)" by (simp add: p normalizeScopes_def)
  show "pt_scopes p \<noteq> []" using sc bs(3) by auto
qed

section \<open>Replays\<close>

lemma purge_mem: "(k, at) \<in> set (nonce_purge seen now) \<longleftrightarrow> (k, at) \<in> set seen \<and> now - at \<le> sigSkew"
  by (auto simp: nonce_purge_def)

lemma kv_set_mem: "(k, v) \<in> set (kv_set k v m)" "(j, w) \<in> set m \<Longrightarrow> j \<noteq> k \<Longrightarrow> (j, w) \<in> set (kv_set k v m)"
  by (induction m) auto

lemma use_nonce:
  assumes "UseNonce seen n now = (seen', ok)"
  shows "ok \<Longrightarrow> n \<notin> fst ` set (nonce_purge seen now) \<and> (n, now) \<in> set seen'"
    and "(k, at) \<in> set seen \<Longrightarrow> now - at \<le> sigSkew \<Longrightarrow> \<exists>at' \<ge> min at now. (k, at') \<in> set seen'"
proof -
  show "n \<notin> fst ` set (nonce_purge seen now) \<and> (n, now) \<in> set seen'" if ok
    using assms that by (auto simp: UseNonce_def Let_def map_of_eq_None_iff kv_set_mem split: if_splits)
  assume a: "(k, at) \<in> set seen" "now - at \<le> sigSkew"
  then have m: "(k, at) \<in> set (nonce_purge seen now)" by (simp add: purge_mem)
  have "seen' = nonce_purge seen now \<or> (map_of (nonce_purge seen now) n = None \<and> seen' = kv_set n now (nonce_purge seen now))"
    using assms by (auto simp: UseNonce_def Let_def split: if_splits)
  then have "(k, at) \<in> set seen'"
  proof
    assume n: "map_of (nonce_purge seen now) n = None \<and> seen' = kv_set n now (nonce_purge seen now)"
    then have "k \<noteq> n" using m by (metis weak_map_of_SomeI option.distinct(1))
    then show ?thesis using n kv_set_mem(2) [OF m] by simp
  qed (use m in simp)
  then show "\<exists>at' \<ge> min at now. (k, at') \<in> set seen'" by (intro exI [of _ at]) simp
qed

text \<open>
  Requests arrive at a clock that does not run backwards, each at a store state of its own. The log
  holds nonce, timestamp and arrival of what was granted, newest first.
\<close>

type_synonym auth_config = "auth_state \<times> int \<times> (string \<times> int \<times> int) list"

inductive auth_step :: "crypto \<Rightarrow> 's etcd \<Rightarrow> auth_config \<Rightarrow> auth_config \<Rightarrow> bool" for cr cl where
  granted: "authorize cr cl s want now st rq = (st', Granted i b) \<Longrightarrow> clk \<le> now \<Longrightarrow>
     parseSignatureHeader (rq_auth rq) = Some sg \<Longrightarrow>
     auth_step cr cl (st, clk, log) (st', now, (sg_nonce sg, sg_ts sg, now) # log)"
| refused: "authorize cr cl s want now st rq = (st', Refused c e) \<Longrightarrow> clk \<le> now \<Longrightarrow>
     auth_step cr cl (st, clk, log) (st', now, log)"

inductive_cases auth_stepE: "auth_step cr cl (st, clk, log) c"

definition auth_init :: auth_config where
  "auth_init = (\<lparr>au_nonces = [], au_touched = []\<rparr>, 0, [])"

abbreviation auth_reach :: "crypto \<Rightarrow> 's etcd \<Rightarrow> auth_config \<Rightarrow> bool" where
  "auth_reach cr cl c \<equiv> (auth_step cr cl)\<^sup>*\<^sup>* auth_init c"

lemma authorize_nonces:
  assumes "authorize cr cl s want now st rq = (st', res)"
  shows "au_nonces st' = au_nonces st \<or> (\<exists>n ok. UseNonce (au_nonces st) n now = (au_nonces st', ok))"
  using assms unfolding authorize_def
  by (auto simp: Let_def split: option.splits if_splits sum.splits prod.splits bool.splits)

lemma authorize_granted:
  assumes "authorize cr cl s want now st rq = (st', Granted i b)" and "parseSignatureHeader (rq_auth rq) = Some sg"
  shows "UseNonce (au_nonces st) (sg_nonce sg) now = (au_nonces st', True)" and "now - sg_ts sg * sec \<le> sigSkew"
  using assms unfolding authorize_def
  by (auto simp: Let_def split: option.splits if_splits sum.splits prod.splits bool.splits)

text \<open>A granted nonce is in the cache, no older than its grant, while the window since is open.\<close>

definition nonce_inv :: "auth_config \<Rightarrow> bool" where
  "nonce_inv c = (case c of (st, clk, log) \<Rightarrow>
     (\<forall>(n, ts, a) \<in> set log. a \<le> clk \<and> (clk - a \<le> sigSkew \<longrightarrow> (\<exists>at \<ge> a. (n, at) \<in> set (au_nonces st)))) \<and>
     sorted_wrt (\<lambda>(n, ts, a) (n0, ts0, a0). n = n0 \<longrightarrow> a0 < ts * sec) log)"

lemma nonce_kept:
  assumes "authorize cr cl s want now st rq = (st', res)" and "clk \<le> now" and "a \<le> clk"
    and "clk - a \<le> sigSkew \<longrightarrow> (\<exists>at \<ge> a. (n, at) \<in> set (au_nonces st))"
  shows "now - a \<le> sigSkew \<longrightarrow> (\<exists>at \<ge> a. (n, at) \<in> set (au_nonces st'))"
proof
  assume w: "now - a \<le> sigSkew"
  then obtain at where at: "a \<le> at" "(n, at) \<in> set (au_nonces st)" using assms(2,4) by fastforce
  from authorize_nonces [OF assms(1)] show "\<exists>at \<ge> a. (n, at) \<in> set (au_nonces st')"
  proof
    assume "\<exists>m ok. UseNonce (au_nonces st) m now = (au_nonces st', ok)"
    then obtain m ok where u: "UseNonce (au_nonces st) m now = (au_nonces st', ok)" by blast
    have "now - at \<le> sigSkew" using w at(1) by simp
    from use_nonce(2) [OF u at(2) this] obtain at' where "min at now \<le> at'" "(n, at') \<in> set (au_nonces st')" by blast
    then show ?thesis using at(1) assms(2,3) by (intro exI [of _ at']) auto
  qed (use at in auto)
qed

lemma nonce_invD:
  "nonce_inv (st, clk, log) \<Longrightarrow> (n, ts, a) \<in> set log \<Longrightarrow>
     a \<le> clk \<and> (clk - a \<le> sigSkew \<longrightarrow> (\<exists>at \<ge> a. (n, at) \<in> set (au_nonces st)))"
  by (auto simp: nonce_inv_def)

lemma nonce_inv_step: "auth_step cr cl c c' \<Longrightarrow> nonce_inv c \<Longrightarrow> nonce_inv c'"
proof (induction rule: auth_step.induct)
  case (refused s want now st rq st' c e clk log)
  then show ?case using nonce_kept [OF refused(1,2)] by (fastforce simp: nonce_inv_def)
next
  case (granted s want now st rq st' i b clk sg log)
  note g = authorize_granted [OF granted(1,3)]
  have new: "a < sg_ts sg * sec" if mem: "(sg_nonce sg, ts, a) \<in> set log" for ts a
  proof (rule ccontr)
    assume "\<not> a < sg_ts sg * sec"
    then have w: "now - a \<le> sigSkew" using g(2) by simp
    then obtain at where at: "a \<le> at" "(sg_nonce sg, at) \<in> set (au_nonces st)"
      using nonce_invD [OF granted(4) mem] granted(2) by auto
    then have "(sg_nonce sg, at) \<in> set (nonce_purge (au_nonces st) now)" using w by (simp add: purge_mem)
    then have "sg_nonce sg \<in> fst ` set (nonce_purge (au_nonces st) now)" by (rule image_eqI [rotated]) simp
    then show False using use_nonce(1) [OF g(1)] by simp
  qed
  have "(sg_nonce sg, now) \<in> set (au_nonces st')" using use_nonce(1) [OF g(1)] by simp
  then show ?case using granted(2,4) nonce_kept [OF granted(1,2)] new by (fastforce simp: nonce_inv_def)
qed

lemma nonce_inv_reach: "auth_reach cr cl c \<Longrightarrow> nonce_inv c"
  by (induction rule: rtranclp_induct) (auto simp: nonce_inv_def auth_init_def dest: nonce_inv_step [unfolded nonce_inv_def])

section \<open>The rate limiter\<close>

definition rate_ok :: "'l rate_state \<Rightarrow> bool" where
  "rate_ok st \<longleftrightarrow> dom (rl_by_id st) = set (rl_order st) \<and> distinct (rl_order st) \<and> length (rl_order st) \<le> patRateLimitLRUMax"

lemma rate_lru:
  assumes ok: "rate_ok st" and r: "rate_allow la st i = (st', b)"
  shows "rate_ok st'" and "rl_order st' = take patRateLimitLRUMax (i # removeAll i (rl_order st))"
    and "j \<noteq> i \<Longrightarrow> j \<in> set (rl_order st') \<Longrightarrow> rl_by_id st' j = rl_by_id st j"
proof -
  have pos: "0 < patRateLimitLRUMax" by (simp add: patRateLimitLRUMax_def)
  have "rate_ok st' \<and> rl_order st' = take patRateLimitLRUMax (i # removeAll i (rl_order st)) \<and>
      (j \<noteq> i \<longrightarrow> j \<in> set (rl_order st') \<longrightarrow> rl_by_id st' j = rl_by_id st j)" for j
  proof (cases "rl_by_id st i")
    case (Some lim)
    then have m: "i \<in> set (rl_order st)" using ok by (auto simp: rate_ok_def)
    obtain lim' where st': "st' = \<lparr>rl_by_id = (rl_by_id st)(i \<mapsto> lim'), rl_order = i # removeAll i (rl_order st)\<rparr>"
      using r Some by (auto simp: rate_allow_def split: prod.splits)
    have "length (i # removeAll i (rl_order st)) \<le> length (rl_order st)"
      using length_removeAll_less [OF m] by simp
    then have l: "length (i # removeAll i (rl_order st)) \<le> patRateLimitLRUMax" using ok by (simp add: rate_ok_def)
    then show ?thesis using ok m st' by (auto simp: rate_ok_def distinct_removeAll)
  next
    case None
    then have m: "i \<notin> set (rl_order st)" using ok by (auto simp: rate_ok_def)
    obtain lim' where u: "la_allow la (la_fresh la) = (lim', b)"
      using r None by (cases "la_allow la (la_fresh la)") (auto simp: rate_allow_def Let_def split: if_splits)
    show ?thesis
    proof (cases "length (rl_order st) < patRateLimitLRUMax")
      case True
      then have "st' = \<lparr>rl_by_id = (rl_by_id st)(i \<mapsto> lim'), rl_order = i # rl_order st\<rparr>"
        using r None u by (simp add: rate_allow_def Let_def)
      then show ?thesis using ok m True by (auto simp: rate_ok_def)
    next
      case False
      then have full: "length (rl_order st) = patRateLimitLRUMax" using ok by (simp add: rate_ok_def)
      then have ne: "rl_order st \<noteq> []" using pos by auto
      let ?o = "rl_order st"
      have st': "st' = \<lparr>rl_by_id = ((rl_by_id st)(i \<mapsto> lim'))(last ?o := None), rl_order = i # butlast ?o\<rparr>"
        using r None u full ne by (simp add: rate_allow_def Let_def)
      have sp: "?o = butlast ?o @ [last ?o]" using ne by simp
      have d: "distinct ?o" using ok by (simp add: rate_ok_def)
      have lst: "last ?o \<notin> set (butlast ?o)" using d sp by (metis distinct_append disjoint_iff list.set_intros(1))
      have st: "set ?o = insert (last ?o) (set (butlast ?o))" using sp by (metis Un_insert_right append_Nil2 list.simps(15) set_append sup_bot_right list.set(1))
      have tk: "take patRateLimitLRUMax (i # removeAll i ?o) = i # butlast ?o"
        using m full pos by (simp add: take_Cons' butlast_conv_take)
      have li: "last ?o \<noteq> i" using m ne last_in_set by metis
      show ?thesis
        using ok m st' tk lst st li full ne pos distinct_butlast [OF d]
        by (auto simp: rate_ok_def)
    qed
  qed
  then show "rate_ok st'" "rl_order st' = take patRateLimitLRUMax (i # removeAll i (rl_order st))"
    "j \<noteq> i \<Longrightarrow> j \<in> set (rl_order st') \<Longrightarrow> rl_by_id st' j = rl_by_id st j" by blast+
qed

section \<open>Properties\<close>

definition demo_crypto :: crypto where
  "demo_crypto = \<lparr>cr_sha256 = (\<lambda>s. []), cr_hmac = (\<lambda>k m. [0, 0, 0])\<rparr>"

definition pat_state :: kv_state where
  "pat_state = ([(''/pats/abcdef'', DPat \<lparr>pt_id = ''abcdef'', pt_hash = ''h'', pt_scopes = [''read''], pt_name = [],
     pt_created = 0, pt_last_used = 0\<rparr>)], False)"

text \<open>Signed at 700 seconds by the clock of the caller.\<close>

definition early_request :: pat_request where
  "early_request = \<lparr>rq_auth = ''Voodu id=abcdef,ts=700,nonce=n1,sig=AAAA'', rq_method = ''GET'', rq_path = ''/'',
     rq_query = [], rq_body = Inr []\<rparr>"

definition early_signed :: signed_request where
  "early_signed = \<lparr>sg_id = ''abcdef'', sg_ts = 700, sg_nonce = ''n1'', sg_sig = ''AAAA''\<rparr>"

definition served :: "int \<Rightarrow> auth_state \<Rightarrow> auth_state \<times> auth_result" where
  "served now st = authorize demo_crypto kv_client pat_state ''read'' now st early_request"

lemma early_parsed: "parseSignatureHeader (rq_auth early_request) = Some early_signed"
  by code_simp

lemma zero_token: "b64_encode (0 # 0 # 0 # bs) = ''AAAA'' @ b64_encode bs"
  by (simp add: b64_char_def b64_alphabet_def Let_def)

lemma served_at:
  assumes "400 * sec \<le> now" and "now \<le> 1000 * sec" and "map_of (nonce_purge (au_nonces st) now) ''n1'' = None"
    and "length (nonce_purge (au_nonces st) now) < sigNonceCap"
  shows "served now st = (\<lparr>au_nonces = kv_set ''n1'' now (nonce_purge (au_nonces st) now),
    au_touched = fst (shouldTouch (au_touched st) ''abcdef'' now)\<rparr>, Granted ''abcdef'' (snd (shouldTouch (au_touched st) ''abcdef'' now)))"
proof -
  have g: "GetPAT kv_client pat_state ''abcdef'' = Inr (Some \<lparr>pt_id = ''abcdef'', pt_hash = ''h'', pt_scopes = [''read''],
      pt_name = [], pt_created = 0, pt_last_used = 0\<rparr>)"
    by (simp add: GetPAT_def kv_client_def kv_ret_def pat_state_def PATKey_def PATsPrefix_def)
  have v: "verifySignature demo_crypto k c ''AAAA''" for k c
    using zero_token [of "[]"] by (simp add: verifySignature_def demo_crypto_def)
  have b: "rq_body early_request = Inr []" by (simp add: early_request_def)
  show ?thesis unfolding served_def authorize_def early_parsed
    using assms v by (simp add: early_signed_def g b Let_def UseNonce_def HasScope_def sigSkew_def sec_def split: prod.split)
qed

lemma served_granted:
  "(case served (400 * sec) (fst auth_init) of (st1, r) \<Rightarrow>
     r = Granted ''abcdef'' True \<and> au_nonces st1 = [(''n1'', 400 * sec)] \<and>
     (case served (800 * sec) st1 of (st2, r2) \<Rightarrow> r2 = Granted ''abcdef'' True))"
  by (simp add: served_at auth_init_def nonce_purge_def sigSkew_def sec_def sigNonceCap_def shouldTouch_def touchCoalesceWindow_def)



text \<open>
  A request signed for a time in the future can be replayed: its nonce is forgotten five minutes
  after it arrived, but its timestamp is accepted until five minutes after itself. Between the two the
  same request is granted again.
\<close>

theorem future_timestamp_replays:
  assumes "authorize cr cl s want now st rq = (st1, Granted i b)" and "parseSignatureHeader (rq_auth rq) = Some sg"
    and "now + sigSkew < again" and "again \<le> sg_ts sg * sec + sigSkew"
    and "length (nonce_purge (au_nonces st1) again) < sigNonceCap"
  shows "\<exists>st2 b2. authorize cr cl s want again st1 rq = (st2, Granted i b2)"
proof -
  let ?n = "sg_nonce sg"
  have u: "UseNonce (au_nonces st) ?n now = (au_nonces st1, True)" using authorize_granted(1) [OF assms(1,2)] .
  have e: "map_of (nonce_purge (au_nonces st) now) ?n = None" "au_nonces st1 = kv_set ?n now (nonce_purge (au_nonces st) now)"
    using u by (auto simp: UseNonce_def Let_def split: if_splits)
  have sub: "x \<in> set (kv_set k v m) \<Longrightarrow> x = (k, v) \<or> x \<in> set m" for x k v and m :: nonce_cache
    by (induction m) (auto split: if_splits)
  have own: "at = now" if "(?n, at) \<in> set (au_nonces st1)" for at
  proof -
    have "(?n, at) \<notin> set (nonce_purge (au_nonces st) now)" using e(1) by (metis option.distinct(1) weak_map_of_SomeI)
    then show ?thesis using sub [of "(?n, at)"] that e(2) by auto
  qed
  have fresh: "map_of (nonce_purge (au_nonces st1) again) ?n = None"
  proof (rule ccontr)
    assume "map_of (nonce_purge (au_nonces st1) again) ?n \<noteq> None"
    then obtain at where "(?n, at) \<in> set (nonce_purge (au_nonces st1) again)" by (auto dest: map_of_SomeD)
    then show False using own [of at] assms(3) by (simp add: purge_mem)
  qed
  obtain ns where ns: "UseNonce (au_nonces st1) ?n again = (ns, True)"
    using fresh assms(5) by (simp add: UseNonce_def Let_def)
  have sk: "\<not> (again - sg_ts sg * sec > sigSkew \<or> again - sg_ts sg * sec < - sigSkew)"
  proof -
    have "\<not> now - sg_ts sg * sec < - sigSkew"
      using assms(1,2) by (auto simp: authorize_def Let_def split: if_splits)
    then show ?thesis using assms(3,4) by (auto simp: sigSkew_def sec_def)
  qed
  obtain p body where p: "GetPAT cl s (sg_id sg) = Inr (Some p)" "rq_body rq = Inr body" "HasScope p want" "i = sg_id sg"
    "verifySignature cr (pt_hash p)
      (signatureCanonical cr (rq_method rq) (rq_path rq) (rq_query rq) body (sg_ts sg) (sg_nonce sg)) (sg_sig sg)"
    using assms(1,2) by (auto simp: authorize_def Let_def split: if_splits sum.splits option.splits prod.splits bool.splits)
  obtain tc t where "shouldTouch (au_touched st1) (sg_id sg) again = (tc, t)" by fastforce
  then have "authorize cr cl s want again st1 rq = (\<lparr>au_nonces = ns, au_touched = tc\<rparr>, Granted i t)"
    using assms(2) sk p ns by (simp add: authorize_def Let_def)
  then show ?thesis by blast
qed

theorem future_timestamp_replays_witness:
  "\<exists>st1 st2 b. served (400 * sec) (fst auth_init) = (st1, Granted ''abcdef'' True) \<and>
     served (800 * sec) st1 = (st2, Granted ''abcdef'' b)"
proof -
  obtain st1 where s1: "served (400 * sec) (fst auth_init) = (st1, Granted ''abcdef'' True)" "au_nonces st1 = [(''n1'', 400 * sec)]"
    using served_granted by (auto split: prod.splits)
  have "\<exists>st2 b2. authorize demo_crypto kv_client pat_state ''read'' (800 * sec) st1 early_request = (st2, Granted ''abcdef'' b2)"
    using s1(2) by (intro future_timestamp_replays [OF s1(1) [unfolded served_def] early_parsed])
      (simp_all add: early_signed_def sigSkew_def sec_def nonce_purge_def sigNonceCap_def)
  then show ?thesis using s1(1) by (auto simp: served_def)
qed

text \<open>
  C25: The signed text determines the request: two requests with the same text agree on the method
  (upper case aside), the path, the query as a multiset of pairs, the hash of the body, the timestamp
  and the nonce. No character of a path, a key or a value can move it from one field to another. (A
  method and a header field hold no line break.)
\<close>

theorem signature_binds_request:
  assumes "signatureCanonical cr m p q b ts n = signatureCanonical cr m' p' q' b' ts' n'"
    and "newline \<notin> set m" and "newline \<notin> set m'" and "newline \<notin> set n" and "newline \<notin> set n'"
  shows "to_upper m = to_upper m' \<and> p = p' \<and> mset (query_pairs q) = mset (query_pairs q')
    \<and> hex_encode (cr_sha256 cr b) = hex_encode (cr_sha256 cr b') \<and> ts = ts' \<and> n = n'"
  by (rule canonical_binds [OF assms])

theorem signature_binds_request_witness:
  "mset (query_pairs [(''b'', [''2'']), (''a b'', [''1 & 2''])]) = mset (query_pairs [(''a b'', [''1 & 2'']), (''b'', [''2''])])"
proof -
  have "signatureCanonical demo_crypto ''get'' ''/pods'' [(''b'', [''2'']), (''a b'', [''1 & 2''])] [] 7 ''n''
      = signatureCanonical demo_crypto ''GET'' ''/pods'' [(''a b'', [''1 & 2'']), (''b'', [''2''])] [] 7 ''n''"
    by code_simp
  from signature_binds_request [OF this] show ?thesis by (simp add: newline_def)
qed

text \<open>
  C35: A generated token is well formed: it parses back to the id of its record, whose id has six
  characters, whose hash is the token's, and whose scopes are the requested ones, without duplicates.
\<close>

theorem generated_token_well_formed:
  assumes "GeneratePAT cr raw now scopes name = Inr (plain, p)"
  shows "ParsePATToken plain = Some (pt_id p) \<and> length (pt_id p) = patTokenIDLen \<and> pt_hash p = HashPAT cr plain
    \<and> pt_scopes p \<noteq> [] \<and> distinct (pt_scopes p) \<and> set (pt_scopes p) = set scopes"
  using generated_token [OF assms] by blast

theorem generated_token_well_formed_witness:
  "ParsePATToken (patTokenPrefix @ b64_encode (replicate 21 0)) = Some ''AAAAAA''"
proof -
  have "b64_encode (replicate (3 * k) 0) = replicate (4 * k) (CHR ''A'')" for k
  proof (induction k)
    case (Suc k)
    have "replicate (3 * Suc k) (0 :: 8 word) = 0 # 0 # 0 # replicate (3 * k) 0" by (simp add: numeral_3_eq_3)
    moreover have "replicate (4 * Suc k) (CHR ''A'') = ''AAAA'' @ replicate (4 * k) (CHR ''A'')" by (simp add: eval_nat_numeral)
    ultimately show ?case using Suc by (simp only: zero_token)
  qed simp
  from this [of 7] have e: "b64_encode (replicate 21 0) = replicate 28 (CHR ''A'')" by simp
  have six: "replicate 6 (CHR ''A'') = ''AAAAAA''" by (simp add: eval_nat_numeral)
  have "GeneratePAT demo_crypto (Inr (replicate 21 0)) 0 [''read''] [] = Inr (patTokenPrefix @ b64_encode (replicate 21 0),
      \<lparr>pt_id = ''AAAAAA'', pt_hash = HashPAT demo_crypto (patTokenPrefix @ b64_encode (replicate 21 0)), pt_scopes = normalizeScopes [''read''],
        pt_name = trim_space [], pt_created = 0, pt_last_used = 0\<rparr>)"
    by (simp add: GeneratePAT_def Let_def e six take_replicate patTokenBodyLen_def patTokenIDLen_def validScope_def scopeOrder_def)
  from generated_token_well_formed [OF this] show ?thesis by simp
qed

text \<open>
  C27: The rate limiter's map and recency list are one least-recently-used cache: from a consistent
  state, a request puts its id in front of the list, drops what exceeds the capacity from its back,
  keeps the limiter of every other id that stays, and leaves the map's keys and the list equal.
\<close>

theorem rate_limiter_is_lru:
  assumes "rate_ok st" and "rate_allow la st i = (st', b)"
  shows "rate_ok st' \<and> rl_order st' = take patRateLimitLRUMax (i # removeAll i (rl_order st))
    \<and> (\<forall>j. j \<noteq> i \<longrightarrow> j \<in> set (rl_order st') \<longrightarrow> rl_by_id st' j = rl_by_id st j)"
  using rate_lru [OF assms] by blast

theorem rate_limiter_is_lru_witness:
  "rl_order (fst (rate_allow \<lparr>la_fresh = 3 :: nat, la_allow = (\<lambda>n. (n - 1, 0 < n))\<rparr>
     \<lparr>rl_by_id = [''x'' \<mapsto> 1, ''y'' \<mapsto> 2], rl_order = [''y'', ''x'']\<rparr> ''x'')) = [''x'', ''y'']"
proof -
  have "rate_ok \<lparr>rl_by_id = [''x'' \<mapsto> (1 :: nat), ''y'' \<mapsto> 2], rl_order = [''y'', ''x'']\<rparr>"
    by (auto simp: rate_ok_def patRateLimitLRUMax_def)
  from rate_limiter_is_lru [OF this prod.collapse [symmetric]] show ?thesis by (simp add: patRateLimitLRUMax_def)
qed

end
