(* ===== verification/Probes.thy ===== *)
theory Probes
  imports Stateful
begin

text \<open>
  Health checks: \<open>internal/probe\<close> (a probe's spec, one attempt, the runner that counts attempts against
  the thresholds) and the registry of runners of the control plane (\<open>internal/controller/probes.go\<close>).
  HTTP, TCP and \<open>docker exec\<close> are a record of functions on the outside world.

  The registry is concurrent: every runner is a goroutine that samples and buffers events, every
  buffer has a goroutine that drains it, and recording a state is a goroutine of its own. Each
  critical section is one event of \<open>reg_apply\<close>, and a run of the controller is any sequence of events.
\<close>

section \<open>The spec of a probe\<close>

text \<open>\<open>probe.Spec\<close> with its \<open>Action\<close>; durations are nanoseconds.\<close>

record runner_spec =
  qs_http :: "http_get option"
  qs_tcp :: "int option"
  qs_exec :: "string list option"
  qs_delay :: int
  qs_period :: int
  qs_timeout :: int
  qs_failures :: int
  qs_successes :: int

definition second :: int where "second = 10 ^ 9"

definition applyDefaults :: "runner_spec \<Rightarrow> runner_spec" where
  "applyDefaults s =
     s\<lparr>qs_period := (if qs_period s = 0 then 10 * second else qs_period s),
       qs_timeout := (if qs_timeout s = 0 then second else qs_timeout s),
       qs_failures := (if qs_failures s = 0 then 3 else qs_failures s),
       qs_successes := (if qs_successes s = 0 then 1 else qs_successes s)\<rparr>"

text \<open>A sequence of checks that returns the message of the first one that fails.\<close>

fun first_failing :: "(bool \<times> string) list \<Rightarrow> string option" where
  "first_failing [] = None"
| "first_failing ((bad, msg) # cs) = (if bad then Some msg else first_failing cs)"

definition set_count :: "'a option \<Rightarrow> 'b option \<Rightarrow> 'c option \<Rightarrow> nat" where
  "set_count a b c = (if a = None then 0 else 1) + (if b = None then 0 else 1) + (if c = None then 0 else 1)"

text \<open>The byte sequences of the arrow and the dash in the messages.\<close>

definition arrow :: string where "arrow = [CHR 0xE2, CHR 0x86, CHR 0x92]"
definition dash :: string where "dash = [CHR 0xE2, CHR 0x80, CHR 0x94]"

definition quoted_slash :: string where "quoted_slash = [CHR 0x27, CHR ''/'', CHR 0x27]"

definition none_set :: string where
  "none_set = ''probe requires exactly one of http_get / tcp_socket / exec (none set)''"

definition ValidateSpec :: "runner_spec \<Rightarrow> string option" where
  "ValidateSpec s =
     (let h = qs_http s; n = set_count (qs_http s) (qs_tcp s) (qs_exec s) in
      first_failing
       [(\<exists>a \<in> set_option h. hg_path a = [], ''http_get.path is required''),
        (\<exists>a \<in> set_option h. \<not> has_prefix (hg_path a) ''/'', ''http_get.path must start with '' @ quoted_slash),
        (\<exists>a \<in> set_option h. hg_port a \<le> 0, ''http_get.port is required (got '' @ itoa_int (hg_port (the h)) @ '')''),
        (\<exists>p \<in> set_option (qs_tcp s). p \<le> 0, ''tcp_socket.port is required (got '' @ itoa_int (the (qs_tcp s)) @ '')''),
        (qs_exec s = Some [], ''exec.command must be non-empty''),
        (n = 0, none_set),
        (n > 1, ''probe requires exactly one of http_get / tcp_socket / exec (got '' @ itoa n @ '')''),
        (qs_delay s < 0, ''initial_delay must be >= 0''),
        (qs_period s < 0, ''period must be >= 0 (0 '' @ arrow @ '' 10s default)''),
        (qs_timeout s < 0, ''timeout must be >= 0 (0 '' @ arrow @ '' 1s default)''),
        (qs_failures s < 0, ''failure_threshold must be >= 0 (0 '' @ arrow @ '' 3 default)''),
        (qs_successes s < 0, ''success_threshold must be >= 0 (0 '' @ arrow @ '' 1 default)'')])"

text \<open>
  What the manifest layer checks of a declared probe (\<open>validateProbeShape\<close> of
  \<open>internal/manifest/parse.go\<close>): the same shape, none of the durations and thresholds.
\<close>

definition validateProbeShape :: "probe_spec option \<Rightarrow> string \<Rightarrow> string option" where
  "validateProbeShape p kind =
     (case p of None \<Rightarrow> None
      | Some p \<Rightarrow>
          (let h = pb_http p; n = set_count (pb_http p) (pb_tcp p) (pb_exec p); pre = ''probes.'' @ kind in
           first_failing
            [(\<exists>a \<in> set_option h. hg_path a = [], pre @ ''.http_get.path is required''),
             (\<exists>a \<in> set_option h. \<not> has_prefix (hg_path a) ''/'', pre @ ''.http_get.path must start with '' @ quoted_slash),
             (\<exists>a \<in> set_option h. hg_port a \<le> 0,
                pre @ ''.http_get.port is required (got '' @ itoa_int (hg_port (the h)) @ '')''),
             (\<exists>q \<in> set_option (pb_tcp p). q \<le> 0,
                pre @ ''.tcp_socket.port is required (got '' @ itoa_int (the (pb_tcp p)) @ '')''),
             (pb_exec p = Some [], pre @ ''.exec.command must be non-empty''),
             (n = 0, pre @ '' requires exactly one of http_get / tcp_socket / exec''),
             (n > 1, pre @ '': only one of http_get / tcp_socket / exec may be declared'')]))"

definition validateProbes :: "probes_spec option \<Rightarrow> string option" where
  "validateProbes p =
     (case p of None \<Rightarrow> None
      | Some p \<Rightarrow>
          (case validateProbeShape (pr_liveness p) ''liveness'' of Some e \<Rightarrow> Some e
           | None \<Rightarrow> (case validateProbeShape (pr_readiness p) ''readiness'' of Some e \<Rightarrow> Some e
                     | None \<Rightarrow> validateProbeShape (pr_startup p) ''startup'')))"

definition parseProbeDuration :: "string \<Rightarrow> int" where
  "parseProbeDuration s = (if s = [] then 0 else case ParseDuration s of None \<Rightarrow> 0 | Some d \<Rightarrow> d)"

definition wireToProbeSpec :: "probe_spec \<Rightarrow> runner_spec" where
  "wireToProbeSpec p =
     \<lparr>qs_http = pb_http p, qs_tcp = pb_tcp p, qs_exec = pb_exec p,
      qs_delay = parseProbeDuration (pb_initial_delay p), qs_period = parseProbeDuration (pb_period p),
      qs_timeout = parseProbeDuration (pb_timeout p), qs_failures = pb_failures p, qs_successes = pb_successes p\<rparr>"

section \<open>One attempt\<close>

record probe_result =
  rt_ok :: bool
  rt_reason :: string
  rt_at :: int

text \<open>
  The executors on a world \<open>'w\<close>, each with the timeout of the attempt: an HTTP status, an error of
  a dial, and exit code, output and error of a command, \<open>None\<close> when no exec runner is configured.
\<close>

record 'w executors =
  ex_http :: "'w \<Rightarrow> int \<Rightarrow> string \<Rightarrow> vars \<Rightarrow> 'w \<times> (string + int)"
  ex_tcp :: "'w \<Rightarrow> int \<Rightarrow> string \<Rightarrow> 'w \<times> string option"
  ex_exec :: "('w \<Rightarrow> int \<Rightarrow> string \<Rightarrow> string list \<Rightarrow> 'w \<times> int \<times> string \<times> string option) option"

definition failed :: "int \<Rightarrow> string \<Rightarrow> probe_result" where
  "failed now reason = \<lparr>rt_ok = False, rt_reason = reason, rt_at = now\<rparr>"

definition passed :: "int \<Rightarrow> probe_result" where
  "passed now = \<lparr>rt_ok = True, rt_reason = [], rt_at = now\<rparr>"

definition show_argv :: "string list \<Rightarrow> string" where
  "show_argv cmd = ''['' @ join '' '' cmd @ '']''"

definition execute :: "'w executors \<Rightarrow> int \<Rightarrow> 'w \<Rightarrow> runner_spec \<Rightarrow> string \<Rightarrow> string \<Rightarrow> 'w \<times> probe_result" where
  "execute ex now w spec container addr =
     (case qs_http spec of
        Some a \<Rightarrow>
          (let scheme = (if hg_scheme a = [] then ''http'' else hg_scheme a);
               url = scheme @ ''://'' @ addr @ '':'' @ itoa_int (hg_port a) @ hg_path a
           in case ex_http ex w (qs_timeout spec) url (hg_headers a) of
                (w', Inl e) \<Rightarrow> (w', failed now (''GET '' @ url @ '': '' @ e))
              | (w', Inr code) \<Rightarrow>
                  if code \<ge> 200 \<and> code < 400 then (w', passed now)
                  else (w', failed now (''GET '' @ url @ '' '' @ arrow @ '' '' @ itoa_int code)))
      | None \<Rightarrow>
      (case qs_tcp spec of
        Some port \<Rightarrow>
          (let address = addr @ '':'' @ itoa_int port
           in case ex_tcp ex w (qs_timeout spec) address of
                (w', Some e) \<Rightarrow> (w', failed now (''dial '' @ address @ '': '' @ e))
              | (w', None) \<Rightarrow> (w', passed now))
      | None \<Rightarrow>
      (case qs_exec spec of
        Some cmd \<Rightarrow>
          (case ex_exec ex of
             None \<Rightarrow> (w, failed now ''no exec runner configured'')
           | Some run \<Rightarrow>
               (case run w (qs_timeout spec) container cmd of
                  (w', code, stderr, Some e) \<Rightarrow> (w', failed now (''exec '' @ show_argv cmd @ '': '' @ e))
                | (w', code, stderr, None) \<Rightarrow>
                    if code = 0 then (w', passed now)
                    else let reason = ''exec '' @ show_argv cmd @ '': exit '' @ itoa_int code
                         in (w', failed now (if stderr = [] then reason else reason @ '' '' @ dash @ '' '' @ trim_space stderr))))
      | None \<Rightarrow> (w, failed now ''no action selector''))))"

text \<open>
  \<open>execAdapter\<close>: the control plane's exec writes the output in chunks to a \<open>capturingWriter\<close>, which
  keeps the first \<open>limit\<close> bytes.
\<close>

definition capture :: "nat \<Rightarrow> string \<Rightarrow> string \<Rightarrow> string" where
  "capture limit buf p =
     (if length buf \<ge> limit then buf
      else let remaining = limit - length buf
           in if length p > remaining then buf @ take remaining p else buf @ p)"

definition execAdapter ::
  "('w \<Rightarrow> string \<Rightarrow> string list \<Rightarrow> 'w \<times> int \<times> string list \<times> string option) option \<Rightarrow> string \<Rightarrow>
   ('w \<Rightarrow> int \<Rightarrow> string \<Rightarrow> string list \<Rightarrow> 'w \<times> int \<times> string \<times> string option) option" where
  "execAdapter ex container =
     map_option (\<lambda>run w timeout c cmd.
       case run w container cmd of (w', code, chunks, err) \<Rightarrow> (w', code, foldl (capture 1024) [] chunks, err)) ex"

lemma length_capture: "length buf \<le> limit \<Longrightarrow> length (capture limit buf p) \<le> limit"
  by (auto simp: capture_def Let_def)

lemma capture_take: "capture limit (take limit a) p = take limit (a @ p)"
  by (auto simp: capture_def Let_def min_def)

lemma capture_chunks: "foldl (capture limit) (take limit a) ps = take limit (a @ concat ps)"
proof (induction ps arbitrary: a)
  case (Cons p ps)
  show ?case using Cons [of "a @ p"] by (simp del: take_append add: capture_take)
qed simp

section \<open>The runner\<close>

datatype phase = PhaseUnknown | PhaseHealthy | PhaseUnhealthy

fun phase_text :: "phase \<Rightarrow> string" where
  "phase_text PhaseHealthy = ''healthy''"
| "phase_text PhaseUnhealthy = ''unhealthy''"
| "phase_text PhaseUnknown = ''unknown''"

record probe_event =
  pe_phase :: phase
  pe_result :: probe_result
  pe_transition :: bool

text \<open>Where the goroutine of a runner is: before its first attempt, in its loop, or ended.\<close>

datatype run_at = AtStart | Ticking | Ended

record runner =
  rn_spec :: runner_spec
  rn_container :: string
  rn_host :: string
  rn_stop_on_ready :: bool
  rn_fails :: int
  rn_oks :: int
  rn_phase :: phase
  rn_last_phase :: phase
  rn_events :: "probe_event list"
  rn_at :: run_at

definition NewRunner :: "runner_spec \<Rightarrow> string \<Rightarrow> string \<Rightarrow> bool \<Rightarrow> runner" where
  "NewRunner spec container addr stop_on_ready =
     \<lparr>rn_spec = applyDefaults spec, rn_container = container, rn_host = addr, rn_stop_on_ready = stop_on_ready,
      rn_fails = 0, rn_oks = 0, rn_phase = PhaseUnknown, rn_last_phase = PhaseUnknown, rn_events = [], rn_at = AtStart\<rparr>"

definition eventBuffer :: nat where "eventBuffer = 16"

text \<open>A full buffer loses its oldest event.\<close>

definition push_event :: "probe_event list \<Rightarrow> probe_event \<Rightarrow> probe_event list" where
  "push_event evs ev = (if length evs < eventBuffer then evs @ [ev] else tl evs @ [ev])"

definition count_result :: "runner \<Rightarrow> bool \<Rightarrow> runner" where
  "count_result r ok =
     (if ok then
        let r' = r\<lparr>rn_fails := 0, rn_oks := rn_oks r + 1\<rparr>
        in if rn_oks r' \<ge> qs_successes (rn_spec r) then r'\<lparr>rn_phase := PhaseHealthy\<rparr> else r'
      else
        let r' = r\<lparr>rn_oks := 0, rn_fails := rn_fails r + 1\<rparr>
        in if rn_fails r' \<ge> qs_failures (rn_spec r) then r'\<lparr>rn_phase := PhaseUnhealthy\<rparr> else r')"

text \<open>\<open>sample\<close> on the result of its attempt; the flag is the call of \<open>onTrigger\<close>.\<close>

definition sample :: "runner \<Rightarrow> probe_result \<Rightarrow> runner \<times> bool" where
  "sample r res =
     (let r' = count_result r (rt_ok res);
          transition = (rn_phase r' \<noteq> rn_phase r \<and> rn_phase r' \<noteq> PhaseUnknown);
          ev = \<lparr>pe_phase = rn_phase r', pe_result = res, pe_transition = transition\<rparr>
      in (r'\<lparr>rn_last_phase := rn_phase r', rn_events := push_event (rn_events r) ev\<rparr>,
          transition \<and> rn_phase r' = PhaseUnhealthy))"

definition shouldStop :: "runner \<Rightarrow> bool" where
  "shouldStop r = (rn_stop_on_ready r \<and> rn_phase r = PhaseHealthy)"

text \<open>
  One turn of \<open>Run\<close>: an attempt, then the end of a startup probe that passed. After the first attempt
  the ticker is made: \<open>time.NewTicker\<close> panics when its period is not positive, and a panic in a
  goroutine ends the process; that is \<open>None\<close>.
\<close>

definition run_turn :: "runner \<Rightarrow> probe_result \<Rightarrow> (runner \<times> bool) option" where
  "run_turn r res =
     (case sample r res of
        (r', trig) \<Rightarrow>
          if shouldStop r' then Some (r'\<lparr>rn_at := Ended\<rparr>, trig)
          else if rn_at r = AtStart \<and> qs_period (rn_spec r) \<le> 0 then None
          else Some (r'\<lparr>rn_at := Ticking\<rparr>, trig))"

text \<open>The turns of a runner over a sequence of results: the runner and the number of triggers.\<close>

fun run_turns :: "runner \<Rightarrow> probe_result list \<Rightarrow> (runner \<times> nat) option" where
  "run_turns r [] = Some (r, 0)"
| "run_turns r (res # rs) =
     (if rn_at r = Ended then Some (r, 0)
      else case run_turn r res of
             None \<Rightarrow> None
           | Some (r', trig) \<Rightarrow>
               map_option (\<lambda>(r'', n). (r'', n + (if trig then 1 else 0))) (run_turns r' rs))"

section \<open>The readiness of a replica\<close>

datatype probe_kind = Liveness | Readiness | Startup

fun kind_text :: "probe_kind \<Rightarrow> string" where
  "kind_text Liveness = ''liveness''"
| "kind_text Readiness = ''readiness''"
| "kind_text Startup = ''startup''"

text \<open>\<open>replicaReadiness\<close>.\<close>

record gate =
  ga_has_startup :: bool
  ga_has_readiness :: bool
  ga_startup_passed :: bool
  ga_phase :: phase
  ga_reason :: string
  ga_last_transition :: int
  ga_planned_teardown :: bool
  ga_had_failure :: bool

definition gate_ready :: "gate \<Rightarrow> bool" where
  "gate_ready s =
     ((\<not> ga_has_startup s \<or> ga_startup_passed s) \<and> (\<not> ga_has_readiness s \<or> ga_phase s = PhaseHealthy))"

definition gate_snapshot :: "gate \<Rightarrow> string \<Rightarrow> string \<Rightarrow> readiness_status" where
  "gate_snapshot s containerName replicaID =
     \<lparr>rs_container = containerName, rs_replica_id = replicaID, rs_ready = gate_ready s,
      rs_startup_passed = ga_startup_passed s,
      rs_phase = (if ga_has_readiness s then phase_text (ga_phase s) else []),
      rs_reason = ga_reason s, rs_last_transition = ga_last_transition s\<rparr>"

definition replicaIDFromContainerName :: "string \<Rightarrow> string" where
  "replicaIDFromContainerName nm =
     (if CHR ''.'' \<in> set nm then rev (takeWhile (\<lambda>c. c \<noteq> CHR ''.'') (rev nm)) else nm)"

lemma replica_id_of_container: "CHR ''.'' \<notin> set i \<Longrightarrow> replicaIDFromContainerName (a @ CHR ''.'' # i) = i"
proof -
  assume i: "CHR ''.'' \<notin> set i"
  then have "takeWhile (\<lambda>c. c \<noteq> CHR ''.'') (rev i @ CHR ''.'' # rev a) = rev i"
    by (subst takeWhile_append2) auto
  then show ?thesis by (simp add: replicaIDFromContainerName_def)
qed

section \<open>The registry\<close>

text \<open>
  \<open>runnerEntry\<close>, with the runners its goroutines own, and the app and the webhooks its drains hold.
  \<open>rg_closing\<close> are the entries that were stopped: their drains go on with what is buffered.
  \<open>rg_pending\<close> are the records whose goroutine has not run yet. The rest of the state is what the
  registry does to the outside: the status documents, the restarts and the transitions it reports.
\<close>

record entry =
  en_app :: string
  en_gate :: gate
  en_runners :: "probe_kind \<Rightarrow> runner option"
  en_on_probe :: "json option"

record transition_event =
  te_scope :: string
  te_name :: string
  te_pod :: string
  te_probe :: string
  te_transition :: string
  te_reason :: string
  te_at :: int
  te_on_probe :: "json option"

record 's registry =
  rg_live :: "string \<Rightarrow> entry option"
  rg_closing :: "(string \<times> entry) list"
  rg_pending :: "(string \<times> readiness_status) list"
  rg_store :: 's
  rg_restarts :: "string list"
  rg_sent :: "transition_event list"
  rg_up :: bool

text \<open>\<open>ReadinessRecorder\<close> without its webhook, which \<open>rg_sent\<close> stands for.\<close>

record 's recorder =
  rc_record :: "'s \<Rightarrow> string \<Rightarrow> readiness_status \<Rightarrow> 's"
  rc_clear :: "'s \<Rightarrow> string \<Rightarrow> string \<Rightarrow> 's"

definition deployment_recorder :: "'s etcd \<Rightarrow> 's recorder" where
  "deployment_recorder cl = \<lparr>rc_record = RecordReplicaReadiness cl, rc_clear = ClearReplicaReadiness cl\<rparr>"

definition statefulset_recorder :: "'s etcd \<Rightarrow> 's recorder" where
  "statefulset_recorder cl = \<lparr>rc_record = sts_RecordReplicaReadiness cl, rc_clear = sts_ClearReplicaReadiness cl\<rparr>"

definition record_state :: "'s recorder option \<Rightarrow> 's \<Rightarrow> string \<Rightarrow> readiness_status \<Rightarrow> 's" where
  "record_state rc s app st = (case rc of None \<Rightarrow> s | Some r \<Rightarrow> rc_record r s app st)"

definition spawn :: "probe_spec option \<Rightarrow> string \<Rightarrow> string \<Rightarrow> bool \<Rightarrow> runner option" where
  "spawn p container addr stop_on_ready =
     map_option (\<lambda>p. NewRunner (wireToProbeSpec p) container addr stop_on_ready) p"

definition initial_gate :: "probes_spec \<Rightarrow> gate" where
  "initial_gate spec =
     \<lparr>ga_has_startup = pr_startup spec \<noteq> None, ga_has_readiness = pr_readiness spec \<noteq> None,
      ga_startup_passed = (pr_startup spec = None),
      ga_phase = (if pr_readiness spec = None then PhaseHealthy else PhaseUnknown),
      ga_reason = [], ga_last_transition = 0, ga_planned_teardown = False, ga_had_failure = False\<rparr>"

definition new_entry :: "string \<Rightarrow> string \<Rightarrow> string \<Rightarrow> probes_spec \<Rightarrow> json option \<Rightarrow> entry" where
  "new_entry app containerName addr spec onProbe =
     \<lparr>en_app = app, en_gate = initial_gate spec,
      en_runners = (\<lambda>k. case k of
         Startup \<Rightarrow> spawn (pr_startup spec) containerName addr True
       | Liveness \<Rightarrow> spawn (pr_liveness spec) containerName addr False
       | Readiness \<Rightarrow> spawn (pr_readiness spec) containerName addr False),
      en_on_probe = onProbe\<rparr>"

text \<open>\<open>ips\<close> is the address lookup, when one is configured; a failed lookup leaves the addr empty.\<close>

definition StartProbes ::
  "'s recorder option \<Rightarrow> (string \<Rightarrow> string + string) option \<Rightarrow> 's registry \<Rightarrow> string \<Rightarrow> string \<Rightarrow>
   probes_spec option \<Rightarrow> json option \<Rightarrow> 's registry" where
  "StartProbes rc ips g app containerName spec onProbe =
     (case spec of
        None \<Rightarrow> g
      | Some spec \<Rightarrow>
          if pr_liveness spec = None \<and> pr_readiness spec = None \<and> pr_startup spec = None then g
          else if rg_live g containerName \<noteq> None then g
          else
            let addr = (case ips of None \<Rightarrow> [] | Some f \<Rightarrow> (case f containerName of Inl e \<Rightarrow> [] | Inr ip \<Rightarrow> ip));
                e = new_entry app containerName addr spec onProbe
            in g\<lparr>rg_live := (rg_live g)(containerName \<mapsto> e),
                 rg_pending := (if rc = None then rg_pending g
                   else rg_pending g @ [(app, gate_snapshot (en_gate e) containerName (replicaIDFromContainerName containerName))])\<rparr>)"

definition MarkPlannedTeardown :: "'s registry \<Rightarrow> string \<Rightarrow> string \<Rightarrow> 's registry" where
  "MarkPlannedTeardown g app containerName =
     (case rg_live g containerName of
        None \<Rightarrow> g
      | Some e \<Rightarrow> g\<lparr>rg_live := (rg_live g)(containerName \<mapsto> e\<lparr>en_gate := (en_gate e)\<lparr>ga_planned_teardown := True\<rparr>\<rparr>)\<rparr>)"

definition LookupReadiness :: "'s registry \<Rightarrow> string \<Rightarrow> readiness_status option" where
  "LookupReadiness g containerName =
     map_option (\<lambda>e. gate_snapshot (en_gate e) containerName (replicaIDFromContainerName containerName)) (rg_live g containerName)"

fun composite_lookup :: "(string \<Rightarrow> 'a option) list \<Rightarrow> string \<Rightarrow> 'a option" where
  "composite_lookup [] c = None"
| "composite_lookup (l # ls) c = (case l c of Some s \<Rightarrow> Some s | None \<Rightarrow> composite_lookup ls c)"

definition StopProbes :: "'s recorder option \<Rightarrow> 's registry \<Rightarrow> string \<Rightarrow> string \<Rightarrow> 's registry" where
  "StopProbes rc g app containerName =
     (let g' = (case rg_live g containerName of
                  None \<Rightarrow> g
                | Some e \<Rightarrow> g\<lparr>rg_live := (rg_live g)(containerName := None), rg_closing := rg_closing g @ [(containerName, e)]\<rparr>)
      in case rc of
           None \<Rightarrow> g'
         | Some r \<Rightarrow> if app = [] \<or> containerName = [] then g'
                     else g'\<lparr>rg_store := rc_clear r (rg_store g') app containerName\<rparr>)"

definition StopAll :: "'s recorder option \<Rightarrow> 's registry \<Rightarrow> string list \<Rightarrow> 's registry" where
  "StopAll rc g names = fold (\<lambda>n g. StopProbes rc g [] n) (sort_strs names) g"

section \<open>Draining events\<close>

definition emitProbeTransition ::
  "bool \<Rightarrow> int \<Rightarrow> string \<Rightarrow> probe_kind \<Rightarrow> probe_event \<Rightarrow> entry \<Rightarrow> entry \<times> transition_event list" where
  "emitProbeTransition recorder now containerName probe ev e =
     (let g = en_gate e;
          sent = (\<lambda>transition. case splitAppID (en_app e) of (scope, nm) \<Rightarrow>
            \<lparr>te_scope = scope, te_name = nm, te_pod = containerName, te_probe = kind_text probe,
             te_transition = transition, te_reason = rt_reason (pe_result ev), te_at = now, te_on_probe = en_on_probe e\<rparr>)
      in if \<not> recorder then (e, [])
         else case pe_phase ev of
                PhaseUnknown \<Rightarrow> (e, [])
              | PhaseUnhealthy \<Rightarrow>
                  if ga_planned_teardown g then (e, [])
                  else (e\<lparr>en_gate := g\<lparr>ga_had_failure := True\<rparr>\<rparr>, [sent ''failure''])
              | PhaseHealthy \<Rightarrow>
                  if ga_planned_teardown g then (e, [])
                  else if \<not> ga_had_failure g then (e, [])
                  else (e\<lparr>en_gate := g\<lparr>ga_had_failure := False\<rparr>\<rparr>, [sent ''recovery'']))"

text \<open>What the loop body of each drain does to the gate, and whether it records the state.\<close>

definition gate_update :: "int \<Rightarrow> probe_kind \<Rightarrow> probe_event \<Rightarrow> gate \<Rightarrow> gate \<times> bool" where
  "gate_update now probe ev g =
     (case probe of
        Liveness \<Rightarrow> (g, False)
      | Readiness \<Rightarrow> (g\<lparr>ga_phase := pe_phase ev, ga_reason := rt_reason (pe_result ev), ga_last_transition := now\<rparr>, True)
      | Startup \<Rightarrow>
          if pe_phase ev = PhaseHealthy
          then (g\<lparr>ga_startup_passed := True, ga_last_transition := now, ga_reason := rt_reason (pe_result ev)\<rparr>, True)
          else (g, False))"

definition drain_event ::
  "'s recorder option \<Rightarrow> int \<Rightarrow> string \<Rightarrow> probe_kind \<Rightarrow> probe_event \<Rightarrow> entry \<Rightarrow> 's \<Rightarrow> entry \<times> 's \<times> transition_event list" where
  "drain_event rc now containerName probe ev e s =
     (if \<not> pe_transition ev then (e, s, [])
      else case gate_update now probe ev (en_gate e) of
             (g, rec) \<Rightarrow>
               let e1 = e\<lparr>en_gate := g\<rparr>;
                   s1 = (if rec then record_state rc s (en_app e)
                           (gate_snapshot g containerName (replicaIDFromContainerName containerName)) else s)
               in case emitProbeTransition (rc \<noteq> None) now containerName probe ev e1 of (e2, out) \<Rightarrow> (e2, s1, out))"

text \<open>One iteration of the drain of a runner: the oldest buffered event, if there is one.\<close>

definition drain_one ::
  "'s recorder option \<Rightarrow> int \<Rightarrow> string \<Rightarrow> probe_kind \<Rightarrow> entry \<Rightarrow> 's \<Rightarrow> entry \<times> 's \<times> transition_event list" where
  "drain_one rc now containerName probe e s =
     (case en_runners e probe of
        None \<Rightarrow> (e, s, [])
      | Some r \<Rightarrow>
          (case rn_events r of
             [] \<Rightarrow> (e, s, [])
           | ev # evs \<Rightarrow>
               drain_event rc now containerName probe ev
                 (e\<lparr>en_runners := (en_runners e)(probe \<mapsto> r\<lparr>rn_events := evs\<rparr>)\<rparr>) s))"

text \<open>
  One turn of a runner of an entry; the flag is a restart, which only the liveness probe asks for.
  \<open>None\<close> is the panic.
\<close>

definition sample_one :: "probe_kind \<Rightarrow> probe_result \<Rightarrow> entry \<Rightarrow> (entry \<times> bool) option" where
  "sample_one probe res e =
     (case en_runners e probe of
        None \<Rightarrow> Some (e, False)
      | Some r \<Rightarrow>
          if rn_at r = Ended then Some (e, False)
          else map_option (\<lambda>(r', trig). (e\<lparr>en_runners := (en_runners e)(probe \<mapsto> r')\<rparr>, trig \<and> probe = Liveness))
                 (run_turn r res))"

section \<open>Runs of the registry\<close>

text \<open>
  The events of a run. A stopped entry may still finish an attempt (a probe that ignores its
  cancelled context) and is drained to its last buffered event.
\<close>

datatype reg_event =
    EvStart string string "probes_spec option" "json option"
  | EvMark string string
  | EvStop string string
  | EvSample string probe_kind probe_result
  | EvDrain int string probe_kind
  | EvLateSample nat probe_kind probe_result
  | EvLateDrain int nat probe_kind
  | EvRecord nat

definition restart_if :: "bool \<Rightarrow> string \<Rightarrow> 's registry \<Rightarrow> 's registry" where
  "restart_if b c g = (if b then g\<lparr>rg_restarts := rg_restarts g @ [c]\<rparr> else g)"

definition live_sample :: "'s registry \<Rightarrow> string \<Rightarrow> probe_kind \<Rightarrow> probe_result \<Rightarrow> 's registry" where
  "live_sample g c k res =
     (case rg_live g c of
        None \<Rightarrow> g
      | Some e \<Rightarrow> (case sample_one k res e of
                    None \<Rightarrow> g\<lparr>rg_up := False\<rparr>
                  | Some (e', b) \<Rightarrow> restart_if b c (g\<lparr>rg_live := (rg_live g)(c \<mapsto> e')\<rparr>)))"

definition live_drain :: "'s recorder option \<Rightarrow> int \<Rightarrow> 's registry \<Rightarrow> string \<Rightarrow> probe_kind \<Rightarrow> 's registry" where
  "live_drain rc now g c k =
     (case rg_live g c of
        None \<Rightarrow> g
      | Some e \<Rightarrow> (case drain_one rc now c k e (rg_store g) of
                    (e', s', out) \<Rightarrow> g\<lparr>rg_live := (rg_live g)(c \<mapsto> e'), rg_store := s', rg_sent := rg_sent g @ out\<rparr>))"

definition late_sample :: "'s registry \<Rightarrow> nat \<Rightarrow> probe_kind \<Rightarrow> probe_result \<Rightarrow> 's registry" where
  "late_sample g i k res =
     (if i < length (rg_closing g) then
        case rg_closing g ! i of
          (c, e) \<Rightarrow> (case sample_one k res e of
                      None \<Rightarrow> g\<lparr>rg_up := False\<rparr>
                    | Some (e', b) \<Rightarrow> restart_if b c (g\<lparr>rg_closing := (rg_closing g)[i := (c, e')]\<rparr>))
      else g)"

definition late_drain :: "'s recorder option \<Rightarrow> int \<Rightarrow> 's registry \<Rightarrow> nat \<Rightarrow> probe_kind \<Rightarrow> 's registry" where
  "late_drain rc now g i k =
     (if i < length (rg_closing g) then
        case rg_closing g ! i of
          (c, e) \<Rightarrow> (case drain_one rc now c k e (rg_store g) of
                      (e', s', out) \<Rightarrow> g\<lparr>rg_closing := (rg_closing g)[i := (c, e')], rg_store := s', rg_sent := rg_sent g @ out\<rparr>)
      else g)"

definition run_pending :: "'s recorder option \<Rightarrow> 's registry \<Rightarrow> nat \<Rightarrow> 's registry" where
  "run_pending rc g i =
     (if i < length (rg_pending g) then
        case rg_pending g ! i of
          (app, st) \<Rightarrow> g\<lparr>rg_pending := take i (rg_pending g) @ drop (Suc i) (rg_pending g),
                         rg_store := record_state rc (rg_store g) app st\<rparr>
      else g)"

fun reg_step :: "'s recorder option \<Rightarrow> (string \<Rightarrow> string + string) option \<Rightarrow> 's registry \<Rightarrow> reg_event \<Rightarrow> 's registry" where
  "reg_step rc ips g (EvStart app c spec op) = StartProbes rc ips g app c spec op"
| "reg_step rc ips g (EvMark app c) = MarkPlannedTeardown g app c"
| "reg_step rc ips g (EvStop app c) = StopProbes rc g app c"
| "reg_step rc ips g (EvSample c k res) = live_sample g c k res"
| "reg_step rc ips g (EvDrain now c k) = live_drain rc now g c k"
| "reg_step rc ips g (EvLateSample i k res) = late_sample g i k res"
| "reg_step rc ips g (EvLateDrain now i k) = late_drain rc now g i k"
| "reg_step rc ips g (EvRecord i) = run_pending rc g i"

definition reg_apply :: "'s recorder option \<Rightarrow> (string \<Rightarrow> string + string) option \<Rightarrow> 's registry \<Rightarrow> reg_event \<Rightarrow> 's registry" where
  "reg_apply rc ips g ev = (if rg_up g then reg_step rc ips g ev else g)"

abbreviation reg_run :: "'s recorder option \<Rightarrow> (string \<Rightarrow> string + string) option \<Rightarrow> 's registry \<Rightarrow> reg_event list \<Rightarrow> 's registry" where
  "reg_run rc ips g evs \<equiv> foldl (reg_apply rc ips) g evs"

definition new_registry :: "'s \<Rightarrow> 's registry" where
  "new_registry s = \<lparr>rg_live = (\<lambda>c. None), rg_closing = [], rg_pending = [], rg_store = s, rg_restarts = [],
     rg_sent = [], rg_up = True\<rparr>"

end
