(* ===== verification/Readiness.thy ===== *)
theory Readiness
  imports Probes
begin

text \<open>
  What the health checks promise: the phase of a runner is a function of its results, a container that
  keeps failing is restarted, the readiness a drained registry reports is that of its runners, and the
  failure and recovery webhooks come in order; then where the code does not keep to its comments.
\<close>

section \<open>The phase of a runner\<close>

text \<open>\<open>trail b xs\<close> is the number of results at the end of \<open>xs\<close> that are \<open>b\<close>.\<close>

definition trail :: "bool \<Rightarrow> bool list \<Rightarrow> nat" where
  "trail b xs = length (takeWhile (\<lambda>x. x = b) (rev xs))"

lemma trail_simps [simp]:
  "trail b [] = 0" "trail b (xs @ [x]) = (if x = b then Suc (trail b xs) else 0)"
  by (simp_all add: trail_def)

text \<open>\<open>P\<close> held after some prefix, and \<open>Q\<close> after no longer one.\<close>

definition latest :: "('a list \<Rightarrow> bool) \<Rightarrow> ('a list \<Rightarrow> bool) \<Rightarrow> 'a list \<Rightarrow> bool" where
  "latest P Q xs = (\<exists>a b. xs = a @ b \<and> P a \<and> (\<forall>c d. b = c @ d \<longrightarrow> c \<noteq> [] \<longrightarrow> \<not> Q (a @ c)))"

lemma latest_Nil [simp]: "latest P Q [] \<longleftrightarrow> P []"
  by (auto simp: latest_def)

lemma latest_snoc [simp]: "latest P Q (xs @ [x]) \<longleftrightarrow> P (xs @ [x]) \<or> latest P Q xs \<and> \<not> Q (xs @ [x])"
proof
  assume "latest P Q (xs @ [x])"
  then obtain a b where ab: "xs @ [x] = a @ b" "P a" "\<forall>c d. b = c @ d \<longrightarrow> c \<noteq> [] \<longrightarrow> \<not> Q (a @ c)"
    by (auto simp: latest_def)
  show "P (xs @ [x]) \<or> latest P Q xs \<and> \<not> Q (xs @ [x])"
  proof (cases b rule: rev_cases)
    case Nil
    then show ?thesis using ab(1,2) by simp
  next
    case (snoc b' y)
    have xs: "xs = a @ b'" using ab(1) snoc by simp
    moreover have "\<not> Q (a @ c)" if "b' = c @ d" "c \<noteq> []" for c d
      using ab(3) [rule_format, of c "d @ [y]"] snoc that by simp
    moreover have "\<not> Q (xs @ [x])" using ab(3) [rule_format, of b "[]"] snoc ab(1) by simp
    ultimately show ?thesis using ab(2) unfolding latest_def by blast
  qed
next
  assume "P (xs @ [x]) \<or> latest P Q xs \<and> \<not> Q (xs @ [x])"
  then show "latest P Q (xs @ [x])"
  proof
    assume "P (xs @ [x])"
    then show ?thesis unfolding latest_def by (intro exI [of _ "xs @ [x]"] exI [of _ "[]"]) auto
  next
    assume l: "latest P Q xs \<and> \<not> Q (xs @ [x])"
    then obtain a b where ab: "xs = a @ b" "P a" "\<And>c d. b = c @ d \<Longrightarrow> c \<noteq> [] \<Longrightarrow> \<not> Q (a @ c)"
      by (auto simp: latest_def)
    have "\<not> Q (a @ c)" if "b @ [x] = c @ d" "c \<noteq> []" for c d
    proof (cases d rule: rev_cases)
      case Nil
      then show ?thesis using that(1) l ab(1) by simp
    next
      case (snoc d' y)
      then have "b = c @ d'" using that(1) by simp
      then show ?thesis using ab(3) that(2) by simp
    qed
    then show ?thesis using ab(1,2) unfolding latest_def
      by (intro exI [of _ a] exI [of _ "b @ [x]"]) simp
  qed
qed

text \<open>What a valid spec's defaults amount to.\<close>

lemma first_failing_None: "first_failing cs = None \<longleftrightarrow> (\<forall>(bad, m) \<in> set cs. \<not> bad)"
  by (induction cs rule: first_failing.induct) auto

lemma valid_defaults:
  assumes "ValidateSpec spec = None"
  shows "qs_failures (applyDefaults spec) \<ge> 1" "qs_successes (applyDefaults spec) \<ge> 1" "qs_period (applyDefaults spec) > 0"
  using assms unfolding ValidateSpec_def Let_def first_failing_None
  by (auto simp: applyDefaults_def second_def)

definition turn :: "runner \<Rightarrow> probe_result \<Rightarrow> runner" where
  "turn r res = (fst (sample r res))\<lparr>rn_at := Ticking\<rparr>"

lemma count_result_simps [simp]:
  "rn_spec (count_result r ok) = rn_spec r" "rn_stop_on_ready (count_result r ok) = rn_stop_on_ready r"
  "rn_events (count_result r ok) = rn_events r" "rn_at (count_result r ok) = rn_at r"
  "rn_fails (count_result r ok) = (if ok then 0 else rn_fails r + 1)"
  "rn_oks (count_result r ok) = (if ok then rn_oks r + 1 else 0)"
  "rn_phase (count_result r ok) =
     (if ok then if rn_oks r + 1 \<ge> qs_successes (rn_spec r) then PhaseHealthy else rn_phase r
      else if rn_fails r + 1 \<ge> qs_failures (rn_spec r) then PhaseUnhealthy else rn_phase r)"
  by (simp_all add: count_result_def Let_def)

lemma sample_simps [simp]:
  "rn_spec (fst (sample r res)) = rn_spec r" "rn_stop_on_ready (fst (sample r res)) = rn_stop_on_ready r"
  "rn_at (fst (sample r res)) = rn_at r"
  "rn_fails (fst (sample r res)) = (if rt_ok res then 0 else rn_fails r + 1)"
  "rn_oks (fst (sample r res)) = (if rt_ok res then rn_oks r + 1 else 0)"
  "rn_phase (fst (sample r res)) =
     (if rt_ok res then if rn_oks r + 1 \<ge> qs_successes (rn_spec r) then PhaseHealthy else rn_phase r
      else if rn_fails r + 1 \<ge> qs_failures (rn_spec r) then PhaseUnhealthy else rn_phase r)"
  by (simp_all add: sample_def Let_def)

lemma run_turns_total:
  assumes "\<not> rn_stop_on_ready r" and "qs_period (rn_spec r) > 0" and "rn_at r \<noteq> Ended"
  shows "\<exists>n. run_turns r rs = Some (if rs = [] then r else foldl turn r rs, n)"
  using assms
proof (induction rs arbitrary: r)
  case (Cons res rs)
  obtain r1 b where s: "sample r res = (r1, b)" by (cases "sample r res")
  have eq: "run_turn r res = Some (turn r res, b)"
    using Cons.prems s sample_simps(2) [of r res]
    by (auto simp: run_turn_def turn_def shouldStop_def split: prod.splits)
  have "\<exists>n. run_turns (turn r res) rs = Some (if rs = [] then turn r res else foldl turn (turn r res) rs, n)"
    by (rule Cons.IH) (use Cons.prems in \<open>simp_all add: turn_def\<close>)
  then show ?case using Cons.prems eq by (auto split: prod.splits)
qed simp

lemma runner_counts:
  fixes spec c h st
  defines "F \<equiv> qs_failures (applyDefaults spec)" and "S \<equiv> qs_successes (applyDefaults spec)"
  defines "r \<equiv> \<lambda>rs. foldl turn (NewRunner spec c h st) rs"
  assumes "F \<ge> 1" and "S \<ge> 1"
  shows "rn_spec (r rs) = applyDefaults spec \<and> rn_fails (r rs) = int (trail False (map rt_ok rs)) \<and>
     rn_oks (r rs) = int (trail True (map rt_ok rs)) \<and>
     (rn_phase (r rs) = PhaseUnhealthy \<longleftrightarrow>
        latest (\<lambda>xs. F \<le> int (trail False xs)) (\<lambda>xs. S \<le> int (trail True xs)) (map rt_ok rs)) \<and>
     (rn_phase (r rs) = PhaseHealthy \<longleftrightarrow>
        latest (\<lambda>xs. S \<le> int (trail True xs)) (\<lambda>xs. F \<le> int (trail False xs)) (map rt_ok rs))"
proof (induction rs rule: rev_induct)
  case Nil
  then show ?case using assms by (simp add: NewRunner_def)
next
  case (snoc res rs)
  have step: "r (rs @ [res]) = turn (r rs) res" by (simp add: r_def)
  show ?case
    using snoc assms(4,5) unfolding step by (auto simp: turn_def F_def S_def)
qed

text \<open>
  C26: The phase of a probe runner is determined by its results. A runner of a valid spec answers every
  sequence of results; after it the runner is unhealthy exactly when at some point the failure
  threshold was reached by consecutive failures and since then the success threshold has not been
  reached by consecutive successes, and healthy exactly in the opposite case.
\<close>

theorem runner_phase_exact:
  fixes spec
  defines "down \<equiv> \<lambda>xs. qs_failures (applyDefaults spec) \<le> int (trail False xs)"
    and "up \<equiv> \<lambda>xs. qs_successes (applyDefaults spec) \<le> int (trail True xs)"
  assumes "ValidateSpec spec = None"
  shows "\<exists>r n. run_turns (NewRunner spec c h False) rs = Some (r, n) \<and>
    (rn_phase r = PhaseUnhealthy \<longleftrightarrow> latest down up (map rt_ok rs)) \<and>
    (rn_phase r = PhaseHealthy \<longleftrightarrow> latest up down (map rt_ok rs))"
proof -
  note v = valid_defaults [OF assms(3)]
  obtain n where n: "run_turns (NewRunner spec c h False) rs =
      Some (if rs = [] then NewRunner spec c h False else foldl turn (NewRunner spec c h False) rs, n)"
    using run_turns_total [of "NewRunner spec c h False" rs] v(3) by (auto simp: NewRunner_def)
  then have "run_turns (NewRunner spec c h False) rs = Some (foldl turn (NewRunner spec c h False) rs, n)" by auto
  then show ?thesis
    using runner_counts [OF v(1,2), where rs = rs and c = c and h = h and st = False] unfolding down_def up_def by blast
qed

definition tcp_probe :: runner_spec where
  "tcp_probe = \<lparr>qs_http = None, qs_tcp = Some 5432, qs_exec = None, qs_delay = 0, qs_period = 0, qs_timeout = 0,
     qs_failures = 2, qs_successes = 0\<rparr>"

theorem runner_phase_exact_witness:
  "\<exists>r n. run_turns (NewRunner tcp_probe ''db.0'' ''172.18.0.7'' False) [passed 1, failed 2 ''refused'', failed 3 ''refused''] = Some (r, n) \<and>
     rn_phase r = PhaseUnhealthy"
proof -
  have v: "ValidateSpec tcp_probe = None" by (simp add: ValidateSpec_def tcp_probe_def set_count_def)
  have *: "int (trail False [True, False, False]) = 2" by (simp add: trail_def)
  have "latest (\<lambda>xs. qs_failures (applyDefaults tcp_probe) \<le> int (trail False xs)) Q [True, False, False]" for Q
    unfolding latest_def
    by (intro exI [of _ "[True, False, False]"] exI [of _ "[]"]) (simp add: * applyDefaults_def tcp_probe_def)
  then show ?thesis
    using runner_phase_exact [OF v, of "''db.0''" "''172.18.0.7''" "[passed 1, failed 2 ''refused'', failed 3 ''refused'']"]
    by (auto simp: passed_def failed_def)
qed

section \<open>A container that keeps failing\<close>

definition liveness_of :: "'s registry \<Rightarrow> string \<Rightarrow> runner option" where
  "liveness_of g c = (case rg_live g c of None \<Rightarrow> None | Some e \<Rightarrow> en_runners e Liveness)"

definition core :: "runner \<Rightarrow> runner_spec \<times> phase \<times> int \<times> bool \<times> bool" where
  "core r = (rn_spec r, rn_phase r, rn_fails r, rn_at r = Ended, rn_stop_on_ready r)"

lemma drain_event_keeps:
  "drain_event rc now c k ev e s = (e', s', out) \<Longrightarrow>
     en_runners e' = en_runners e \<and> en_app e' = en_app e \<and> en_on_probe e' = en_on_probe e"
  by (auto simp: drain_event_def emitProbeTransition_def Let_def split: if_splits prod.splits phase.splits)

lemma drain_one_cases:
  assumes "drain_one rc now c k e s = (e', s', out)"
  obtains (idle) "e' = e" "s' = s" "out = []"
  | (event) r ev evs where "en_runners e k = Some r" "rn_events r = ev # evs"
      "drain_event rc now c k ev (e\<lparr>en_runners := (en_runners e)(k \<mapsto> r\<lparr>rn_events := evs\<rparr>)\<rparr>) s = (e', s', out)"
      "en_runners e' = (en_runners e)(k \<mapsto> r\<lparr>rn_events := evs\<rparr>)"
proof (cases "en_runners e k")
  case (Some r)
  show ?thesis
  proof (cases "rn_events r")
    case (Cons ev evs)
    then have "drain_event rc now c k ev (e\<lparr>en_runners := (en_runners e)(k \<mapsto> r\<lparr>rn_events := evs\<rparr>)\<rparr>) s = (e', s', out)"
      using assms Some by (simp add: drain_one_def)
    from event [OF Some Cons this] drain_event_keeps [OF this] show ?thesis by simp
  qed (use assms Some idle in \<open>simp add: drain_one_def\<close>)
qed (use assms idle in \<open>simp add: drain_one_def\<close>)

lemma drain_one_core:
  assumes "drain_one rc now c k e s = (e', s', out)" and "en_runners e j = Some r"
  shows "\<exists>r'. en_runners e' j = Some r' \<and> core r' = core r"
  using assms(1)
proof (cases rule: drain_one_cases)
  case (event q ev evs)
  then show ?thesis using assms(2) by (cases "j = k") (auto simp: core_def)
qed (use assms in simp)

lemma sample_one_others:
  assumes "sample_one k res e = Some (e', b)" and "j \<noteq> k"
  shows "en_runners e' j = en_runners e j" and "b \<longrightarrow> k = Liveness"
  using assms by (auto simp: sample_one_def split: option.splits if_splits)

lemma count_list_append_one: "count_list (xs @ [y]) x = count_list xs x + (if x = y then 1 else 0)"
  by (induction xs) auto

lemma reg_restart_if [simp]:
  "rg_live (restart_if b c g) = rg_live g" "rg_closing (restart_if b c g) = rg_closing g"
  "rg_up (restart_if b c g) = rg_up g" "rg_store (restart_if b c g) = rg_store g"
  "rg_sent (restart_if b c g) = rg_sent g" "rg_pending (restart_if b c g) = rg_pending g"
  "count_list (rg_restarts (restart_if b c g)) x = count_list (rg_restarts g) x + (if b \<and> x = c then 1 else 0)"
  by (auto simp: restart_if_def count_list_append_one)

lemma late_names:
  "i < length ces \<Longrightarrow> ces ! i = (c, e) \<Longrightarrow> fst ` set (ces[i := (c, e')]) = fst ` set ces"
  by (metis (no_types, lifting) fst_conv list.set_map list_update_id map_update)

lemma other_event_keeps:
  assumes "rg_up (reg_apply rc ips g ev)" and live: "rg_live g c = Some e" and run: "en_runners e Liveness = Some r"
    and "\<forall>app. ev \<noteq> EvStop app c" and "\<forall>res. ev \<noteq> EvSample c Liveness res" and late: "c \<notin> fst ` set (rg_closing g)"
  shows "\<exists>e' r'. rg_live (reg_apply rc ips g ev) c = Some e' \<and> en_runners e' Liveness = Some r' \<and> core r' = core r \<and>
    count_list (rg_restarts (reg_apply rc ips g ev)) c = count_list (rg_restarts g) c \<and>
    c \<notin> fst ` set (rg_closing (reg_apply rc ips g ev))"
proof (cases "rg_up g")
  case up: True
  have names: "c \<noteq> d" if "i < length (rg_closing g)" "rg_closing g ! i = (d, x)" for i d x
    using late that by (metis fst_conv image_eqI nth_mem)
  show ?thesis
  proof (cases ev)
    case (EvStart app d spec op)
    then show ?thesis
      using up live run late by (auto simp: reg_apply_def StartProbes_def Let_def split: option.splits)
  next
    case (EvMark app d)
    then show ?thesis
      using up live run late by (auto simp: reg_apply_def MarkPlannedTeardown_def split: option.splits)
  next
    case (EvStop app d)
    then show ?thesis
      using up live run late assms(4)
      by (auto simp: reg_apply_def StopProbes_def Let_def split: option.splits)
  next
    case (EvSample d k res)
    show ?thesis
    proof (cases "rg_live g d")
      case None
      then show ?thesis using EvSample up live run late by (simp add: reg_apply_def live_sample_def)
    next
      case (Some x)
      then obtain x' b where so: "sample_one k res x = Some (x', b)"
        using EvSample up assms(1) by (cases "sample_one k res x") (auto simp: reg_apply_def live_sample_def)
      show ?thesis
      proof (cases "d = c")
        case True
        then have "x = e" and k: "Liveness \<noteq> k" using Some live EvSample assms(5) by auto
        then show ?thesis
          using True Some so EvSample up run late sample_one_others [OF so k]
          by (simp add: reg_apply_def live_sample_def)
      next
        case False
        then show ?thesis
          using Some so EvSample up live run late by (auto simp: reg_apply_def live_sample_def)
      qed
    qed
  next
    case (EvDrain now d k)
    then show ?thesis
      using up live run late drain_one_core [OF _ run]
      by (auto simp: reg_apply_def live_drain_def split: option.splits prod.splits)
  next
    case (EvLateSample i k res)
    then show ?thesis
      using up live run late assms(1) names
      by (auto simp: reg_apply_def late_sample_def late_names split: option.splits prod.splits)
  next
    case (EvLateDrain now i k)
    then show ?thesis
      using up live run late
      by (auto simp: reg_apply_def late_drain_def late_names split: option.splits prod.splits)
  next
    case (EvRecord i)
    then show ?thesis
      using up live run late by (auto simp: reg_apply_def run_pending_def split: prod.splits)
  qed
qed (use assms in \<open>auto simp: reg_apply_def\<close>)

lemma failing_sample:
  assumes up: "rg_up (reg_apply rc ips g (EvSample c Liveness res))" and live: "rg_live g c = Some e"
    and run: "en_runners e Liveness = Some r" and goes: "rn_at r \<noteq> Ended" "\<not> rn_stop_on_ready r" and bad: "\<not> rt_ok res"
  defines "g' \<equiv> reg_apply rc ips g (EvSample c Liveness res)"
  shows "\<exists>e' r'. rg_live g' c = Some e' \<and> en_runners e' Liveness = Some r' \<and> rn_at r' \<noteq> Ended \<and> \<not> rn_stop_on_ready r' \<and>
    rn_spec r' = rn_spec r \<and> rn_fails r' = rn_fails r + 1 \<and>
    rn_phase r' = (if rn_fails r + 1 \<ge> qs_failures (rn_spec r) then PhaseUnhealthy else rn_phase r) \<and>
    count_list (rg_restarts g') c =
      count_list (rg_restarts g) c + (if rn_phase r' = PhaseUnhealthy \<and> rn_phase r \<noteq> PhaseUnhealthy then 1 else 0) \<and>
    rg_closing g' = rg_closing g"
proof -
  have gup: "rg_up g" using up by (simp add: reg_apply_def split: if_splits)
  obtain r1 trig where s: "sample r res = (r1, trig)" by (cases "sample r res")
  note f = sample_simps [of r res, unfolded s, simplified]
  have trig: "trig \<longleftrightarrow> rn_phase r1 \<noteq> rn_phase r \<and> rn_phase r1 = PhaseUnhealthy"
    using s by (auto simp: sample_def Let_def)
  have turn: "run_turn r res = Some (r1\<lparr>rn_at := Ticking\<rparr>, trig)"
    using up gup live run goes s f(2)
    by (auto simp: g'_def reg_apply_def live_sample_def sample_one_def run_turn_def shouldStop_def split: if_splits)
  show ?thesis
    using gup live run goes turn f trig bad
    by (auto simp: g'_def reg_apply_def live_sample_def sample_one_def)
qed

lemma up_before: "rg_up (reg_run rc ips g evs) \<Longrightarrow> rg_up g"
  by (induction evs arbitrary: g) (auto simp: reg_apply_def split: if_splits)

definition liveness_samples :: "string \<Rightarrow> reg_event list \<Rightarrow> probe_result list" where
  "liveness_samples c evs =
     concat (map (\<lambda>ev. case ev of EvSample d Liveness res \<Rightarrow> (if d = c then [res] else []) | _ \<Rightarrow> []) evs)"

lemma liveness_samples_Cons:
  "liveness_samples c (EvSample c Liveness res # evs) = res # liveness_samples c evs"
  "\<forall>res. ev \<noteq> EvSample c Liveness res \<Longrightarrow> liveness_samples c (ev # evs) = liveness_samples c evs"
  by (auto simp: liveness_samples_def split: reg_event.splits probe_kind.splits)

lemma restart_count:
  assumes "rg_up (reg_run rc ips g evs)" and "rg_live g c = Some e" and "en_runners e Liveness = Some r"
    and "rn_at r \<noteq> Ended" "\<not> rn_stop_on_ready r" and "c \<notin> fst ` set (rg_closing g)"
    and "\<forall>app. EvStop app c \<notin> set evs" and "\<forall>res \<in> set (liveness_samples c evs). \<not> rt_ok res"
    and "rn_phase r \<noteq> PhaseUnhealthy \<Longrightarrow>
      liveness_samples c evs \<noteq> [] \<and> qs_failures (rn_spec r) \<le> rn_fails r + int (length (liveness_samples c evs))"
  shows "count_list (rg_restarts (reg_run rc ips g evs)) c =
    count_list (rg_restarts g) c + (if rn_phase r = PhaseUnhealthy then 0 else 1)"
  using assms
proof (induction evs arbitrary: g e r)
  case Nil
  then show ?case by (auto simp: liveness_samples_def)
next
  case (Cons ev evs)
  let ?g = "reg_apply rc ips g ev"
  have up: "rg_up ?g" using Cons.prems(1) up_before by simp
  show ?case
  proof (cases "\<exists>res. ev = EvSample c Liveness res")
    case True
    then obtain res where ev: "ev = EvSample c Liveness res" by blast
    note ls = liveness_samples_Cons(1) [of c res evs]
    obtain e' r' where n: "rg_live ?g c = Some e'" "en_runners e' Liveness = Some r'" "rn_at r' \<noteq> Ended" "\<not> rn_stop_on_ready r'"
        "rn_spec r' = rn_spec r" "rn_fails r' = rn_fails r + 1"
        "rn_phase r' = (if rn_fails r + 1 \<ge> qs_failures (rn_spec r) then PhaseUnhealthy else rn_phase r)"
        "count_list (rg_restarts ?g) c =
          count_list (rg_restarts g) c + (if rn_phase r' = PhaseUnhealthy \<and> rn_phase r \<noteq> PhaseUnhealthy then 1 else 0)"
        "rg_closing ?g = rg_closing g"
      using failing_sample [OF up [unfolded ev] Cons.prems(2-5)] Cons.prems(8) ev ls by auto
    have "count_list (rg_restarts (reg_run rc ips ?g evs)) c =
        count_list (rg_restarts ?g) c + (if rn_phase r' = PhaseUnhealthy then 0 else 1)"
    proof (rule Cons.IH [OF _ n(1-4)])
      show "rn_phase r' \<noteq> PhaseUnhealthy \<Longrightarrow> liveness_samples c evs \<noteq> [] \<and>
          qs_failures (rn_spec r') \<le> rn_fails r' + int (length (liveness_samples c evs))"
        using Cons.prems(9) n(5-7) ev ls by (auto split: if_splits)
    qed (use Cons.prems ev ls n(9) in auto)
    then show ?thesis using n(7,8) by auto
  next
    case False
    then have other: "\<forall>res. ev \<noteq> EvSample c Liveness res" by blast
    note ls = liveness_samples_Cons(2) [OF other, of evs]
    obtain e' r' where n: "rg_live ?g c = Some e'" "en_runners e' Liveness = Some r'" "core r' = core r"
        "count_list (rg_restarts ?g) c = count_list (rg_restarts g) c" "c \<notin> fst ` set (rg_closing ?g)"
      using other_event_keeps [OF up Cons.prems(2,3) _ other Cons.prems(6)] Cons.prems(7) by auto
    have "count_list (rg_restarts (reg_run rc ips ?g evs)) c =
        count_list (rg_restarts ?g) c + (if rn_phase r' = PhaseUnhealthy then 0 else 1)"
      by (rule Cons.IH [OF _ n(1,2) _ _ n(5)]) (use Cons.prems ls n(3) in \<open>auto simp: core_def\<close>)
    then show ?thesis using n(3,4) by (simp add: core_def)
  qed
qed

section \<open>Invariants of entries\<close>

text \<open>A predicate on entries that every event keeps; \<open>room e k\<close> may restrict the attempts of the run.\<close>

definition all_entries :: "(entry \<Rightarrow> bool) \<Rightarrow> 's registry \<Rightarrow> bool" where
  "all_entries P g = ((\<forall>c e. rg_live g c = Some e \<longrightarrow> P e) \<and> (\<forall>x \<in> set (rg_closing g). P (snd x)))"

definition attempt_ok :: "(entry \<Rightarrow> probe_kind \<Rightarrow> bool) \<Rightarrow> 's registry \<Rightarrow> reg_event \<Rightarrow> bool" where
  "attempt_ok room g ev =
     (case ev of
        EvSample c k res \<Rightarrow> (case rg_live g c of None \<Rightarrow> True | Some e \<Rightarrow> room e k)
      | EvLateSample i k res \<Rightarrow> (if i < length (rg_closing g) then room (snd (rg_closing g ! i)) k else True)
      | _ \<Rightarrow> True)"

fun attempts_ok ::
  "(entry \<Rightarrow> probe_kind \<Rightarrow> bool) \<Rightarrow> 's recorder option \<Rightarrow> (string \<Rightarrow> string + string) option \<Rightarrow> 's registry \<Rightarrow>
   reg_event list \<Rightarrow> bool" where
  "attempts_ok room rc ips g [] = True"
| "attempts_ok room rc ips g (ev # evs) = (attempt_ok room g ev \<and> attempts_ok room rc ips (reg_apply rc ips g ev) evs)"

locale entry_invariant =
  fixes P :: "entry \<Rightarrow> bool" and room :: "entry \<Rightarrow> probe_kind \<Rightarrow> bool" and rc :: "'s recorder option"
  assumes fresh: "P (new_entry app c a spec op)"
    and marked: "P e \<Longrightarrow> P (e\<lparr>en_gate := (en_gate e)\<lparr>ga_planned_teardown := True\<rparr>\<rparr>)"
    and sampled: "P e \<Longrightarrow> room e k \<Longrightarrow> sample_one k res e = Some (e', b) \<Longrightarrow> P e'"
    and drained: "P e \<Longrightarrow> drain_one rc now c k e s = (e', s', out) \<Longrightarrow> P e'"
begin

lemma kept:
  assumes inv: "all_entries P g" and ok: "attempt_ok room g ev"
  shows "all_entries P (reg_apply rc ips g ev)"
proof -
  have live: "\<And>c e. rg_live g c = Some e \<Longrightarrow> P e" and late: "\<And>x. x \<in> set (rg_closing g) \<Longrightarrow> P (snd x)"
    using inv by (auto simp: all_entries_def)
  have nth: "P e" if "i < length (rg_closing g)" "rg_closing g ! i = (c, e)" for i c e
    using late that by (metis nth_mem snd_conv)
  show ?thesis
  proof (cases "rg_up g")
    case up: True
    show ?thesis
    proof (cases ev)
      case (EvStart app c spec op)
      then show ?thesis
        using up live late fresh
        by (auto simp: reg_apply_def StartProbes_def all_entries_def Let_def split: option.splits)
    next
      case (EvMark app c)
      then show ?thesis
        using up live late marked
        by (auto simp: reg_apply_def MarkPlannedTeardown_def all_entries_def split: option.splits)
    next
      case (EvStop app c)
      then show ?thesis
        using up live late
        by (auto simp: reg_apply_def StopProbes_def all_entries_def Let_def split: option.splits)
    next
      case (EvSample c k res)
      show ?thesis
      proof (cases "rg_live g c")
        case (Some e)
        have "P e'" if "sample_one k res e = Some (e', b)" for e' b
          using sampled [OF live [OF Some] _ that] ok EvSample Some by (simp add: attempt_ok_def)
        then show ?thesis
          using EvSample Some up live late
          by (auto simp: reg_apply_def live_sample_def all_entries_def split: option.splits)
      qed (use EvSample inv in \<open>simp add: reg_apply_def live_sample_def\<close>)
    next
      case (EvDrain now c k)
      show ?thesis
      proof (cases "rg_live g c")
        case (Some e)
        obtain e' s' out where d: "drain_one rc now c k e (rg_store g) = (e', s', out)"
          by (cases "drain_one rc now c k e (rg_store g)")
        then show ?thesis
          using EvDrain Some up live late drained [OF live [OF Some] d]
          by (auto simp: reg_apply_def live_drain_def all_entries_def)
      qed (use EvDrain inv in \<open>simp add: reg_apply_def live_drain_def\<close>)
    next
      case (EvLateSample i k res)
      show ?thesis
      proof (cases "i < length (rg_closing g)")
        case True
        obtain c e where ce: "rg_closing g ! i = (c, e)" by (cases "rg_closing g ! i")
        have "P e'" if "sample_one k res e = Some (e', b)" for e' b
          using sampled [OF nth [OF True ce] _ that] ok EvLateSample True ce by (simp add: attempt_ok_def)
        then show ?thesis
          using EvLateSample True ce up live late
          by (auto simp: reg_apply_def late_sample_def all_entries_def
              split: option.splits dest!: set_update_subset_insert [THEN subsetD])
      qed (use EvLateSample inv in \<open>simp add: reg_apply_def late_sample_def\<close>)
    next
      case (EvLateDrain now i k)
      show ?thesis
      proof (cases "i < length (rg_closing g)")
        case True
        obtain c e where ce: "rg_closing g ! i = (c, e)" by (cases "rg_closing g ! i")
        obtain e' s' out where d: "drain_one rc now c k e (rg_store g) = (e', s', out)"
          by (cases "drain_one rc now c k e (rg_store g)")
        then show ?thesis
          using EvLateDrain True ce up live late drained [OF nth [OF True ce] d]
          by (auto simp: reg_apply_def late_drain_def all_entries_def
              dest!: set_update_subset_insert [THEN subsetD])
      qed (use EvLateDrain inv in \<open>simp add: reg_apply_def late_drain_def\<close>)
    next
      case (EvRecord i)
      then show ?thesis
        using up live late by (auto simp: reg_apply_def run_pending_def all_entries_def split: prod.splits)
    qed
  qed (use inv in \<open>simp add: reg_apply_def\<close>)
qed

lemma kept_run: "all_entries P g \<Longrightarrow> attempts_ok room rc ips g evs \<Longrightarrow> all_entries P (reg_run rc ips g evs)"
  by (induction evs arbitrary: g) (auto intro: kept)

lemma from_new:
  "attempts_ok room rc ips (new_registry s) evs \<Longrightarrow> rg_live (reg_run rc ips (new_registry s) evs) c = Some e \<Longrightarrow> P e"
  using kept_run [of "new_registry s"] by (auto simp: all_entries_def new_registry_def)

end

definition runner_ok :: "probe_kind \<Rightarrow> runner \<Rightarrow> bool" where
  "runner_ok k r = (rn_fails r \<ge> 0 \<and> rn_stop_on_ready r = (k = Startup) \<and> (rn_at r = Ended \<longrightarrow> k = Startup))"

definition runners_ok :: "entry \<Rightarrow> bool" where
  "runners_ok e = (\<forall>k r. en_runners e k = Some r \<longrightarrow> runner_ok k r)"

lemma run_turn_ok: "run_turn r res = Some (r', b) \<Longrightarrow> runner_ok k r \<Longrightarrow> runner_ok k r'"
  by (cases "sample r res")
    (use sample_simps [of r res] in \<open>auto simp: run_turn_def runner_ok_def shouldStop_def split: if_splits\<close>)

interpretation runners: entry_invariant runners_ok "\<lambda>e k. True" rc for rc :: "'s recorder option"
proof (unfold_locales, goal_cases)
  case (1 app c a spec op)
  show ?case
    by (auto simp: runners_ok_def new_entry_def spawn_def NewRunner_def runner_ok_def split: probe_kind.splits)
next
  case (2 e)
  then show ?case by (simp add: runners_ok_def)
next
  case (3 e k res e' b)
  show ?case
  proof (cases "en_runners e k")
    case (Some r)
    have "runner_ok k r" using 3 Some by (simp add: runners_ok_def)
    then have "runner_ok k r'" if "run_turn r res = Some (r', b')" for r' b' using that run_turn_ok by blast
    then show ?thesis using 3 Some by (auto simp: runners_ok_def sample_one_def split: if_splits)
  qed (use 3 in \<open>simp add: sample_one_def\<close>)
next
  case (4 e now c k s e' s' out)
  show ?case using 4(2)
  proof (cases rule: drain_one_cases)
    case (event q ev evs)
    have "runner_ok k q" using 4(1) event(1) by (simp add: runners_ok_def)
    then have "runner_ok k (q\<lparr>rn_events := evs\<rparr>)" by (simp add: runner_ok_def)
    then show ?thesis using 4(1) by (simp add: runners_ok_def event(4))
  qed (use 4(1) in simp)
qed

lemma any_run_ok: "attempts_ok (\<lambda>e k. True) rc ips g evs"
  by (induction evs arbitrary: g) (auto simp: attempt_ok_def split: reg_event.splits option.splits)

text \<open>
  C9: A live container whose liveness probe fails without a success in between, at least as often as
  its failure threshold, is restarted: exactly once, whatever else happens to the registry meanwhile,
  as long as the controller runs and the container's probes are not stopped.
\<close>

theorem failing_container_restarted_once:
  assumes "g = reg_run rc ips (new_registry s) evs0" and "rg_live g c = Some e" and "en_runners e Liveness = Some r"
    and "rn_phase r \<noteq> PhaseUnhealthy" and "c \<notin> fst ` set (rg_closing g)"
    and "rg_up (reg_run rc ips g evs)" and "\<forall>app. EvStop app c \<notin> set evs"
    and "\<forall>res \<in> set (liveness_samples c evs). \<not> rt_ok res"
    and "max 1 (qs_failures (rn_spec r)) \<le> int (length (liveness_samples c evs))"
  shows "count_list (rg_restarts (reg_run rc ips g evs)) c = count_list (rg_restarts g) c + 1"
proof -
  have "runners_ok e" using runners.from_new [OF any_run_ok] assms(1,2) by metis
  then have ok: "rn_fails r \<ge> 0" "rn_at r \<noteq> Ended" "\<not> rn_stop_on_ready r"
    using assms(3) by (auto simp: runners_ok_def runner_ok_def)
  have "liveness_samples c evs \<noteq> []" using assms(9) by auto
  then show ?thesis
    using restart_count [OF assms(6,2,3) ok(2,3) assms(5,7,8)] assms(4,9) ok(1) by fastforce
qed

section \<open>The registry without goroutines\<close>

text \<open>
  The reference: a table of runners in which every attempt counts at once. No buffers, no drains, no
  gate; a replica is ready when its startup and readiness runners, where it has them, are healthy.
\<close>

type_synonym plain_registry = "(string \<Rightarrow> (probe_kind \<Rightarrow> runner option) option) \<times> bool"

definition unbuffered :: "runner \<Rightarrow> runner" where
  "unbuffered r = r\<lparr>rn_events := []\<rparr>"

definition plain_runners :: "(string \<Rightarrow> string + string) option \<Rightarrow> string \<Rightarrow> probes_spec \<Rightarrow> probe_kind \<Rightarrow> runner option" where
  "plain_runners ips c spec =
     (let a = (case ips of None \<Rightarrow> [] | Some f \<Rightarrow> (case f c of Inl e \<Rightarrow> [] | Inr ip \<Rightarrow> ip)) in
      (\<lambda>k. case k of Startup \<Rightarrow> spawn (pr_startup spec) c a True | Liveness \<Rightarrow> spawn (pr_liveness spec) c a False
           | Readiness \<Rightarrow> spawn (pr_readiness spec) c a False))"

fun plain_step :: "(string \<Rightarrow> string + string) option \<Rightarrow> plain_registry \<Rightarrow> reg_event \<Rightarrow> plain_registry" where
  "plain_step ips (f, False) ev = (f, False)"
| "plain_step ips (f, True) (EvStart app c (Some spec) op) =
     (if plain_runners ips c spec = (\<lambda>k. None) \<or> f c \<noteq> None then (f, True)
      else (f(c \<mapsto> plain_runners ips c spec), True))"
| "plain_step ips (f, True) (EvStop app c) = (f(c := None), True)"
| "plain_step ips (f, True) (EvSample c k res) =
     (case f c of None \<Rightarrow> (f, True)
      | Some rs \<Rightarrow> (case rs k of None \<Rightarrow> (f, True)
          | Some r \<Rightarrow> if rn_at r = Ended then (f, True)
                      else case run_turn r res of None \<Rightarrow> (f, False)
                           | Some (r', b) \<Rightarrow> (f(c \<mapsto> rs(k \<mapsto> unbuffered r')), True)))"
| "plain_step ips (f, True) ev = (f, True)"

definition plain_ready :: "(probe_kind \<Rightarrow> runner option) \<Rightarrow> bool" where
  "plain_ready rs =
     ((\<forall>r \<in> set_option (rs Startup). rn_phase r = PhaseHealthy) \<and> (\<forall>r \<in> set_option (rs Readiness). rn_phase r = PhaseHealthy))"

definition abs_entry :: "entry \<Rightarrow> probe_kind \<Rightarrow> runner option" where
  "abs_entry e = (\<lambda>k. map_option unbuffered (en_runners e k))"

definition abs_registry :: "'s registry \<Rightarrow> plain_registry" where
  "abs_registry g = ((\<lambda>c. map_option abs_entry (rg_live g c)), rg_up g)"

lemma unbuffered_simps [simp]:
  "rn_at (unbuffered r) = rn_at r" "rn_phase (unbuffered r) = rn_phase r" "rn_spec (unbuffered r) = rn_spec r"
  "unbuffered (r\<lparr>rn_events := evs\<rparr>) = unbuffered r" "unbuffered (unbuffered r) = unbuffered r"
  by (simp_all add: unbuffered_def)

lemma sample_unbuffered:
  "\<exists>evs. sample (unbuffered r) res = ((fst (sample r res))\<lparr>rn_events := evs\<rparr>, snd (sample r res))"
  by (rule exI [of _ "rn_events (fst (sample (unbuffered r) res))"])
    (simp add: sample_def count_result_def unbuffered_def Let_def)

lemma run_turn_unbuffered:
  "map_option (map_prod unbuffered id) (run_turn (unbuffered r) res) = map_option (map_prod unbuffered id) (run_turn r res)"
proof -
  obtain r1 b where s: "sample r res = (r1, b)" by (cases "sample r res")
  obtain evs where "sample (unbuffered r) res = (r1\<lparr>rn_events := evs\<rparr>, b)" using sample_unbuffered [of r res] s by auto
  then show ?thesis using s by (simp add: run_turn_def shouldStop_def unbuffered_def)
qed

lemma abs_new_entry: "abs_entry (new_entry app c a spec op) =
    (\<lambda>k. case k of Startup \<Rightarrow> spawn (pr_startup spec) c a True | Liveness \<Rightarrow> spawn (pr_liveness spec) c a False
         | Readiness \<Rightarrow> spawn (pr_readiness spec) c a False)"
  by (auto simp: abs_entry_def new_entry_def spawn_def NewRunner_def unbuffered_def option.map_comp comp_def
      split: probe_kind.splits)

lemma abs_drain_one: "drain_one rc now c k e s = (e', s', out) \<Longrightarrow> abs_entry e' = abs_entry e"
  by (erule drain_one_cases) (auto simp: abs_entry_def)

lemma abs_sample_one:
  "map_option (abs_entry \<circ> fst) (sample_one k res e) =
     (case abs_entry e k of None \<Rightarrow> Some (abs_entry e)
      | Some r \<Rightarrow> if rn_at r = Ended then Some (abs_entry e)
                  else case run_turn r res of None \<Rightarrow> None | Some (r', b) \<Rightarrow> Some ((abs_entry e)(k \<mapsto> unbuffered r')))"
proof (cases "en_runners e k")
  case (Some r)
  then show ?thesis
    using run_turn_unbuffered [of r res]
    by (cases "run_turn r res"; cases "run_turn (unbuffered r) res") (auto simp: sample_one_def abs_entry_def)
qed (simp add: sample_one_def abs_entry_def)

lemma no_probes_iff:
  "pr_liveness spec = None \<and> pr_readiness spec = None \<and> pr_startup spec = None \<longleftrightarrow> plain_runners ips c spec = (\<lambda>k. None)"
  by (auto simp: plain_runners_def spawn_def fun_eq_iff Let_def split: probe_kind.splits)

lemma abs_step:
  assumes "rg_up (reg_apply rc ips g ev)"
  shows "abs_registry (reg_apply rc ips g ev) = plain_step ips (abs_registry g) ev"
proof (cases "rg_up g")
  case up: True
  show ?thesis
  proof (cases ev)
    case (EvStart app c spec op)
    then show ?thesis
      using up no_probes_iff [of "the spec" ips c]
      by (cases spec) (auto simp: reg_apply_def StartProbes_def abs_registry_def abs_new_entry plain_runners_def Let_def fun_eq_iff)
  next
    case (EvMark app c)
    then show ?thesis
      using up by (auto simp: reg_apply_def MarkPlannedTeardown_def abs_registry_def abs_entry_def fun_eq_iff split: option.splits)
  next
    case (EvStop app c)
    then show ?thesis
      using up by (auto simp: reg_apply_def StopProbes_def abs_registry_def fun_eq_iff Let_def split: option.splits)
  next
    case (EvSample c k res)
    show ?thesis
    proof (cases "rg_live g c")
      case (Some e)
      then show ?thesis
        using EvSample up abs_sample_one [of k res e]
        by (cases "sample_one k res e")
          (auto simp: reg_apply_def live_sample_def abs_registry_def fun_eq_iff split: option.splits if_splits)
    qed (use EvSample up in \<open>simp add: reg_apply_def live_sample_def abs_registry_def\<close>)
  next
    case (EvDrain now c k)
    then show ?thesis
      using up by (auto simp: reg_apply_def live_drain_def abs_registry_def fun_eq_iff dest: abs_drain_one split: option.splits prod.splits)
  next
    case (EvLateSample i k res)
    then show ?thesis
      using up assms by (auto simp: reg_apply_def late_sample_def abs_registry_def split: prod.splits option.splits)
  next
    case (EvLateDrain now i k)
    then show ?thesis
      using up by (auto simp: reg_apply_def late_drain_def abs_registry_def split: prod.splits)
  next
    case (EvRecord i)
    then show ?thesis
      using up by (auto simp: reg_apply_def run_pending_def abs_registry_def split: prod.splits)
  qed
qed (cases ev; simp add: reg_apply_def abs_registry_def)

text \<open>
  What the gate of an entry will say when its buffers are drained is what its runners say, as long as
  no full buffer has lost an event.
\<close>

definition pending_phase :: "phase \<Rightarrow> probe_event list \<Rightarrow> phase" where
  "pending_phase p evs = foldl (\<lambda>p ev. if pe_transition ev then pe_phase ev else p) p evs"

definition pending_pass :: "bool \<Rightarrow> probe_event list \<Rightarrow> bool" where
  "pending_pass b evs = (b \<or> (\<exists>ev \<in> set evs. pe_transition ev \<and> pe_phase ev = PhaseHealthy))"

definition synced :: "entry \<Rightarrow> bool" where
  "synced e =
     (ga_has_readiness (en_gate e) = (en_runners e Readiness \<noteq> None) \<and>
      ga_has_startup (en_gate e) = (en_runners e Startup \<noteq> None) \<and>
      (\<forall>r. en_runners e Readiness = Some r \<longrightarrow> pending_phase (ga_phase (en_gate e)) (rn_events r) = rn_phase r) \<and>
      (\<forall>r. en_runners e Startup = Some r \<longrightarrow>
         pending_pass (ga_startup_passed (en_gate e)) (rn_events r) = (rn_phase r = PhaseHealthy) \<and>
         rn_stop_on_ready r \<and> (rn_phase r = PhaseHealthy \<longrightarrow> rn_at r = Ended)))"

definition roomy :: "entry \<Rightarrow> probe_kind \<Rightarrow> bool" where
  "roomy e k = (\<forall>r. en_runners e k = Some r \<longrightarrow> length (rn_events r) < eventBuffer)"

lemma sample_event:
  "length (rn_events r) < eventBuffer \<Longrightarrow> rn_events (fst (sample r res)) = rn_events r @
     [\<lparr>pe_phase = rn_phase (fst (sample r res)), pe_result = res,
       pe_transition = (rn_phase (fst (sample r res)) \<noteq> rn_phase r \<and> rn_phase (fst (sample r res)) \<noteq> PhaseUnknown)\<rparr>]"
  by (simp add: sample_def Let_def push_event_def)

lemma run_turn_events:
  assumes "run_turn r res = Some (r', b)" and "length (rn_events r) < eventBuffer"
  shows "rn_events r' = rn_events r @ [\<lparr>pe_phase = rn_phase r', pe_result = res,
      pe_transition = (rn_phase r' \<noteq> rn_phase r \<and> rn_phase r' \<noteq> PhaseUnknown)\<rparr>]"
    and "rn_phase r' = PhaseUnknown \<Longrightarrow> rn_phase r = PhaseUnknown"
    and "rn_stop_on_ready r' = rn_stop_on_ready r"
    and "rn_stop_on_ready r \<Longrightarrow> rn_phase r' = PhaseHealthy \<Longrightarrow> rn_at r' = Ended"
proof -
  obtain r1 where s: "sample r res = (r1, b)" and r': "r' = r1\<lparr>rn_at := rn_at r'\<rparr>"
    and ended: "shouldStop r1 \<Longrightarrow> rn_at r' = Ended"
    using assms(1) by (cases "sample r res") (auto simp: run_turn_def split: if_splits)
  have f: "rn_events r' = rn_events r1" "rn_phase r' = rn_phase r1" "rn_stop_on_ready r' = rn_stop_on_ready r1"
    by (subst r', simp)+
  show "rn_events r' = rn_events r @ [\<lparr>pe_phase = rn_phase r', pe_result = res,
      pe_transition = (rn_phase r' \<noteq> rn_phase r \<and> rn_phase r' \<noteq> PhaseUnknown)\<rparr>]"
    using sample_event [OF assms(2), of res] f s by simp
  show stop: "rn_stop_on_ready r' = rn_stop_on_ready r" using sample_simps(2) [of r res] f s by simp
  show "rn_phase r' = PhaseUnknown \<Longrightarrow> rn_phase r = PhaseUnknown"
    using sample_simps(6) [of r res] f s by (simp split: if_splits)
  show "rn_stop_on_ready r \<Longrightarrow> rn_phase r' = PhaseHealthy \<Longrightarrow> rn_at r' = Ended"
    using ended f stop by (simp add: shouldStop_def)
qed

lemma emit_gate:
  assumes "emitProbeTransition b now c k ev e = (e', out)"
  shows "ga_phase (en_gate e') = ga_phase (en_gate e)" "ga_startup_passed (en_gate e') = ga_startup_passed (en_gate e)"
    "ga_has_readiness (en_gate e') = ga_has_readiness (en_gate e)" "ga_has_startup (en_gate e') = ga_has_startup (en_gate e)"
    "ga_planned_teardown (en_gate e') = ga_planned_teardown (en_gate e)"
  using assms by (auto simp: emitProbeTransition_def Let_def split: if_splits phase.splits)

lemma gate_update_simps [simp]:
  "ga_phase (fst (gate_update now k ev g)) = (if k = Readiness then pe_phase ev else ga_phase g)"
  "ga_startup_passed (fst (gate_update now k ev g)) = (ga_startup_passed g \<or> k = Startup \<and> pe_phase ev = PhaseHealthy)"
  "ga_has_readiness (fst (gate_update now k ev g)) = ga_has_readiness g"
  "ga_has_startup (fst (gate_update now k ev g)) = ga_has_startup g"
  "ga_planned_teardown (fst (gate_update now k ev g)) = ga_planned_teardown g"
  "ga_had_failure (fst (gate_update now k ev g)) = ga_had_failure g"
  by (simp_all add: gate_update_def split: probe_kind.split)

lemma drain_event_emits:
  assumes "drain_event rc now c k ev e s = (e', s', out)" and "pe_transition ev"
  shows "emitProbeTransition (rc \<noteq> None) now c k ev (e\<lparr>en_gate := fst (gate_update now k ev (en_gate e))\<rparr>) = (e', out)"
proof -
  obtain g b where g: "gate_update now k ev (en_gate e) = (g, b)" by (cases "gate_update now k ev (en_gate e)")
  obtain e2 out2 where "emitProbeTransition (rc \<noteq> None) now c k ev (e\<lparr>en_gate := g\<rparr>) = (e2, out2)"
    by (cases "emitProbeTransition (rc \<noteq> None) now c k ev (e\<lparr>en_gate := g\<rparr>)")
  then show ?thesis using assms g by (simp add: drain_event_def Let_def)
qed

lemma drain_gate:
  assumes "drain_event rc now c k ev e s = (e', s', out)"
  shows "ga_phase (en_gate e') = (if pe_transition ev \<and> k = Readiness then pe_phase ev else ga_phase (en_gate e))"
    and "ga_startup_passed (en_gate e') =
      (ga_startup_passed (en_gate e) \<or> pe_transition ev \<and> k = Startup \<and> pe_phase ev = PhaseHealthy)"
    and "ga_has_readiness (en_gate e') = ga_has_readiness (en_gate e)"
    and "ga_has_startup (en_gate e') = ga_has_startup (en_gate e)"
    and "ga_planned_teardown (en_gate e') = ga_planned_teardown (en_gate e)"
proof -
  have "ga_phase (en_gate e') = (if pe_transition ev \<and> k = Readiness then pe_phase ev else ga_phase (en_gate e)) \<and>
    ga_startup_passed (en_gate e') =
      (ga_startup_passed (en_gate e) \<or> pe_transition ev \<and> k = Startup \<and> pe_phase ev = PhaseHealthy) \<and>
    ga_has_readiness (en_gate e') = ga_has_readiness (en_gate e) \<and>
    ga_has_startup (en_gate e') = ga_has_startup (en_gate e) \<and>
    ga_planned_teardown (en_gate e') = ga_planned_teardown (en_gate e)"
  proof (cases "pe_transition ev")
    case True
    then show ?thesis using emit_gate [OF drain_event_emits [OF assms True]] by simp
  next
    case False
    then show ?thesis using assms by (simp add: drain_event_def)
  qed
  then show "ga_phase (en_gate e') = (if pe_transition ev \<and> k = Readiness then pe_phase ev else ga_phase (en_gate e))"
    and "ga_startup_passed (en_gate e') =
      (ga_startup_passed (en_gate e) \<or> pe_transition ev \<and> k = Startup \<and> pe_phase ev = PhaseHealthy)"
    and "ga_has_readiness (en_gate e') = ga_has_readiness (en_gate e)"
    and "ga_has_startup (en_gate e') = ga_has_startup (en_gate e)"
    and "ga_planned_teardown (en_gate e') = ga_planned_teardown (en_gate e)"
    by blast+
qed

lemma synced_sample:
  assumes inv: "synced e" and room: "roomy e k" and "sample_one k res e = Some (e', b)"
  shows "synced e'"
proof (cases "en_runners e k")
  case (Some r)
  show ?thesis
  proof (cases "rn_at r = Ended")
    case False
    then obtain r' t where t: "run_turn r res = Some (r', t)" "e' = e\<lparr>en_runners := (en_runners e)(k \<mapsto> r')\<rparr>"
      using assms(3) Some by (auto simp: sample_one_def)
    have len: "length (rn_events r) < eventBuffer" using room Some by (simp add: roomy_def)
    note ev = run_turn_events [OF t(1) len]
    show ?thesis
    proof (cases k)
      case Liveness
      then show ?thesis using inv t(2) by (simp add: synced_def)
    next
      case Readiness
      then show ?thesis using inv t(2) Some ev(1,2) by (auto simp: synced_def pending_phase_def)
    next
      case Startup
      then have "rn_stop_on_ready r" "rn_phase r \<noteq> PhaseHealthy" using inv Some False by (auto simp: synced_def)
      then show ?thesis
        using inv t(2) Some ev Startup by (auto simp: synced_def pending_pass_def)
    qed
  qed (use assms Some in \<open>simp add: sample_one_def\<close>)
qed (use assms in \<open>simp add: sample_one_def\<close>)

lemma synced_drain:
  assumes inv: "synced e" and "drain_one rc now c k e s = (e', s', out)"
  shows "synced e'"
  using assms(2)
proof (cases rule: drain_one_cases)
  case (event r ev evs)
  note g = drain_gate [OF event(3)]
  show ?thesis
    by (cases k) (use inv event(1,2,4) g in \<open>auto simp: synced_def pending_phase_def pending_pass_def split: if_splits\<close>)
qed (use inv in simp)

interpretation gates: entry_invariant synced roomy rc for rc :: "'s recorder option"
proof (unfold_locales, goal_cases)
  case (1 app c a spec op)
  show ?case
    by (auto simp: synced_def new_entry_def initial_gate_def spawn_def NewRunner_def pending_phase_def pending_pass_def)
next
  case (2 e)
  then show ?case by (simp add: synced_def)
next
  case (3 e k res e' b)
  then show ?case by (rule synced_sample)
next
  case (4 e now c k s e' s' out)
  then show ?case by (rule synced_drain)
qed

text \<open>
  C6: The registry refines a table of runners without buffers and drains. After any run in which no
  attempt found its runner's buffer full and the controller is up, the runners are those of the table
  after the same events, and a container whose buffers are drained is reported ready exactly when the
  table has its startup and readiness runners healthy.
\<close>

theorem registry_refines_plain_table:
  assumes "attempts_ok roomy rc ips (new_registry s) evs" and "rg_up (reg_run rc ips (new_registry s) evs)"
  defines "g \<equiv> reg_run rc ips (new_registry s) evs"
    and "table \<equiv> fst (foldl (plain_step ips) ((\<lambda>c. None), True) evs)"
  shows "map_option abs_entry (rg_live g c) = table c \<and>
    (\<forall>e. rg_live g c = Some e \<longrightarrow> (\<forall>k r. en_runners e k = Some r \<longrightarrow> rn_events r = []) \<longrightarrow>
      map_option rs_ready (LookupReadiness g c) = map_option plain_ready (table c))"
proof (intro conjI allI impI)
  have "abs_registry (reg_run rc ips h evs) = foldl (plain_step ips) (abs_registry h) evs"
    if "rg_up (reg_run rc ips h evs)" for h
    using that
  proof (induction evs rule: rev_induct)
    case (snoc ev evs)
    have "rg_up (reg_run rc ips h evs)" using snoc.prems up_before [of rc ips "reg_run rc ips h evs" "[ev]"] by simp
    then show ?case using snoc.IH abs_step [of rc ips "reg_run rc ips h evs" ev] snoc.prems by simp
  qed simp
  from this [OF assms(2)] have "(\<lambda>c. map_option abs_entry (rg_live g c)) = table"
    by (auto simp: g_def table_def abs_registry_def new_registry_def prod_eq_iff)
  then show eq: "map_option abs_entry (rg_live g c) = table c" by (rule fun_cong)
  fix e
  assume e: "rg_live g c = Some e" and dry: "\<forall>k r. en_runners e k = Some r \<longrightarrow> rn_events r = []"
  have sy: "synced e" using gates.from_new [OF assms(1)] e by (auto simp: g_def)
  have "gate_ready (en_gate e) = plain_ready (abs_entry e)"
    using sy dry
    by (cases "en_runners e Readiness"; cases "en_runners e Startup")
      (auto simp: gate_ready_def plain_ready_def synced_def abs_entry_def pending_phase_def pending_pass_def)
  then show "map_option rs_ready (LookupReadiness g c) = map_option plain_ready (table c)"
    using e eq [symmetric] by (simp add: LookupReadiness_def gate_snapshot_def)
qed

section \<open>Failure and recovery webhooks\<close>

text \<open>Every recovery has a failure before it that no other recovery has used; \<open>f\<close> tells of an open failure.\<close>

fun paired :: "bool \<Rightarrow> string list \<Rightarrow> bool" where
  "paired f [] = True"
| "paired f (t # ts) = (if t = ''recovery'' then f \<and> paired False ts else paired True ts)"

definition open_after :: "bool \<Rightarrow> string list \<Rightarrow> bool" where
  "open_after f ts = foldl (\<lambda>f t. t \<noteq> ''recovery'') f ts"

lemma paired_append: "paired f (xs @ ys) \<longleftrightarrow> paired f xs \<and> paired (open_after f xs) ys"
  by (induction xs arbitrary: f) (auto simp: open_after_def)

lemma open_after_append: "open_after f (xs @ ys) = open_after (open_after f xs) ys"
  by (simp add: open_after_def)

definition sent_for :: "string \<Rightarrow> 's registry \<Rightarrow> string list" where
  "sent_for c g = map te_transition (filter (\<lambda>t. te_pod t = c) (rg_sent g))"

lemma emit_paired:
  assumes "emitProbeTransition b now c k ev e = (e', out)"
  shows "\<forall>t \<in> set out. te_pod t = c" and "paired (ga_had_failure (en_gate e)) (map te_transition out)"
    and "open_after (ga_had_failure (en_gate e)) (map te_transition out) = ga_had_failure (en_gate e')"
    and "ga_planned_teardown (en_gate e) \<Longrightarrow> out = []"
  using assms
  by (auto simp: emitProbeTransition_def open_after_def Let_def split: if_splits phase.splits prod.splits)

lemma drain_paired:
  assumes "drain_one rc now c k e s = (e', s', out)"
  shows "\<forall>t \<in> set out. te_pod t = c" and "paired (ga_had_failure (en_gate e)) (map te_transition out)"
    and "open_after (ga_had_failure (en_gate e)) (map te_transition out) = ga_had_failure (en_gate e')"
    and "ga_planned_teardown (en_gate e) \<Longrightarrow> out = []"
    and "ga_planned_teardown (en_gate e') = ga_planned_teardown (en_gate e)"
proof -
  have "(\<forall>t \<in> set out. te_pod t = c) \<and> paired (ga_had_failure (en_gate e)) (map te_transition out) \<and>
    open_after (ga_had_failure (en_gate e)) (map te_transition out) = ga_had_failure (en_gate e') \<and>
    (ga_planned_teardown (en_gate e) \<longrightarrow> out = []) \<and> ga_planned_teardown (en_gate e') = ga_planned_teardown (en_gate e)"
    using assms
  proof (cases rule: drain_one_cases)
    case idle
    then show ?thesis by (simp add: open_after_def)
  next
    case (event r ev evs)
    show ?thesis
    proof (cases "pe_transition ev")
      case True
      note em = drain_event_emits [OF event(3) True]
      show ?thesis using emit_paired [OF em] drain_gate(5) [OF event(3)] by simp
    next
      case False
      then show ?thesis using event(3) by (auto simp: drain_event_def open_after_def)
    qed
  qed
  then show "\<forall>t \<in> set out. te_pod t = c" and "paired (ga_had_failure (en_gate e)) (map te_transition out)"
    and "open_after (ga_had_failure (en_gate e)) (map te_transition out) = ga_had_failure (en_gate e')"
    and "ga_planned_teardown (en_gate e) \<Longrightarrow> out = []"
    and "ga_planned_teardown (en_gate e') = ga_planned_teardown (en_gate e)"
    by blast+
qed

lemma sample_one_gate: "sample_one k res e = Some (e', b) \<Longrightarrow> en_gate e' = en_gate e"
  by (auto simp: sample_one_def split: option.splits if_splits)

lemma sent_for_append: "sent_for c (g\<lparr>rg_sent := rg_sent g @ out\<rparr>) = sent_for c g @ map te_transition (filter (\<lambda>t. te_pod t = c) out)"
  by (simp add: sent_for_def)

lemma restart_sent [simp]: "sent_for c (restart_if b d g) = sent_for c g"
  by (simp add: sent_for_def)

definition life :: "string \<Rightarrow> 's registry \<Rightarrow> bool" where
  "life c g = (c \<notin> fst ` set (rg_closing g) \<and>
     (case rg_live g c of
        None \<Rightarrow> sent_for c g = []
      | Some e \<Rightarrow> paired False (sent_for c g) \<and> open_after False (sent_for c g) = ga_had_failure (en_gate e)))"

lemma life_step:
  assumes inv: "life c g" and no: "\<forall>app. ev \<noteq> EvStop app c"
  shows "life c (reg_apply rc ips g ev)"
proof (cases "rg_up g")
  case up: True
  have late: "c \<notin> fst ` set (rg_closing g)" using inv by (simp add: life_def)
  have names: "c \<noteq> d" if "i < length (rg_closing g)" "rg_closing g ! i = (d, x)" for i d x
    using late that by (metis fst_conv image_eqI nth_mem)
  show ?thesis
  proof (cases ev)
    case (EvStart app d spec op)
    then show ?thesis
      using up inv
      by (auto simp: reg_apply_def StartProbes_def Let_def life_def sent_for_def new_entry_def initial_gate_def open_after_def
          split: option.splits)
  next
    case (EvMark app d)
    then show ?thesis
      using up inv by (auto simp: reg_apply_def MarkPlannedTeardown_def life_def sent_for_def split: option.splits)
  next
    case (EvStop app d)
    then show ?thesis
      using up inv no
      by (auto simp: reg_apply_def StopProbes_def Let_def life_def sent_for_def split: option.splits)
  next
    case (EvSample d k res)
    then show ?thesis
      using up inv
      by (auto simp: reg_apply_def live_sample_def life_def sent_for_def dest: sample_one_gate split: option.splits)
  next
    case (EvDrain now d k)
    show ?thesis
    proof (cases "rg_live g d")
      case (Some e)
      obtain e' s' out where d: "drain_one rc now d k e (rg_store g) = (e', s', out)"
        by (cases "drain_one rc now d k e (rg_store g)")
      note pr = drain_paired [OF d]
      have "filter (\<lambda>t. te_pod t = c) out = (if c = d then out else [])"
        using pr(1) by (auto simp: filter_empty_conv filter_id_conv)
      then show ?thesis
        using EvDrain Some up inv d pr(2,3)
        by (auto simp: reg_apply_def live_drain_def life_def sent_for_def paired_append open_after_append split: option.splits)
    qed (use EvDrain up inv in \<open>simp add: reg_apply_def live_drain_def\<close>)
  next
    case (EvLateSample i k res)
    then show ?thesis
      using up inv
      by (auto simp: reg_apply_def late_sample_def life_def sent_for_def late_names split: option.splits prod.splits)
  next
    case (EvLateDrain now i k)
    show ?thesis
    proof (cases "i < length (rg_closing g)")
      case True
      obtain d e where de: "rg_closing g ! i = (d, e)" by (cases "rg_closing g ! i")
      obtain e' s' out where dr: "drain_one rc now d k e (rg_store g) = (e', s', out)"
        by (cases "drain_one rc now d k e (rg_store g)")
      have "filter (\<lambda>t. te_pod t = c) out = []"
        using drain_paired(1) [OF dr] names [OF True de] by (auto simp: filter_empty_conv)
      then show ?thesis
        using EvLateDrain True de dr up inv
        by (auto simp: reg_apply_def late_drain_def life_def sent_for_def late_names split: option.splits)
    qed (use EvLateDrain up inv in \<open>simp add: reg_apply_def late_drain_def\<close>)
  next
    case (EvRecord i)
    then show ?thesis
      using up inv by (auto simp: reg_apply_def run_pending_def life_def sent_for_def split: option.splits prod.splits)
  qed
qed (use inv in \<open>simp add: reg_apply_def\<close>)


definition torn_down :: "string \<Rightarrow> 's registry \<Rightarrow> bool" where
  "torn_down c g =
     ((\<forall>e. rg_live g c = Some e \<longrightarrow> ga_planned_teardown (en_gate e)) \<and>
      (\<forall>x \<in> set (rg_closing g). fst x = c \<longrightarrow> ga_planned_teardown (en_gate (snd x))))"

lemma torn_down_update:
  assumes "torn_down c g" and "i < length (rg_closing g)" and "rg_closing g ! i = (d, e)"
    and "ga_planned_teardown (en_gate e') = ga_planned_teardown (en_gate e)"
  shows "\<forall>x \<in> set ((rg_closing g)[i := (d, e')]). fst x = c \<longrightarrow> ga_planned_teardown (en_gate (snd x))"
proof -
  have "d = c \<longrightarrow> ga_planned_teardown (en_gate e)"
    using assms(1-3) nth_mem [OF assms(2)] by (fastforce simp: torn_down_def)
  then show ?thesis
    using assms(1,4) by (auto simp: torn_down_def dest!: set_update_subset_insert [THEN subsetD])
qed

lemma torn_down_step:
  assumes inv: "torn_down c g" and no: "\<forall>app spec op. ev \<noteq> EvStart app c spec op"
  shows "torn_down c (reg_apply rc ips g ev) \<and> sent_for c (reg_apply rc ips g ev) = sent_for c g"
proof (cases "rg_up g")
  case up: True
  show ?thesis
  proof (cases ev)
    case (EvStart app d spec op)
    then show ?thesis
      using up inv no
      by (auto simp: reg_apply_def StartProbes_def Let_def torn_down_def sent_for_def split: option.splits)
  next
    case (EvMark app d)
    then show ?thesis
      using up inv by (auto simp: reg_apply_def MarkPlannedTeardown_def torn_down_def sent_for_def split: option.splits)
  next
    case (EvStop app d)
    then show ?thesis
      using up inv
      by (auto simp: reg_apply_def StopProbes_def Let_def torn_down_def sent_for_def split: option.splits)
  next
    case (EvSample d k res)
    then show ?thesis
      using up inv
      by (auto simp: reg_apply_def live_sample_def torn_down_def sent_for_def dest: sample_one_gate split: option.splits)
  next
    case (EvDrain now d k)
    show ?thesis
    proof (cases "rg_live g d")
      case (Some e)
      obtain e' s' out where d: "drain_one rc now d k e (rg_store g) = (e', s', out)"
        by (cases "drain_one rc now d k e (rg_store g)")
      note pr = drain_paired [OF d]
      have "filter (\<lambda>t. te_pod t = c) out = []"
        using pr(1,4) inv Some by (cases "d = c") (auto simp: filter_empty_conv torn_down_def)
      then show ?thesis
        using EvDrain Some up inv d pr(5)
        by (auto simp: reg_apply_def live_drain_def torn_down_def sent_for_def)
    qed (use EvDrain up inv in \<open>simp add: reg_apply_def live_drain_def\<close>)
  next
    case (EvLateSample i k res)
    show ?thesis
    proof (cases "i < length (rg_closing g)")
      case True
      obtain d e where de: "rg_closing g ! i = (d, e)" by (cases "rg_closing g ! i")
      show ?thesis
      proof (cases "sample_one k res e")
        case None
        then show ?thesis using EvLateSample True de up inv by (simp add: reg_apply_def late_sample_def torn_down_def sent_for_def)
      next
        case (Some p)
        obtain e' b where p: "p = (e', b)" by (cases p)
        have "en_gate e' = en_gate e" using Some p by (auto dest: sample_one_gate)
        then have "\<forall>x \<in> set ((rg_closing g)[i := (d, e')]). fst x = c \<longrightarrow> ga_planned_teardown (en_gate (snd x))"
          by (intro torn_down_update [OF inv True de]) simp
        then show ?thesis
          using EvLateSample True de up inv Some p
          by (simp add: reg_apply_def late_sample_def torn_down_def sent_for_def)
      qed
    qed (use EvLateSample up inv in \<open>simp add: reg_apply_def late_sample_def\<close>)
  next
    case (EvLateDrain now i k)
    show ?thesis
    proof (cases "i < length (rg_closing g)")
      case True
      obtain d e where de: "rg_closing g ! i = (d, e)" by (cases "rg_closing g ! i")
      obtain e' s' out where dr: "drain_one rc now d k e (rg_store g) = (e', s', out)"
        by (cases "drain_one rc now d k e (rg_store g)")
      note pr = drain_paired [OF dr]
      have "d = c \<longrightarrow> ga_planned_teardown (en_gate e)"
        using inv nth_mem [OF True] de by (fastforce simp: torn_down_def)
      then have "filter (\<lambda>t. te_pod t = c) out = []"
        using pr(1,4) by (cases "d = c") (auto simp: filter_empty_conv)
      then show ?thesis
        using EvLateDrain True de dr up inv torn_down_update [OF inv True de pr(5)]
        by (simp add: reg_apply_def late_drain_def torn_down_def sent_for_def)
    qed (use EvLateDrain up inv in \<open>simp add: reg_apply_def late_drain_def\<close>)
  next
    case (EvRecord i)
    then show ?thesis
      using up inv by (auto simp: reg_apply_def run_pending_def torn_down_def sent_for_def split: prod.splits)
  qed
qed (use inv in \<open>simp add: reg_apply_def\<close>)


section \<open>What the registry persists\<close>

text \<open>
  The interface of the status documents the registry records readiness in: \<open>entries s app c\<close> is the
  entry of a container in the document of its app.
\<close>

locale readiness_recorder =
  fixes rc :: "'s recorder" and entries :: "'s \<Rightarrow> string \<Rightarrow> string \<Rightarrow> readiness_status option" and served :: "'s \<Rightarrow> bool"
  assumes clear_gone: "served s \<Longrightarrow> entries (rc_clear rc s app c) app c = None"
    and clear_other: "served s \<Longrightarrow> c' \<noteq> c \<Longrightarrow> entries (rc_clear rc s app c) app c' = entries s app c'"
    and record_sound: "served s \<Longrightarrow> entries (rc_record rc s app st) app c' = Some x \<Longrightarrow>
      c' = rs_container st \<and> x = st \<or> entries s app c' = Some x"
    and clear_served: "served s \<Longrightarrow> served (rc_clear rc s app c)"
    and record_served: "served s \<Longrightarrow> served (rc_record rc s app st)"
begin

lemma stop_clears:
  assumes "served (rg_store g)" and "app \<noteq> []" and "c \<noteq> []"
  shows "entries (rg_store (StopProbes (Some rc) g app c)) app c = None"
    and "d \<noteq> c \<Longrightarrow> entries (rg_store (StopProbes (Some rc) g app c)) app d = entries (rg_store g) app d"
  using assms by (auto simp: StopProbes_def Let_def clear_gone clear_other split: option.split)

end

definition readiness_in :: "doc option \<Rightarrow> string \<Rightarrow> readiness_status option" where
  "readiness_in d c = (case d of Some (DStatus st) \<Rightarrow> map_of (ds_readiness st) c | _ \<Rightarrow> None)"

lemma map_of_filter_some: "map_of (filter (\<lambda>e. fst e \<notin> A) m) c = Some x \<Longrightarrow> map_of m c = Some x"
  using map_of_filter_keys [where P = "\<lambda>k. k \<notin> A" and kvs = m] by (simp split: if_splits)

lemma truncate_readiness_some: "map_of (truncateReplicaReadiness m) c = Some x \<Longrightarrow> map_of m c = Some x"
  by (auto simp: truncateReplicaReadiness_def Let_def split: if_splits dest: map_of_filter_some)

text \<open>Both status documents of an etcd that answers are such recorders.\<close>

context answering_etcd
begin

lemma status_read:
  assumes "up s"
  shows "map_of (ds_readiness (status_or_empty (loadDeploymentStatus cl s app))) =
      readiness_in (view s (StatusKey ''deployment'' app))"
    and "map_of (ds_readiness (status_or_empty (sts_loadStatus cl s app))) =
      readiness_in (view s (StatusKey ''statefulset'' app))"
  using get_up [OF assms]
  by (auto simp: loadDeploymentStatus_def sts_loadStatus_def GetStatus_def status_or_empty_def readiness_in_def
      empty_status_def fun_eq_iff split: option.splits doc.splits)

lemma status_write:
  assumes "up s"
  shows "up (put_or_keep cl s app st)"
    and "readiness_in (view (put_or_keep cl s app st) (StatusKey ''deployment'' app)) = map_of (ds_readiness st)"
    and "up (sts_put_or_keep cl s app st)"
    and "readiness_in (view (sts_put_or_keep cl s app st) (StatusKey ''statefulset'' app)) = map_of (ds_readiness st)"
  using put_view [OF assms, of "StatusKey ''deployment'' app" "DStatus st"]
    put_view [OF assms, of "StatusKey ''statefulset'' app" "DStatus st"]
  by (auto simp: put_or_keep_def sts_put_or_keep_def PutStatus_def readiness_in_def fun_eq_iff)

lemmas record_defs = deployment_recorder_def statefulset_recorder_def RecordReplicaReadiness_def ClearReplicaReadiness_def
  sts_RecordReplicaReadiness_def sts_ClearReplicaReadiness_def Let_def status_read status_write

sublocale deployments: readiness_recorder "deployment_recorder cl"
  "\<lambda>s app. readiness_in (view s (StatusKey ''deployment'' app))" up
  by unfold_locales (auto simp: record_defs dest!: truncate_readiness_some split: if_splits)

sublocale statefulsets: readiness_recorder "statefulset_recorder cl"
  "\<lambda>s app. readiness_in (view s (StatusKey ''statefulset'' app))" up
  by unfold_locales (auto simp: record_defs dest!: truncate_readiness_some split: if_splits)

end

section \<open>Concrete runs\<close>

definition one_probe :: probe_spec where
  "one_probe = \<lparr>pb_http = None, pb_tcp = Some 80, pb_exec = None, pb_initial_delay = [], pb_period = [], pb_timeout = [],
     pb_failures = 1, pb_successes = 0\<rparr>"

definition two_probes :: probes_spec where
  "two_probes = \<lparr>pr_liveness = Some one_probe, pr_readiness = Some one_probe, pr_startup = None\<rparr>"

definition ok_res :: probe_result where "ok_res = passed 1"
definition bad_res :: probe_result where "bad_res = failed 1 ''refused''"

definition started :: "unit registry" where
  "started = reg_run None None (new_registry ()) [EvStart ''shop-web'' ''shop-web.a1'' (Some two_probes) None]"

definition two_failures :: "reg_event list" where
  "two_failures = [EvSample ''shop-web.a1'' Liveness bad_res, EvDrain 5 ''shop-web.a1'' Liveness,
     EvSample ''shop-web.a1'' Liveness bad_res]"

theorem failing_container_restarted_once_witness:
  "count_list (rg_restarts (reg_run None None started two_failures)) ''shop-web.a1'' = count_list (rg_restarts started) ''shop-web.a1'' + 1"
proof -
  let ?e = "new_entry ''shop-web'' ''shop-web.a1'' [] two_probes None"
  let ?r = "NewRunner (wireToProbeSpec one_probe) ''shop-web.a1'' [] False"
  have live: "rg_live started ''shop-web.a1'' = Some ?e" and cl: "rg_closing started = []"
    by (simp_all add: started_def reg_apply_def StartProbes_def two_probes_def new_registry_def)
  have run: "en_runners ?e Liveness = Some ?r" by (simp add: new_entry_def spawn_def two_probes_def)
  have ph: "rn_phase ?r \<noteq> PhaseUnhealthy" by (simp add: NewRunner_def)
  have up: "rg_up (reg_run None None started two_failures)" by code_simp
  have ls: "liveness_samples ''shop-web.a1'' two_failures = [bad_res, bad_res]"
    by (simp add: liveness_samples_def two_failures_def)
  have "qs_failures (rn_spec ?r) = 1" by (simp add: NewRunner_def applyDefaults_def wireToProbeSpec_def one_probe_def)
  then show ?thesis
    using failing_container_restarted_once [OF started_def live run ph _ up] ls cl
    by (simp add: two_failures_def bad_res_def failed_def)
qed

definition dry_run :: "reg_event list" where
  "dry_run = [EvStart ''shop-web'' ''shop-web.a1'' (Some two_probes) None, EvSample ''shop-web.a1'' Readiness ok_res,
     EvDrain 7 ''shop-web.a1'' Readiness]"

theorem registry_refines_plain_table_witness:
  "\<exists>t. t = fst (foldl (plain_step None) ((\<lambda>c. None), True) dry_run) \<and>
     map_option rs_ready (LookupReadiness (reg_run None None (new_registry ()) dry_run) ''shop-web.a1'') = map_option plain_ready (t ''shop-web.a1'')"
proof -
  have up: "rg_up (reg_run None None (new_registry ()) dry_run)" by code_simp
  have room: "attempts_ok roomy None None (new_registry ()) dry_run"
    by (simp add: dry_run_def attempt_ok_def reg_apply_def StartProbes_def two_probes_def new_registry_def new_entry_def
        roomy_def spawn_def NewRunner_def eventBuffer_def)
  let ?g = "reg_run None None (new_registry ()) dry_run"
  define left where "left = (\<lambda>k. map_option (\<lambda>e. map_option rn_events (en_runners e k)) (rg_live ?g ''shop-web.a1''))"
  have l: "left Liveness = Some (Some [])" "left Readiness = Some (Some [])" "left Startup = Some None"
    unfolding left_def by code_simp+
  then obtain e where e: "rg_live ?g ''shop-web.a1'' = Some e" by (auto simp: left_def)
  have dry: "\<forall>k r. en_runners e k = Some r \<longrightarrow> rn_events r = []"
  proof (intro allI impI)
    fix k r
    assume "en_runners e k = Some r"
    then show "rn_events r = []" using l e by (cases k) (auto simp: left_def)
  qed
  show ?thesis using registry_refines_plain_table [OF room up, of "''shop-web.a1''"] e dry by blast
qed





definition first_pass_run :: "reg_event list" where
  "first_pass_run =
     [EvStart ''shop-web'' ''shop-web.a1'' (Some two_probes) None,
      EvSample ''shop-web.a1'' Readiness bad_res, EvDrain 10 ''shop-web.a1'' Readiness,
      EvSample ''shop-web.a1'' Liveness ok_res, EvDrain 11 ''shop-web.a1'' Liveness]"

definition first_pass_end :: "reg_event list \<Rightarrow> kv_state registry" where
  "first_pass_end rest = reg_run (Some (deployment_recorder kv_client)) None (new_registry ([], False)) (first_pass_run @ rest)"

definition readiness_recovers :: "reg_event list" where
  "readiness_recovers = [EvSample ''shop-web.a1'' Readiness ok_res, EvDrain 20 ''shop-web.a1'' Readiness]"

text \<open>
  The record of failures is shared by the probes of a container. A liveness probe that passes for
  the first time after the readiness probe has failed is reported as a recovery while the replica is
  not ready, and the real recovery of the readiness probe that follows is not reported at all.
\<close>

theorem first_pass_reported_as_recovery:
  "map (\<lambda>t. (te_probe t, te_transition t)) (rg_sent (first_pass_end [])) = [(''readiness'', ''failure''), (''liveness'', ''recovery'')] \<and>
   map_option rs_ready (LookupReadiness (first_pass_end []) ''shop-web.a1'') = Some False \<and>
   length (rg_sent (first_pass_end readiness_recovers)) = 2 \<and>
   map_option rs_ready (LookupReadiness (first_pass_end readiness_recovers) ''shop-web.a1'') = Some True"
proof (intro conjI)
  show "map (\<lambda>t. (te_probe t, te_transition t)) (rg_sent (first_pass_end [])) = [(''readiness'', ''failure''), (''liveness'', ''recovery'')]"
    by code_simp
  show "map_option rs_ready (LookupReadiness (first_pass_end []) ''shop-web.a1'') = Some False" by code_simp
  show "length (rg_sent (first_pass_end readiness_recovers)) = 2" by code_simp
  show "map_option rs_ready (LookupReadiness (first_pass_end readiness_recovers) ''shop-web.a1'') = Some True" by code_simp
qed

definition late_drain_end :: "kv_state registry" where
  "late_drain_end = reg_run (Some (deployment_recorder kv_client)) None (new_registry ([], False))
      [EvStart ''shop-web'' ''shop-web.a1'' (Some two_probes) None, EvSample ''shop-web.a1'' Readiness ok_res,
       EvStop ''shop-web'' ''shop-web.a1'', EvLateDrain 30 0 Readiness]"

text \<open>
  Stopping a container's probes clears its readiness entry while the drains may still hold buffered
  events: a drain that runs after the stop writes the entry back, for a container that is gone.
\<close>

theorem late_drain_restores_entry:
  "rg_live late_drain_end ''shop-web.a1'' = None \<and>
   map_option rs_ready (readiness_in (kv_view (rg_store late_drain_end) (StatusKey ''deployment'' ''shop-web'')) ''shop-web.a1'') = Some True"
proof
  show "rg_live late_drain_end ''shop-web.a1'' = None" by code_simp
  show "map_option rs_ready (readiness_in (kv_view (rg_store late_drain_end) (StatusKey ''deployment'' ''shop-web'')) ''shop-web.a1'') = Some True"
    by code_simp
qed

end
