(* ===== verification/Paths.thy ===== *)
theory Paths
  imports Prelude
begin

text \<open>
  The layout of the files under \<open>VOODU_ROOT\<close>: \<open>internal/paths/paths.go\<close>, over \<open>path.Clean\<close> and
  \<open>filepath.Join\<close> of Go's library on slash paths, and \<open>encoding/base64\<close>'s standard decoder.
\<close>

section \<open>Lexical paths\<close>

text \<open>
  \<open>Clean\<close> walks the elements of a path with a stack: empty and \<open>.\<close> elements vanish, \<open>..\<close> removes
  the element before it, is dropped at the root and kept at the front of a relative path.
\<close>

definition clean_step :: "bool \<Rightarrow> string list \<Rightarrow> string \<Rightarrow> string list" where
  "clean_step rooted st e =
     (if e = [] \<or> e = ''.'' then st
      else if e = ''..'' then
        (if st \<noteq> [] \<and> last st \<noteq> ''..'' then butlast st else if rooted then st else st @ [e])
      else st @ [e])"

definition clean_elems :: "bool \<Rightarrow> string \<Rightarrow> string list" where
  "clean_elems rooted p = foldl (clean_step rooted) [] (split_char (CHR ''/'') p)"

definition path_clean :: "string \<Rightarrow> string" where
  "path_clean p =
     (if has_prefix p ''/'' then ''/'' @ join ''/'' (clean_elems True p)
      else if clean_elems False p = [] then ''.'' else join ''/'' (clean_elems False p))"

definition path_join :: "string list \<Rightarrow> string" where
  "path_join es = (let ps = filter (\<lambda>e. e \<noteq> []) es in if ps = [] then [] else path_clean (join ''/'' ps))"

text \<open>\<open>filepath.Base\<close> and \<open>filepath.Dir\<close>.\<close>

definition path_base :: "string \<Rightarrow> string" where
  "path_base p =
     (if p = [] then ''.''
      else let q = rev (dropWhile (\<lambda>c. c = CHR ''/'') (rev p))
           in if q = [] then ''/'' else last (split_char (CHR ''/'') q))"

definition path_dir :: "string \<Rightarrow> string" where
  "path_dir p = path_clean (rev (dropWhile (\<lambda>c. c \<noteq> CHR ''/'') (rev p)))"

section \<open>The directories\<close>

definition AssetsDir :: "string \<Rightarrow> string" where
  "AssetsDir root = path_join [root, ''assets'']"

definition AssetDir :: "string \<Rightarrow> string \<Rightarrow> string \<Rightarrow> string" where
  "AssetDir root scope nm = path_join [AssetsDir root, scope, nm]"

definition AssetFile :: "string \<Rightarrow> string \<Rightarrow> string \<Rightarrow> string \<Rightarrow> string" where
  "AssetFile root scope nm key = path_join [AssetDir root scope nm, key]"

definition AppsDir :: "string \<Rightarrow> string" where
  "AppsDir root = path_join [root, ''apps'']"

definition AppDir :: "string \<Rightarrow> string \<Rightarrow> string" where
  "AppDir root app = path_join [AppsDir root, app]"

definition VolumesDir :: "string \<Rightarrow> string" where
  "VolumesDir root = path_join [root, ''volumes'']"

definition AppVolumeDir :: "string \<Rightarrow> string \<Rightarrow> string" where
  "AppVolumeDir root app = path_join [VolumesDir root, app]"

section \<open>Elements of cleaned paths\<close>

text \<open>A plain element: none of the ones \<open>Clean\<close> treats specially, and no separator.\<close>

definition plain_elem :: "string \<Rightarrow> bool" where
  "plain_elem e = (e \<noteq> [] \<and> e \<noteq> ''.'' \<and> e \<noteq> ''..'' \<and> CHR ''/'' \<notin> set e)"

lemma clean_step_plain [simp]: "plain_elem e \<Longrightarrow> clean_step r st e = st @ [e]"
  by (simp add: clean_step_def plain_elem_def)

lemma foldl_clean_plain: "list_all plain_elem es \<Longrightarrow> foldl (clean_step r) st es = st @ es"
  by (induction es arbitrary: st) simp_all

lemma split_append_char: "split_char c (a @ c # b) = split_char c a @ split_char c b"
proof (induction a)
  case (Cons x a)
  show ?case
  proof (cases "x = c")
    case False
    obtain y ys where ys: "split_char c a = y # ys" by (cases "split_char c a") auto
    with Cons.IH False show ?thesis by simp
  qed (use Cons in simp)
qed simp

lemma split_char_join: "es \<noteq> [] \<Longrightarrow> list_all (\<lambda>e. c \<notin> set e) es \<Longrightarrow> split_char c (join [c] es) = es"
proof (induction es)
  case (Cons x es)
  then show ?case by (cases es) (auto simp: split_char_absent split_char_append)
qed simp

lemma plain_noslash: "list_all plain_elem es \<Longrightarrow> list_all (\<lambda>e. CHR ''/'' \<notin> set e) es"
  by (induction es) (auto simp: plain_elem_def)

text \<open>A rooted path of plain elements.\<close>

definition rooted_path :: "string list \<Rightarrow> string" where
  "rooted_path es = ''/'' @ join ''/'' es"

lemma path_clean_rooted: "list_all plain_elem es \<Longrightarrow> path_clean (rooted_path es) = rooted_path es"
proof (cases "es = []")
  case True
  show ?thesis by (simp add: True rooted_path_def path_clean_def clean_elems_def clean_step_def has_prefix_def)
next
  case False
  assume p: "list_all plain_elem es"
  have "split_char (CHR ''/'') (CHR ''/'' # join ''/'' es) = [] # es"
    using split_append_char [of "CHR ''/''" "[]" "join ''/'' es"] split_char_join [OF False plain_noslash [OF p]]
    by simp
  then have "clean_elems True (rooted_path es) = es"
    using foldl_clean_plain [OF p] by (simp add: clean_elems_def rooted_path_def clean_step_def)
  then show ?thesis by (simp add: path_clean_def rooted_path_def has_prefix_def)
qed

lemma join_snoc: "es \<noteq> [] \<Longrightarrow> join s (es @ [e]) = join s es @ s @ e"
proof (induction es)
  case (Cons x es)
  then show ?case by (cases es) auto
qed simp

lemma path_join_rooted:
  assumes "list_all plain_elem es" and "plain_elem e"
  shows "path_join [rooted_path es, e] = rooted_path (es @ [e])"
proof (cases "es = []")
  case True
  have "split_char (CHR ''/'') (''//'' @ e) = [] # [] # split_char (CHR ''/'') e"
    by simp
  moreover have "split_char (CHR ''/'') e = [e]"
    using assms(2) by (intro split_char_absent) (simp add: plain_elem_def)
  ultimately have "path_clean (''//'' @ e) = ''/'' @ e"
    using assms(2) by (simp add: path_clean_def clean_elems_def has_prefix_def clean_step_def plain_elem_def)
  then show ?thesis using assms(2) by (simp add: True path_join_def rooted_path_def plain_elem_def)
next
  case False
  have pl: "list_all plain_elem (es @ [e])" using assms by simp
  have "path_join [rooted_path es, e] = path_clean (rooted_path (es @ [e]))"
    using assms(2) False by (simp add: path_join_def rooted_path_def plain_elem_def join_snoc)
  then show ?thesis by (simp only: path_clean_rooted [OF pl])
qed

lemma join_Cons_join: "es \<noteq> [] \<Longrightarrow> join s (join s es # fs) = join s (es @ fs)"
proof (induction es)
  case (Cons x es)
  show ?case
  proof (cases "es = []")
    case False
    then obtain y ys where es: "es = y # ys" by (cases es) auto
    have "join s (join s (x # es) # fs) = x @ s @ join s (join s es # fs)"
      by (cases fs) (simp_all add: es)
    also have "\<dots> = join s ((x # es) @ fs)" using Cons.IH False by (simp add: es)
    finally show ?thesis .
  qed simp
qed simp

lemma join_prefix: "join s ((p @ x) # fs) = p @ join s (x # fs)"
  by (cases fs) simp_all

lemma path_join_elems:
  assumes "list_all plain_elem es" "es \<noteq> []" "list_all (\<lambda>e. e = [] \<or> plain_elem e) fs"
  shows "path_join (rooted_path es # fs) = rooted_path (es @ filter (\<lambda>e. e \<noteq> []) fs)"
proof -
  have "list_all plain_elem (filter (\<lambda>e. e \<noteq> []) fs)" using assms(3) by (auto simp: list_all_iff)
  then have pl: "list_all plain_elem (es @ filter (\<lambda>e. e \<noteq> []) fs)" using assms(1) by simp
  have "join ''/'' (rooted_path es # filter (\<lambda>e. e \<noteq> []) fs) = rooted_path (es @ filter (\<lambda>e. e \<noteq> []) fs)"
    unfolding rooted_path_def join_prefix by (simp add: join_Cons_join [OF assms(2)])
  then have "path_join (rooted_path es # fs) = path_clean (rooted_path (es @ filter (\<lambda>e. e \<noteq> []) fs))"
    by (simp add: path_join_def rooted_path_def)
  then show ?thesis by (simp only: path_clean_rooted [OF pl])
qed

text \<open>Base and directory of a path below a directory.\<close>

lemma dropWhile_rev: "x \<notin> set e \<Longrightarrow> dropWhile (\<lambda>c. c \<noteq> x) (rev (d @ x # e)) = x # rev d"
  by (induction e rule: rev_induct) auto

lemma path_base_below: "plain_elem e \<Longrightarrow> path_base (d @ ''/'' @ e) = e"
proof -
  assume e: "plain_elem e"
  then obtain a c where ac: "e = a @ [c]" and c: "c \<noteq> CHR ''/''"
    by (cases e rule: rev_cases) (auto simp: plain_elem_def)
  have "split_char (CHR ''/'') (d @ CHR ''/'' # e) = split_char (CHR ''/'') d @ [e]"
    using e by (simp add: split_append_char split_char_absent plain_elem_def)
  then show ?thesis using c by (simp add: path_base_def ac)
qed

lemma path_dir_below:
  assumes "list_all plain_elem es" "es \<noteq> []" "plain_elem e"
  shows "path_dir (rooted_path es @ ''/'' @ e) = rooted_path es"
proof -
  have "split_char (CHR ''/'') (rooted_path es) = [] # es"
    using split_append_char [of "CHR ''/''" "[]" "join ''/'' es"] split_char_join [OF assms(2) plain_noslash [OF assms(1)]]
    by (simp add: rooted_path_def)
  then have "clean_elems True (rooted_path es @ ''/'') = es"
    using foldl_clean_plain [OF assms(1)]
    by (simp add: clean_elems_def split_append_char clean_step_def)
  then have "path_clean (rooted_path es @ ''/'') = rooted_path es"
    by (simp add: path_clean_def rooted_path_def has_prefix_def)
  then show ?thesis
    using assms(3) dropWhile_rev [of "CHR ''/''" e "rooted_path es"] by (simp add: path_dir_def plain_elem_def)
qed

lemma rooted_snoc: "es \<noteq> [] \<Longrightarrow> rooted_path (es @ [e]) = rooted_path es @ ''/'' @ e"
  by (simp add: rooted_path_def join_snoc)

section \<open>Base64\<close>

definition b64_std :: string where
  "b64_std = ''ABCDEFGHIJKLMNOPQRSTUVWXYZabcdefghijklmnopqrstuvwxyz0123456789+/''"

definition b64_val :: "char \<Rightarrow> nat option" where
  "b64_val c = index_byte c b64_std"

definition b64_byte :: "nat \<Rightarrow> char" where
  "b64_byte n = char_of (n mod 256)"

text \<open>
  \<open>StdEncoding.DecodeString\<close>: padded groups of four, the bits a last group leaves over are ignored,
  as are line breaks.
\<close>

fun b64_groups :: "string \<Rightarrow> string option" where
  "b64_groups [] = Some []"
| "b64_groups (a # b # c # d # rest) =
     (case (b64_val a, b64_val b) of
        (Some x, Some y) \<Rightarrow>
          (if c = CHR ''='' \<and> d = CHR ''='' \<and> rest = [] then Some [b64_byte (4 * x + y div 16)]
           else case b64_val c of
                  None \<Rightarrow> None
                | Some z \<Rightarrow>
                    (if d = CHR ''='' \<and> rest = [] then Some [b64_byte (4 * x + y div 16), b64_byte (16 * y + z div 4)]
                     else case (b64_val d, b64_groups rest) of
                            (Some w, Some out) \<Rightarrow>
                              Some (b64_byte (4 * x + y div 16) # b64_byte (16 * y + z div 4) # b64_byte (64 * z + w) # out)
                          | _ \<Rightarrow> None))
      | _ \<Rightarrow> None)"
| "b64_groups _ = None"

definition b64_decode :: "string \<Rightarrow> string option" where
  "b64_decode s = b64_groups (filter (\<lambda>c. c \<noteq> CHR 0x0A \<and> c \<noteq> CHR 0x0D) s)"

end
