(* ===== verification/JsonAny.thy ===== *)
theory JsonAny
  imports Json Workload
begin

text \<open>
  JSON decoded into \<open>any\<close> and marshalled again, the way the handlers edit a spec they do not know the
  whole type of: an object becomes a Go map (the last of two equal keys wins) and is written with its
  keys sorted, a number passes through a float64. \<open>num\<close> stands for that passage, the nearest float64.
\<close>

fun insert_field :: "string \<times> 'a \<Rightarrow> (string \<times> 'a) list \<Rightarrow> (string \<times> 'a) list" where
  "insert_field e [] = [e]"
| "insert_field e (f # fs) = (if le_str (fst e) (fst f) then e # f # fs else f # insert_field e fs)"

text \<open>The entries of a Go map built from these assignments, in the order \<open>Marshal\<close> writes them.\<close>

definition go_map :: "(string \<times> 'a) list \<Rightarrow> (string \<times> 'a) list" where
  "go_map fs = foldr insert_field (first_entries (rev fs)) []"

primrec any_value :: "(int \<Rightarrow> int) \<Rightarrow> json \<Rightarrow> json" where
  "any_value num JNull = JNull"
| "any_value num (JBool b) = JBool b"
| "any_value num (JNum n) = JNum (num n)"
| "any_value num (JStr s) = JStr s"
| "any_value num (JList vs) = JList (map (any_value num) vs)"
| "any_value num (JObj fs) = JObj (go_map (map (map_prod id (any_value num)) fs))"

text \<open>
  \<open>json.Unmarshal\<close> into a \<open>map[string]any\<close>: \<open>None\<close> is the nil map that \<open>null\<close> leaves. \<open>map_json\<close> is
  \<open>json.Marshal\<close> of the map.
\<close>

type_synonym any_map = "(string \<times> json) list"

definition any_map :: "(int \<Rightarrow> int) \<Rightarrow> json \<Rightarrow> string + any_map option" where
  "any_map num v =
     (case v of
        JNull \<Rightarrow> Inr None
      | JObj fs \<Rightarrow> Inr (Some (go_map (map (map_prod id (any_value num)) fs)))
      | _ \<Rightarrow> Inl ''json: cannot unmarshal into Go value of type map[string]interface {}'')"

definition map_json :: "any_map option \<Rightarrow> json" where
  "map_json m = (case m of None \<Rightarrow> JNull | Some fs \<Rightarrow> JObj (go_map fs))"

section \<open>Maps\<close>

lemma map_of_insert_field: "distinct (map fst (e # fs)) \<Longrightarrow> map_of (insert_field e fs) = (map_of fs)(fst e \<mapsto> snd e)"
  by (induction fs) (auto simp: fun_eq_iff)

lemma insert_field_keys [simp]: "set (insert_field e fs) = insert e (set fs)"
  by (induction fs) auto

lemma insert_field_distinct: "distinct (map fst (e # fs)) \<Longrightarrow> distinct (map fst (insert_field e fs))"
  by (induction fs) auto

lemma insert_field_sorted:
  "sorted_wrt (\<lambda>a b. le_str (fst a) (fst b)) fs \<Longrightarrow> sorted_wrt (\<lambda>a b. le_str (fst a) (fst b)) (insert_field e fs)"
proof (induction fs)
  case (Cons f fs)
  show ?case
  proof (cases "le_str (fst e) (fst f)")
    case True
    with Cons.prems show ?thesis by (auto intro: le_str_trans)
  next
    case False
    then have "le_str (fst f) (fst e)" using le_str_total by blast
    with Cons False show ?thesis by auto
  qed
qed simp

lemma foldr_insert_field:
  assumes "distinct (map fst fs)"
  shows "set (foldr insert_field fs []) = set fs" "distinct (map fst (foldr insert_field fs []))"
    "map_of (foldr insert_field fs []) = map_of fs"
    "sorted_wrt (\<lambda>a b. le_str (fst a) (fst b)) (foldr insert_field fs [])"
proof -
  have set: "set (foldr insert_field fs []) = set fs" for fs :: "(string \<times> 'a) list"
    by (induction fs) auto
  show "set (foldr insert_field fs []) = set fs" by (rule set)
  from assms have d: "distinct (map fst (foldr insert_field fs []))"
  proof (induction fs)
    case (Cons e fs)
    then show ?case by (auto intro!: insert_field_distinct [of e, simplified] simp: set)
  qed simp
  then show "distinct (map fst (foldr insert_field fs []))" .
  show "map_of (foldr insert_field fs []) = map_of fs"
    using d assms by (intro map_of_inject_set [THEN iffD2]) (auto simp: set)
  show "sorted_wrt (\<lambda>a b. le_str (fst a) (fst b)) (foldr insert_field fs [])"
    by (induction fs) (auto intro: insert_field_sorted)
qed

lemma go_map_distinct [simp]: "distinct (map fst (go_map fs))"
  by (simp add: go_map_def foldr_insert_field first_entries_distinct)

lemma map_of_first_entries: "map_of (first_entries fs) = map_of fs"
proof
  fix k
  show "map_of (first_entries fs) k = map_of fs k"
    using first_entries_map_of [of k _ fs] first_entries_distinct [of fs]
    by (metis map_of_eq_Some_iff not_None_eq)
qed

lemma map_of_go_map: "map_of (go_map fs) = map_of (rev fs)"
  by (simp add: go_map_def foldr_insert_field first_entries_distinct map_of_first_entries)

lemma go_map_sorted: "sorted_wrt (\<lambda>a b. le_str (fst a) (fst b)) (go_map fs)"
  by (simp add: go_map_def foldr_insert_field first_entries_distinct)

lemma set_go_map: "distinct (map fst fs) \<Longrightarrow> set (go_map fs) = set fs"
proof -
  assume d: "distinct (map fst fs)"
  have "set (first_entries (rev fs)) = set fs"
    using first_entries_map_of [of _ _ "rev fs"] d by (auto simp: map_of_rev_distinct)
  then show ?thesis by (simp add: go_map_def foldr_insert_field first_entries_distinct)
qed

lemma first_entries_id: "distinct (map fst fs) \<Longrightarrow> first_entries fs = fs"
  by (induction fs) (auto simp: filter_id_conv image_iff)

lemma le_str_antisym: "le_str a b \<Longrightarrow> le_str b a \<Longrightarrow> a = b"
proof (induction a b rule: le_str.induct)
  case (1 t)
  then show ?case by (cases t) auto
qed (auto simp: Let_def)

lemma sorted_fields_unique:
  assumes "sorted_wrt (\<lambda>a b. le_str (fst a) (fst b)) xs" "sorted_wrt (\<lambda>a b. le_str (fst a) (fst b)) ys"
    and "distinct (map fst xs)" "distinct (map fst ys)" "set xs = set ys"
  shows "xs = ys"
  using assms
proof (induction xs arbitrary: ys)
  case (Cons x xs)
  then obtain y ys' where ys: "ys = y # ys'" by (cases ys) auto
  have "x = y"
  proof (rule ccontr)
    assume "x \<noteq> y"
    with Cons.prems ys have "x \<in> set ys'" "y \<in> set xs" by auto
    then have "le_str (fst x) (fst y)" "le_str (fst y) (fst x)" using Cons.prems ys by auto
    then have "fst x = fst y" by (rule le_str_antisym)
    with \<open>x \<in> set ys'\<close> Cons.prems(4) ys show False by (metis distinct.simps(2) image_eqI list.simps(9) set_map)
  qed
  moreover have "set xs = set ys'" using Cons.prems(3-5) ys \<open>x = y\<close> by auto
  ultimately show ?case using Cons ys by auto
qed auto

lemma go_map_id:
  assumes "sorted_wrt (\<lambda>a b. le_str (fst a) (fst b)) fs" "distinct (map fst fs)"
  shows "go_map fs = fs"
  using assms by (intro sorted_fields_unique) (auto simp: go_map_sorted set_go_map)

lemma go_map_idem [simp]: "go_map (go_map fs) = go_map fs"
  by (rule go_map_id) (simp_all add: go_map_sorted)

lemma go_map_map_of: "map_of xs = map_of ys \<Longrightarrow> distinct (map fst xs) \<Longrightarrow> distinct (map fst ys) \<Longrightarrow> go_map xs = go_map ys"
  by (intro sorted_fields_unique) (auto simp: go_map_sorted set_go_map map_of_inject_set)

lemma map_insert_field: "(\<And>e. fst (g e) = fst e) \<Longrightarrow> map g (insert_field e fs) = insert_field (g e) (map g fs)"
  by (induction fs) auto

lemma first_entries_map:
  assumes "\<And>e. fst (g e) = fst e"
  shows "map g (first_entries xs) = first_entries (map g xs)"
proof (induction xs)
  case (Cons e xs)
  have "map g (filter (\<lambda>x. fst x \<noteq> fst e) ys) = filter (\<lambda>x. fst x \<noteq> fst e) (map g ys)" for ys
    by (induction ys) (auto simp: assms)
  with Cons show ?case by (simp add: assms)
qed simp

lemma go_map_map:
  assumes g: "\<And>e. fst (g e) = fst e"
  shows "map g (go_map fs) = go_map (map g fs)"
proof -
  have "map g (foldr insert_field xs []) = foldr insert_field (map g xs) []" for xs
    by (induction xs) (auto simp: map_insert_field g)
  then show ?thesis by (simp add: go_map_def first_entries_map g rev_map)
qed

text \<open>Decoding what was marshalled gives the same value again.\<close>

lemma any_value_idem:
  assumes num: "\<And>n. num (num n) = num n"
  shows "any_value num (any_value num v) = any_value num v"
proof (induction v)
  case (JObj fs)
  have "map_prod id (any_value num) (map_prod id (any_value num) x) = map_prod id (any_value num) x"
    if "x \<in> set fs" for x
    using JObj [of x "snd x"] that by (cases x) (auto simp: snds.simps)
  then have "map (map_prod id (any_value num) \<circ> map_prod id (any_value num)) fs = map (map_prod id (any_value num)) fs"
    by simp
  then show ?case by (simp add: go_map_map del: map_eq_conv)
qed (auto simp: num)

end
