(* ===== verification/Assets.thy ===== *)
theory Assets
  imports Paths JsonAny
begin

text \<open>
  Assets: files a manifest carries, and the references to them in other manifests. From
  \<open>internal/controller/asset_refs.go\<close> the reference syntax, its interpolation and collection; from
  \<open>asset_stamp.go\<close> the stamping of digests into the consumers of a batch; from \<open>handlers_asset.go\<close> the
  writing of an asset's files and its handler. The disk and the download of a url are parameters
  (record \<open>disk\<close>, laws in the locale \<open>asset_disk\<close> of theory \<open>Stamping\<close>).
\<close>

section \<open>References\<close>

record asset_ref =
  ar_scope :: string
  ar_name :: string
  ar_key :: string

definition ident_start :: "char \<Rightarrow> bool" where
  "ident_start c =
     (let n = of_char c :: nat in 97 \<le> n \<and> n \<le> 122 \<or> 65 \<le> n \<and> n \<le> 90 \<or> 48 \<le> n \<and> n \<le> 57)"

definition ident_char :: "char \<Rightarrow> bool" where
  "ident_char c = (ident_start c \<or> c = CHR ''_'' \<or> c = CHR ''-'')"

definition is_ident :: "string \<Rightarrow> bool" where
  "is_ident s = (s \<noteq> [] \<and> ident_start (hd s) \<and> list_all ident_char s)"

text \<open>
  A match of \<open>assetRefPattern\<close> at the start of a text and what follows it. Identifiers hold neither a
  dot nor a closing brace, so the match ends at the first brace and its segments are unique.
\<close>

definition ref_open :: string where
  "ref_open = ''${asset.''"

definition match_ref :: "string \<Rightarrow> (asset_ref \<times> string) option" where
  "match_ref s =
     (if \<not> has_prefix s ref_open then None
      else let body = drop (length ref_open) s
           in case index_byte (CHR ''}'') body of
                None \<Rightarrow> None
              | Some i \<Rightarrow>
                  (let segs = split_char (CHR ''.'') (take i body); rest = drop (Suc i) body
                   in case segs of
                        [nm, key] \<Rightarrow>
                          if is_ident nm \<and> is_ident key then Some (\<lparr>ar_scope = [], ar_name = nm, ar_key = key\<rparr>, rest) else None
                      | [scope, nm, key] \<Rightarrow>
                          if is_ident scope \<and> is_ident nm \<and> is_ident key
                          then Some (\<lparr>ar_scope = scope, ar_name = nm, ar_key = key\<rparr>, rest) else None
                      | _ \<Rightarrow> None))"

lemma match_ref_shrinks: "match_ref s = Some (r, rest) \<Longrightarrow> length rest < length s"
  by (cases s) (auto simp: match_ref_def Let_def has_prefix_def ref_open_def split: if_splits option.splits list.splits)

text \<open>The leftmost matches of a text, one after the other, and the characters between them.\<close>

datatype token = Lit char | Ref asset_ref

function scan :: "string \<Rightarrow> token list" where
  "scan [] = []"
| "scan (c # s) =
     (case match_ref (c # s) of
        Some (r, rest) \<Rightarrow> Ref r # scan rest
      | None \<Rightarrow> Lit c # scan s)"
  by pat_completeness auto
termination
  by (relation "measure length") (auto dest: match_ref_shrinks)

declare scan.simps(2) [simp del]

definition formatAssetRef :: "asset_ref \<Rightarrow> string" where
  "formatAssetRef r =
     (if ar_scope r = [] then ar_name r @ ''.'' @ ar_key r
      else ar_scope r @ ''.'' @ ar_name r @ ''.'' @ ar_key r)"

type_synonym asset_lookup = "asset_ref \<Rightarrow> string option"

primrec token_refs :: "token \<Rightarrow> asset_ref list" where
  "token_refs (Lit c) = []"
| "token_refs (Ref r) = [r]"

primrec token_text :: "asset_lookup \<Rightarrow> token \<Rightarrow> string" where
  "token_text lookup (Lit c) = [c]"
| "token_text lookup (Ref r) = (case lookup r of None \<Rightarrow> [] | Some v \<Rightarrow> v)"

definition InterpolateAssetRefs :: "string \<Rightarrow> asset_lookup \<Rightarrow> string + string" where
  "InterpolateAssetRefs src lookup =
     (let toks = scan src;
          missing = map formatAssetRef (filter (\<lambda>r. lookup r = None) (concat (map token_refs toks)))
      in if missing \<noteq> [] then Inl (''unresolved asset reference(s): '' @ join '', '' missing)
         else Inr (concat (map (token_text lookup) toks)))"

fun resolveAssetRefsInSlice :: "string list \<Rightarrow> asset_lookup \<Rightarrow> string + string list" where
  "resolveAssetRefsInSlice [] lookup = Inr []"
| "resolveAssetRefsInSlice (v # vs) lookup =
     bind_ok (InterpolateAssetRefs v lookup) (\<lambda>r.
     bind_ok (resolveAssetRefsInSlice vs lookup) (\<lambda>rs. Inr (r # rs)))"

fun resolveAssetRefsInMap :: "vars \<Rightarrow> asset_lookup \<Rightarrow> string + vars" where
  "resolveAssetRefsInMap [] lookup = Inr []"
| "resolveAssetRefsInMap ((k, v) # vs) lookup =
     bind_ok (map_err (\<lambda>e. k @ '': '' @ e) (InterpolateAssetRefs v lookup)) (\<lambda>r.
     bind_ok (resolveAssetRefsInMap vs lookup) (\<lambda>rs. Inr ((k, r) # rs)))"

definition collectAssetRefs :: "string list \<Rightarrow> asset_ref list" where
  "collectAssetRefs values = concat (map (\<lambda>s. concat (map token_refs (scan s))) values)"

definition makeAssetPathLookup :: "'s etcd \<Rightarrow> 's \<Rightarrow> string \<Rightarrow> asset_lookup" where
  "makeAssetPathLookup cl s root r =
     (case Get cl s (kind_str KindAsset) (ar_scope r) (ar_name r) of
        Inr (Some _) \<Rightarrow> Some (AssetFile root (ar_scope r) (ar_name r) (ar_key r))
      | _ \<Rightarrow> None)"

section \<open>Digests recorded in the status\<close>

definition loadAssetStatus :: "'s etcd \<Rightarrow> 's \<Rightarrow> string \<Rightarrow> string \<Rightarrow> asset_status option" where
  "loadAssetStatus cl s scope nm =
     (case GetStatus cl s (kind_str KindAsset) (AppID scope nm) of
        Inr (Some (DAssetStatus st)) \<Rightarrow> Some st
      | _ \<Rightarrow> None)"

definition resolveStampedOrLookup :: "vars \<Rightarrow> (unit \<Rightarrow> vars) \<Rightarrow> vars" where
  "resolveStampedOrLookup stamped fallback = (if stamped \<noteq> [] then stamped else fallback ())"

definition lookup_pair :: "'s etcd \<Rightarrow> 's \<Rightarrow> asset_ref list \<Rightarrow> string \<times> string \<Rightarrow> vars" where
  "lookup_pair cl s refs sn =
     (let of_pair = filter (\<lambda>r. (ar_scope r, ar_name r) = sn) refs
      in case GetStatus cl s (kind_str KindAsset) (AppID (fst sn) (snd sn)) of
           Inl _ \<Rightarrow> map (\<lambda>r. (formatAssetRef r, [])) of_pair
         | Inr None \<Rightarrow> map (\<lambda>r. (formatAssetRef r, [])) of_pair
         | Inr (Some (DAssetStatus st)) \<Rightarrow>
             map (\<lambda>r. (formatAssetRef r, case map_of (as_files st) (ar_key r) of None \<Rightarrow> [] | Some d \<Rightarrow> d)) of_pair
         | Inr (Some _) \<Rightarrow> [])"

definition LookupAssetDigests :: "'s etcd \<Rightarrow> 's \<Rightarrow> asset_ref list \<Rightarrow> vars" where
  "LookupAssetDigests cl s refs =
     go_map (concat (map (lookup_pair cl s refs) (remdups (map (\<lambda>r. (ar_scope r, ar_name r)) refs))))"

section \<open>Stamping the consumers\<close>

definition IsConsumerKind :: "string \<Rightarrow> bool" where
  "IsConsumerKind k = (k \<in> set (map kind_str [KindDeployment, KindStatefulset, KindJob, KindCronJob]))"

definition scanned_key :: "string \<Rightarrow> bool" where
  "scanned_key k = (\<not> has_prefix k ''_'' \<and> k \<noteq> ''depends_on'')"

primrec walkSpecForRefs :: "json \<Rightarrow> asset_ref list" where
  "walkSpecForRefs JNull = []"
| "walkSpecForRefs (JBool b) = []"
| "walkSpecForRefs (JNum n) = []"
| "walkSpecForRefs (JStr s) = collectAssetRefs [s]"
| "walkSpecForRefs (JList vs) = concat (map walkSpecForRefs vs)"
| "walkSpecForRefs (JObj fs) =
     concat (map (\<lambda>e. if scanned_key (fst e) then snd e else []) (map (map_prod id walkSpecForRefs) fs))"

definition parseDependsOnRef :: "string \<Rightarrow> string + asset_ref" where
  "parseDependsOnRef s =
     (case split_char (CHR ''.'') s of
        [nm, key] \<Rightarrow>
          if nm = [] \<or> key = [] then Inl ''invalid 2-segment ref (empty segment)''
          else Inr \<lparr>ar_scope = [], ar_name = nm, ar_key = key\<rparr>
      | [scope, nm, key] \<Rightarrow>
          if scope = [] \<or> nm = [] \<or> key = [] then Inl ''invalid 3-segment ref (empty segment)''
          else Inr \<lparr>ar_scope = scope, ar_name = nm, ar_key = key\<rparr>
      | segs \<Rightarrow> Inl (''expected 2 or 3 segments separated by dots, got '' @ itoa (length segs)))"

fun depends_on_refs :: "json list \<Rightarrow> string + asset_ref list" where
  "depends_on_refs [] = Inr []"
| "depends_on_refs (JStr s # vs) =
     bind_ok (map_err (\<lambda>e. ''depends_on.assets: '' @ e) (parseDependsOnRef s)) (\<lambda>r.
     bind_ok (depends_on_refs vs) (\<lambda>rs. Inr (r # rs)))"
| "depends_on_refs (v # vs) = Inl ''depends_on.assets[*]: expected string''"

definition spec_depends :: "any_map \<Rightarrow> string + asset_ref list" where
  "spec_depends spec =
     (case map_of spec ''depends_on'' of
        Some (JObj dep) \<Rightarrow> (case map_of dep ''assets'' of Some (JList vs) \<Rightarrow> depends_on_refs vs | _ \<Rightarrow> Inr [])
      | _ \<Rightarrow> Inr [])"

text \<open>The digest of one reference: from the batch, else from the status of an earlier apply.\<close>

definition asset_digest :: "'s etcd \<Rightarrow> 's \<Rightarrow> (asset_ref \<rightharpoonup> string) \<Rightarrow> asset_ref \<Rightarrow> string option" where
  "asset_digest cl s batch r =
     (case batch r of
        Some d \<Rightarrow> Some d
      | None \<Rightarrow>
          (case loadAssetStatus cl s (ar_scope r) (ar_name r) of
             None \<Rightarrow> None
           | Some st \<Rightarrow> (case map_of (as_files st) (ar_key r) of
                          Some d \<Rightarrow> if d \<noteq> [] then Some d else None
                        | None \<Rightarrow> None)))"

fun resolve_digests :: "'s etcd \<Rightarrow> 's \<Rightarrow> (asset_ref \<rightharpoonup> string) \<Rightarrow> asset_ref list \<Rightarrow> vars \<Rightarrow> string + vars" where
  "resolve_digests cl s batch [] digests = Inr digests"
| "resolve_digests cl s batch (r # rs) digests =
     (if map_of digests (formatAssetRef r) \<noteq> None then resolve_digests cl s batch rs digests
      else case asset_digest cl s batch r of
             Some d \<Rightarrow> resolve_digests cl s batch rs (kv_set (formatAssetRef r) d digests)
           | None \<Rightarrow> Inl (''unresolved asset reference '' @ formatAssetRef r))"

abbreviation digests_field :: string where
  "digests_field \<equiv> ''_asset_digests''"

text \<open>The references of a decoded spec, textual ones first.\<close>

definition spec_refs :: "any_map \<Rightarrow> string + asset_ref list" where
  "spec_refs spec = bind_ok (spec_depends spec) (\<lambda>deps. Inr (walkSpecForRefs (JObj spec) @ deps))"

definition stamp_map :: "'s etcd \<Rightarrow> 's \<Rightarrow> (asset_ref \<rightharpoonup> string) \<Rightarrow> any_map \<Rightarrow> string + any_map" where
  "stamp_map cl s batch spec =
     bind_ok (spec_refs spec) (\<lambda>refs.
       if refs = [] then Inr spec
       else bind_ok (resolve_digests cl s batch refs []) (\<lambda>digests.
              Inr (kv_set digests_field (JObj (go_map (map (\<lambda>(k, d). (k, JStr d)) digests))) spec)))"

definition stampConsumerSpec ::
  "'s etcd \<Rightarrow> 's \<Rightarrow> (int \<Rightarrow> int) \<Rightarrow> (asset_ref \<rightharpoonup> string) \<Rightarrow> manifest \<Rightarrow> string + manifest" where
  "stampConsumerSpec cl s num batch m =
     (if m_spec m = JNull then Inr m
      else bind_ok (map_err (\<lambda>e. ''decode spec: '' @ e) (any_map num (m_spec m))) (\<lambda>spec.
           case spec of
             None \<Rightarrow> Inr (m\<lparr>m_spec := JNull\<rparr>)
           | Some fs \<Rightarrow>
               bind_ok (stamp_map cl s batch (kv_del digests_field fs)) (\<lambda>fs'.
               Inr (m\<lparr>m_spec := map_json (Some fs')\<rparr>))))"

fun stamp_consumers ::
  "'s etcd \<Rightarrow> 's \<Rightarrow> (int \<Rightarrow> int) \<Rightarrow> (asset_ref \<rightharpoonup> string) \<Rightarrow> manifest list \<Rightarrow> string + manifest list" where
  "stamp_consumers cl s num batch [] = Inr []"
| "stamp_consumers cl s num batch (m # ms) =
     (if \<not> IsConsumerKind (m_kind m) then bind_ok (stamp_consumers cl s num batch ms) (\<lambda>ms'. Inr (m # ms'))
      else bind_ok (map_err (\<lambda>e. m_kind m @ ''/'' @ m_scope m @ ''/'' @ m_name m @ '': '' @ e)
                      (stampConsumerSpec cl s num batch m)) (\<lambda>m'.
           bind_ok (stamp_consumers cl s num batch ms) (\<lambda>ms'. Inr (m' # ms'))))"

section \<open>The files of an asset\<close>

text \<open>
  The operations of the \<open>os\<close> package on the disk, the download of a url with its cache
  (\<open>fetchAssetURLShared\<close>), SHA-256 in hexadecimal and the clock. An operation that can fail halfway
  returns the disk it leaves with its error. \<open>dk_write\<close> is the write and close of a temporary file.
\<close>

record 'f disk =
  dk_mkdir :: "'f \<Rightarrow> string \<Rightarrow> 'f \<times> string option"
  dk_is_dir :: "'f \<Rightarrow> string \<Rightarrow> bool"
  dk_remove_all :: "'f \<Rightarrow> string \<Rightarrow> 'f \<times> string option"
  dk_create_temp :: "'f \<Rightarrow> string \<Rightarrow> string \<Rightarrow> string + 'f \<times> string"
  dk_write :: "'f \<Rightarrow> string \<Rightarrow> string \<Rightarrow> 'f \<times> string option"
  dk_chmod :: "'f \<Rightarrow> string \<Rightarrow> 'f \<times> string option"
  dk_rename :: "'f \<Rightarrow> string \<Rightarrow> string \<Rightarrow> string + 'f"
  dk_remove :: "'f \<Rightarrow> string \<Rightarrow> string + 'f"
  dk_read_dir :: "'f \<Rightarrow> string \<Rightarrow> string + (string \<times> bool) list"
  dk_read :: "'f \<Rightarrow> string \<Rightarrow> string + string"
  dk_fetch :: "'f \<Rightarrow> string \<Rightarrow> int \<Rightarrow> 'f \<times> (string + string)"
  dk_sha :: "string \<Rightarrow> string"
  dk_clock :: "'f \<Rightarrow> int"

definition drop_temp :: "'f disk \<Rightarrow> 'f \<Rightarrow> string \<Rightarrow> 'f" where
  "drop_temp dk fs tmp = (case dk_remove dk fs tmp of Inl _ \<Rightarrow> fs | Inr fs' \<Rightarrow> fs')"

definition atomicWrite :: "'f disk \<Rightarrow> 'f \<Rightarrow> string \<Rightarrow> string \<Rightarrow> 'f \<times> string option" where
  "atomicWrite dk fs dst content =
     (case dk_mkdir dk fs (path_dir dst) of
        (fs1, Some e) \<Rightarrow> (fs1, Some e)
      | (fs1, None) \<Rightarrow>
          (case dk_create_temp dk fs1 (path_dir dst) (path_base dst @ ''.tmp-*'') of
             Inl e \<Rightarrow> (fs1, Some e)
           | Inr (fs2, tmp) \<Rightarrow>
               (case dk_write dk fs2 tmp content of
                  (fs3, Some e) \<Rightarrow> (drop_temp dk fs3 tmp, Some e)
                | (fs3, None) \<Rightarrow>
                    (case dk_chmod dk fs3 tmp of
                       (fs4, Some e) \<Rightarrow> (drop_temp dk fs4 tmp, Some e)
                     | (fs4, None) \<Rightarrow>
                         (case dk_rename dk fs4 tmp dst of
                            Inl e \<Rightarrow> (fs4, Some e)
                          | Inr fs5 \<Rightarrow> (fs5, None))))))"

definition validAssetKey :: "string \<Rightarrow> bool" where
  "validAssetKey key = (key \<noteq> [] \<and> list_all ident_char key)"

definition parseDurationOrZero :: "json option \<Rightarrow> int" where
  "parseDurationOrZero v =
     (case v of Some (JStr s) \<Rightarrow> (case ParseDuration s of Some d \<Rightarrow> d | None \<Rightarrow> 0) | _ \<Rightarrow> 0)"

definition stringOr :: "json option \<Rightarrow> string \<Rightarrow> string" where
  "stringOr v fallback = (case v of Some (JStr s) \<Rightarrow> if s \<noteq> [] then s else fallback | _ \<Rightarrow> fallback)"

text \<open>
  \<open>resolveAssetSourceForStamping\<close>: the bytes of one source and its \<open>on_failure\<close> option, empty for
  sources that are not urls.
\<close>

definition resolve_source :: "'f disk \<Rightarrow> 'f \<Rightarrow> json \<Rightarrow> 'f \<times> string \<times> (string + string)" where
  "resolve_source dk fs raw =
     (case raw of
        JStr s \<Rightarrow> (fs, [], Inr s)
      | _ \<Rightarrow>
          (case any_map id raw of
             Inl e \<Rightarrow> (fs, [], Inl (''decode source object: '' @ e))
           | Inr m \<Rightarrow>
               (let obj = (case m of None \<Rightarrow> [] | Some o' \<Rightarrow> o');
                    src = (case map_of obj ''_source'' of Some (JStr t) \<Rightarrow> t | _ \<Rightarrow> [])
                in if src = ''file'' then
                     (case map_of obj ''content'' of
                        Some (JStr c) \<Rightarrow>
                          (case b64_decode c of
                             None \<Rightarrow> (fs, [], Inl ''file source: invalid base64'')
                           | Some bytes \<Rightarrow> (fs, [], Inr bytes))
                      | _ \<Rightarrow> (fs, [], Inl ''file source missing content string''))
                   else if src = ''url'' then
                     (case map_of obj ''url'' of
                        Some (JStr u) \<Rightarrow>
                          (let opt = stringOr (map_of obj ''on_failure'') ''stale''
                           in case dk_fetch dk fs u (parseDurationOrZero (map_of obj ''timeout'')) of
                                (fs', r) \<Rightarrow> (fs', opt, r))
                      | _ \<Rightarrow> (fs, [], Inl ''url source missing url string''))
                   else (fs, [], Inl (''unknown asset source '' @ src @ '' (want file|url|inline)'')))))"

text \<open>The loop over the declared keys; the last component is the error that ends an apply.\<close>

fun write_keys ::
  "'f disk \<Rightarrow> string \<Rightarrow> string \<Rightarrow> string \<Rightarrow> 'f \<Rightarrow> (string \<times> json) list \<Rightarrow> vars \<Rightarrow> vars \<Rightarrow> 'f \<times> vars \<times> vars \<times> string option" where
  "write_keys dk root scope nm fs [] dg er = (fs, dg, er, None)"
| "write_keys dk root scope nm fs ((key, raw) # rest) dg er =
     (if \<not> validAssetKey key
      then write_keys dk root scope nm fs rest dg
             (kv_set key ''invalid key: must be alphanumeric + underscore + hyphen (no dots, no whitespace)'' er)
      else case resolve_source dk fs raw of
             (fs1, opt, Inl e) \<Rightarrow>
               if opt = ''error'' then (fs1, dg, er, Some (''asset/'' @ scope @ ''/'' @ nm @ ''/'' @ key @ '': '' @ e))
               else write_keys dk root scope nm fs1 rest dg (kv_set key e er)
           | (fs1, opt, Inr bytes) \<Rightarrow>
               (let dst = AssetFile root scope nm key
                in case (if dk_is_dir dk fs1 dst then dk_remove_all dk fs1 dst else (fs1, None)) of
                     (fs2, Some e) \<Rightarrow> write_keys dk root scope nm fs2 rest dg (kv_set key (''clear stale directory: '' @ e) er)
                   | (fs2, None) \<Rightarrow>
                       (case atomicWrite dk fs2 dst bytes of
                          (fs3, Some e) \<Rightarrow> write_keys dk root scope nm fs3 rest dg (kv_set key (''write: '' @ e) er)
                        | (fs3, None) \<Rightarrow> write_keys dk root scope nm fs3 rest (kv_set key (dk_sha dk bytes) dg) er)))"

fun sweep_entries :: "'f disk \<Rightarrow> string \<Rightarrow> string list \<Rightarrow> 'f \<Rightarrow> (string \<times> bool) list \<Rightarrow> 'f" where
  "sweep_entries dk dir declared fs [] = fs"
| "sweep_entries dk dir declared fs ((n, is_dir) # es) =
     (if is_dir \<or> n \<in> set declared then sweep_entries dk dir declared fs es
      else sweep_entries dk dir declared
             (case dk_remove dk fs (path_join [dir, n]) of Inl _ \<Rightarrow> fs | Inr fs' \<Rightarrow> fs') es)"

fun recover_stale :: "'f disk \<Rightarrow> string \<Rightarrow> string \<Rightarrow> string \<Rightarrow> 'f \<Rightarrow> vars \<Rightarrow> vars \<Rightarrow> vars" where
  "recover_stale dk root scope nm fs [] dg = dg"
| "recover_stale dk root scope nm fs ((key, _) # er) dg =
     recover_stale dk root scope nm fs er
       (case dk_read dk fs (AssetFile root scope nm key) of
          Inl _ \<Rightarrow> dg
        | Inr content \<Rightarrow> kv_set key (dk_sha dk content) dg)"

text \<open>The \<open>files\<close> of the spec: a null resets the map, another object of the same name adds to it.\<close>

fun merge_files :: "json list \<Rightarrow> (string \<times> json) list \<Rightarrow> string + (string \<times> json) list" where
  "merge_files [] acc = Inr acc"
| "merge_files (JNull # vs) acc = merge_files vs []"
| "merge_files (JObj fs # vs) acc = merge_files vs (acc @ fs)"
| "merge_files (v # vs) acc = Inl ''json: cannot unmarshal into field files''"

definition asset_files :: "json \<Rightarrow> string + (string \<times> json) list" where
  "asset_files spec =
     bind_ok (jobj spec) (\<lambda>fs.
     bind_ok (merge_files (map snd (filter (\<lambda>e. to_lower (fst e) = ''files'') fs)) []) (\<lambda>all.
       Inr (first_entries (rev all))))"

definition materializeAssetSpec ::
  "'s etcd \<Rightarrow> 'f disk \<Rightarrow> string \<Rightarrow> 's \<Rightarrow> 'f \<Rightarrow> manifest \<Rightarrow> 's \<times> 'f \<times> (string + vars \<times> vars)" where
  "materializeAssetSpec cl dk root s fs m =
     (if m_spec m = JNull then (s, fs, Inl (''asset/'' @ m_scope m @ ''/'' @ m_name m @ '': empty spec''))
      else case asset_files (m_spec m) of
             Inl e \<Rightarrow> (s, fs, Inl (''decode asset spec: '' @ e))
           | Inr files \<Rightarrow>
               (let dir = AssetDir root (m_scope m) (m_name m)
                in case dk_mkdir dk fs dir of
                     (fs1, Some e) \<Rightarrow> (s, fs1, Inl (''create asset dir: '' @ e))
                   | (fs1, None) \<Rightarrow>
                       (case write_keys dk root (m_scope m) (m_name m) fs1 files [] [] of
                          (fs2, _, _, Some e) \<Rightarrow> (s, fs2, Inl e)
                        | (fs2, dg, er, None) \<Rightarrow>
                            (let fs3 = (case dk_read_dir dk fs2 dir of
                                          Inl _ \<Rightarrow> fs2
                                        | Inr es \<Rightarrow> sweep_entries dk dir (map fst files) fs2 es);
                                 dg' = recover_stale dk root (m_scope m) (m_name m) fs3 er dg;
                                 st = \<lparr>as_files = dg', as_errors = er, as_at = dk_clock dk fs3\<rparr>
                             in case PutStatus cl s (kind_str KindAsset) (AppID (m_scope m) (m_name m)) (DAssetStatus st) of
                                  Inl e \<Rightarrow> (s, fs3, Inl (''put status: '' @ e))
                                | Inr s' \<Rightarrow> (s', fs3, Inr (dg', er))))))"

section \<open>The asset handler\<close>

text \<open>\<open>Handle\<close> on a put and on a delete; the flag of an error says that it is transient.\<close>

definition asset_apply ::
  "'s etcd \<Rightarrow> 'f disk \<Rightarrow> string \<Rightarrow> 's \<Rightarrow> 'f \<Rightarrow> manifest \<Rightarrow> 's \<times> 'f \<times> (bool \<times> string) option" where
  "asset_apply cl dk root s fs m =
     (case materializeAssetSpec cl dk root s fs m of
        (s', fs', Inl e) \<Rightarrow> (s', fs', Some (False, e))
      | (s', fs', Inr (dg, er)) \<Rightarrow>
          if er \<noteq> [] \<and> dg = []
          then (s', fs', Some (True, ''asset/'' @ m_scope m @ ''/'' @ m_name m @ '': all '' @ itoa (length er) @ '' key(s) failed with no prior content (see /status)''))
          else (s', fs', None))"

definition asset_remove ::
  "'s etcd \<Rightarrow> 'f disk \<Rightarrow> string \<Rightarrow> 's \<Rightarrow> 'f \<Rightarrow> string \<Rightarrow> string \<Rightarrow> 's \<times> 'f \<times> string option" where
  "asset_remove cl dk root s fs scope nm =
     (case dk_remove_all dk fs (AssetDir root scope nm) of
        (fs', Some e) \<Rightarrow> (s, fs', Some (''remove asset dir: '' @ e))
      | (fs', None) \<Rightarrow>
          (case DeleteStatus cl s (kind_str KindAsset) (AppID scope nm) of
             Inl e \<Rightarrow> (s, fs', Some (''clear asset status: '' @ e))
           | Inr s' \<Rightarrow> (s', fs', None)))"

section \<open>Stamping a batch\<close>

text \<open>The first pass writes every asset of the batch, the second stamps the consumers.\<close>

definition add_digests :: "manifest \<Rightarrow> vars \<Rightarrow> (asset_ref \<rightharpoonup> string) \<Rightarrow> (asset_ref \<rightharpoonup> string)" where
  "add_digests m dg batch =
     (\<lambda>r. if ar_scope r = m_scope m \<and> ar_name r = m_name m \<and> map_of dg (ar_key r) \<noteq> None
          then map_of dg (ar_key r) else batch r)"

fun materialize_batch ::
  "'s etcd \<Rightarrow> 'f disk \<Rightarrow> string \<Rightarrow> 's \<Rightarrow> 'f \<Rightarrow> manifest list \<Rightarrow> (asset_ref \<rightharpoonup> string)
     \<Rightarrow> 's \<times> 'f \<times> (string + (asset_ref \<rightharpoonup> string))" where
  "materialize_batch cl dk root s fs [] batch = (s, fs, Inr batch)"
| "materialize_batch cl dk root s fs (m # ms) batch =
     (if m_kind m \<noteq> kind_str KindAsset then materialize_batch cl dk root s fs ms batch
      else case materializeAssetSpec cl dk root s fs m of
             (s', fs', Inl e) \<Rightarrow> (s', fs', Inl (''asset/'' @ m_scope m @ ''/'' @ m_name m @ '': '' @ e))
           | (s', fs', Inr (dg, _)) \<Rightarrow> materialize_batch cl dk root s' fs' ms (add_digests m dg batch))"

definition StampAssetDigests ::
  "'s etcd \<Rightarrow> 'f disk \<Rightarrow> (int \<Rightarrow> int) \<Rightarrow> string \<Rightarrow> 's \<Rightarrow> 'f \<Rightarrow> manifest list
     \<Rightarrow> 's \<times> 'f \<times> (string + manifest list)" where
  "StampAssetDigests cl dk num root s fs ms =
     (case materialize_batch cl dk root s fs ms Map.empty of
        (s', fs', Inl e) \<Rightarrow> (s', fs', Inl e)
      | (s', fs', Inr batch) \<Rightarrow> (s', fs', stamp_consumers cl s' num batch ms))"

end
