(* ===== verification/Expand.thy ===== *)
theory Expand
  imports Assets
begin

text \<open>
  The expansion of plugin blocks: \<open>internal/controller/plugin_expand.go\<close>, \<open>plugin_nested.go\<close>, the actions a
  plugin emits (\<open>applyPluginDispatchAction\<close> of \<open>handlers_plugin_dispatch.go\<close>) and \<open>image_pull.go\<close>. The
  installed plugins, their subprocesses, the installer and docker's images are the record \<open>plugin_host\<close>.
\<close>

section \<open>Manifests as JSON\<close>

text \<open>
  Decoding a \<open>Manifest\<close>; \<open>tm\<close> reads a time. A spec of \<open>null\<close> and an absent one are both \<open>JNull\<close>.
\<close>

definition decode_metadata :: "(string \<Rightarrow> int option) \<Rightarrow> json option \<Rightarrow> string + metadata option" where
  "decode_metadata tm v =
     (case v of
        None \<Rightarrow> Inr None
      | Some w \<Rightarrow>
          bind_ok (jobj w) (\<lambda>fs.
          bind_ok (jstr ''created_at'' fs) (\<lambda>c.
          bind_ok (jstr ''updated_at'' fs) (\<lambda>u.
          bind_ok (jint ''revision'' fs) (\<lambda>r.
            case (if c = [] then Some 0 else tm c, if u = [] then Some 0 else tm u) of
              (Some ct, Some ut) \<Rightarrow> Inr (Some \<lparr>created_at = ct, updated_at = ut, revision = r\<rparr>)
            | _ \<Rightarrow> Inl ''parsing time'')))))"

definition decode_manifest :: "(string \<Rightarrow> int option) \<Rightarrow> json \<Rightarrow> string + manifest" where
  "decode_manifest tm v =
     bind_ok (jobj v) (\<lambda>fs.
     bind_ok (jstr ''kind'' fs) (\<lambda>k.
     bind_ok (jstr ''scope'' fs) (\<lambda>sc.
     bind_ok (jstr ''name'' fs) (\<lambda>nm.
     bind_ok (decode_metadata tm (jget ''metadata'' fs)) (\<lambda>md.
       Inr \<lparr>m_kind = k, m_scope = sc, m_name = nm,
            m_spec = (case jget ''spec'' fs of None \<Rightarrow> JNull | Some sp \<Rightarrow> sp), m_metadata = md\<rparr>)))))"

text \<open>An array of pointers to manifests: a \<open>null\<close> element is a nil pointer.\<close>

fun decode_manifest_list :: "(string \<Rightarrow> int option) \<Rightarrow> json list \<Rightarrow> string + manifest option list" where
  "decode_manifest_list tm [] = Inr []"
| "decode_manifest_list tm (JNull # vs) = bind_ok (decode_manifest_list tm vs) (\<lambda>ms. Inr (None # ms))"
| "decode_manifest_list tm (v # vs) =
     bind_ok (decode_manifest tm v) (\<lambda>m. bind_ok (decode_manifest_list tm vs) (\<lambda>ms. Inr (Some m # ms)))"

text \<open>\<open>IsCoreKind\<close> is a lookup of the raw kind.\<close>

definition IsCoreKind :: "string \<Rightarrow> bool" where
  "IsCoreKind k = (valid_kind k \<noteq> None)"

section \<open>Plugins\<close>

record loaded_plugin =
  lp_name :: string
  lp_version :: string
  lp_builtin :: bool
  lp_commands :: "string list"

record expand_request =
  rq_kind :: string
  rq_scope :: string
  rq_name :: string
  rq_spec :: json
  rq_config :: vars
  rq_parent :: "manifest option"
  rq_host_ports :: string

text \<open>
  The result of a plugin run: its exit code, the detail its output gives for an error, and its
  envelope with status, error and data (\<open>None\<close> for a null).
\<close>

record plugin_answer =
  pa_exit :: int
  pa_detail :: string
  pa_envelope :: "(string \<times> string \<times> json option) option"

record 'f plugin_host =
  ph_configured :: bool
  ph_lookup :: "'f \<Rightarrow> string \<Rightarrow> loaded_plugin option"
  ph_installer :: bool
  ph_install :: "'f \<Rightarrow> string \<Rightarrow> string \<Rightarrow> 'f \<times> (string + loaded_plugin)"
  ph_default_repo :: "string \<Rightarrow> string"
  ph_run :: "'f \<Rightarrow> loaded_plugin \<Rightarrow> expand_request \<Rightarrow> 'f \<times> (string + plugin_answer)"
  ph_jobs :: bool
  ph_queue_job :: "'f \<Rightarrow> string \<Rightarrow> string \<Rightarrow> 'f"
  ph_images :: bool
  ph_image_id :: "'f \<Rightarrow> string \<Rightarrow> string"
  ph_pull :: "'f \<Rightarrow> string \<Rightarrow> 'f \<times> string option"
  ph_now :: "'f \<Rightarrow> int"

definition defaultPluginRepo :: "(string \<Rightarrow> string) \<Rightarrow> string \<Rightarrow> string" where
  "defaultPluginRepo getenv blockType =
     (let v = getenv (''VOODU_PLUGIN_DEFAULT_REPO_'' @ map (\<lambda>c. if 97 \<le> (of_char c :: nat) \<and> (of_char c :: nat) \<le> 122 then char_of ((of_char c :: nat) - 32) else c) blockType)
      in if v \<noteq> [] then v else ''thadeu/voodu-'' @ blockType)"

definition extractInstallMetadata :: "(int \<Rightarrow> int) \<Rightarrow> json \<Rightarrow> string \<times> string \<times> json" where
  "extractInstallMetadata num spec =
     (if spec = JNull then ([], [], spec)
      else case any_map num spec of
             Inl _ \<Rightarrow> ([], [], spec)
           | Inr None \<Rightarrow> ([], [], spec)
           | Inr (Some raw) \<Rightarrow>
               (case map_of raw ''plugin'' of
                  Some (JObj blk) \<Rightarrow>
                    (let text = (\<lambda>k. case map_of blk k of Some (JStr t) \<Rightarrow> trim_space t | _ \<Rightarrow> [])
                     in (text ''repo'', text ''version'', map_json (Some (kv_del ''plugin'' raw))))
                | _ \<Rightarrow> ([], [], spec)))"

definition installPluginForBlock ::
  "'f plugin_host \<Rightarrow> 'f \<Rightarrow> string \<Rightarrow> string \<Rightarrow> string \<Rightarrow> 'f \<times> (string + loaded_plugin)" where
  "installPluginForBlock ph fs blockType repo version =
     (if \<not> ph_installer ph then (fs, Inl (''kind '' @ blockType @ '' has no installed plugin and JIT install is not configured''))
      else let r = (if repo = [] then ph_default_repo ph blockType else repo)
           in case ph_install ph fs r version of
                (fs', Inl e) \<Rightarrow> (fs', Inl (''auto-install plugin '' @ blockType @ '': '' @ e))
              | (fs', Inr lp) \<Rightarrow>
                  if lp_name lp \<noteq> blockType then (fs', Inl (''auto-install plugin '' @ blockType @ '': mismatch''))
                  else if ''expand'' \<notin> set (lp_commands lp) then (fs', Inl (''auto-install plugin '' @ blockType @ '': no expand command''))
                  else if version \<noteq> [] \<and> lp_version lp \<noteq> version then (fs', Inl (''auto-install plugin '' @ blockType @ '': version drifted''))
                  else (fs', Inr lp))"

definition builtin_scope :: string where
  "builtin_scope = ''plugins''"

definition refOf :: "string \<Rightarrow> string \<Rightarrow> string \<Rightarrow> string" where
  "refOf k scope nm = (if scope = [] then k @ ''/'' @ nm else k @ ''/'' @ scope @ ''/'' @ nm)"

definition ownsBuiltinResource :: "loaded_plugin \<Rightarrow> string \<Rightarrow> bool" where
  "ownsBuiltinResource lp nm = (lp_builtin lp \<and> nm = lp_name lp)"

definition builtinScopeError :: "manifest \<Rightarrow> string" where
  "builtinScopeError m = refOf (m_kind m) (m_scope m) (m_name m) @ '': scope plugins is reserved''"

section \<open>Actions\<close>

record plugin_action =
  ac_type :: string
  ac_scope :: string
  ac_name :: string
  ac_kv :: vars
  ac_keys :: "string list"
  ac_kind :: string
  ac_manifest :: "manifest option"

definition decode_action :: "(int \<Rightarrow> int) \<Rightarrow> json \<Rightarrow> string + plugin_action" where
  "decode_action num v =
     bind_ok (jobj v) (\<lambda>fs.
     bind_ok (jstr ''type'' fs) (\<lambda>t.
     bind_ok (jstr ''scope'' fs) (\<lambda>sc.
     bind_ok (jstr ''name'' fs) (\<lambda>nm.
     bind_ok (jvars ''kv'' fs) (\<lambda>kv.
     bind_ok (jstrs ''keys'' fs) (\<lambda>ks.
     bind_ok (jstr ''kind'' fs) (\<lambda>k.
     bind_ok (case jget ''manifest'' fs of
                None \<Rightarrow> Inr None
              | Some w \<Rightarrow>
                  bind_ok (jobj w) (\<lambda>ms.
                  bind_ok (jstr ''kind'' ms) (\<lambda>mk.
                  bind_ok (jstr ''scope'' ms) (\<lambda>msc.
                  bind_ok (jstr ''name'' ms) (\<lambda>mn.
                  bind_ok (any_map num (case jget ''spec'' ms of None \<Rightarrow> JNull | Some sp \<Rightarrow> sp)) (\<lambda>sp.
                    Inr (Some \<lparr>m_kind = mk, m_scope = msc, m_name = mn, m_spec = map_json sp, m_metadata = None\<rparr>)))))))
       (\<lambda>mf. Inr \<lparr>ac_type = t, ac_scope = sc, ac_name = nm, ac_kv = go_map kv, ac_keys = ks, ac_kind = k, ac_manifest = mf\<rparr>))))))))"

definition put_error_text :: "put_error \<Rightarrow> string" where
  "put_error_text e = (case e of InvalidManifest _ \<Rightarrow> ''invalid manifest'' | EtcdPut t \<Rightarrow> t)"

definition applyDispatchApplyManifest :: "'s etcd \<Rightarrow> int \<Rightarrow> 's \<Rightarrow> plugin_action \<Rightarrow> 's \<times> string option" where
  "applyDispatchApplyManifest cl now s ac =
     (case ac_manifest ac of
        None \<Rightarrow> (s, Some ''apply_manifest requires a manifest payload'')
      | Some m \<Rightarrow>
          if m_kind m = [] \<or> m_name m = [] then (s, Some ''apply_manifest manifest requires kind and name'')
          else case Put cl s now m of
                 Inl e \<Rightarrow> (s, Some (''apply_manifest: '' @ put_error_text e))
               | Inr (s', _) \<Rightarrow> (s', None))"

definition applyDispatchDeleteManifest :: "'s etcd \<Rightarrow> 's \<Rightarrow> plugin_action \<Rightarrow> 's \<times> string option" where
  "applyDispatchDeleteManifest cl s ac =
     (if ac_kind ac = [] then (s, Some ''delete_manifest requires kind'')
      else case ParseKind (ac_kind ac) of
             None \<Rightarrow> (s, Some ''delete_manifest: unknown kind'')
           | Some k \<Rightarrow>
               (case Delete cl s (kind_str k) (ac_scope ac) (ac_name ac) of
                  Inl e \<Rightarrow> (s, Some (''delete_manifest: '' @ e))
                | Inr (s', _) \<Rightarrow> (s', None)))"

definition applyPluginDispatchAction ::
  "'s etcd \<Rightarrow> 'f plugin_host \<Rightarrow> 's \<Rightarrow> 'f \<Rightarrow> plugin_action \<Rightarrow> 's \<times> 'f \<times> string option" where
  "applyPluginDispatchAction cl ph s fs ac =
     (if ac_scope ac = [] \<or> ac_name ac = [] then (s, fs, Some (''scope and name are required for action '' @ ac_type ac))
      else if ac_type ac = ''config_set'' then
        (if ac_kv ac = [] then (s, fs, Some ''config_set requires non-empty kv'')
         else case PatchConfig cl s (ac_scope ac) (ac_name ac) (ac_kv ac) of (s', e) \<Rightarrow> (s', fs, e))
      else if ac_type ac = ''config_unset'' then
        (if ac_keys ac = [] then (s, fs, Some ''config_unset requires non-empty keys'')
         else case PatchConfig cl s (ac_scope ac) (ac_name ac) (map (\<lambda>k. (k, [])) (remdups (ac_keys ac))) of
                (s', e) \<Rightarrow> (s', fs, e))
      else if ac_type ac = ''apply_manifest'' then
        (case applyDispatchApplyManifest cl (ph_now ph fs) s ac of (s', e) \<Rightarrow> (s', fs, e))
      else if ac_type ac = ''delete_manifest'' then
        (case applyDispatchDeleteManifest cl s ac of (s', e) \<Rightarrow> (s', fs, e))
      else if ac_type ac = ''run_job'' then
        (if \<not> ph_jobs ph then (s, fs, Some ''run_job: no job runner configured on this controller'')
         else (s, ph_queue_job ph fs (ac_scope ac) (ac_name ac), None))
      else (s, fs, Some (''unknown action type '' @ ac_type ac)))"

fun apply_actions :: "'s etcd \<Rightarrow> 'f plugin_host \<Rightarrow> 's \<Rightarrow> 'f \<Rightarrow> plugin_action list \<Rightarrow> 's \<times> 'f \<times> string option" where
  "apply_actions cl ph s fs [] = (s, fs, None)"
| "apply_actions cl ph s fs (ac # acs) =
     (case applyPluginDispatchAction cl ph s fs ac of
        (s', fs', Some e) \<Rightarrow> (s', fs', Some e)
      | (s', fs', None) \<Rightarrow> apply_actions cl ph s' fs' acs)"

section \<open>Running an expansion\<close>

fun decode_actions :: "(int \<Rightarrow> int) \<Rightarrow> json list \<Rightarrow> string + plugin_action list" where
  "decode_actions num [] = Inr []"
| "decode_actions num (v # vs) = bind_ok (decode_action num v) (\<lambda>a. bind_ok (decode_actions num vs) (\<lambda>r. Inr (a # r)))"

text \<open>
  The payload of a plugin: an array of manifests, an object with manifests and actions, or one
  manifest. The keys of the object are compared exactly to tell the last two apart.
\<close>

definition decodeExpandedPayload ::
  "(string \<Rightarrow> int option) \<Rightarrow> (int \<Rightarrow> int) \<Rightarrow> json option \<Rightarrow> string + manifest option list \<times> plugin_action list" where
  "decodeExpandedPayload tm num data =
     (case map_option (any_value num) data of
        None \<Rightarrow> Inl ''envelope.data is empty''
      | Some (JList vs) \<Rightarrow> bind_ok (decode_manifest_list tm vs) (\<lambda>ms. Inr (ms, []))
      | Some (JObj fs) \<Rightarrow>
          if map_of fs ''manifests'' \<noteq> None then
            bind_ok (case jget ''manifests'' fs of
                       None \<Rightarrow> Inr [] | Some (JList vs) \<Rightarrow> decode_manifest_list tm vs | Some _ \<Rightarrow> Inl ''decode {manifests, actions}'') (\<lambda>ms.
            bind_ok (case jget ''actions'' fs of
                       None \<Rightarrow> Inr [] | Some (JList vs) \<Rightarrow> decode_actions num vs | Some _ \<Rightarrow> Inl ''decode {manifests, actions}'') (\<lambda>as.
              Inr (ms, as)))
          else bind_ok (decode_manifest tm (JObj fs)) (\<lambda>m. Inr ([Some m], []))
      | Some _ \<Rightarrow> Inl ''decode envelope.data object'')"

fun check_expanded :: "manifest option list \<Rightarrow> string + manifest list" where
  "check_expanded [] = Inr []"
| "check_expanded (None # ms) = Inl ''returned a nil manifest''"
| "check_expanded (Some m # ms) =
     (if \<not> IsCoreKind (m_kind m) then Inl (''returned non-core kind '' @ m_kind m)
      else if m_name m = [] then Inl ''returned manifest with empty name''
      else bind_ok (check_expanded ms) (\<lambda>r. Inr (m # r)))"

definition spliceJSONField :: "json \<Rightarrow> string \<Rightarrow> json \<Rightarrow> string + json" where
  "spliceJSONField spec key v =
     (case spec of
        JNull \<Rightarrow> Inr (JObj [(key, v)])
      | JObj fs \<Rightarrow> Inr (JObj (go_map (kv_set key v (first_entries (rev fs)))))
      | _ \<Rightarrow> Inl ''json: cannot unmarshal into Go value of type map[string]json.RawMessage'')"

fun splice_on_probe :: "json \<Rightarrow> manifest list \<Rightarrow> string + manifest list" where
  "splice_on_probe v [] = Inr []"
| "splice_on_probe v (m # ms) =
     (if m_kind m \<noteq> kind_str KindDeployment \<and> m_kind m \<noteq> kind_str KindStatefulset
      then bind_ok (splice_on_probe v ms) (\<lambda>r. Inr (m # r))
      else bind_ok (map_err (\<lambda>e. ''splice on_probe onto '' @ refOf (m_kind m) (m_scope m) (m_name m) @ '': '' @ e)
                      (spliceJSONField (m_spec m) ''on_probe'' v)) (\<lambda>sp.
           bind_ok (splice_on_probe v ms) (\<lambda>r. Inr (m\<lparr>m_spec := sp\<rparr> # r))))"

definition splicePassthroughBlocks :: "json \<Rightarrow> manifest list \<Rightarrow> string + manifest list" where
  "splicePassthroughBlocks operatorSpec ms =
     (case jobj operatorSpec of
        Inl _ \<Rightarrow> Inr ms
      | Inr fs \<Rightarrow> (case jget ''on_probe'' fs of None \<Rightarrow> Inr ms | Some v \<Rightarrow> splice_on_probe v ms))"

definition runExpand ::
  "'s etcd \<Rightarrow> 'f plugin_host \<Rightarrow> (string \<Rightarrow> int option) \<Rightarrow> (int \<Rightarrow> int) \<Rightarrow> 's \<Rightarrow> 'f \<Rightarrow> loaded_plugin \<Rightarrow> manifest
     \<Rightarrow> 's \<times> 'f \<times> (string + manifest list)" where
  "runExpand cl ph tm num s fs lp m =
     (let config = (case ResolveConfig cl s (m_scope m) (m_name m) of Inl _ \<Rightarrow> [] | Inr c \<Rightarrow> c);
          req = \<lparr>rq_kind = m_kind m, rq_scope = m_scope m, rq_name = m_name m, rq_spec = m_spec m,
                 rq_config = config, rq_parent = None, rq_host_ports = []\<rparr>
      in case ph_run ph fs lp req of
           (fs1, Inl e) \<Rightarrow> (s, fs1, Inl e)
         | (fs1, Inr res) \<Rightarrow>
             if pa_exit res \<noteq> 0 then (s, fs1, Inl (''plugin '' @ lp_name lp @ '' expand exited: '' @ pa_detail res))
             else case pa_envelope res of
                    None \<Rightarrow> (s, fs1, Inl (''plugin '' @ lp_name lp @ '' expand returned no JSON envelope''))
                  | Some (status, err, data) \<Rightarrow>
                      if status = ''error'' then (s, fs1, Inl (''plugin '' @ lp_name lp @ '' expand: '' @ err))
                      else case decodeExpandedPayload tm num data of
                             Inl e \<Rightarrow> (s, fs1, Inl (''plugin '' @ lp_name lp @ '' expand: '' @ e))
                           | Inr (ms, acs) \<Rightarrow>
                               (case apply_actions cl ph s fs1 acs of
                                  (s2, fs2, Some e) \<Rightarrow> (s2, fs2, Inl (''plugin '' @ lp_name lp @ '' expand action: '' @ e))
                                | (s2, fs2, None) \<Rightarrow>
                                    (s2, fs2, bind_ok (check_expanded ms) (splicePassthroughBlocks (m_spec m)))))"

section \<open>Nested blocks\<close>

text \<open>The parent's port mode is that of a spec with the parent's ports and nothing else.\<close>

definition parentHostPorts :: "manifest \<Rightarrow> string" where
  "parentHostPorts m =
     (case bind_ok (jobj (m_spec m)) (jstrs ''ports'') of
        Inl _ \<Rightarrow> []
      | Inr ports \<Rightarrow>
          (case decodeDeploymentSpec (m\<lparr>m_spec := JObj [(''ports'', JList (map JStr ports))]\<rparr>) of
             Inl _ \<Rightarrow> []
           | Inr spec \<Rightarrow> hostPortMode spec))"

type_synonym nested_block = "string \<times> string list \<times> json"

definition decode_block :: "json \<Rightarrow> string + nested_block" where
  "decode_block b =
     bind_ok (jobj b) (\<lambda>fs. bind_ok (jstr ''type'' fs) (\<lambda>t. bind_ok (jstrs ''labels'' fs) (\<lambda>ls.
       Inr (t, ls, case jget ''spec'' fs of None \<Rightarrow> JNull | Some sp \<Rightarrow> sp))))"

fun decode_blocks :: "json list \<Rightarrow> string + nested_block list" where
  "decode_blocks [] = Inr []"
| "decode_blocks (b # bs) = bind_ok (decode_block b) (\<lambda>x. bind_ok (decode_blocks bs) (\<lambda>xs. Inr (x # xs)))"

fun block_json :: "nested_block \<Rightarrow> json" where
  "block_json (t, ls, sp) =
     JObj ([(''type'', JStr t)] @ (if ls = [] then [] else [(''labels'', JList (map JStr ls))])
           @ (if sp = JNull then [] else [(''spec'', sp)]))"

definition runNestedExpand ::
  "'s etcd \<Rightarrow> 'f plugin_host \<Rightarrow> 's \<Rightarrow> 'f \<Rightarrow> loaded_plugin \<Rightarrow> manifest \<Rightarrow> string \<Rightarrow> json \<Rightarrow> 'f \<times> (string + json option)" where
  "runNestedExpand cl ph s fs lp m t sp =
     (let req = \<lparr>rq_kind = t, rq_scope = m_scope m, rq_name = m_name m, rq_spec = sp,
                 rq_config = (case ResolveConfig cl s (m_scope m) (m_name m) of Inl _ \<Rightarrow> [] | Inr c \<Rightarrow> c),
                 rq_parent = Some m, rq_host_ports = parentHostPorts m\<rparr>
      in case ph_run ph fs lp req of
           (fs1, Inl e) \<Rightarrow> (fs1, Inl e)
         | (fs1, Inr res) \<Rightarrow>
             (fs1, case pa_envelope res of
                     Some (status, err, data) \<Rightarrow>
                       if status = ''error'' then Inl err
                       else if pa_exit res \<noteq> 0 then Inl (''plugin exited: '' @ pa_detail res)
                       else Inr data
                   | None \<Rightarrow> Inl (if pa_exit res \<noteq> 0 then ''plugin exited: '' @ pa_detail res else ''returned no JSON envelope'')))"

fun expand_blocks ::
  "'s etcd \<Rightarrow> 'f plugin_host \<Rightarrow> 's \<Rightarrow> 'f \<Rightarrow> manifest \<Rightarrow> nested_block list \<Rightarrow> 'f \<times> (string + nested_block list)" where
  "expand_blocks cl ph s fs m [] = (fs, Inr [])"
| "expand_blocks cl ph s fs m ((t, ls, sp) # bs) =
     (case (if ph_configured ph then ph_lookup ph fs t else None) of
        None \<Rightarrow> (fs, Inl (m_kind m @ ''/'' @ m_scope m @ ''/'' @ m_name m @ '': block '' @ t @ '' belongs to a plugin which is not installed''))
      | Some lp \<Rightarrow>
          (case runNestedExpand cl ph s fs lp m t sp of
             (fs1, Inl e) \<Rightarrow> (fs1, Inl (m_kind m @ ''/'' @ m_scope m @ ''/'' @ m_name m @ '': '' @ t @ '' block: '' @ e))
           | (fs1, Inr data) \<Rightarrow>
               (case expand_blocks cl ph s fs1 m bs of
                  (fs2, Inl e) \<Rightarrow> (fs2, Inl e)
                | (fs2, Inr r) \<Rightarrow> (fs2, Inr ((t, ls, case data of None \<Rightarrow> sp | Some d \<Rightarrow> d) # r)))))"

definition spliceNestedBlocks :: "manifest \<Rightarrow> json list \<Rightarrow> string + manifest" where
  "spliceNestedBlocks m blocks =
     (case spliceJSONField (m_spec m) ''plugin_blocks'' (JList blocks) of
        Inl e \<Rightarrow> Inl (''re-encode spec: '' @ e)
      | Inr sp \<Rightarrow> Inr (m\<lparr>m_spec := sp\<rparr>))"

definition expandNestedPluginBlocks ::
  "'s etcd \<Rightarrow> 'f plugin_host \<Rightarrow> 's \<Rightarrow> 'f \<Rightarrow> manifest \<Rightarrow> 'f \<times> (string + manifest)" where
  "expandNestedPluginBlocks cl ph s fs m =
     (case bind_ok (bind_ok (jobj (m_spec m)) (jlist ''plugin_blocks'')) decode_blocks of
        Inl _ \<Rightarrow> (fs, Inr m)
      | Inr [] \<Rightarrow> (fs, Inr m)
      | Inr (b # bs) \<Rightarrow>
          (case expand_blocks cl ph s fs m (b # bs) of
             (fs', Inl e) \<Rightarrow> (fs', Inl e)
           | (fs', Inr blocks) \<Rightarrow> (fs', spliceNestedBlocks m (map block_json blocks))))"

section \<open>Expanding a batch\<close>

definition expand_one ::
  "'s etcd \<Rightarrow> 'f plugin_host \<Rightarrow> (string \<Rightarrow> int option) \<Rightarrow> (int \<Rightarrow> int) \<Rightarrow> 's \<Rightarrow> 'f \<Rightarrow> manifest
     \<Rightarrow> 's \<times> 'f \<times> (string + manifest list)" where
  "expand_one cl ph tm num s fs m =
     (if IsCoreKind (m_kind m) then
        (if m_scope m = builtin_scope then (s, fs, Inl (builtinScopeError m))
         else case expandNestedPluginBlocks cl ph s fs m of
                (fs', Inl e) \<Rightarrow> (s, fs', Inl e)
              | (fs', Inr m') \<Rightarrow> (s, fs', Inr [m']))
      else if \<not> ph_configured ph then (s, fs, Inl (''kind '' @ m_kind m @ '' is not a core kind and the plugin registry is not configured''))
      else case extractInstallMetadata num (m_spec m) of
             (repo, version, cleaned) \<Rightarrow>
               (let m' = m\<lparr>m_spec := cleaned\<rparr>;
                    found = ph_lookup ph fs (m_kind m);
                    latest = (version = ''latest'');
                    needs = (found = None
                             \<or> (\<not> latest \<and> version \<noteq> [] \<and> (case found of Some lp \<Rightarrow> lp_version lp \<noteq> version | None \<Rightarrow> False))
                             \<or> latest);
                    (fs1, plug) = (case found of
                                     Some lp \<Rightarrow> if needs then installPluginForBlock ph fs (m_kind m) repo (if latest then [] else version)
                                                else (fs, Inr lp)
                                   | None \<Rightarrow> installPluginForBlock ph fs (m_kind m) repo (if latest then [] else version))
                in case plug of
                     Inl e \<Rightarrow> (s, fs1, Inl e)
                   | Inr lp \<Rightarrow>
                       if m_scope m = builtin_scope \<and> \<not> ownsBuiltinResource lp (m_name m)
                       then (s, fs1, Inl (builtinScopeError m))
                       else case runExpand cl ph tm num s fs1 lp m' of
                              (s2, fs2, Inl e) \<Rightarrow> (s2, fs2, Inl (''expand '' @ m_kind m @ ''/'' @ m_name m @ '': '' @ e))
                            | (s2, fs2, Inr ms) \<Rightarrow> (s2, fs2, Inr ms)))"

fun expandPluginBlocks ::
  "'s etcd \<Rightarrow> 'f plugin_host \<Rightarrow> (string \<Rightarrow> int option) \<Rightarrow> (int \<Rightarrow> int) \<Rightarrow> 's \<Rightarrow> 'f \<Rightarrow> manifest list
     \<Rightarrow> 's \<times> 'f \<times> (string + manifest list)" where
  "expandPluginBlocks cl ph tm num s fs [] = (s, fs, Inr [])"
| "expandPluginBlocks cl ph tm num s fs (m # ms) =
     (case expand_one cl ph tm num s fs m of
        (s1, fs1, Inl e) \<Rightarrow> (s1, fs1, Inl e)
      | (s1, fs1, Inr xs) \<Rightarrow>
          (case expandPluginBlocks cl ph tm num s1 fs1 ms of
             (s2, fs2, Inl e) \<Rightarrow> (s2, fs2, Inl e)
           | (s2, fs2, Inr ys) \<Rightarrow> (s2, fs2, Inr (xs @ ys))))"

section \<open>Pulling images\<close>

fun collect_images :: "manifest list \<Rightarrow> string list \<Rightarrow> string list" where
  "collect_images [] seen = []"
| "collect_images (m # ms) seen =
     (if \<not> IsConsumerKind (m_kind m) then collect_images ms seen
      else case bind_ok (jobj (m_spec m)) (jstr ''image'') of
             Inl _ \<Rightarrow> collect_images ms seen
           | Inr img \<Rightarrow> if img = [] \<or> img \<in> set seen then collect_images ms seen
                        else img # collect_images ms (img # seen))"

definition collectPullableImages :: "manifest list \<Rightarrow> string list" where
  "collectPullableImages ms = collect_images ms []"

fun pull_images :: "'f plugin_host \<Rightarrow> 'f \<Rightarrow> string list \<Rightarrow> 'f \<times> (string + (string \<times> bool \<times> string) list)" where
  "pull_images ph fs [] = (fs, Inr [])"
| "pull_images ph fs (img # imgs) =
     (let before = ph_image_id ph fs img
      in case ph_pull ph fs img of
           (fs1, Some e) \<Rightarrow>
             if before = [] then (fs1, Inl (''force pull '' @ img @ '': '' @ e))
             else (case pull_images ph fs1 imgs of
                     (fs2, Inl e') \<Rightarrow> (fs2, Inl e') | (fs2, Inr r) \<Rightarrow> (fs2, Inr ((img, False, e) # r)))
         | (fs1, None) \<Rightarrow>
             (case pull_images ph fs1 imgs of
                (fs2, Inl e') \<Rightarrow> (fs2, Inl e') | (fs2, Inr r) \<Rightarrow> (fs2, Inr ((img, before \<noteq> ph_image_id ph fs1 img, []) # r))))"

definition forcePullImages :: "'f plugin_host \<Rightarrow> 'f \<Rightarrow> manifest list \<Rightarrow> 'f \<times> (string + (string \<times> bool \<times> string) list)" where
  "forcePullImages ph fs ms = (if \<not> ph_images ph then (fs, Inr []) else pull_images ph fs (collectPullableImages ms))"

end
