(* ===== verification/Api.thy ===== *)
theory Api
  imports Expand Containers
begin

text \<open>
  The state-changing endpoints of the controller's HTTP API, \<open>internal/controller/api.go\<close>: apply with
  its host check, stamping, dry run and prune, delete, scope wipe, the lookup of an unqualified name,
  config changes, stop and start of a pod with their freeze annotation, restart, rollback. A request is
  its decoded query parameters and body; a response is its status code and the data the code reports.
  Authentication, the activity trail and streaming are around these handlers.
\<close>

datatype 'a response = Crashed | Rejected int string | Done 'a

record ('s, 'f) api =
  ap_cl :: "'s etcd"
  ap_ph :: "'f plugin_host"
  ap_dk :: "'f disk"
  ap_root :: string
  ap_num :: "int \<Rightarrow> int"
  ap_time :: "string \<Rightarrow> int option"
  ap_prune_volumes :: "('f \<Rightarrow> string \<Rightarrow> string \<Rightarrow> 'f \<times> (string + string list)) option"
  ap_inspect :: "'f \<Rightarrow> string \<Rightarrow> string + (string \<rightharpoonup> string)"
  ap_stop :: "'f \<Rightarrow> string \<Rightarrow> 'f \<times> string option"
  ap_start :: "'f \<Rightarrow> string \<Rightarrow> 'f \<times> string option"
  ap_remove :: "'f \<Rightarrow> string \<Rightarrow> 'f \<times> string option"
  ap_restart :: "kind \<Rightarrow> ('s \<times> 'f \<Rightarrow> string \<Rightarrow> string \<Rightarrow> ('s \<times> 'f) \<times> string option) option"
  ap_rollback :: "kind \<Rightarrow> ('s \<times> 'f \<Rightarrow> string \<Rightarrow> string \<Rightarrow> string \<Rightarrow> ('s \<times> 'f) \<times> (string + string)) option"
  ap_write_env :: "'f \<Rightarrow> string \<Rightarrow> string list \<Rightarrow> 'f"

definition ap_now :: "('s, 'f) api \<Rightarrow> 'f \<Rightarrow> int" where
  "ap_now a fs = dk_clock (ap_dk a) fs"

section \<open>Apply\<close>

text \<open>\<open>None\<close> is an empty body.\<close>

definition decodeManifests :: "(string \<Rightarrow> int option) \<Rightarrow> json option \<Rightarrow> string + manifest option list" where
  "decodeManifests tm body =
     (case body of
        None \<Rightarrow> Inl ''empty body''
      | Some (JList vs) \<Rightarrow> map_err (\<lambda>e. ''decode manifest array: '' @ e) (decode_manifest_list tm vs)
      | Some v \<Rightarrow> bind_ok (map_err (\<lambda>e. ''decode manifest: '' @ e) (decode_manifest tm v)) (\<lambda>m. Inr [Some m]))"

definition ingressHost :: "manifest \<Rightarrow> string + string" where
  "ingressHost m =
     (if m_spec m = JNull then Inr []
      else map_err (\<lambda>e. ''ingress/'' @ m_name m @ '': decode spec: '' @ e) (bind_ok (jobj (m_spec m)) (jstr ''host'')))"

definition is_ingress :: "manifest \<Rightarrow> bool" where
  "is_ingress m = (m_kind m = kind_str KindIngress)"

definition scope_ref :: "manifest \<Rightarrow> string" where
  "scope_ref m = m_scope m @ ''/'' @ m_name m"

text \<open>
  The hosts the batch claims, as a map from host to claimant. The loop reads through the pointers of
  the batch: a nil one is a nil dereference (\<open>None\<close>).
\<close>

fun incoming_hosts :: "manifest option list \<Rightarrow> vars \<Rightarrow> (string + vars) option" where
  "incoming_hosts [] hosts = Some (Inr hosts)"
| "incoming_hosts (None # ms) hosts = None"
| "incoming_hosts (Some m # ms) hosts =
     (if \<not> is_ingress m then incoming_hosts ms hosts
      else case ingressHost m of
             Inl e \<Rightarrow> Some (Inl e)
           | Inr h \<Rightarrow>
               if h = [] then incoming_hosts ms hosts
               else case map_of hosts h of
                      Some prev \<Rightarrow> Some (Inl (''ingress host '' @ h @ '' claimed by both '' @ prev @ '' and '' @ scope_ref m @ '' in this apply''))
                    | None \<Rightarrow> incoming_hosts ms ((h, scope_ref m) # hosts))"

fun existing_hosts :: "manifest list \<Rightarrow> string list \<Rightarrow> vars \<Rightarrow> string option" where
  "existing_hosts [] replacing hosts = None"
| "existing_hosts (e # es) replacing hosts =
     (if scope_ref e \<in> set replacing then existing_hosts es replacing hosts
      else case ingressHost e of
             Inl t \<Rightarrow> Some t
           | Inr h \<Rightarrow>
               if h = [] then existing_hosts es replacing hosts
               else case map_of hosts h of
                      Some claimant \<Rightarrow> Some (''ingress host '' @ h @ '' already owned by '' @ scope_ref e @ '' - delete it or rename '' @ claimant)
                    | None \<Rightarrow> existing_hosts es replacing hosts)"

definition checkIngressHostCollisions :: "'s etcd \<Rightarrow> 's \<Rightarrow> manifest option list \<Rightarrow> string option option" where
  "checkIngressHostCollisions cl s ms =
     (case incoming_hosts ms [] of
        None \<Rightarrow> None
      | Some (Inl e) \<Rightarrow> Some (Some e)
      | Some (Inr hosts) \<Rightarrow>
          Some (case ListKind cl s (kind_str KindIngress) of
                  Inl e \<Rightarrow> Some e
                | Inr es \<Rightarrow> existing_hosts es (map scope_ref (filter is_ingress (List.map_filter id ms))) hosts))"

text \<open>\<open>pruneTarget\<close>: kind, scope and name.\<close>

type_synonym prune_target = "string \<times> string \<times> string"

definition prune_buckets :: "manifest list \<Rightarrow> (string \<times> string) list" where
  "prune_buckets ms = remdups (map (\<lambda>m. (m_kind m, m_scope m)) (filter (\<lambda>m. is_scoped_str (m_kind m)) ms))"

definition bucket_names :: "manifest list \<Rightarrow> string \<times> string \<Rightarrow> string list" where
  "bucket_names ms b = map m_name (filter (\<lambda>m. is_scoped_str (m_kind m) \<and> (m_kind m, m_scope m) = b) ms)"

fun targets_of :: "'s etcd \<Rightarrow> 's \<Rightarrow> manifest list \<Rightarrow> (string \<times> string) list \<Rightarrow> string + prune_target list" where
  "targets_of cl s ms [] = Inr []"
| "targets_of cl s ms (b # bs) =
     bind_ok (ListByScope cl s (fst b) (snd b)) (\<lambda>es.
     bind_ok (targets_of cl s ms bs) (\<lambda>ts.
       Inr (map (\<lambda>e. (m_kind e, m_scope e, m_name e)) (filter (\<lambda>e. m_name e \<notin> set (bucket_names ms b)) es) @ ts)))"

definition computePruneTargets :: "'s etcd \<Rightarrow> 's \<Rightarrow> manifest list \<Rightarrow> string + prune_target list" where
  "computePruneTargets cl s ms = targets_of cl s ms (prune_buckets ms)"

fun applyPrune :: "'s etcd \<Rightarrow> 's \<Rightarrow> prune_target list \<Rightarrow> 's \<times> string option" where
  "applyPrune cl s [] = (s, None)"
| "applyPrune cl s ((k, sc, nm) # ts) =
     (case Delete cl s k sc nm of
        Inl e \<Rightarrow> (s, Some e)
      | Inr (s', _) \<Rightarrow> applyPrune cl s' ts)"

text \<open>
  The loop that reads what is stored and writes the new manifest: the manifests it reports, and what
  each replaced. An error keeps the writes made before it.
\<close>

fun apply_each ::
  "'s etcd \<Rightarrow> int \<Rightarrow> bool \<Rightarrow> 's \<Rightarrow> manifest list \<Rightarrow> 's \<times> ((int \<times> string) + manifest list \<times> manifest option list)" where
  "apply_each cl now dry s [] = (s, Inr ([], []))"
| "apply_each cl now dry s (m # ms) =
     (case Get cl s (m_kind m) (m_scope m) (m_name m) of
        Inl e \<Rightarrow> (s, Inl (500, ''read current: '' @ e))
      | Inr before \<Rightarrow>
          (case (if dry then Inr (s, m) else Put cl s now m) of
             Inl e \<Rightarrow> (s, Inl (400, put_error_text e))
           | Inr (s1, stored) \<Rightarrow>
               (case apply_each cl now dry s1 ms of
                  (s2, Inl e) \<Rightarrow> (s2, Inl e)
                | (s2, Inr (as, bs)) \<Rightarrow> (s2, Inr (stored # as, before # bs)))))"

record apply_result =
  re_applied :: "manifest list"
  re_current :: "manifest option list"
  re_pruned :: "prune_target list"

definition apply_batch ::
  "('s, 'f) api \<Rightarrow> 's \<Rightarrow> 'f \<Rightarrow> bool \<Rightarrow> bool \<Rightarrow> manifest list \<Rightarrow> 's \<times> 'f \<times> apply_result response" where
  "apply_batch a s fs dry prune ms =
     (case apply_each (ap_cl a) (ap_now a fs) dry s ms of
        (s1, Inl (code, e)) \<Rightarrow> (s1, fs, Rejected code e)
      | (s1, Inr (applied, current)) \<Rightarrow>
          if \<not> prune then (s1, fs, Done \<lparr>re_applied = applied, re_current = current, re_pruned = []\<rparr>)
          else case computePruneTargets (ap_cl a) s1 ms of
                 Inl e \<Rightarrow> (s1, fs, Rejected 500 (''prune plan: '' @ e))
               | Inr ts \<Rightarrow>
                   (let res = Done \<lparr>re_applied = applied, re_current = current, re_pruned = ts\<rparr>
                    in if dry then (s1, fs, res)
                       else case applyPrune (ap_cl a) s1 ts of
                              (s2, Some e) \<Rightarrow> (s2, fs, Rejected 500 (''prune: '' @ e))
                            | (s2, None) \<Rightarrow> (s2, fs, res)))"

definition applyPost ::
  "('s, 'f) api \<Rightarrow> 's \<Rightarrow> 'f \<Rightarrow> bool \<Rightarrow> bool \<Rightarrow> bool \<Rightarrow> json option \<Rightarrow> 's \<times> 'f \<times> apply_result response" where
  "applyPost a s fs dry prune force body =
     (case decodeManifests (ap_time a) body of
        Inl e \<Rightarrow> (s, fs, Rejected 400 e)
      | Inr ms \<Rightarrow>
          if ms = [] then (s, fs, Rejected 400 ''no manifests in body'')
          else case checkIngressHostCollisions (ap_cl a) s ms of
                 None \<Rightarrow> (s, fs, Crashed)
               | Some (Some e) \<Rightarrow> (s, fs, Rejected 400 e)
               | Some None \<Rightarrow>
                   (case expandPluginBlocks (ap_cl a) (ap_ph a) (ap_time a) (ap_num a) s fs (List.map_filter id ms) of
                      (s1, fs1, Inl e) \<Rightarrow> (s1, fs1, Rejected 400 e)
                    | (s1, fs1, Inr ms1) \<Rightarrow>
                        (case StampAssetDigests (ap_cl a) (ap_dk a) (ap_num a) (ap_root a) s1 fs1 ms1 of
                           (s2, fs2, Inl e) \<Rightarrow> (s2, fs2, Rejected 400 (''asset stamping: '' @ e))
                         | (s2, fs2, Inr ms2) \<Rightarrow>
                             (case (if force \<and> \<not> dry then forcePullImages (ap_ph a) fs2 ms2 else (fs2, Inr [])) of
                                (fs3, Inl e) \<Rightarrow> (s2, fs3, Rejected 502 e)
                              | (fs3, Inr _) \<Rightarrow> apply_batch a s2 fs3 dry prune ms2))))"

section \<open>Looking up a name\<close>

datatype lookup_error = ScopeNotFound string | Ambiguous string | StoreFailed string

definition resolveScope :: "'s etcd \<Rightarrow> 's \<Rightarrow> kind \<Rightarrow> string \<Rightarrow> lookup_error + string" where
  "resolveScope cl s k nm =
     (case ListKind cl s (kind_str k) of
        Inl e \<Rightarrow> Inl (StoreFailed e)
      | Inr all \<Rightarrow>
          (case map m_scope (filter (\<lambda>m. m_name m = nm) all) of
             [] \<Rightarrow> Inl (ScopeNotFound (kind_str k @ ''/'' @ nm))
           | [sc] \<Rightarrow> Inr sc
           | _ \<Rightarrow> Inl (Ambiguous (kind_str k @ ''/'' @ nm))))"

fun restart_matches :: "'s etcd \<Rightarrow> 's \<Rightarrow> string \<Rightarrow> string \<Rightarrow> kind list \<Rightarrow> lookup_error + (kind \<times> string) list" where
  "restart_matches cl s scope nm [] = Inr []"
| "restart_matches cl s scope nm (k # ks) =
     bind_ok (if scope \<noteq> [] then
                (case Get cl s (kind_str k) scope nm of
                   Inl e \<Rightarrow> Inl (StoreFailed (''lookup '' @ kind_str k @ ''/'' @ scope @ ''/'' @ nm @ '': '' @ e))
                 | Inr None \<Rightarrow> Inr []
                 | Inr (Some _) \<Rightarrow> Inr [(k, scope)])
              else
                (case ListKind cl s (kind_str k) of
                   Inl e \<Rightarrow> Inl (StoreFailed (''list '' @ kind_str k @ '': '' @ e))
                 | Inr all \<Rightarrow> Inr (map (\<lambda>m. (k, m_scope m)) (filter (\<lambda>m. m_name m = nm) all)))) (\<lambda>xs.
     bind_ok (restart_matches cl s scope nm ks) (\<lambda>ys. Inr (xs @ ys)))"

definition formatRestartRef :: "string \<Rightarrow> string \<Rightarrow> string" where
  "formatRestartRef scope nm = (if scope = [] then nm else scope @ ''/'' @ nm)"

definition autoDetectRestartable :: "'s etcd \<Rightarrow> 's \<Rightarrow> string \<Rightarrow> string \<Rightarrow> lookup_error + kind \<times> string" where
  "autoDetectRestartable cl s scope nm =
     bind_ok (restart_matches cl s scope nm [KindDeployment, KindStatefulset]) (\<lambda>ms.
       case ms of
         [] \<Rightarrow> Inl (ScopeNotFound (formatRestartRef scope nm))
       | [x] \<Rightarrow> Inr x
       | _ \<Rightarrow> Inl (Ambiguous (join '', '' (map (\<lambda>(k, sc). kind_str k @ ''/'' @ sc @ ''/'' @ nm) ms))))"

definition restartLookupStatus :: "lookup_error \<Rightarrow> int" where
  "restartLookupStatus e = (case e of ScopeNotFound _ \<Rightarrow> 404 | Ambiguous _ \<Rightarrow> 400 | StoreFailed _ \<Rightarrow> 500)"

definition lookup_text :: "lookup_error \<Rightarrow> string" where
  "lookup_text e = (case e of ScopeNotFound t \<Rightarrow> t @ '': not found in any scope'' | Ambiguous t \<Rightarrow> t @ '' is ambiguous'' | StoreFailed t \<Rightarrow> t)"

section \<open>Deleting\<close>

record prune_summary =
  su_config_wiped :: bool
  su_app_dir :: string
  su_volume_dir :: string
  su_volumes :: "string list"
  su_errors :: "string list"

definition no_summary :: prune_summary where
  "no_summary = \<lparr>su_config_wiped = False, su_app_dir = [], su_volume_dir = [], su_volumes = [], su_errors = []\<rparr>"

definition remove_tree :: "'f disk \<Rightarrow> 'f \<Rightarrow> string \<Rightarrow> 'f \<times> string \<times> string list" where
  "remove_tree dk fs dir =
     (case dk_remove_all dk fs dir of
        (fs', Some e) \<Rightarrow> (fs', [], [''remove '' @ dir @ '': '' @ e])
      | (fs', None) \<Rightarrow> (fs', dir, []))"

definition pruneResource ::
  "('s, 'f) api \<Rightarrow> 's \<Rightarrow> 'f \<Rightarrow> kind \<Rightarrow> string \<Rightarrow> string \<Rightarrow> 's \<times> 'f \<times> prune_summary" where
  "pruneResource a s fs k scope nm =
     (let (s1, wiped, e1) = (case DeleteConfig (ap_cl a) s scope nm of
                               Inl e \<Rightarrow> (s, False, [''delete config: '' @ e]) | Inr s' \<Rightarrow> (s', True, []))
      in if k \<in> {KindDeployment, KindStatefulset, KindJob, KindCronJob} then
           (let app = AppID scope nm;
                (fs1, d1, e2) = remove_tree (ap_dk a) fs (AppDir (ap_root a) app);
                (fs2, d2, e3) = remove_tree (ap_dk a) fs1 (AppVolumeDir (ap_root a) app)
            in (s1, fs2, \<lparr>su_config_wiped = wiped, su_app_dir = d1, su_volume_dir = d2, su_volumes = [], su_errors = e1 @ e2 @ e3\<rparr>))
         else (s1, fs, no_summary\<lparr>su_config_wiped := wiped, su_errors := e1\<rparr>))"

text \<open>The prune of one deleted resource, with the volumes of a statefulset.\<close>

definition prune_deleted ::
  "('s, 'f) api \<Rightarrow> 's \<Rightarrow> 'f \<Rightarrow> kind \<Rightarrow> string \<Rightarrow> string \<Rightarrow> 's \<times> 'f \<times> prune_summary" where
  "prune_deleted a s fs k scope nm =
     (case pruneResource a s fs k scope nm of
        (s1, fs1, smry) \<Rightarrow>
          (case (if k = KindStatefulset then ap_prune_volumes a else None) of
             None \<Rightarrow> (s1, fs1, smry)
           | Some prune \<Rightarrow>
               (case prune fs1 scope nm of
                  (fs2, Inl e) \<Rightarrow> (s1, fs2, smry\<lparr>su_errors := su_errors smry @ [''prune volumes: '' @ e]\<rparr>)
                | (fs2, Inr vs) \<Rightarrow> (s1, fs2, smry\<lparr>su_volumes := vs\<rparr>))))"

definition applyDelete ::
  "('s, 'f) api \<Rightarrow> 's \<Rightarrow> 'f \<Rightarrow> string \<Rightarrow> string \<Rightarrow> string \<Rightarrow> bool \<Rightarrow> 's \<times> 'f \<times> prune_summary response" where
  "applyDelete a s fs kindStr scope nm prune =
     (if kindStr = [] \<or> nm = [] then (s, fs, Rejected 400 ''kind and name are required'')
      else case ParseKind kindStr of
             None \<Rightarrow> (s, fs, Rejected 400 ''unknown kind'')
           | Some k \<Rightarrow>
               (case (if IsScoped k \<and> scope = [] then resolveScope (ap_cl a) s k nm else Inr scope) of
                  Inl e \<Rightarrow> (s, fs, Rejected (case e of ScopeNotFound _ \<Rightarrow> 404 | _ \<Rightarrow> 400) (lookup_text e))
                | Inr sc \<Rightarrow>
                    (case Delete (ap_cl a) s (kind_str k) sc nm of
                       Inl e \<Rightarrow> (s, fs, Rejected 500 e)
                     | Inr (s1, deleted) \<Rightarrow>
                         if \<not> deleted then (s1, fs, Rejected 404 (kind_str k @ ''/'' @ nm @ '' not found''))
                         else if prune then
                           (case prune_deleted a s1 fs k sc nm of (s2, fs2, smry) \<Rightarrow> (s2, fs2, Done smry))
                         else (s1, fs, Done no_summary))))"

text \<open>
  \<open>handleScopeWipe\<close>. The scoped kinds are the keys of a Go map: \<open>order\<close> is the order of its iteration.
\<close>

type_synonym wiped = "(kind \<times> string \<times> prune_summary) list"

fun wipe_manifests ::
  "('s, 'f) api \<Rightarrow> bool \<Rightarrow> kind \<Rightarrow> string \<Rightarrow> 's \<Rightarrow> 'f \<Rightarrow> manifest list \<Rightarrow> 's \<times> 'f \<times> wiped \<times> string list" where
  "wipe_manifests a prune k scope s fs [] = (s, fs, [], [])"
| "wipe_manifests a prune k scope s fs (m # ms) =
     (case Delete (ap_cl a) s (kind_str k) scope (m_name m) of
        Inl e \<Rightarrow>
          (case wipe_manifests a prune k scope s fs ms of
             (s', fs', ws, es) \<Rightarrow> (s', fs', ws, (''delete '' @ kind_str k @ ''/'' @ scope @ ''/'' @ m_name m @ '': '' @ e) # es))
      | Inr (s1, _) \<Rightarrow>
          (case (if prune then prune_deleted a s1 fs k scope (m_name m) else (s1, fs, no_summary)) of
             (s2, fs2, smry) \<Rightarrow>
               (case wipe_manifests a prune k scope s2 fs2 ms of
                  (s3, fs3, ws, es) \<Rightarrow> (s3, fs3, (k, m_name m, smry) # ws, es))))"

fun wipe_kinds ::
  "('s, 'f) api \<Rightarrow> bool \<Rightarrow> string \<Rightarrow> 's \<Rightarrow> 'f \<Rightarrow> kind list \<Rightarrow> 's \<times> 'f \<times> wiped \<times> string list" where
  "wipe_kinds a prune scope s fs [] = (s, fs, [], [])"
| "wipe_kinds a prune scope s fs (k # ks) =
     (case ListByScope (ap_cl a) s (kind_str k) scope of
        Inl e \<Rightarrow>
          (case wipe_kinds a prune scope s fs ks of
             (s', fs', ws, es) \<Rightarrow> (s', fs', ws, (''list '' @ kind_str k @ '': '' @ e) # es))
      | Inr ms \<Rightarrow>
          (case wipe_manifests a prune k scope s fs ms of
             (s1, fs1, ws1, es1) \<Rightarrow>
               (case wipe_kinds a prune scope s1 fs1 ks of
                  (s2, fs2, ws2, es2) \<Rightarrow> (s2, fs2, ws1 @ ws2, es1 @ es2))))"

record wipe_result =
  wi_resources :: wiped
  wi_config_wiped :: bool
  wi_errors :: "string list"

definition handleScopeWipe ::
  "('s, 'f) api \<Rightarrow> kind list \<Rightarrow> 's \<Rightarrow> 'f \<Rightarrow> string \<Rightarrow> bool \<Rightarrow> 's \<times> 'f \<times> wipe_result response" where
  "handleScopeWipe a order s fs scope0 prune =
     (let scope = trim_space scope0
      in if scope = [] then (s, fs, Rejected 400 ''scope is required'')
         else case wipe_kinds a prune scope s fs order of
                (s1, fs1, ws, es) \<Rightarrow>
                  (case DeleteConfig (ap_cl a) s1 scope [] of
                     Inl _ \<Rightarrow> (s1, fs1, Done \<lparr>wi_resources = ws, wi_config_wiped = False, wi_errors = es\<rparr>)
                   | Inr s2 \<Rightarrow> (s2, fs1, Done \<lparr>wi_resources = ws, wi_config_wiped = True, wi_errors = es\<rparr>)))"

text \<open>\<open>handleResourceDelete\<close> without an ordinal: every scoped kind of that scope and name.\<close>

fun delete_matches ::
  "('s, 'f) api \<Rightarrow> bool \<Rightarrow> string \<Rightarrow> string \<Rightarrow> 's \<Rightarrow> 'f \<Rightarrow> kind list \<Rightarrow> 's \<times> 'f \<times> (kind \<times> prune_summary) list \<times> string list" where
  "delete_matches a prune scope nm s fs [] = (s, fs, [], [])"
| "delete_matches a prune scope nm s fs (k # ks) =
     (case Get (ap_cl a) s (kind_str k) scope nm of
        Inl e \<Rightarrow>
          (case delete_matches a prune scope nm s fs ks of
             (s', fs', ws, es) \<Rightarrow> (s', fs', ws, (''get '' @ kind_str k @ '': '' @ e) # es))
      | Inr None \<Rightarrow> delete_matches a prune scope nm s fs ks
      | Inr (Some _) \<Rightarrow>
          (case Delete (ap_cl a) s (kind_str k) scope nm of
             Inl e \<Rightarrow>
               (case delete_matches a prune scope nm s fs ks of
                  (s', fs', ws, es) \<Rightarrow> (s', fs', ws, (''delete '' @ kind_str k @ ''/'' @ scope @ ''/'' @ nm @ '': '' @ e) # es))
           | Inr (s1, _) \<Rightarrow>
               (case (if prune then prune_deleted a s1 fs k scope nm else (s1, fs, no_summary)) of
                  (s2, fs2, smry) \<Rightarrow>
                    (case delete_matches a prune scope nm s2 fs2 ks of
                       (s3, fs3, ws, es) \<Rightarrow> (s3, fs3, (k, smry) # ws, es)))))"

definition delete_resource ::
  "('s, 'f) api \<Rightarrow> kind list \<Rightarrow> 's \<Rightarrow> 'f \<Rightarrow> string \<Rightarrow> string \<Rightarrow> bool
     \<Rightarrow> 's \<times> 'f \<times> ((kind \<times> prune_summary) list \<times> string list) response" where
  "delete_resource a order s fs scope0 nm0 prune =
     (let scope = trim_space scope0; nm = trim_space nm0
      in if scope = [] \<or> nm = [] then (s, fs, Rejected 400 ''scope and name are required'')
         else case delete_matches a prune scope nm s fs order of
                (s', fs', ws, es) \<Rightarrow>
                  if ws = [] \<and> es = []
                  then (s', fs', Rejected 404 (''no resource found at '' @ scope @ ''/'' @ nm @ '' across any kind''))
                  else (s', fs', Done (ws, es)))"

section \<open>Stop and start of a pod\<close>

definition addReplicaID :: "string list \<Rightarrow> string \<Rightarrow> string list" where
  "addReplicaID existing i = (if i \<in> set existing then sort_strs existing else sort_strs (existing @ [i]))"

definition removeReplicaID :: "string list \<Rightarrow> string \<Rightarrow> string list" where
  "removeReplicaID existing i = filter (\<lambda>e. e \<noteq> i) existing"

definition bad_pod_name :: "string \<Rightarrow> bool" where
  "bad_pod_name nm = (list_ex (\<lambda>c. c \<in> set [CHR ''/'', CHR '' '', CHR 0x09, CHR 0x0A]) nm \<or> has_prefix nm ''.'')"

text \<open>\<open>current, _ :=\<close>: an error of the read leaves no ids.\<close>

definition frozen_or_none :: "'s etcd \<Rightarrow> 's \<Rightarrow> identity \<Rightarrow> string list" where
  "frozen_or_none cl s i =
     (case GetFrozenReplicaIDs cl s (id_kind i) (id_scope i) (id_name i) of Inl _ \<Rightarrow> [] | Inr ids \<Rightarrow> ids)"

definition handlePodStop :: "('s, 'f) api \<Rightarrow> 's \<Rightarrow> 'f \<Rightarrow> string \<Rightarrow> bool \<Rightarrow> 's \<times> 'f \<times> bool response" where
  "handlePodStop a s fs name0 freeze =
     (let nm = trim_space name0
      in if nm = [] then (s, fs, Rejected 400 ''pod name is required'')
         else if bad_pod_name nm then (s, fs, Rejected 400 (''invalid pod name: '' @ nm))
         else case (if \<not> freeze then Inr None
                    else case ap_inspect a fs nm of
                           Inl e \<Rightarrow> Inl (500, ''inspect '' @ nm @ '': '' @ e)
                         | Inr labels \<Rightarrow>
                             (case ParseLabels labels of
                                None \<Rightarrow> Inl (400, ''pod '' @ nm @ '' has no voodu identity'')
                              | Some i \<Rightarrow> if id_replica i = [] then Inl (400, ''pod '' @ nm @ '' has no replica_id label'')
                                          else Inr (Some i))) of
                Inl (code, e) \<Rightarrow> (s, fs, Rejected code e)
              | Inr ident \<Rightarrow>
                  (case ap_stop a fs nm of
                     (fs1, Some e) \<Rightarrow> (s, fs1, Rejected 500 (''stop '' @ nm @ '': '' @ e))
                   | (fs1, None) \<Rightarrow>
                       (case ident of
                          None \<Rightarrow> (s, fs1, Done freeze)
                        | Some i \<Rightarrow>
                            (case SetFrozenReplicaIDs (ap_cl a) s (id_kind i) (id_scope i) (id_name i)
                                    (addReplicaID (frozen_or_none (ap_cl a) s i) (id_replica i)) of
                               Inl e \<Rightarrow> (s, fs1, Rejected 500 (''persist frozen replicas: '' @ e))
                             | Inr s1 \<Rightarrow> (s1, fs1, Done freeze)))))"

text \<open>The first step of a start: the annotation is cleared, and whether it was.\<close>

definition thaw :: "'s etcd \<Rightarrow> 's \<Rightarrow> identity option \<Rightarrow> string + 's \<times> bool" where
  "thaw cl s ident =
     (case ident of
        None \<Rightarrow> Inr (s, False)
      | Some i \<Rightarrow>
          if id_replica i = [] then Inr (s, False)
          else let current = frozen_or_none cl s i; updated = removeReplicaID current (id_replica i)
               in if length updated = length current then Inr (s, False)
                  else bind_ok (SetFrozenReplicaIDs cl s (id_kind i) (id_scope i) (id_name i) updated) (\<lambda>s'. Inr (s', True)))"

definition handlePodStart :: "('s, 'f) api \<Rightarrow> 's \<Rightarrow> 'f \<Rightarrow> string \<Rightarrow> 's \<times> 'f \<times> (bool \<times> bool) response" where
  "handlePodStart a s fs name0 =
     (let nm = trim_space name0
      in if nm = [] then (s, fs, Rejected 400 ''pod name is required'')
         else if bad_pod_name nm then (s, fs, Rejected 400 (''invalid pod name: '' @ nm))
         else let ident = (case ap_inspect a fs nm of Inl _ \<Rightarrow> None | Inr labels \<Rightarrow> ParseLabels labels)
              in case thaw (ap_cl a) s ident of
                   Inl e \<Rightarrow> (s, fs, Rejected 500 (''clear frozen replica: '' @ e))
                 | Inr (s1, cleared) \<Rightarrow>
                     (case ident of
                        None \<Rightarrow>
                          (case ap_start a fs nm of
                             (fs1, Some e) \<Rightarrow> (s1, fs1, Rejected 500 (''start '' @ nm @ '': '' @ e))
                           | (fs1, None) \<Rightarrow> (s1, fs1, Done (False, cleared)))
                      | Some i \<Rightarrow>
                          (case ap_remove a fs nm of
                             (fs1, Some e) \<Rightarrow> (s1, fs1, Rejected 500 (''remove stale container '' @ nm @ '': '' @ e))
                           | (fs1, None) \<Rightarrow>
                               (case Get (ap_cl a) s1 (id_kind i) (id_scope i) (id_name i) of
                                  Inl e \<Rightarrow> (s1, fs1, Rejected 500 (''read manifest: '' @ e))
                                | Inr None \<Rightarrow> (s1, fs1, Rejected 410 ''manifest no longer exists'')
                                | Inr (Some m) \<Rightarrow>
                                    (case Put (ap_cl a) s1 (ap_now a fs1) m of
                                       Inl e \<Rightarrow> (s1, fs1, Rejected 500 (''re-fire reconcile: '' @ put_error_text e))
                                     | Inr (s2, _) \<Rightarrow> (s2, fs1, Done (True, cleared)))))))"

section \<open>Restart and rollback\<close>

definition handleRestart ::
  "('s, 'f) api \<Rightarrow> 's \<Rightarrow> 'f \<Rightarrow> string \<Rightarrow> string \<Rightarrow> string \<Rightarrow> 's \<times> 'f \<times> string list response" where
  "handleRestart a s fs kind0 scope0 nm0 =
     (let kindStr = trim_space kind0; scope = trim_space scope0; nm = trim_space nm0
      in if nm = [] then (s, fs, Rejected 400 ''name is required'')
         else case (if kindStr = []
                    then map_err (\<lambda>e. (restartLookupStatus e, lookup_text e)) (autoDetectRestartable (ap_cl a) s scope nm)
                    else case ParseKind kindStr of None \<Rightarrow> Inl (400, ''unknown kind'') | Some k \<Rightarrow> Inr (k, scope)) of
                Inl (code, e) \<Rightarrow> (s, fs, Rejected code e)
              | Inr (k, sc) \<Rightarrow>
                  if k \<notin> {KindDeployment, KindStatefulset} then (s, fs, Rejected 400 (''restart not supported for kind '' @ kind_str k))
                  else case ap_restart a k of
                         None \<Rightarrow> (s, fs, Rejected 503 (kind_str k @ '' restart not configured''))
                       | Some fn \<Rightarrow>
                           (case (if sc = [] then resolveScope (ap_cl a) s k nm else Inr sc) of
                              Inl e \<Rightarrow> (s, fs, Rejected (case e of ScopeNotFound _ \<Rightarrow> 404 | _ \<Rightarrow> 400) (lookup_text e))
                            | Inr sc' \<Rightarrow>
                                (let cleared = (case GetFrozenReplicaIDs (ap_cl a) s (kind_str k) sc' nm of Inl _ \<Rightarrow> [] | Inr ids \<Rightarrow> ids)
                                 in case (if cleared \<noteq> [] then DeleteFrozenReplicaIDs (ap_cl a) s (kind_str k) sc' nm else Inr s) of
                                      Inl e \<Rightarrow> (s, fs, Rejected 500 (''clear frozen replicas: '' @ e))
                                    | Inr s1 \<Rightarrow>
                                        (case fn (s1, fs) sc' nm of
                                           ((s2, fs2), Some e) \<Rightarrow> (s2, fs2, Rejected 500 e)
                                         | ((s2, fs2), None) \<Rightarrow> (s2, fs2, Done cleared)))))"

definition releaseTarget :: "'s etcd \<Rightarrow> 's \<Rightarrow> kind \<Rightarrow> string \<Rightarrow> string \<Rightarrow> string + string \<times> string" where
  "releaseTarget cl s k scope0 nm0 =
     (let nm = trim_space nm0; scope = trim_space scope0
      in if nm = [] then Inl ''name is required''
         else bind_ok (if scope = [] then map_err lookup_text (resolveScope cl s k nm) else Inr scope) (\<lambda>sc. Inr (sc, nm)))"

definition handleRollback ::
  "('s, 'f) api \<Rightarrow> 's \<Rightarrow> 'f \<Rightarrow> string \<Rightarrow> string \<Rightarrow> string \<Rightarrow> string \<Rightarrow> 's \<times> 'f \<times> string response" where
  "handleRollback a s fs kind0 scope0 nm0 release0 =
     (let kindStr = (if trim_space kind0 = [] then kind_str KindDeployment else trim_space kind0)
      in case ParseKind kindStr of
           None \<Rightarrow> (s, fs, Rejected 400 ''unknown kind'')
         | Some k \<Rightarrow>
             (case releaseTarget (ap_cl a) s k scope0 nm0 of
                Inl e \<Rightarrow> (s, fs, Rejected 400 e)
              | Inr (sc, nm) \<Rightarrow>
                  if k \<notin> {KindDeployment, KindStatefulset} then (s, fs, Rejected 400 (''rollback not supported for kind '' @ kind_str k))
                  else case ap_rollback a k of
                         None \<Rightarrow> (s, fs, Rejected 503 (kind_str k @ '' rollback not configured''))
                       | Some fn \<Rightarrow>
                           (case fn (s, fs) sc nm (trim_space release0) of
                              ((s1, fs1), Inl e) \<Rightarrow> (s1, fs1, Rejected 500 e)
                            | ((s1, fs1), Inr i) \<Rightarrow> (s1, fs1, Done i))))"

section \<open>Config\<close>

definition materializeBucketEnvFile :: "('s, 'f) api \<Rightarrow> 's \<Rightarrow> 'f \<Rightarrow> string \<Rightarrow> string \<Rightarrow> 'f" where
  "materializeBucketEnvFile a s fs scope nm =
     (if nm = [] then fs
      else case GetConfig (ap_cl a) s scope nm of
             Inl _ \<Rightarrow> fs
           | Inr vs \<Rightarrow> ap_write_env a fs (AppID scope nm) (envMapToPairs vs))"

fun reput_all :: "'s etcd \<Rightarrow> int \<Rightarrow> string \<Rightarrow> 's \<Rightarrow> manifest list \<Rightarrow> 's" where
  "reput_all cl now nm s [] = s"
| "reput_all cl now nm s (m # ms) =
     (if nm \<noteq> [] \<and> m_name m \<noteq> nm then reput_all cl now nm s ms
      else reput_all cl now nm (case Put cl s now m of Inl _ \<Rightarrow> s | Inr (s', _) \<Rightarrow> s') ms)"

fun restart_kinds :: "'s etcd \<Rightarrow> int \<Rightarrow> string \<Rightarrow> string \<Rightarrow> 's \<Rightarrow> kind list \<Rightarrow> 's" where
  "restart_kinds cl now scope nm s [] = s"
| "restart_kinds cl now scope nm s (k # ks) =
     restart_kinds cl now scope nm
       (case ListByScope cl s (kind_str k) scope of Inl _ \<Rightarrow> s | Inr ms \<Rightarrow> reput_all cl now nm s ms) ks"

definition maybeRestartAffected :: "('s, 'f) api \<Rightarrow> bool \<Rightarrow> 's \<Rightarrow> 'f \<Rightarrow> string \<Rightarrow> string \<Rightarrow> 's" where
  "maybeRestartAffected a restart s fs scope nm =
     (if \<not> restart then s
      else restart_kinds (ap_cl a) (ap_now a fs) scope nm s [KindDeployment, KindStatefulset, KindJob, KindCronJob])"

definition configPost ::
  "('s, 'f) api \<Rightarrow> bool \<Rightarrow> 's \<Rightarrow> 'f \<Rightarrow> string \<Rightarrow> string \<Rightarrow> json \<Rightarrow> 's \<times> 'f \<times> unit response" where
  "configPost a restart s fs scope0 nm0 body =
     (let scope = trim_space scope0; nm = trim_space nm0
      in if scope = [] then (s, fs, Rejected 400 ''scope is required'')
         else case bind_ok (jobj body) pairs_of of
                Inl e \<Rightarrow> (s, fs, Rejected 400 (''decode body: '' @ e))
              | Inr kvs \<Rightarrow>
                  if kvs = [] then (s, fs, Rejected 400 ''body must be a non-empty {KEY: VALUE} object'')
                  else case PatchConfig (ap_cl a) s scope nm (first_entries (rev kvs)) of
                         (s1, Some e) \<Rightarrow> (s1, fs, Rejected 500 e)
                       | (s1, None) \<Rightarrow>
                           (let fs1 = materializeBucketEnvFile a s1 fs scope nm
                            in (maybeRestartAffected a restart s1 fs1 scope nm, fs1, Done ())))"

definition configDeleteKeys :: "string \<Rightarrow> string \<Rightarrow> string list" where
  "configDeleteKeys keys key =
     filter (\<lambda>p. p \<noteq> []) (map trim_space (split_char (CHR '','') (if keys = [] then key else keys)))"

fun delete_config_keys :: "'s etcd \<Rightarrow> 's \<Rightarrow> string \<Rightarrow> string \<Rightarrow> string list \<Rightarrow> 's \<times> string option" where
  "delete_config_keys cl s scope nm [] = (s, None)"
| "delete_config_keys cl s scope nm (k # ks) =
     (case DeleteConfigKey cl s scope nm k of
        Inl e \<Rightarrow> (s, Some e)
      | Inr (s', _) \<Rightarrow> delete_config_keys cl s' scope nm ks)"

definition configDelete ::
  "('s, 'f) api \<Rightarrow> bool \<Rightarrow> 's \<Rightarrow> 'f \<Rightarrow> string \<Rightarrow> string \<Rightarrow> string \<Rightarrow> string \<Rightarrow> 's \<times> 'f \<times> unit response" where
  "configDelete a restart s fs scope0 nm0 keys key =
     (let scope = trim_space scope0; nm = trim_space nm0; ks = configDeleteKeys keys key
      in if scope = [] then (s, fs, Rejected 400 ''scope is required'')
         else if ks = [] then (s, fs, Rejected 400 ''key is required for DELETE'')
         else case delete_config_keys (ap_cl a) s scope nm ks of
                (s1, Some e) \<Rightarrow> (s1, fs, Rejected 500 e)
              | (s1, None) \<Rightarrow>
                  (let fs1 = materializeBucketEnvFile a s1 fs scope nm
                   in (maybeRestartAffected a restart s1 fs1 scope nm, fs1, Done ())))"

definition configGet :: "'s etcd \<Rightarrow> 's \<Rightarrow> string \<Rightarrow> string \<Rightarrow> string \<Rightarrow> bool \<Rightarrow> vars response" where
  "configGet cl s scope0 nm0 key0 merge =
     (let scope = trim_space scope0; nm = trim_space nm0; key = trim_space key0
      in if scope = [] then Rejected 400 ''scope is required''
         else case (if nm \<noteq> [] \<and> merge then ResolveConfig cl s scope nm else GetConfig cl s scope nm) of
                Inl e \<Rightarrow> Rejected 500 e
              | Inr vs \<Rightarrow>
                  if key = [] then Done vs
                  else case map_of vs key of
                         None \<Rightarrow> Rejected 404 (''key '' @ key @ '' not set'')
                       | Some v \<Rightarrow> Done [(key, v)])"

text \<open>A redacted read: names and digests, in the order of the names.\<close>

definition writeRedactedConfig :: "(string \<Rightarrow> string) \<Rightarrow> vars \<Rightarrow> string \<Rightarrow> vars response" where
  "writeRedactedConfig digest vs key =
     (if key \<noteq> [] then
        (case map_of vs key of
           None \<Rightarrow> Rejected 404 (''key '' @ key @ '' not set'')
         | Some v \<Rightarrow> Done [(key, digest v)])
      else Done (map (\<lambda>(k, v). (k, digest v)) (sort_vars (first_entries vs))))"

end
