(* ===== verification/Applied.thy ===== *)
theory Applied
  imports Api
begin

text \<open>
  What the endpoints of the HTTP API do to the stored manifests and to the freeze annotations.
\<close>

section \<open>The manifests of a key space\<close>

definition mkey :: "manifest \<Rightarrow> key" where
  "mkey m = DesiredKey (m_kind m) (m_scope m) (m_name m)"

definition triple :: "manifest \<Rightarrow> prune_target" where
  "triple m = (m_kind m, m_scope m, m_name m)"

definition tkey :: "prune_target \<Rightarrow> key" where
  "tkey t = (case t of (k, sc, nm) \<Rightarrow> DesiredKey k sc nm)"

lemma tkey_triple [simp]: "tkey (triple m) = mkey m"
  by (simp add: tkey_def triple_def mkey_def)

lemma tkey_triples: "tkey ` {triple m | m. P m} = mkey ` {m. P m}"
  by (force simp: image_iff)

definition stamped :: "int \<Rightarrow> manifest \<Rightarrow> manifest" where
  "stamped now m = m\<lparr>m_metadata := Some ((case m_metadata m of
     None \<Rightarrow> \<lparr>created_at = now, updated_at = 0, revision = 0\<rparr> | Some md \<Rightarrow> md)\<lparr>updated_at := now\<rparr>)\<rparr>"

lemma stamped_simps [simp]:
  "m_kind (stamped now m) = m_kind m" "m_scope (stamped now m) = m_scope m"
  "m_name (stamped now m) = m_name m" "m_spec (stamped now m) = m_spec m"
  "mkey (stamped now m) = mkey m" "triple (stamped now m) = triple m"
  by (simp_all add: stamped_def mkey_def triple_def)

text \<open>A manifest the store accepts whose scope has no slash.\<close>

definition plain :: "manifest \<Rightarrow> bool" where
  "plain m = (CHR ''/'' \<notin> set (m_scope m) \<and> (case Validate m of Inl _ \<Rightarrow> False | Inr _ \<Rightarrow> True))"

text \<open>Everything under \<open>/desired/\<close> is such a manifest, under its own key.\<close>

definition tidy :: "kv \<Rightarrow> bool" where
  "tidy f = (\<forall>k d. f k = Some d \<and> has_prefix k AllDesiredPrefix \<longrightarrow> (\<exists>m. d = DManifest m \<and> k = mkey m \<and> plain m))"

lemma Validate_stamped [simp]: "Validate (stamped now m) = Validate m"
  by (simp add: Validate_def split: option.split)

lemma plain_stamped [simp]: "plain (stamped now m) = plain m"
  by (simp add: plain_def)

lemma tidyD: "tidy f \<Longrightarrow> f k = Some d \<Longrightarrow> has_prefix k AllDesiredPrefix \<Longrightarrow> \<exists>m. d = DManifest m \<and> k = mkey m \<and> plain m"
  by (auto simp: tidy_def)

lemma desired_prefixes [simp]:
  "has_prefix (DesiredKey k sc nm) AllDesiredPrefix" "has_prefix (DesiredPrefix k @ x) AllDesiredPrefix"
  "has_prefix (ScopedPrefix k sc @ x) AllDesiredPrefix"
  by (auto simp: DesiredKey_def ScopedPrefix_def DesiredPrefix_def AllDesiredPrefix_def has_prefix_iff)

lemma mkey_desired [simp]: "has_prefix (mkey m) AllDesiredPrefix"
  by (simp add: mkey_def)

lemma tidy_put: "tidy f \<Longrightarrow> plain m \<Longrightarrow> tidy (f(mkey m \<mapsto> DManifest (stamped now m)))"
  by (auto simp: tidy_def)

lemma tidy_del: "tidy f \<Longrightarrow> tidy (\<lambda>k. if k \<in> K then None else f k)"
  by (auto simp: tidy_def)

lemma to_lower_slash: "CHR ''/'' \<in> set s \<Longrightarrow> CHR ''/'' \<in> set (to_lower s)"
  by (force simp: to_lower_def lower_char_def)

lemma valid_kind_no_slash: "valid_kind s = Some k \<Longrightarrow> CHR ''/'' \<notin> set s"
  by (simp add: valid_kind_Some)

lemma ParseKind_no_slash:
  assumes "ParseKind s = Some k"
  shows "CHR ''/'' \<notin> set s"
proof
  assume "CHR ''/'' \<in> set s"
  then have l: "CHR ''/'' \<in> set (to_lower s)" by (rule to_lower_slash)
  then have n: "valid_kind (to_lower s) = None"
    using valid_kind_no_slash by (cases "valid_kind (to_lower s)") blast+
  with assms have v: "valid_kind (trim_suffix (to_lower s) ''s'') = Some k"
    by (simp add: ParseKind_def Let_def)
  then have "CHR ''/'' \<notin> set (trim_suffix (to_lower s) ''s'')" by (rule valid_kind_no_slash)
  moreover have "set (to_lower s) \<subseteq> insert (CHR ''s'') (set (trim_suffix (to_lower s) ''s''))"
  proof (cases "has_suffix (to_lower s) ''s''")
    case True
    then obtain t where "to_lower s = t @ ''s''" by (auto simp: has_suffix_iff)
    then show ?thesis by (simp add: trim_suffix_def)
  qed (simp add: trim_suffix_def, blast)
  ultimately show False using l by auto
qed

lemma bucket_key:
  assumes "plain e" and "is_scoped_str k" and "CHR ''/'' \<notin> set sc" and "has_prefix (mkey e) (ScopedPrefix k sc)"
  shows "m_kind e = k \<and> m_scope e = sc"
proof -
  obtain j where j: "k = kind_str j" "IsScoped j"
    using assms(2) by (auto simp: is_scoped_str_def valid_kind_Some split: option.splits)
  obtain i where i: "ParseKind (m_kind e) = Some i"
    using assms(1) by (auto simp: plain_def Validate_def split: sum.splits option.splits if_splits)
  obtain rest where rest: "mkey e = ''/desired/'' @ (m_kind e @ ''s'') @ CHR ''/'' # rest"
    by (cases "is_scoped_str (m_kind e)") (simp_all add: mkey_def DesiredKey_def ScopedPrefix_def DesiredPrefix_def)
  obtain t where t: "mkey e = ''/desired/'' @ (k @ ''s'') @ CHR ''/'' # sc @ CHR ''/'' # t"
    using assms(4) by (auto simp: has_prefix_iff ScopedPrefix_def DesiredPrefix_def)
  have ni: "CHR ''/'' \<notin> set (m_kind e @ ''s'')" using ParseKind_no_slash [OF i] by simp
  have nk: "CHR ''/'' \<notin> set (k @ ''s'')" using j by simp
  have "(m_kind e @ ''s'') @ CHR ''/'' # rest = (k @ ''s'') @ CHR ''/'' # sc @ CHR ''/'' # t"
    using rest t by simp
  then have "cut CHR ''/'' ((m_kind e @ ''s'') @ CHR ''/'' # rest) = cut CHR ''/'' ((k @ ''s'') @ CHR ''/'' # sc @ CHR ''/'' # t)"
    by simp
  then have km: "m_kind e = k"
    unfolding cut_append [OF ni] cut_append [OF nk] by simp
  have se: "CHR ''/'' \<notin> set (m_scope e)" using assms(1) by (simp add: plain_def)
  have "m_scope e @ CHR ''/'' # m_name e = sc @ CHR ''/'' # t"
    using t km assms(2) by (simp add: mkey_def DesiredKey_def ScopedPrefix_def DesiredPrefix_def)
  then have "cut CHR ''/'' (m_scope e @ CHR ''/'' # m_name e) = cut CHR ''/'' (sc @ CHR ''/'' # t)" by simp
  then have "m_scope e = sc"
    unfolding cut_append [OF se] cut_append [OF assms(3)] by simp
  with km show ?thesis by simp
qed

lemma fold_puts:
  "fold (\<lambda>m f. f(key m \<mapsto> g m)) ms f x = f x \<or>
     (\<exists>m\<in>set ms. key m = x \<and> fold (\<lambda>m f. f(key m \<mapsto> g m)) ms f x = Some (g m))"
proof (induction ms arbitrary: f)
  case (Cons m ms)
  show ?case
    using Cons.IH [of "f(key m \<mapsto> g m)"] by (cases "key m = x") auto
qed simp

lemma fold_puts_other:
  "x \<notin> key ` set ms \<Longrightarrow> fold (\<lambda>m f. f(key m \<mapsto> g m)) ms f x = f x"
  by (induction ms arbitrary: f) auto

lemma fold_puts_written:
  assumes "x \<in> key ` set ms"
  shows "\<exists>m\<in>set ms. key m = x \<and> fold (\<lambda>m f. f(key m \<mapsto> g m)) ms f x = Some (g m)"
  using assms
proof (induction ms arbitrary: f rule: rev_induct)
  case (snoc m ms)
  then show ?case by (cases "key m = x") auto
qed simp

section \<open>What the loops of an apply do\<close>

context etcd_api
begin

lemma Put_view:
  assumes "Put cl s now m = Inr (s', m')"
  shows "view s' = (view s)(mkey m \<mapsto> DManifest (stamped now m))"
    and "\<exists>k. Validate m = Inr k" and "\<exists>md. m' = m\<lparr>m_metadata := md\<rparr>"
proof -
  from assms have p: "etcd_put cl s (mkey m) (DManifest (stamped now m)) = Inr s'"
    and v: "\<exists>k. Validate m = Inr k" and m': "\<exists>md. m' = m\<lparr>m_metadata := md\<rparr>"
    by (auto simp: Put_def Let_def mkey_def stamped_def split: sum.splits)
  show "view s' = (view s)(mkey m \<mapsto> DManifest (stamped now m))" using put_law [OF p] .
qed (use assms in \<open>auto simp: Put_def Let_def split: sum.splits\<close>)

lemma Get_Some:
  assumes "Get cl s k sc nm = Inr (Some m)"
  obtains m0 md where "view s (DesiredKey k sc nm) = Some (DManifest m0)" and "m = m0\<lparr>m_metadata := md\<rparr>"
proof -
  obtain d where g: "etcd_get cl s (DesiredKey k sc nm) = Inr (Some d)"
    and d: "decodeManifest d (etcd_revision cl s (DesiredKey k sc nm)) = Inr m"
    using assms by (auto simp: Get_def Let_def split: sum.splits option.splits)
  obtain m0 where m0: "d = DManifest m0" using d by (cases d) (simp_all add: decodeManifest_def)
  have "m = m0\<lparr>m_metadata := m_metadata m\<rparr>" using d by (auto simp: m0 decodeManifest_def)
  moreover have "view s (DesiredKey k sc nm) = Some (DManifest m0)" using get_law [OF g] by (simp add: m0)
  ultimately show ?thesis using that by blast
qed

lemma Delete_view: "Delete cl s k sc nm = Inr (s', b) \<Longrightarrow>
    view s' = (view s)(DesiredKey k sc nm := None) \<and> b = (view s (DesiredKey k sc nm) \<noteq> None)"
  by (auto simp: Delete_def split: sum.splits dest: delete_law)

lemma decode_all_triples:
  assumes "decode_all cl s kvs = Inr ms"
  shows "triple ` set ms = {triple m | m k. (k, DManifest m) \<in> set kvs}"
    and "\<And>k d. (k, d) \<in> set kvs \<Longrightarrow> \<exists>m. d = DManifest m"
proof -
  have "triple ` set ms = {triple m | m k. (k, DManifest m) \<in> set kvs} \<and> (\<forall>k d. (k, d) \<in> set kvs \<longrightarrow> (\<exists>m. d = DManifest m))"
    using assms
  proof (induction kvs arbitrary: ms)
    case (Cons e kvs)
    obtain k d where e: "e = (k, d)" by (cases e)
    obtain m where m: "d = DManifest m" using Cons.prems by (auto simp: e decodeManifest_def split: doc.splits)
    obtain m' ms' where ms: "ms = m' # ms'" "decode_all cl s kvs = Inr ms'" "triple m' = triple m"
      using Cons.prems by (auto simp: e m decodeManifest_def triple_def split: sum.splits)
    show ?case using Cons.IH [OF ms(2)] ms(1,3) by (auto simp: e m)
  qed simp
  then show "triple ` set ms = {triple m | m k. (k, DManifest m) \<in> set kvs}"
    and "\<And>k d. (k, d) \<in> set kvs \<Longrightarrow> \<exists>m. d = DManifest m" by blast+
qed

lemma listPrefix_triples:
  assumes "listPrefix cl s p = Inr ms"
  shows "triple ` set ms = {triple m | m k. has_prefix k p \<and> view s k = Some (DManifest m)}"
proof -
  obtain kvs where l: "etcd_list cl s p = Inr kvs" and d: "decode_all cl s kvs = Inr ms"
    using assms by (auto simp: listPrefix_def split: sum.splits)
  show ?thesis
    using decode_all_triples [OF d] list_sound [OF l] list_complete [OF l] by blast
qed

lemma listPrefix_docs:
  assumes "listPrefix cl s p = Inr ms" and "has_prefix k p" and "view s k = Some d"
  shows "\<exists>m. d = DManifest m"
proof -
  obtain kvs where l: "etcd_list cl s p = Inr kvs" and d: "decode_all cl s kvs = Inr ms"
    using assms(1) by (auto simp: listPrefix_def split: sum.splits)
  show ?thesis using decode_all_triples(2) [OF d] list_complete [OF l assms(2,3)] by blast
qed

lemma apply_each_view:
  assumes "apply_each cl now False s ms = (s', Inr (as, bs))"
  shows "view s' = fold (\<lambda>m f. f(mkey m \<mapsto> DManifest (stamped now m))) ms (view s) \<and>
    (\<forall>m\<in>set ms. \<exists>k. Validate m = Inr k) \<and> map triple as = map triple ms \<and> map m_spec as = map m_spec ms"
  using assms
proof (induction ms arbitrary: s as bs)
  case (Cons m ms)
  obtain s1 m1 as1 bs1 where p: "Put cl s now m = Inr (s1, m1)"
    and r: "apply_each cl now False s1 ms = (s', Inr (as1, bs1))" and as: "as = m1 # as1"
    using Cons.prems by (auto split: sum.splits prod.splits)
  obtain md where "m1 = m\<lparr>m_metadata := md\<rparr>" using Put_view(3) [OF p] by blast
  then have t: "triple m1 = triple m" "m_spec m1 = m_spec m" by (simp_all add: triple_def)
  show ?case
    using Cons.IH [OF r] Put_view(1,2) [OF p] t by (auto simp: as)
qed simp

lemma apply_each_dry:
  assumes "apply_each cl now True s ms = (s', r)"
  shows "s' = s \<and> (\<forall>as bs. r = Inr (as, bs) \<longrightarrow> as = ms)"
  using assms by (induction ms arbitrary: s' r) (auto split: sum.splits prod.splits)

lemma targets_of_set:
  assumes "targets_of cl s ms bs = Inr ts" and "\<forall>b\<in>set bs. is_scoped_str (fst b)"
  shows "set ts = {triple m | m k b. b \<in> set bs \<and> has_prefix k (ScopedPrefix (fst b) (snd b)) \<and>
     view s k = Some (DManifest m) \<and> m_name m \<notin> set (bucket_names ms b)}"
  using assms
proof (induction bs arbitrary: ts)
  case (Cons b bs)
  let ?P = "\<lambda>b m k. has_prefix k (ScopedPrefix (fst b) (snd b)) \<and> view s k = Some (DManifest m)"
  obtain es ts' where l: "listPrefix cl s (ScopedPrefix (fst b) (snd b)) = Inr es"
    and t: "targets_of cl s ms bs = Inr ts'"
    and ts: "ts = map (\<lambda>e. (m_kind e, m_scope e, m_name e)) (filter (\<lambda>e. m_name e \<notin> set (bucket_names ms b)) es) @ ts'"
    using Cons.prems by (auto simp: ListByScope_def bind_ok_Inr)
  have "(\<lambda>e. (m_kind e, m_scope e, m_name e)) ` {e \<in> set es. m_name e \<notin> set (bucket_names ms b)} =
      {t \<in> triple ` set es. snd (snd t) \<notin> set (bucket_names ms b)}"
    by (auto simp: triple_def)
  also have "\<dots> = {triple m | m k. ?P b m k \<and> snd (snd (triple m)) \<notin> set (bucket_names ms b)}"
    unfolding listPrefix_triples [OF l] by blast
  also have "\<dots> = {triple m | m k. ?P b m k \<and> m_name m \<notin> set (bucket_names ms b)}"
    by (simp only: triple_def snd_conv)
  finally have "set ts = {triple m | m k. ?P b m k \<and> m_name m \<notin> set (bucket_names ms b)} \<union> set ts'"
    by (auto simp: ts)
  then show ?case
    using Cons.IH [OF t] Cons.prems(2) by (simp only: list.set(2) ball_simps) blast
qed simp

lemma targets_listed:
  assumes "targets_of cl s ms bs = Inr ts" and "b \<in> set bs" and "is_scoped_str (fst b)"
    and "has_prefix k (ScopedPrefix (fst b) (snd b))" and "view s k = Some d"
  shows "\<exists>m. d = DManifest m"
  using assms
proof (induction bs arbitrary: ts)
  case (Cons c bs)
  then show ?case
    by (auto simp: bind_ok_Inr ListByScope_def dest: listPrefix_docs)
qed simp

lemma applyPrune_view:
  "applyPrune cl s ts = (s', None) \<Longrightarrow> view s' = (\<lambda>k. if k \<in> tkey ` set ts then None else view s k)"
proof (induction ts arbitrary: s)
  case (Cons t ts)
  obtain k sc nm where t: "t = (k, sc, nm)" by (cases t)
  obtain s1 b where d: "Delete cl s k sc nm = Inr (s1, b)" and r: "applyPrune cl s1 ts = (s', None)"
    using Cons.prems by (auto simp: t split: sum.splits prod.splits)
  show ?case
    using Cons.IH [OF r] Delete_view [OF d] by (auto simp: t tkey_def)
qed simp

end

text \<open>A key in one of the (kind, scope) buckets the batch declares something in.\<close>

definition touched :: "manifest list \<Rightarrow> key \<Rightarrow> bool" where
  "touched ms k = list_ex (\<lambda>b. has_prefix k (ScopedPrefix (fst b) (snd b))) (prune_buckets ms)"

definition slash_free :: "manifest list \<Rightarrow> bool" where
  "slash_free ms = list_all (\<lambda>m. CHR ''/'' \<notin> set (m_scope m)) ms"

lemma prune_buckets_scoped: "b \<in> set (prune_buckets ms) \<Longrightarrow> is_scoped_str (fst b)"
  by (auto simp: prune_buckets_def)

lemma prune_buckets_slash: "slash_free ms \<Longrightarrow> b \<in> set (prune_buckets ms) \<Longrightarrow> CHR ''/'' \<notin> set (snd b)"
  by (auto simp: prune_buckets_def slash_free_def list_all_iff)

lemma in_bucket_names:
  assumes "slash_free ms" and "b \<in> set (prune_buckets ms)" and "\<forall>m\<in>set ms. plain m" and "plain e"
    and "has_prefix (mkey e) (ScopedPrefix (fst b) (snd b))"
  shows "m_name e \<in> set (bucket_names ms b) \<longleftrightarrow> mkey e \<in> mkey ` set ms"
proof -
  note sc = prune_buckets_scoped [OF assms(2)] and sl = prune_buckets_slash [OF assms(1,2)]
  have e: "m_kind e = fst b" "m_scope e = snd b" using bucket_key [OF assms(4) sc sl assms(5)] by auto
  show ?thesis
  proof
    assume "m_name e \<in> set (bucket_names ms b)"
    then obtain m where "m \<in> set ms" "(m_kind m, m_scope m) = b" "m_name m = m_name e" by (auto simp: bucket_names_def)
    then show "mkey e \<in> mkey ` set ms" using e by (intro image_eqI [of _ _ m]) (auto simp: mkey_def)
  next
    assume "mkey e \<in> mkey ` set ms"
    then obtain m where m: "m \<in> set ms" "mkey e = mkey m" by auto
    then have "m_kind m = fst b" "m_scope m = snd b"
      using bucket_key [of m, OF _ sc sl] assms(3,5) by auto
    with m e sc show "m_name e \<in> set (bucket_names ms b)"
      by (force simp: bucket_names_def mkey_def DesiredKey_def)
  qed
qed

context etcd_api
begin

lemma targets_keys:
  assumes "slash_free ms" and "\<forall>m\<in>set ms. plain m" and "tidy (view s)" and "computePruneTargets cl s ms = Inr ts"
  shows "set ts = {triple m | m. view s (mkey m) = Some (DManifest m) \<and> touched ms (mkey m) \<and> mkey m \<notin> mkey ` set ms}"
proof -
  have sc: "\<forall>b\<in>set (prune_buckets ms). is_scoped_str (fst b)" using prune_buckets_scoped by blast
  have own: "k = mkey m \<and> plain m" if "view s k = Some (DManifest m)" "has_prefix k (ScopedPrefix x y)" for k m x y
    using tidyD [OF assms(3) that(1)] that(2) desired_prefixes(3) by (auto simp: has_prefix_iff)
  show ?thesis
    unfolding targets_of_set [OF assms(4) [unfolded computePruneTargets_def] sc] touched_def list_ex_iff
    using in_bucket_names [OF assms(1) _ assms(2)] own by blast
qed

lemma targets_all:
  assumes "computePruneTargets cl s ms = Inr ts" and "touched ms k" and "view s k = Some d"
  shows "\<exists>m. d = DManifest m"
  using assms targets_listed [of s ms] prune_buckets_scoped
  by (fastforce simp: computePruneTargets_def touched_def list_ex_iff)

lemma tidy_puts:
  assumes "tidy f" and "\<forall>m\<in>set ms. plain m"
  shows "tidy (fold (\<lambda>m f. f(mkey m \<mapsto> DManifest (stamped now m))) ms f)"
  using assms by (induction ms arbitrary: f) (simp_all add: tidy_put)

lemma apply_batch_Done:
  assumes "ap_cl a = cl" and "apply_batch a s fs False True ms = (s', fs', Done r)"
  obtains s1 as bs ts where "apply_each cl (ap_now a fs) False s ms = (s1, Inr (as, bs))"
    and "computePruneTargets cl s1 ms = Inr ts" and "applyPrune cl s1 ts = (s', None)" and "fs' = fs"
    and "r = \<lparr>re_applied = as, re_current = bs, re_pruned = ts\<rparr>"
  using assms by (auto simp: apply_batch_def Let_def split: sum.splits prod.splits option.splits)

lemma apply_batch_exact:
  assumes "ap_cl a = cl" and "tidy (view s)" and "slash_free ms"
    and "apply_batch a s fs False True ms = (s', fs', Done r)"
  shows "(\<forall>m\<in>set ms. \<exists>m2\<in>set ms. mkey m2 = mkey m \<and> view s' (mkey m) = Some (DManifest (stamped (ap_now a fs) m2)))"
    and "k \<notin> mkey ` set ms \<Longrightarrow> view s' k = (if touched ms k then None else view s k)"
    and "tidy (view s')" and "\<forall>m\<in>set ms. plain m"
    and "set (re_pruned r) = {triple m | m. view s (mkey m) = Some (DManifest m) \<and> touched ms (mkey m) \<and> mkey m \<notin> mkey ` set ms}"
    and "map triple (re_applied r) = map triple ms"
proof -
  let ?now = "ap_now a fs"
  let ?g = "\<lambda>m f. f(mkey m \<mapsto> DManifest (stamped ?now m))"
  obtain s1 as bs ts where e: "apply_each cl ?now False s ms = (s1, Inr (as, bs))"
    and t: "computePruneTargets cl s1 ms = Inr ts" and p: "applyPrune cl s1 ts = (s', None)"
    and r: "r = \<lparr>re_applied = as, re_current = bs, re_pruned = ts\<rparr>"
    using apply_batch_Done [OF assms(1,4)] by metis
  from apply_each_view [OF e] have v1: "view s1 = fold ?g ms (view s)"
    and va: "\<forall>m\<in>set ms. \<exists>k. Validate m = Inr k" and as: "map triple as = map triple ms" by simp_all
  show pl: "\<forall>m\<in>set ms. plain m"
    using va assms(3) by (fastforce simp: plain_def slash_free_def list_all_iff)
  have ty: "tidy (view s1)" unfolding v1 by (rule tidy_puts [OF assms(2) pl])
  note ts = targets_keys [OF assms(3) pl ty t]
  have v: "view s' = (\<lambda>k. if k \<in> tkey ` set ts then None else view s1 k)" by (rule applyPrune_view [OF p])
  show "tidy (view s')" unfolding v by (rule tidy_del [OF ty])
  have keep: "k \<notin> tkey ` set ts" if "k \<in> mkey ` set ms" for k using that unfolding ts tkey_triples by blast
  show "\<forall>m\<in>set ms. \<exists>m2\<in>set ms. mkey m2 = mkey m \<and> view s' (mkey m) = Some (DManifest (stamped ?now m2))"
  proof
    fix m assume "m \<in> set ms"
    then have "mkey m \<in> mkey ` set ms" by simp
    then show "\<exists>m2\<in>set ms. mkey m2 = mkey m \<and> view s' (mkey m) = Some (DManifest (stamped ?now m2))"
      using keep fold_puts_written [of "mkey m" mkey ms "\<lambda>m. DManifest (stamped ?now m)" "view s"]
      by (auto simp: v v1)
  qed
  have other: "view s1 k = view s k" if "k \<notin> mkey ` set ms" for k
    unfolding v1 by (rule fold_puts_other [OF that])
  show "view s' k = (if touched ms k then None else view s k)" if k: "k \<notin> mkey ` set ms" for k
  proof (cases "touched ms k \<and> view s1 k \<noteq> None")
    case True
    then obtain m where m: "view s1 k = Some (DManifest m)" using targets_all [OF t] by auto
    have "has_prefix k AllDesiredPrefix"
      using True desired_prefixes(3) by (auto simp: touched_def list_ex_iff has_prefix_iff)
    with tidyD [OF ty m] have "k = mkey m" by auto
    with m True k have "triple m \<in> set ts" by (auto simp: ts)
    then have "k \<in> tkey ` set ts" using \<open>k = mkey m\<close> by force
    then show ?thesis using True by (simp add: v)
  next
    case False
    then have "k \<notin> tkey ` set ts \<or> view s1 k = None" by (auto simp: ts tkey_triples)
    then show ?thesis using False other [OF k] by (auto simp: v)
  qed
  have "view s1 (mkey m) = Some (DManifest m) \<longleftrightarrow> view s (mkey m) = Some (DManifest m)"
    if "mkey m \<notin> mkey ` set ms" for m using other [OF that] by simp
  then show "set (re_pruned r) = {triple m | m. view s (mkey m) = Some (DManifest m) \<and> touched ms (mkey m) \<and> mkey m \<notin> mkey ` set ms}"
    unfolding r by (simp add: ts) blast
  show "map triple (re_applied r) = map triple ms" by (simp add: r as)
qed

lemma apply_batch_dry:
  assumes "ap_cl a = cl" and "apply_batch a s fs True prune ms = (s', fs', r)"
  shows "s' = s" and "fs' = fs"
  using assms apply_each_dry [of "ap_now a fs" s ms]
  by (auto simp: apply_batch_def Let_def split: sum.splits prod.splits if_splits)

lemma dry_targets:
  assumes "ap_cl a = cl" and "tidy (view s)" and "slash_free ms" and "\<forall>m\<in>set ms. plain m"
    and "apply_batch a s fs True True ms = (s', fs', Done r)"
  shows "set (re_pruned r) = {triple m | m. view s (mkey m) = Some (DManifest m) \<and> touched ms (mkey m) \<and> mkey m \<notin> mkey ` set ms}"
    and "re_applied r = ms"
proof -
  obtain as bs ts where e: "apply_each cl (ap_now a fs) True s ms = (s, Inr (as, bs))"
    and t: "computePruneTargets cl s ms = Inr ts" and r: "r = \<lparr>re_applied = as, re_current = bs, re_pruned = ts\<rparr>"
    using assms(1,5) apply_each_dry [of "ap_now a fs" s ms]
    by (auto simp: apply_batch_def Let_def split: sum.splits prod.splits)
  show "set (re_pruned r) = {triple m | m. view s (mkey m) = Some (DManifest m) \<and> touched ms (mkey m) \<and> mkey m \<notin> mkey ` set ms}"
    using targets_keys [OF assms(3,4,2) t] by (simp add: r)
  show "re_applied r = ms" using apply_each_dry [OF e] by (simp add: r)
qed

end

section \<open>Hosts of ingresses\<close>

text \<open>No two stored ingresses declare the same host.\<close>

definition declares_host :: "kv \<Rightarrow> key \<Rightarrow> string \<Rightarrow> bool" where
  "declares_host f k h =
     (has_prefix k (DesiredPrefix ''ingress'') \<and> h \<noteq> [] \<and>
      (case f k of Some (DManifest m) \<Rightarrow> ingressHost m = Inr h | _ \<Rightarrow> False))"

definition hosts_unique :: "kv \<Rightarrow> bool" where
  "hosts_unique f = (\<forall>j k h. declares_host f j h \<and> declares_host f k h \<longrightarrow> j = k)"

lemma ingressHost_spec: "m_spec m = m_spec m' \<Longrightarrow> m_name m = m_name m' \<Longrightarrow> ingressHost m = ingressHost m'"
  by (simp add: ingressHost_def)

lemma incoming_hosts_step:
  assumes "incoming_hosts (Some m # ms) hosts = Some (Inr r)"
  obtains hosts1 where "incoming_hosts ms hosts1 = Some (Inr r)"
    and "hosts1 = hosts \<or> (\<exists>h. hosts1 = (h, scope_ref m) # hosts \<and> map_of hosts h = None)"
    and "\<forall>h. is_ingress m \<and> ingressHost m = Inr h \<and> h \<noteq> [] \<longrightarrow> hosts1 = (h, scope_ref m) # hosts \<and> map_of hosts h = None"
  using assms by (auto split: if_splits sum.splits option.splits)

lemma incoming_hosts_grow: "incoming_hosts ms hosts = Some (Inr r) \<Longrightarrow> dom (map_of hosts) \<subseteq> dom (map_of r)"
proof (induction ms arbitrary: hosts)
  case (Cons x ms)
  then obtain m where x: "x = Some m" by (cases x) auto
  obtain hosts1 where "incoming_hosts ms hosts1 = Some (Inr r)"
    and "hosts1 = hosts \<or> (\<exists>h. hosts1 = (h, scope_ref m) # hosts \<and> map_of hosts h = None)"
    using incoming_hosts_step [OF Cons.prems [unfolded x]] by metis
  then show ?case using Cons.IH by fastforce
qed simp

lemma incoming_hosts_new:
  "incoming_hosts ms hosts = Some (Inr r) \<Longrightarrow> Some m \<in> set ms \<Longrightarrow> is_ingress m \<Longrightarrow> ingressHost m = Inr h \<Longrightarrow> h \<noteq> [] \<Longrightarrow>
     map_of hosts h = None \<and> h \<in> dom (map_of r)"
proof (induction ms arbitrary: hosts)
  case (Cons x ms)
  then obtain m0 where x: "x = Some m0" by (cases x) auto
  obtain hosts1 where r: "incoming_hosts ms hosts1 = Some (Inr r)"
    and d: "hosts1 = hosts \<or> (\<exists>h. hosts1 = (h, scope_ref m0) # hosts \<and> map_of hosts h = None)"
    and n: "\<forall>h. is_ingress m0 \<and> ingressHost m0 = Inr h \<and> h \<noteq> [] \<longrightarrow> hosts1 = (h, scope_ref m0) # hosts \<and> map_of hosts h = None"
    using incoming_hosts_step [OF Cons.prems(1) [unfolded x]] by metis
  show ?case
  proof (cases "m = m0")
    case True
    then show ?thesis using n [rule_format, of h] Cons.prems(3-5) incoming_hosts_grow [OF r] by auto
  next
    case False
    then show ?thesis using Cons.IH [OF r] Cons.prems(2-5) d x by (auto split: if_splits)
  qed
qed simp

lemma incoming_hosts_once:
  "incoming_hosts ms hosts = Some (Inr r) \<Longrightarrow> Some m1 \<in> set ms \<Longrightarrow> Some m2 \<in> set ms \<Longrightarrow> is_ingress m1 \<Longrightarrow> is_ingress m2 \<Longrightarrow>
     ingressHost m1 = Inr h \<Longrightarrow> ingressHost m2 = Inr h \<Longrightarrow> h \<noteq> [] \<Longrightarrow> m1 = m2"
proof (induction ms arbitrary: hosts)
  case (Cons x ms)
  then obtain m0 where x: "x = Some m0" by (cases x) auto
  obtain hosts1 where r: "incoming_hosts ms hosts1 = Some (Inr r)"
    and n: "\<forall>h. is_ingress m0 \<and> ingressHost m0 = Inr h \<and> h \<noteq> [] \<longrightarrow> hosts1 = (h, scope_ref m0) # hosts \<and> map_of hosts h = None"
    using incoming_hosts_step [OF Cons.prems(1) [unfolded x]] by metis
  have fresh: "map_of hosts1 h = None" if "Some m \<in> set ms" "is_ingress m" "ingressHost m = Inr h" for m
    using incoming_hosts_new [OF r that] Cons.prems(8) by simp
  consider "m1 = m0" "m2 = m0" | "m1 = m0" "Some m2 \<in> set ms" | "m2 = m0" "Some m1 \<in> set ms" | "Some m1 \<in> set ms" "Some m2 \<in> set ms"
    using Cons.prems(2,3) x by auto
  then show ?case
  proof cases
    case 2
    then show ?thesis using n [rule_format, of h] fresh [of m2] Cons.prems by auto
  next
    case 3
    then show ?thesis using n [rule_format, of h] fresh [of m1] Cons.prems by auto
  next
    case 4
    then show ?thesis using Cons.IH [OF r] Cons.prems by blast
  qed simp
qed simp

lemma existing_hosts_None:
  assumes "existing_hosts es rs hosts = None" and "e \<in> set es" and "scope_ref e \<notin> set rs"
  shows "\<exists>h. ingressHost e = Inr h \<and> (h = [] \<or> map_of hosts h = None)"
  using assms by (induction es) (auto split: if_splits sum.splits option.splits)

lemma scope_ref_inj:
  assumes "scope_ref a = scope_ref b" and "CHR ''/'' \<notin> set (m_scope a)" and "CHR ''/'' \<notin> set (m_scope b)"
  shows "m_scope a = m_scope b \<and> m_name a = m_name b"
proof -
  have "cut CHR ''/'' (m_scope a @ CHR ''/'' # m_name a) = cut CHR ''/'' (m_scope b @ CHR ''/'' # m_name b)"
    using assms(1) by (simp add: scope_ref_def)
  then show ?thesis unfolding cut_append [OF assms(2)] cut_append [OF assms(3)] by simp
qed

context etcd_api
begin

lemma decode_all_members: "decode_all cl s kvs = Inr ms \<Longrightarrow> (k, DManifest m) \<in> set kvs \<Longrightarrow> \<exists>md. m\<lparr>m_metadata := md\<rparr> \<in> set ms"
proof (induction kvs arbitrary: ms)
  case (Cons e kvs)
  obtain m' ms' where ms': "decode_all cl s kvs = Inr ms'" "ms = m' # ms'"
    using Cons.prems(1) by (cases e) (auto split: sum.splits)
  show ?case
  proof (cases "e = (k, DManifest m)")
    case True
    then show ?thesis using Cons.prems(1) by (auto simp: decodeManifest_def split: sum.splits)
  next
    case False
    then show ?thesis using Cons.IH [OF ms'(1)] Cons.prems(2) ms'(2) by auto
  qed
qed simp

lemma listPrefix_members:
  assumes "listPrefix cl s p = Inr ms" and "has_prefix k p" and "view s k = Some (DManifest m)"
  shows "\<exists>md. m\<lparr>m_metadata := md\<rparr> \<in> set ms"
proof -
  obtain kvs where l: "etcd_list cl s p = Inr kvs" and d: "decode_all cl s kvs = Inr ms"
    using assms(1) by (auto simp: listPrefix_def split: sum.splits)
  show ?thesis using decode_all_members [OF d] list_complete [OF l assms(2,3)] by blast
qed

lemma ingress_key:
  assumes "plain e" and "has_prefix (mkey e) (DesiredPrefix ''ingress'')"
  shows "is_ingress e"
proof -
  obtain i where i: "ParseKind (m_kind e) = Some i"
    using assms(1) by (auto simp: plain_def Validate_def split: sum.splits option.splits if_splits)
  obtain rest where rest: "mkey e = ''/desired/'' @ (m_kind e @ ''s'') @ CHR ''/'' # rest"
    by (cases "is_scoped_str (m_kind e)") (simp_all add: mkey_def DesiredKey_def ScopedPrefix_def DesiredPrefix_def)
  obtain t where t: "mkey e = ''/desired/'' @ (''ingress'' @ ''s'') @ CHR ''/'' # t"
    using assms(2) by (auto simp: has_prefix_iff DesiredPrefix_def)
  have ni: "CHR ''/'' \<notin> set (m_kind e @ ''s'')" using ParseKind_no_slash [OF i] by simp
  have nk: "CHR ''/'' \<notin> set (''ingress'' @ ''s'')" by simp
  have "(m_kind e @ ''s'') @ CHR ''/'' # rest = (''ingress'' @ ''s'') @ CHR ''/'' # t"
    using rest t by (simp only: same_append_eq)
  then have "cut CHR ''/'' ((m_kind e @ ''s'') @ CHR ''/'' # rest) = cut CHR ''/'' ((''ingress'' @ ''s'') @ CHR ''/'' # t)"
    by (simp only:)
  then have "m_kind e @ ''s'' = ''ingress'' @ ''s''"
    unfolding cut_append [OF ni] cut_append [OF nk] by (simp only: prod.inject)
  then show ?thesis by (simp only: append_same_eq is_ingress_def kind_str.simps)
qed

lemma ingress_prefix: "is_ingress m \<Longrightarrow> has_prefix (mkey m) (DesiredPrefix ''ingress'')"
  using is_scoped_kind_str [of KindIngress]
  by (auto simp: is_ingress_def mkey_def DesiredKey_def ScopedPrefix_def IsScoped_def has_prefix_iff)

lemma apply_batch_new_or_old:
  assumes "ap_cl a = cl" and "tidy (view s)" and "slash_free ms"
    and "apply_batch a s fs False prune ms = (s', fs', Done r)"
  shows "k \<in> mkey ` set ms \<Longrightarrow> \<exists>m\<in>set ms. mkey m = k \<and> view s' k = Some (DManifest (stamped (ap_now a fs) m))"
    and "k \<notin> mkey ` set ms \<Longrightarrow> view s' k = None \<or> view s' k = view s k"
    and "\<forall>m\<in>set ms. plain m"
proof -
  let ?now = "ap_now a fs"
  have "(\<forall>k\<in>mkey ` set ms. \<exists>m\<in>set ms. mkey m = k \<and> view s' k = Some (DManifest (stamped ?now m))) \<and>
    (\<forall>k. k \<notin> mkey ` set ms \<longrightarrow> view s' k = None \<or> view s' k = view s k) \<and> (\<forall>m\<in>set ms. plain m)"
  proof (cases prune)
    case True
    then show ?thesis
      using apply_batch_exact(1,2,4) [OF assms(1,2,3)] assms(4) by (auto split: if_splits)
  next
    case False
    obtain as bs where e: "apply_each cl ?now False s ms = (s', Inr (as, bs))"
      using assms(1,4) False by (auto simp: apply_batch_def Let_def split: sum.splits prod.splits)
    from apply_each_view [OF e] have v: "view s' = fold (\<lambda>m f. f(mkey m \<mapsto> DManifest (stamped ?now m))) ms (view s)"
      and va: "\<forall>m\<in>set ms. \<exists>k. Validate m = Inr k" by simp_all
    have "\<forall>m\<in>set ms. plain m" using va assms(3) by (fastforce simp: plain_def slash_free_def list_all_iff)
    then show ?thesis
      using fold_puts_written [of _ mkey ms "\<lambda>m. DManifest (stamped ?now m)" "view s"]
        fold_puts_other [of _ mkey ms "\<lambda>m. DManifest (stamped ?now m)" "view s"]
      unfolding v by blast
  qed
  then show "k \<in> mkey ` set ms \<Longrightarrow> \<exists>m\<in>set ms. mkey m = k \<and> view s' k = Some (DManifest (stamped ?now m))"
    and "k \<notin> mkey ` set ms \<Longrightarrow> view s' k = None \<or> view s' k = view s k" and "\<forall>m\<in>set ms. plain m" by blast+
qed

lemma checked_old_host:
  assumes "tidy (view s)" and "slash_free (List.map_filter id oms)"
    and "checkIngressHostCollisions cl s oms = Some None"
    and "Some m \<in> set oms" and "is_ingress m" and "ingressHost m = Inr h" and "h \<noteq> []"
    and "has_prefix (mkey e) (DesiredPrefix ''ingress'')" and "view s (mkey e) = Some (DManifest e)" and "ingressHost e = Inr h"
  shows "\<exists>m'. Some m' \<in> set oms \<and> is_ingress m' \<and> mkey m' = mkey e"
proof -
  let ?rs = "map scope_ref (filter is_ingress (List.map_filter id oms))"
  obtain hosts es where i: "incoming_hosts oms [] = Some (Inr hosts)" and l: "listPrefix cl s (DesiredPrefix ''ingress'') = Inr es"
    and x: "existing_hosts es ?rs hosts = None"
    using assms(3) by (auto simp: checkIngressHostCollisions_def ListKind_def split: option.splits sum.splits)
  have pe: "plain e" using tidyD [OF assms(1,9) mkey_desired] by auto
  obtain md where md: "e\<lparr>m_metadata := md\<rparr> \<in> set es" using listPrefix_members [OF l assms(8,9)] by blast
  have "ingressHost (e\<lparr>m_metadata := md\<rparr>) = ingressHost e" by (rule ingressHost_spec) simp_all
  then have h': "ingressHost (e\<lparr>m_metadata := md\<rparr>) = Inr h" using assms(10) by simp
  have "map_of hosts h \<noteq> None" using incoming_hosts_new [OF i assms(4-7)] by auto
  then have "scope_ref (e\<lparr>m_metadata := md\<rparr>) \<in> set ?rs"
    using existing_hosts_None [OF x md] h' assms(7) by (metis Inr_inject)
  then obtain m' where m': "m' \<in> set (List.map_filter id oms)" "is_ingress m'" "scope_ref m' = scope_ref e"
    by (auto simp: scope_ref_def)
  have "m_scope m' = m_scope e \<and> m_name m' = m_name e"
    using scope_ref_inj [OF m'(3)] m'(1) assms(2) pe by (simp add: slash_free_def list_all_iff plain_def)
  moreover have "m_kind m' = m_kind e" using m'(2) ingress_key [OF pe assms(8)] by (simp add: is_ingress_def)
  ultimately have "mkey m' = mkey e" by (simp add: mkey_def)
  moreover have "Some m' \<in> set oms" using m'(1) by (force simp: List.map_filter_def)
  ultimately show ?thesis using m'(2) by blast
qed

lemma hosts_kept:
  assumes "ap_cl a = cl" and "tidy (view s)" and "hosts_unique (view s)" and "slash_free (List.map_filter id oms)"
    and "checkIngressHostCollisions cl s oms = Some None"
    and "\<forall>k. has_prefix k AllDesiredPrefix \<longrightarrow> view s1 k = view s k"
    and "filter is_ingress ms = filter is_ingress (List.map_filter id oms)" and "slash_free ms"
    and "apply_batch a s1 fs False prune ms = (s', fs', Done r)"
  shows "hosts_unique (view s')"
proof -
  have ty: "tidy (view s1)" using assms(2,6) by (auto simp: tidy_def)
  note after = apply_batch_new_or_old [OF assms(1) ty assms(8,9)]
  have in_oms: "Some m \<in> set oms \<longleftrightarrow> m \<in> set ms" if "is_ingress m" for m
  proof -
    have "m \<in> set ms \<longleftrightarrow> m \<in> set (filter is_ingress (List.map_filter id oms))"
      using that assms(7) [symmetric] by simp
    also have "\<dots> \<longleftrightarrow> Some m \<in> set oms" using that by (force simp: List.map_filter_def)
    finally show ?thesis by simp
  qed
  obtain hosts where i: "incoming_hosts oms [] = Some (Inr hosts)"
    using assms(5) by (auto simp: checkIngressHostCollisions_def split: option.splits sum.splits)
  have pre: "has_prefix k AllDesiredPrefix" if "has_prefix k (DesiredPrefix ''ingress'')" for k
    using that desired_prefixes(2) by (auto simp: has_prefix_iff)
  have new: "\<exists>m\<in>set ms. mkey m = k \<and> is_ingress m \<and> ingressHost m = Inr h"
    if d: "declares_host (view s') k h" and k: "k \<in> mkey ` set ms" for k h
  proof -
    obtain m where m: "m \<in> set ms" "mkey m = k" "view s' k = Some (DManifest (stamped (ap_now a fs) m))"
      using after(1) [OF k] by metis
    have "ingressHost (stamped (ap_now a fs) m) = ingressHost m" by (rule ingressHost_spec) simp_all
    then show ?thesis
      using m d ingress_key [of m] after(3) by (auto simp: declares_host_def intro!: bexI [of _ m])
  qed
  have old: "declares_host (view s) k h" if "declares_host (view s') k h" "k \<notin> mkey ` set ms" for k h
    using after(2) [OF that(2)] that(1) assms(6) pre [of k] by (auto simp: declares_host_def)
  have clash: False if d: "declares_host (view s') j h" "declares_host (view s') k h" and jk: "j \<in> mkey ` set ms" "k \<notin> mkey ` set ms" for j k h
  proof -
    obtain m where m: "m \<in> set ms" "is_ingress m" "ingressHost m = Inr h" using new [OF d(1) jk(1)] by blast
    obtain e where e: "view s k = Some (DManifest e)" "ingressHost e = Inr h" "h \<noteq> []" "has_prefix k (DesiredPrefix ''ingress'')"
      using old [OF d(2) jk(2)] by (auto simp: declares_host_def split: option.splits doc.splits)
    have ke: "k = mkey e" using tidyD [OF assms(2) e(1) pre [OF e(4)]] by auto
    obtain m' where m': "Some m' \<in> set oms" "is_ingress m'" "mkey m' = mkey e"
      using checked_old_host [OF assms(2,4,5) _ m(2,3) e(3), of e] in_oms [OF m(2)] m(1) e ke by auto
    then have "m' \<in> set ms" using in_oms by blast
    then show False using jk(2) m'(3) ke by (metis imageI)
  qed
  show ?thesis
    unfolding hosts_unique_def
  proof (intro allI impI)
    fix j k h
    assume jk: "declares_host (view s') j h \<and> declares_host (view s') k h"
    then have h: "h \<noteq> []" by (simp add: declares_host_def)
    consider "j \<in> mkey ` set ms" "k \<in> mkey ` set ms" | "j \<notin> mkey ` set ms" "k \<notin> mkey ` set ms"
      using clash [of j h k] clash [of k h j] jk by blast
    then show "j = k"
    proof cases
      case 1
      then obtain m1 m2 where "m1 \<in> set ms" "mkey m1 = j" "is_ingress m1" "ingressHost m1 = Inr h"
        "m2 \<in> set ms" "mkey m2 = k" "is_ingress m2" "ingressHost m2 = Inr h"
        using new [of j h] new [of k h] jk by blast
      then show ?thesis using incoming_hosts_once [OF i, of m1 m2 h] in_oms h by auto
    next
      case 2
      then show ?thesis using old [of j h] old [of k h] jk assms(3) unfolding hosts_unique_def by blast
    qed
  qed
qed

end

section \<open>Freezing a pod\<close>

definition frozen_ids :: "kv \<Rightarrow> identity \<Rightarrow> string list" where
  "frozen_ids f i = (case f (FrozenKey (id_kind i) (id_scope i) (id_name i)) of Some (DFrozen ids) \<Rightarrow> ids | _ \<Rightarrow> [])"

lemma addReplicaID_set [simp]: "set (addReplicaID ids x) = insert x (set ids)"
  by (auto simp: addReplicaID_def)

lemma addReplicaID_nonempty [simp]: "addReplicaID ids x \<noteq> []"
  using addReplicaID_set [of ids x] by (metis insert_not_empty set_empty)

lemma removeReplicaID_set [simp]: "set (removeReplicaID ids x) = set ids - {x}"
  by (auto simp: removeReplicaID_def)

context etcd_api
begin

lemma frozen_read: "GetFrozenReplicaIDs cl s (id_kind i) (id_scope i) (id_name i) = Inr ids \<Longrightarrow> ids = frozen_ids (view s) i"
  by (auto simp: GetFrozenReplicaIDs_def frozen_ids_def split: sum.splits option.splits doc.splits dest: get_law)

lemma frozen_write:
  assumes "SetFrozenReplicaIDs cl s (id_kind i) (id_scope i) (id_name i) ids = Inr s'"
  shows "frozen_ids (view s') i = ids" and "k \<noteq> FrozenKey (id_kind i) (id_scope i) (id_name i) \<Longrightarrow> view s' k = view s k"
  using assms
  by (auto simp: SetFrozenReplicaIDs_def DeleteFrozenReplicaIDs_def frozen_ids_def split: sum.splits if_splits
      dest: put_law delete_law)

lemma stop_view:
  assumes "ap_cl a = cl" and "ap_inspect a fs (trim_space nm) = Inr labels" and "ParseLabels labels = Some i"
    and "GetFrozenReplicaIDs cl s (id_kind i) (id_scope i) (id_name i) = Inr ids"
    and "handlePodStop a s fs nm True = (s', fs', Done x)"
  shows "set (frozen_ids (view s') i) = insert (id_replica i) (set (frozen_ids (view s) i))"
    and "k \<noteq> FrozenKey (id_kind i) (id_scope i) (id_name i) \<Longrightarrow> view s' k = view s k"
    and "id_replica i \<noteq> []"
proof -
  obtain r: "id_replica i \<noteq> []" and w: "SetFrozenReplicaIDs cl s (id_kind i) (id_scope i) (id_name i) (addReplicaID ids (id_replica i)) = Inr s'"
    using assms by (auto simp: handlePodStop_def Let_def frozen_or_none_def split: sum.splits prod.splits option.splits if_splits)
  show "set (frozen_ids (view s') i) = insert (id_replica i) (set (frozen_ids (view s) i))"
    using frozen_write(1) [OF w] frozen_read [OF assms(4)] by simp
  show "view s' k = view s k" if "k \<noteq> FrozenKey (id_kind i) (id_scope i) (id_name i)" for k
    by (rule frozen_write(2) [OF w that])
  show "id_replica i \<noteq> []" by (rule r)
qed

lemma thaw_view:
  assumes "GetFrozenReplicaIDs cl s (id_kind i) (id_scope i) (id_name i) = Inr ids" and "id_replica i \<noteq> []"
    and "thaw cl s (Some i) = Inr (s', c)"
  shows "set (frozen_ids (view s') i) = set (frozen_ids (view s) i) - {id_replica i}"
    and "k \<noteq> FrozenKey (id_kind i) (id_scope i) (id_name i) \<Longrightarrow> view s' k = view s k"
    and "c = (id_replica i \<in> set (frozen_ids (view s) i))"
proof -
  have ids: "ids = frozen_ids (view s) i" by (rule frozen_read [OF assms(1)])
  have len: "length (removeReplicaID ids x) = length ids \<longleftrightarrow> x \<notin> set ids" for x
  proof (cases "x \<in> set ids")
    case True
    then show ?thesis using length_filter_less [of x ids "\<lambda>e. e \<noteq> x"] by (simp add: removeReplicaID_def)
  next
    case False
    then have "filter (\<lambda>e. e \<noteq> x) ids = ids" by (auto simp: filter_id_conv)
    with False show ?thesis by (simp add: removeReplicaID_def)
  qed
  show "set (frozen_ids (view s') i) = set (frozen_ids (view s) i) - {id_replica i}"
    and "c = (id_replica i \<in> set (frozen_ids (view s) i))"
    using assms frozen_write(1) [of s i "removeReplicaID ids (id_replica i)" s'] ids len [of "id_replica i"]
    by (auto simp: thaw_def Let_def frozen_or_none_def bind_ok_Inr split: if_splits)
  show "view s' k = view s k" if "k \<noteq> FrozenKey (id_kind i) (id_scope i) (id_name i)" for k
    using assms frozen_write(2) [of s i "removeReplicaID ids (id_replica i)" s' k] that
    by (auto simp: thaw_def Let_def frozen_or_none_def bind_ok_Inr split: if_splits)
qed

lemma start_view:
  assumes "ap_cl a = cl" and "ap_inspect a fs (trim_space nm) = Inr labels" and "ParseLabels labels = Some i"
    and "GetFrozenReplicaIDs cl s (id_kind i) (id_scope i) (id_name i) = Inr ids" and "id_replica i \<noteq> []"
    and "handlePodStart a s fs nm = (s', fs', Done x)"
  obtains s1 c m s2 where "thaw cl s (Some i) = Inr (s1, c)" and "x = (True, c)"
    and "Get cl s1 (id_kind i) (id_scope i) (id_name i) = Inr (Some m)"
    and "Put cl s1 (ap_now a fs') m = Inr (s', s2)"
  using assms by (auto simp: handlePodStart_def Let_def split: sum.splits prod.splits option.splits if_splits)

end

section \<open>Wiping a scope\<close>

definition in_scope :: "string \<Rightarrow> key \<Rightarrow> kv \<Rightarrow> bool" where
  "in_scope sc k f = (case f k of Some (DManifest m) \<Rightarrow> is_scoped_str (m_kind m) \<and> m_scope m = sc | _ \<Rightarrow> False)"

lemma config_not_desired: "has_prefix k AllDesiredPrefix \<Longrightarrow> \<not> has_prefix k (ConfigPrefix sc nm)"
  by (auto simp: has_prefix_iff AllDesiredPrefix_def ConfigPrefix_def)

context etcd_api
begin

lemma prune_deleted_view:
  assumes "ap_cl a = cl" and "prune_deleted a s fs k sc nm = (s', fs', x)"
  shows "view s' k' = view s k' \<or> view s' k' = None \<and> has_prefix k' (ConfigPrefix sc nm)"
proof -
  obtain fs1 y where p: "pruneResource a s fs k sc nm = (s', fs1, y)"
    using assms(2) by (auto simp: prune_deleted_def split: prod.splits option.splits sum.splits)
  show ?thesis
    using p assms(1) delete_prefix_law [of s "ConfigPrefix sc nm" s']
    by (auto simp: pruneResource_def DeleteConfig_def Let_def split: prod.splits sum.splits if_splits)
qed

lemma prune_deleted_desired:
  "ap_cl a = cl \<Longrightarrow> prune_deleted a s fs k sc nm = (s', fs', x) \<Longrightarrow> has_prefix k' AllDesiredPrefix \<Longrightarrow> view s' k' = view s k'"
  using prune_deleted_view [of a s fs k sc nm s' fs' x k'] config_not_desired [of k'] by blast

lemma wipe_manifests_view:
  assumes "ap_cl a = cl" and "wipe_manifests a prune k sc s fs ms = (s', fs', ws, [])" and "has_prefix k' AllDesiredPrefix"
  shows "view s' k' = (if k' \<in> (\<lambda>m. DesiredKey (kind_str k) sc (m_name m)) ` set ms then None else view s k')"
  using assms(2)
proof (induction ms arbitrary: s fs ws)
  case (Cons m ms)
  obtain s1 b s2 fs2 smry ws' where d: "Delete cl s (kind_str k) sc (m_name m) = Inr (s1, b)"
    and p: "(if prune then prune_deleted a s1 fs k sc (m_name m) else (s1, fs, no_summary)) = (s2, fs2, smry)"
    and r: "wipe_manifests a prune k sc s2 fs2 ms = (s', fs', ws', [])"
    using Cons.prems assms(1) by (auto split: sum.splits prod.splits)
  have "view s2 k' = view s1 k'"
    using p prune_deleted_desired [OF assms(1) _ assms(3)] by (cases prune) auto
  then show ?case using Cons.IH [OF r] Delete_view [OF d] by auto
qed simp

lemma wipe_kinds_view:
  assumes "ap_cl a = cl" and "tidy (view s)" and "CHR ''/'' \<notin> set sc" and "wipe_kinds a prune sc s fs ks = (s', fs', ws, [])"
    and "\<forall>k\<in>set ks. IsScoped k" and "has_prefix k' AllDesiredPrefix"
  shows "view s' k' = (if in_scope sc k' (view s) \<and> list_ex (\<lambda>k. has_prefix k' (ScopedPrefix (kind_str k) sc)) ks then None else view s k')"
  using assms(2,4,5)
proof (induction ks arbitrary: s fs ws)
  case (Cons k ks)
  obtain ms s1 fs1 ws1 ws2 where l: "listPrefix cl s (ScopedPrefix (kind_str k) sc) = Inr ms"
    and w: "wipe_manifests a prune k sc s fs ms = (s1, fs1, ws1, [])"
    and r: "wipe_kinds a prune sc s1 fs1 ks = (s', fs', ws2, [])"
    using Cons.prems(2,3) assms(1) by (auto simp: ListByScope_def split: sum.splits prod.splits)
  have v1: "view s1 x = (if x \<in> (\<lambda>m. DesiredKey (kind_str k) sc (m_name m)) ` set ms then None else view s x)"
    if "has_prefix x AllDesiredPrefix" for x
    by (rule wipe_manifests_view [OF assms(1) w that])
  have ks: "is_scoped_str (kind_str k)" using Cons.prems(3) by simp
  have listed: "x \<in> (\<lambda>m. DesiredKey (kind_str k) sc (m_name m)) ` set ms \<longleftrightarrow>
      has_prefix x (ScopedPrefix (kind_str k) sc) \<and> in_scope sc x (view s)" if x: "has_prefix x AllDesiredPrefix" for x
  proof
    assume "x \<in> (\<lambda>m. DesiredKey (kind_str k) sc (m_name m)) ` set ms"
    then obtain m where m: "m \<in> set ms" "x = DesiredKey (kind_str k) sc (m_name m)" by blast
    then obtain e y where e: "triple m = triple e" "has_prefix y (ScopedPrefix (kind_str k) sc)" "view s y = Some (DManifest e)"
      using listPrefix_triples [OF l] by blast
    have y: "has_prefix y AllDesiredPrefix" using e(2) desired_prefixes(3) by (auto simp: has_prefix_iff)
    have ye: "y = mkey e" "plain e" using tidyD [OF Cons.prems(1) e(3) y] by auto
    have be: "m_kind e = kind_str k" "m_scope e = sc"
      using bucket_key [OF ye(2) ks assms(3)] e(2) ye(1) by auto
    have "x = y" using m(2) e(1) be by (simp add: ye(1) mkey_def triple_def)
    then show "has_prefix x (ScopedPrefix (kind_str k) sc) \<and> in_scope sc x (view s)"
      using e be ks by (simp add: in_scope_def)
  next
    assume a: "has_prefix x (ScopedPrefix (kind_str k) sc) \<and> in_scope sc x (view s)"
    then obtain e where e: "view s x = Some (DManifest e)"
      by (auto simp: in_scope_def split: option.splits doc.splits)
    have xe: "x = mkey e" "plain e" using tidyD [OF Cons.prems(1) e x] by auto
    have be: "m_kind e = kind_str k" "m_scope e = sc"
      using bucket_key [OF xe(2) ks assms(3)] a xe(1) by auto
    obtain md where "e\<lparr>m_metadata := md\<rparr> \<in> set ms" using listPrefix_members [OF l _ e] a by blast
    then show "x \<in> (\<lambda>m. DesiredKey (kind_str k) sc (m_name m)) ` set ms"
      using be by (intro image_eqI [of _ _ "e\<lparr>m_metadata := md\<rparr>"]) (simp_all add: xe(1) mkey_def)
  qed
  have ty: "tidy (view s1)" using Cons.prems(1) v1 by (auto simp: tidy_def split: if_splits)
  have "in_scope sc k' (view s1) \<longleftrightarrow> in_scope sc k' (view s) \<and> \<not> has_prefix k' (ScopedPrefix (kind_str k) sc)"
    using v1 [OF assms(6)] listed [OF assms(6)] by (auto simp: in_scope_def)
  then show ?case
    using Cons.IH [OF ty r] Cons.prems(3) v1 [OF assms(6)] listed [OF assms(6)] by auto
qed simp

lemma in_scope_prefix:
  assumes "tidy f" and "in_scope sc k f" and "has_prefix k AllDesiredPrefix"
  shows "\<exists>j. IsScoped j \<and> has_prefix k (ScopedPrefix (kind_str j) sc)"
proof -
  obtain m where m: "f k = Some (DManifest m)" "is_scoped_str (m_kind m)" "m_scope m = sc"
    using assms(2) by (auto simp: in_scope_def split: option.splits doc.splits)
  then obtain j where "m_kind m = kind_str j" "IsScoped j"
    by (auto simp: is_scoped_str_def valid_kind_Some split: option.splits)
  moreover have "k = mkey m" using tidyD [OF assms(1) m(1) assms(3)] by auto
  ultimately show ?thesis using m(3) by (intro exI [of _ j]) (simp add: mkey_def DesiredKey_def)
qed

lemma scope_wipe_view:
  assumes "ap_cl a = cl" and "tidy (view s)" and "CHR ''/'' \<notin> set (trim_space sc)"
    and "handleScopeWipe a order s fs sc prune = (s', fs', Done r)" and "wi_errors r = []"
    and "set order = {k. IsScoped k}"
  shows "has_prefix k AllDesiredPrefix \<Longrightarrow> view s' k = (if in_scope (trim_space sc) k (view s) then None else view s k)"
    and "wi_config_wiped r \<Longrightarrow> has_prefix k (ConfigPrefix (trim_space sc) []) \<Longrightarrow> view s' k = None"
proof -
  obtain s1 fs1 ws where w: "wipe_kinds a prune (trim_space sc) s fs order = (s1, fs1, ws, [])"
    and c: "s' = s1 \<and> \<not> wi_config_wiped r \<or> DeleteConfig cl s1 (trim_space sc) [] = Inr s'"
    using assms(1,4,5) by (auto simp: handleScopeWipe_def Let_def split: prod.splits sum.splits if_splits)
  have sc: "\<forall>k\<in>set order. IsScoped k" using assms(6) by simp
  show "view s' k = (if in_scope (trim_space sc) k (view s) then None else view s k)" if k: "has_prefix k AllDesiredPrefix"
  proof -
    have "view s' k = view s1 k"
      using c config_not_desired [OF k] by (auto simp: DeleteConfig_def split: sum.splits dest: delete_prefix_law)
    moreover have "in_scope (trim_space sc) k (view s) \<Longrightarrow> list_ex (\<lambda>j. has_prefix k (ScopedPrefix (kind_str j) (trim_space sc))) order"
      using in_scope_prefix [OF assms(2) _ k] assms(6) by (auto simp: list_ex_iff)
    ultimately show ?thesis
      using wipe_kinds_view [OF assms(1,2,3) w sc k] by auto
  qed
  show "view s' k = None" if "wi_config_wiped r" "has_prefix k (ConfigPrefix (trim_space sc) [])"
    using c that by (auto simp: DeleteConfig_def split: sum.splits dest: delete_prefix_law)
qed

end

section \<open>An apply that stops midway\<close>

context answering_etcd
begin

lemma Get_answers:
  assumes "up s" and "tidy (view s)"
  shows "\<exists>r. Get cl s k sc nm = Inr r"
  using get_up [OF assms(1), of "DesiredKey k sc nm"] tidyD [OF assms(2), of "DesiredKey k sc nm"]
  by (cases "view s (DesiredKey k sc nm)") (force simp: Get_def Let_def decodeManifest_def)+

lemma Put_answers:
  assumes "up s" and "plain m"
  obtains s' m' where "Put cl s now m = Inr (s', m')" and "up s'" and "view s' = (view s)(mkey m \<mapsto> DManifest (stamped now m))"
proof -
  obtain k where k: "Validate m = Inr k" using assms(2) by (auto simp: plain_def split: sum.splits)
  obtain s' where s': "etcd_put cl s (mkey m) (DManifest (stamped now m)) = Inr s'" "up s'"
    "view s' = (view s)(mkey m \<mapsto> DManifest (stamped now m))"
    using put_view [OF assms(1)] by blast
  show ?thesis
    using that s' k by (simp add: Put_def Let_def mkey_def stamped_def)
qed

lemma apply_each_stops:
  assumes "up s" and "tidy (view s)" and "\<forall>m\<in>set ms. plain m" and "Validate m0 = Inl e"
  shows "\<exists>s' t. apply_each cl now False s (ms @ m0 # ms') = (s', Inl (400, t)) \<and>
    view s' = fold (\<lambda>m f. f(mkey m \<mapsto> DManifest (stamped now m))) ms (view s)"
  using assms(1-3)
proof (induction ms arbitrary: s)
  case Nil
  obtain r where "Get cl s (m_kind m0) (m_scope m0) (m_name m0) = Inr r" using Get_answers Nil by blast
  then show ?case by (simp add: Put_def assms(4))
next
  case (Cons m ms)
  obtain r where r: "Get cl s (m_kind m) (m_scope m) (m_name m) = Inr r" using Get_answers Cons.prems by blast
  obtain s1 m1 where p: "Put cl s now m = Inr (s1, m1)" and u: "up s1"
    and v: "view s1 = (view s)(mkey m \<mapsto> DManifest (stamped now m))"
    using Put_answers [of s m now] Cons.prems by auto
  have ty: "tidy (view s1)" unfolding v by (rule tidy_put) (use Cons.prems in auto)
  have pl: "\<forall>m\<in>set ms. plain m" using Cons.prems(3) by simp
  obtain s' t where "apply_each cl now False s1 (ms @ m0 # ms') = (s', Inl (400, t))"
    "view s' = fold (\<lambda>m f. f(mkey m \<mapsto> DManifest (stamped now m))) ms (view s1)"
    using Cons.IH [OF u ty pl] by blast
  then show ?case by (simp add: r p v del: fun_upd_apply)
qed

lemma apply_each_dry_accepts:
  assumes "up s" and "tidy (view s)"
  shows "\<exists>bs. apply_each cl now True s ms = (s, Inr (ms, bs))"
proof (induction ms)
  case (Cons m ms)
  obtain r where "Get cl s (m_kind m) (m_scope m) (m_name m) = Inr r" using Get_answers assms by blast
  with Cons.IH show ?case by auto
qed simp

end

end
