(* ===== verification/Stamping.thy ===== *)
theory Stamping
  imports Assets
begin

text \<open>
  What the handling of assets guarantees: the reference syntax is read back as it is written, a stamped
  consumer carries exactly the digests of the assets it refers to and stamping it again changes
  nothing, and the digests of an asset's status are those of the files on disk (locale \<open>asset_disk\<close>).
\<close>

section \<open>The reference syntax\<close>

definition valid_ref :: "asset_ref \<Rightarrow> bool" where
  "valid_ref r = ((ar_scope r = [] \<or> is_ident (ar_scope r)) \<and> is_ident (ar_name r) \<and> is_ident (ar_key r))"

definition ref_text :: "asset_ref \<Rightarrow> string" where
  "ref_text r = ref_open @ formatAssetRef r @ ''}''"

lemma ident_plain: "is_ident s \<Longrightarrow> CHR ''.'' \<notin> set s \<and> CHR ''}'' \<notin> set s \<and> s \<noteq> []"
  by (auto simp: is_ident_def list_all_iff ident_char_def ident_start_def)

lemma format_segments:
  assumes "valid_ref r"
  shows "CHR ''}'' \<notin> set (formatAssetRef r)"
    and "split_char (CHR ''.'') (formatAssetRef r) =
      (if ar_scope r = [] then [ar_name r, ar_key r] else [ar_scope r, ar_name r, ar_key r])"
  using assms ident_plain [of "ar_scope r"] ident_plain [of "ar_name r"] ident_plain [of "ar_key r"]
  by (auto simp: valid_ref_def formatAssetRef_def split_char_append split_char_absent)

lemma drop_past: "drop (Suc (length a)) (a @ c # b) = b"
  by (induction a) simp_all

lemma match_ref_text:
  assumes "valid_ref r"
  shows "match_ref (ref_text r @ rest) = Some (r, rest)"
proof -
  have dr: "drop (length ref_open) (ref_text r @ rest) = formatAssetRef r @ CHR ''}'' # rest"
    by (simp add: ref_text_def)
  have px: "has_prefix (ref_text r @ rest) ref_open"
    by (simp add: ref_text_def)
  have rec: "\<lparr>ar_scope = ar_scope r, ar_name = ar_name r, ar_key = ar_key r\<rparr> = r" by simp
  have ix: "index_byte (CHR ''}'') (formatAssetRef r @ CHR ''}'' # rest) = Some (length (formatAssetRef r))"
    using format_segments(1) [OF assms] by simp
  have tk: "take (length (formatAssetRef r)) (formatAssetRef r @ CHR ''}'' # rest) = formatAssetRef r" by simp
  show ?thesis
    using assms rec unfolding match_ref_def dr ix tk Let_def drop_past option.case format_segments(2) [OF assms]
    by (auto simp: valid_ref_def px)
qed

lemma match_ref_Some:
  assumes "match_ref s = Some (r, rest)"
  shows "valid_ref r \<and> s = ref_text r @ rest"
proof -
  from assms have p: "has_prefix s ref_open" by (auto simp: match_ref_def split: if_splits)
  then obtain body where s: "s = ref_open @ body" by (auto simp: has_prefix_iff)
  from assms p s obtain i where i: "index_byte (CHR ''}'') body = Some i"
    by (auto simp: match_ref_def Let_def split: if_splits option.splits)
  obtain a b where body: "body = a @ CHR ''}'' # b" and a: "take i body = a" "drop (Suc i) body = b"
    and na: "CHR ''}'' \<notin> set a"
    using index_byte_Some [OF i] id_take_nth_drop [of i body] by (metis append_take_drop_id)
  have join: "join ''.'' (split_char (CHR ''.'') t) = t" for t
  proof (induction t)
    case (Cons c t)
    obtain x xs where x: "split_char (CHR ''.'') t = x # xs" by (cases "split_char (CHR ''.'') t") auto
    with Cons show ?case by (cases xs) auto
  qed simp
  show ?thesis
    using assms p i a s body join [of a]
    by (auto simp: match_ref_def Let_def valid_ref_def ref_text_def formatAssetRef_def is_ident_def
        split: list.splits if_splits)
qed

lemma scan_literal: "c \<noteq> CHR ''$'' \<Longrightarrow> scan (c # s) = Lit c # scan s"
  by (simp add: scan.simps(2) match_ref_def has_prefix_def ref_open_def)

lemma scan_literals: "CHR ''$'' \<notin> set l \<Longrightarrow> scan (l @ s) = map Lit l @ scan s"
  by (induction l) (auto simp: scan_literal)

lemma scan_ref: "valid_ref r \<Longrightarrow> scan (ref_text r @ s) = Ref r # scan s"
proof -
  assume v: "valid_ref r"
  obtain c t where ct: "ref_text r @ s = c # t" by (cases "ref_text r @ s") (auto simp: ref_text_def)
  show ?thesis using match_ref_text [OF v, of s] unfolding ct by (simp add: scan.simps(2))
qed

text \<open>A text is its tokens, each reference written out.\<close>

primrec token_source :: "token \<Rightarrow> string" where
  "token_source (Lit c) = [c]"
| "token_source (Ref r) = ref_text r"

lemma scan_source: "concat (map token_source (scan s)) = s"
proof (induction s rule: scan.induct)
  case (2 c s)
  then show ?case
    by (cases "match_ref (c # s)") (auto simp: scan.simps(2) dest: match_ref_Some)
qed simp

lemma scan_valid: "Ref r \<in> set (scan s) \<Longrightarrow> valid_ref r"
proof (induction s rule: scan.induct)
  case (2 c s)
  then show ?case
    by (cases "match_ref (c # s)") (auto simp: scan.simps(2) dest: match_ref_Some)
qed simp

lemma collected_valid: "r \<in> set (collectAssetRefs vs) \<Longrightarrow> valid_ref r"
proof -
  have "r \<in> set (token_refs t) \<Longrightarrow> t = Ref r" for t by (cases t) auto
  then show "r \<in> set (collectAssetRefs vs) \<Longrightarrow> valid_ref r"
    by (auto simp: collectAssetRefs_def intro: scan_valid)
qed

text \<open>A text written as literals and references.\<close>

definition with_refs :: "(string \<times> asset_ref) list \<Rightarrow> string \<Rightarrow> string" where
  "with_refs ps t = concat (map (\<lambda>(l, r). l @ ref_text r) ps) @ t"

definition plain_pieces :: "(string \<times> asset_ref) list \<Rightarrow> string \<Rightarrow> bool" where
  "plain_pieces ps t = (list_all (\<lambda>(l, r). CHR ''$'' \<notin> set l \<and> valid_ref r) ps \<and> CHR ''$'' \<notin> set t)"

lemma scan_with_refs:
  "plain_pieces ps t \<Longrightarrow> scan (with_refs ps t) = concat (map (\<lambda>(l, r). map Lit l @ [Ref r]) ps) @ map Lit t"
proof (induction ps)
  case Nil
  then show ?case using scan_literals [of t "[]"] by (simp add: with_refs_def plain_pieces_def)
next
  case (Cons p ps)
  then show ?case
    by (cases p) (simp add: with_refs_def plain_pieces_def scan_literals scan_ref)
qed

lemma literal_tokens:
  "concat (map token_refs (map Lit l)) = []" "concat (map (token_text lookup \<circ> Lit) l) = l"
  by (induction l) simp_all



section \<open>Stamped consumers\<close>

lemma format_inj:
  assumes "formatAssetRef r = formatAssetRef q"
    and "CHR ''.'' \<notin> set (ar_scope r @ ar_name r @ ar_key r)" "CHR ''.'' \<notin> set (ar_scope q @ ar_name q @ ar_key q)"
  shows "r = q"
proof -
  have sp: "split_char (CHR ''.'') (formatAssetRef x) =
      (if ar_scope x = [] then [ar_name x, ar_key x] else [ar_scope x, ar_name x, ar_key x])"
    if "CHR ''.'' \<notin> set (ar_scope x @ ar_name x @ ar_key x)" for x
    using that by (auto simp: formatAssetRef_def split_char_append split_char_absent)
  have "(if ar_scope r = [] then [ar_name r, ar_key r] else [ar_scope r, ar_name r, ar_key r]) =
      (if ar_scope q = [] then [ar_name q, ar_key q] else [ar_scope q, ar_name q, ar_key q])"
    using sp [OF assms(2)] sp [OF assms(3)] unfolding assms(1) by (rule trans [OF sym])
  then show ?thesis by (auto split: if_splits intro: asset_ref.equality)
qed

definition dotless :: "asset_ref \<Rightarrow> bool" where
  "dotless r = (CHR ''.'' \<notin> set (ar_scope r @ ar_name r @ ar_key r))"

lemma valid_dotless: "valid_ref r \<Longrightarrow> dotless r"
  using ident_plain by (auto simp: valid_ref_def dotless_def)

lemma walked_dotless: "r \<in> set (walkSpecForRefs v) \<Longrightarrow> dotless r"
proof (induction v)
  case (JObj fs)
  then obtain e where "e \<in> set fs" "r \<in> set (walkSpecForRefs (snd e))" by (auto split: if_splits)
  with JObj.IH show ?case by (metis prod.collapse snds.intros)
qed (auto intro: valid_dotless collected_valid)

lemma parsed_dotless: "parseDependsOnRef s = Inr r \<Longrightarrow> dotless r"
  using split_char_parts [of _ "CHR ''.''" s]
  by (fastforce simp: parseDependsOnRef_def dotless_def split: list.splits if_splits)

lemma depends_dotless: "depends_on_refs vs = Inr rs \<Longrightarrow> r \<in> set rs \<Longrightarrow> dotless r"
  by (induction vs arbitrary: rs rule: depends_on_refs.induct)
    (auto simp: bind_ok_Inr map_err_Inr intro: parsed_dotless)

lemma spec_refs_dotless: "spec_refs spec = Inr refs \<Longrightarrow> r \<in> set refs \<Longrightarrow> dotless r"
  by (auto simp: spec_refs_def bind_ok_Inr spec_depends_def simp del: walkSpecForRefs.simps
      intro: walked_dotless depends_dotless split: option.splits json.splits)

lemma resolve_digests_Inr:
  assumes "resolve_digests cl s batch rs dg = Inr dg'" "\<And>r. r \<in> set rs \<union> Q \<Longrightarrow> dotless r"
    and "\<And>k. map_of dg k \<noteq> None \<longleftrightarrow> k \<in> formatAssetRef ` Q"
    and "\<And>r. r \<in> Q \<Longrightarrow> map_of dg (formatAssetRef r) = asset_digest cl s batch r"
  shows "(\<forall>k. map_of dg' k \<noteq> None \<longleftrightarrow> k \<in> formatAssetRef ` (set rs \<union> Q)) \<and>
    (\<forall>r\<in>set rs \<union> Q. map_of dg' (formatAssetRef r) = asset_digest cl s batch r)"
  using assms
proof (induction rs arbitrary: dg Q)
  case (Cons r rs)
  have d: "dotless x" if "x \<in> set rs \<union> insert r Q" for x using Cons.prems(2) that by auto
  have inj: "formatAssetRef x = formatAssetRef r \<Longrightarrow> x = r" if "x \<in> Q" for x
    using format_inj [of x r] d that by (auto simp: dotless_def)
  show ?case
  proof (cases "map_of dg (formatAssetRef r) = None")
    case True
    then obtain x where x: "asset_digest cl s batch r = Some x"
      and rd: "resolve_digests cl s batch rs (kv_set (formatAssetRef r) x dg) = Inr dg'"
      using Cons.prems(1) by (auto split: option.splits)
    have "(\<forall>k. map_of dg' k \<noteq> None \<longleftrightarrow> k \<in> formatAssetRef ` (set rs \<union> insert r Q)) \<and>
      (\<forall>r\<in>set rs \<union> insert r Q. map_of dg' (formatAssetRef r) = asset_digest cl s batch r)"
      using Cons.prems(3,4) x by (intro Cons.IH [OF rd d]) (auto dest: inj)
    then show ?thesis by simp
  next
    case False
    then have "formatAssetRef r \<in> formatAssetRef ` Q" using Cons.prems(3) by blast
    then obtain q where "q \<in> Q" "formatAssetRef q = formatAssetRef r" by (metis imageE)
    with inj have "r \<in> Q" by blast
    then have un: "set (r # rs) \<union> Q = set rs \<union> Q" by auto
    from False Cons.prems(1) have rd: "resolve_digests cl s batch rs dg = Inr dg'" by simp
    show ?thesis unfolding un
      using Cons.prems(2-4) by (intro Cons.IH [OF rd]) (auto simp: un)
  qed
qed simp

text \<open>What a stamp leaves of the other fields, and what it puts into its own.\<close>

definition digests_of :: "any_map \<Rightarrow> string \<Rightarrow> string option" where
  "digests_of spec k =
     (case map_of spec digests_field of
        Some (JObj dg) \<Rightarrow> (case map_of dg k of Some (JStr d) \<Rightarrow> Some d | _ \<Rightarrow> None)
      | _ \<Rightarrow> None)"

lemma scanned_digests: "\<not> scanned_key digests_field"
  by (simp add: scanned_key_def has_prefix_def)

lemma map_of_JStr: "map_of (map (\<lambda>(k, d). (k, JStr d)) dg) k = map_option JStr (map_of dg k)"
  by (induction dg) auto

lemma kv_set_distinct: "distinct (map fst kvs) \<Longrightarrow> distinct (map fst (kv_set k v kvs))"
proof -
  have "set (map fst (kv_set k v kvs)) = insert k (set (map fst kvs))" for kvs
    by (induction k v kvs rule: kv_set.induct) auto
  then show "distinct (map fst kvs) \<Longrightarrow> distinct (map fst (kv_set k v kvs))"
    by (induction k v kvs rule: kv_set.induct) auto
qed

lemma resolve_digests_distinct:
  "resolve_digests cl s batch rs dg = Inr dg' \<Longrightarrow> distinct (map fst dg) \<Longrightarrow> distinct (map fst dg')"
  by (induction rs arbitrary: dg) (auto intro: kv_set_distinct split: if_splits option.splits)

text \<open>A decoded spec: entries in key order, each a value that decodes to itself.\<close>

definition decoded :: "(int \<Rightarrow> int) \<Rightarrow> any_map \<Rightarrow> bool" where
  "decoded num fs = (go_map fs = fs \<and> (\<forall>e\<in>set fs. any_value num (snd e) = snd e))"

lemma decoded_any_map:
  assumes "\<And>n. num (num n) = num n" "any_map num v = Inr (Some fs)"
  shows "decoded num fs"
proof -
  from assms(2) obtain gs where gs: "fs = go_map (map (map_prod id (any_value num)) gs)"
    by (auto simp: any_map_def split: json.splits)
  have "snd e \<in> range (any_value num)" if "e \<in> set fs" for e
  proof -
    have "set fs \<subseteq> set (map (map_prod id (any_value num)) gs)"
      unfolding gs go_map_def
      using first_entries_map_of map_of_SomeD by (fastforce simp: foldr_insert_field first_entries_distinct)
    with that show ?thesis by auto
  qed
  then have "any_value num (snd e) = snd e" if "e \<in> set fs" for e
    using any_value_idem [of num, OF assms(1)] that by (metis imageE)
  then show ?thesis by (simp add: decoded_def gs)
qed

lemma decoded_distinct: "decoded num fs \<Longrightarrow> distinct (map fst fs)"
  using go_map_distinct [of fs] by (simp add: decoded_def)

lemma any_map_decoded: "decoded num fs \<Longrightarrow> any_map num (JObj fs) = Inr (Some fs)"
proof -
  assume d: "decoded num fs"
  then have "map (map_prod id (any_value num)) fs = fs"
    by (intro map_idI) (auto simp: decoded_def)
  with d show ?thesis by (simp add: any_map_def decoded_def)
qed

lemma decoded_kv_del: "decoded num fs \<Longrightarrow> decoded num (kv_del k fs)"
proof -
  assume d: "decoded num fs"
  have "sorted_wrt (\<lambda>a b. le_str (fst a) (fst b)) fs" using go_map_sorted [of fs] d by (simp add: decoded_def)
  then have "sorted_wrt (\<lambda>a b. le_str (fst a) (fst b)) (kv_del k fs)"
    by (auto simp: kv_del_def intro: sorted_wrt_filter)
  moreover have "distinct (map fst (kv_del k fs))"
    using decoded_distinct [OF d] by (simp add: kv_del_def distinct_fst_filter)
  ultimately show ?thesis using d by (auto simp: decoded_def go_map_id kv_del_def)
qed

lemma kv_del_stamp:
  assumes "go_map fs = fs" and "map_of fs k = None"
  shows "kv_del k (go_map (kv_set k v fs)) = fs"
proof -
  have df: "distinct (map fst fs)" using go_map_distinct [of fs] by (simp add: assms(1))
  have sf: "sorted_wrt (\<lambda>a b. le_str (fst a) (fst b)) fs" using go_map_sorted [of fs] by (simp add: assms(1))
  let ?g = "go_map (kv_set k v fs)"
  have dg: "distinct (map fst (kv_del k ?g))" by (simp add: kv_del_def distinct_fst_filter)
  have sg: "sorted_wrt (\<lambda>a b. le_str (fst a) (fst b)) (kv_del k ?g)"
    by (auto simp: kv_del_def intro: sorted_wrt_filter go_map_sorted)
  have "map_of (kv_del k ?g) = map_of fs"
    using assms(2) by (simp add: map_of_go_map map_of_rev_distinct kv_set_distinct [OF df] fun_upd_idem)
  then have "set (kv_del k ?g) = set fs" using dg df map_of_inject_set by blast
  then show ?thesis by (intro sorted_fields_unique) (use dg df sg sf in auto)
qed

lemma any_digests: "any_value num (JObj (go_map (map (\<lambda>(k, d). (k, JStr d)) dg))) = JObj (go_map (map (\<lambda>(k, d). (k, JStr d)) dg))"
proof -
  have "map (map_prod id (any_value num)) (map (\<lambda>(k, d). (k, JStr d)) dg) = map (\<lambda>(k, d). (k, JStr d)) dg"
    by auto
  then show ?thesis by (simp only: any_value.simps go_map_map fst_map_prod id_apply go_map_idem)
qed

lemma set_kv_set: "e \<in> set (kv_set k v fs) \<Longrightarrow> e = (k, v) \<or> e \<in> set fs"
  by (induction k v fs rule: kv_set.induct) (auto split: if_splits)

lemma decoded_stamp:
  assumes "decoded num fs" and "any_value num v = v"
  shows "decoded num (go_map (kv_set k v fs))"
proof -
  have "any_value num (snd e) = snd e" if "e \<in> set (go_map (kv_set k v fs))" for e
  proof -
    have "e \<in> set (kv_set k v fs)"
      using that by (simp only: set_go_map [OF kv_set_distinct [OF decoded_distinct [OF assms(1)]]])
    then have "e = (k, v) \<or> e \<in> set fs" by (rule set_kv_set)
    then show ?thesis using assms by (auto simp: decoded_def)
  qed
  then show ?thesis by (simp add: decoded_def)
qed

lemma stamp_refs:
  assumes "map_of fs digests_field = None" "decoded num fs"
  shows "kv_del digests_field (go_map fs) = fs"
proof -
  have "kv_del digests_field fs = fs"
    using assms(1) by (auto simp: kv_del_def filter_id_conv map_of_eq_None_iff image_iff)
  with assms(2) show ?thesis by (simp add: decoded_def)
qed

lemma digests_of_stamped:
  assumes "distinct (map fst dg)" and "decoded num d"
  shows "digests_of (go_map (kv_set digests_field (JObj (go_map (map (\<lambda>(k, d). (k, JStr d)) dg))) d)) k = map_of dg k"
proof -
  have "distinct (map fst (map (\<lambda>(k, d). (k, JStr d)) dg))" using assms(1) by (simp add: comp_def case_prod_unfold)
  then have "map_of (go_map (map (\<lambda>(k, d). (k, JStr d)) dg)) k = map_option JStr (map_of dg k)"
    by (simp only: map_of_go_map map_of_rev_distinct map_of_JStr)
  moreover have "map_of (go_map (kv_set digests_field (JObj (go_map (map (\<lambda>(k, d). (k, JStr d)) dg))) d)) digests_field =
      Some (JObj (go_map (map (\<lambda>(k, d). (k, JStr d)) dg)))"
    by (simp add: map_of_go_map map_of_rev_distinct kv_set_distinct decoded_distinct [OF assms(2)])
  ultimately show ?thesis by (cases "map_of dg k") (simp_all add: digests_of_def)
qed

text \<open>
  C4: A stamped consumer carries, under \<open>_asset_digests\<close>, exactly the digests of the references of its
  spec: each that of the batch, else of the recorded status, and none for anything else. The other
  fields are those of the decoded spec, and stamping the result again changes nothing.
\<close>

theorem stamping_exact_and_stable:
  assumes "\<And>n. num (num n) = num n"
    and "any_map num (m_spec m) = Inr (Some fs)" and "spec_refs (kv_del digests_field fs) = Inr refs"
    and "stampConsumerSpec cl s num batch m = Inr m'"
  shows "stampConsumerSpec cl s num batch m' = Inr m' \<and>
    (\<exists>fs'. m_spec m' = JObj fs' \<and> (\<forall>k. k \<noteq> digests_field \<longrightarrow> map_of fs' k = map_of fs k)
       \<and> (\<forall>k. digests_of fs' k \<noteq> None \<longleftrightarrow> k \<in> formatAssetRef ` set refs)
       \<and> (\<forall>r\<in>set refs. digests_of fs' (formatAssetRef r) = asset_digest cl s batch r))"
proof -
  let ?d = "kv_del digests_field fs"
  have df: "decoded num fs" by (rule decoded_any_map [OF assms(1,2)])
  have dd: "decoded num ?d" by (rule decoded_kv_del [OF df])
  have nd: "map_of ?d digests_field = None" by simp
  from assms(2) have nn: "m_spec m \<noteq> JNull" by (auto simp: any_map_def)
  from assms(2,4) nn obtain gs where st: "stamp_map cl s batch ?d = Inr gs" and m': "m' = m\<lparr>m_spec := JObj (go_map gs)\<rparr>"
    by (auto simp: stampConsumerSpec_def map_json_def bind_ok_Inr)
  have other: "map_of ?d k = map_of fs k" if "k \<noteq> digests_field" for k using that by simp
  show ?thesis
  proof (cases "refs = []")
    case True
    with st assms(3) have gs: "gs = ?d" by (simp add: stamp_map_def)
    have "decoded num (go_map gs)" using dd unfolding gs by (simp add: decoded_def)
    then have again: "stampConsumerSpec cl s num batch m' = Inr m'"
      using any_map_decoded [of num "go_map gs"] stamp_refs [OF nd dd] st gs
      by (simp add: m' stampConsumerSpec_def map_json_def)
    show ?thesis
      using again other nd dd True
      by (simp add: m' gs map_of_go_map map_of_rev_distinct decoded_distinct digests_of_def)
  next
    case False
    with st assms(3) obtain dg where rd: "resolve_digests cl s batch refs [] = Inr dg"
      and gs: "gs = kv_set digests_field (JObj (go_map (map (\<lambda>(k, d). (k, JStr d)) dg))) ?d"
      by (auto simp: stamp_map_def bind_ok_Inr)
    have dk: "(\<forall>k. map_of dg k \<noteq> None \<longleftrightarrow> k \<in> formatAssetRef ` set refs) \<and>
      (\<forall>r\<in>set refs. map_of dg (formatAssetRef r) = asset_digest cl s batch r)"
      using resolve_digests_Inr [OF rd, of "{}"] spec_refs_dotless [OF assms(3)] by simp
    have dist: "distinct (map fst dg)" by (rule resolve_digests_distinct [OF rd]) simp
    have dgk: "digests_of (go_map gs) k = map_of dg k" for k
      unfolding gs by (rule digests_of_stamped [OF dist dd])
    have dn: "decoded num (go_map gs)" unfolding gs by (rule decoded_stamp [OF dd any_digests])
    have del: "kv_del digests_field (go_map gs) = ?d"
      unfolding gs using dd nd by (intro kv_del_stamp) (simp_all add: decoded_def)
    have again: "stampConsumerSpec cl s num batch m' = Inr m'"
      using any_map_decoded [OF dn] st by (simp add: m' stampConsumerSpec_def map_json_def del)
    have keep: "k \<noteq> digests_field \<Longrightarrow> map_of (go_map gs) k = map_of fs k" for k
      using other by (simp add: gs map_of_go_map map_of_rev_distinct kv_set_distinct decoded_distinct [OF dd])
    show ?thesis using again keep dgk dk by (simp add: m')
  qed
qed

section \<open>The disk\<close>

text \<open>
  What the asset code relies on from the file system, for a view of it as a map from the paths of
  regular files to their contents: no operation touches a file it does not name, a created temporary
  file is new, a rename moves the whole content, and the download cache is not under the assets.
\<close>

locale asset_disk =
  fixes dk :: "'f disk" and files :: "'f \<Rightarrow> string \<Rightarrow> string option" and root :: string
  assumes mkdir_files: "files (fst (dk_mkdir dk fs p)) = files fs"
    and is_dir_file: "dk_is_dir dk fs p \<Longrightarrow> files fs p = None"
    and remove_all_files: "q \<noteq> p \<Longrightarrow> \<not> has_prefix q (p @ ''/'') \<Longrightarrow> files (fst (dk_remove_all dk fs p)) q = files fs q"
    and create_temp_files: "dk_create_temp dk fs d (b @ ''*'') = Inr (fs', tmp) \<Longrightarrow>
      files fs tmp = None \<and> files fs' = (files fs)(tmp \<mapsto> []) \<and> (\<exists>r. tmp = d @ ''/'' @ b @ r)"
    and write_other: "q \<noteq> p \<Longrightarrow> files (fst (dk_write dk fs p c)) q = files fs q"
    and write_file: "dk_write dk fs p c = (fs', None) \<Longrightarrow> files fs p = Some [] \<Longrightarrow> files fs' p = Some c"
    and chmod_files: "files (fst (dk_chmod dk fs p)) = files fs"
    and rename_files: "dk_rename dk fs p q = Inr fs' \<Longrightarrow> files fs p = Some c \<Longrightarrow> p \<noteq> q \<Longrightarrow>
      files fs' = (files fs)(q \<mapsto> c, p := None)"
    and remove_files: "dk_remove dk fs p = Inr fs' \<Longrightarrow> files fs' = (files fs)(p := None)"
    and read_dir_names: "dk_read_dir dk fs d = Inr es \<Longrightarrow> (n, isd) \<in> set es \<Longrightarrow> plain_elem n"
    and read_file: "dk_read dk fs p = Inr c \<Longrightarrow> files fs p = Some c"
    and fetch_files: "has_prefix p (AssetsDir root @ ''/'') \<Longrightarrow> files (fst (dk_fetch dk fs u t)) p = files fs p"
begin

text \<open>A write that fails leaves every file that was there; one that succeeds changes its target alone.\<close>

lemma drop_temp_files: "files fs tmp = None \<or> p \<noteq> tmp \<Longrightarrow> p \<noteq> tmp \<Longrightarrow> files (drop_temp dk fs tmp) p = files fs p"
  using remove_files by (auto simp: drop_temp_def split: sum.splits)

lemma atomicWrite_files:
  assumes "atomicWrite dk fs (rooted_path es @ ''/'' @ e) c = (fs', r)"
    and "list_all plain_elem es" "es \<noteq> []" "plain_elem e"
  shows "(r = None \<longrightarrow> files fs' (rooted_path es @ ''/'' @ e) = Some c)
    \<and> (\<forall>p. p \<noteq> rooted_path es @ ''/'' @ e \<longrightarrow> files fs p \<noteq> None \<longrightarrow> files fs' p = files fs p)
    \<and> (\<forall>p. \<not> has_prefix p (rooted_path es @ ''/'') \<longrightarrow> files fs' p = files fs p)
    \<and> (r \<noteq> None \<longrightarrow> files fs' (rooted_path es @ ''/'' @ e) = files fs (rooted_path es @ ''/'' @ e))"
proof -
  let ?d = "rooted_path es" and ?p = "rooted_path es @ ''/'' @ e"
  have dir: "path_dir ?p = ?d" and base: "path_base ?p = e"
    by (rule path_dir_below [OF assms(2-4)], rule path_base_below [OF assms(4)])
  obtain fs1 r1 where m: "dk_mkdir dk fs ?d = (fs1, r1)" by (cases "dk_mkdir dk fs ?d")
  have f1: "files fs1 = files fs" using mkdir_files [of fs ?d] m by simp
  show ?thesis
  proof (cases r1)
    case (Some x)
    with assms(1) m f1 dir show ?thesis by (auto simp: atomicWrite_def)
  next
    case None
    show ?thesis
    proof (cases "dk_create_temp dk fs1 ?d (e @ ''.tmp-*'')")
      case (Inl x)
      with assms(1) m f1 dir base None show ?thesis by (auto simp: atomicWrite_def)
    next
      case (Inr ft)
      obtain fs2 tmp where ft: "ft = (fs2, tmp)" by (cases ft)
      have t: "files fs1 tmp = None" "files fs2 = (files fs1)(tmp \<mapsto> [])" "\<exists>x. tmp = ?d @ ''/'' @ (e @ ''.tmp-'') @ x"
        using create_temp_files [of fs1 ?d "e @ ''.tmp-''"] Inr ft by auto
      from t(3) have tp: "tmp \<noteq> ?p" "has_prefix tmp (?d @ ''/'')" by (auto simp: has_prefix_iff)
      obtain fs3 r3 where w: "dk_write dk fs2 tmp c = (fs3, r3)" by (cases "dk_write dk fs2 tmp c")
      have f3: "files fs3 p = files fs p" if "p \<noteq> tmp" for p
        using write_other [OF that, of fs2 c] w t f1 that by simp
      have old: "files fs p \<noteq> None \<Longrightarrow> p \<noteq> tmp" "\<not> has_prefix p (?d @ ''/'') \<Longrightarrow> p \<noteq> tmp" for p
        using t(1) tp f1 by auto
      show ?thesis
      proof (cases r3)
        case (Some x)
        with assms(1) m dir base None Inr ft w have "fs' = drop_temp dk fs3 tmp" "r \<noteq> None"
          by (auto simp: atomicWrite_def)
        then show ?thesis using drop_temp_files f3 old tp by auto
      next
        case r3: None
        obtain fs4 r4 where ch: "dk_chmod dk fs3 tmp = (fs4, r4)" by (cases "dk_chmod dk fs3 tmp")
        have f4: "files fs4 = files fs3" using chmod_files [of fs3 tmp] ch by simp
        show ?thesis
        proof (cases r4)
          case (Some x)
          with assms(1) m dir base None Inr ft w r3 ch have "fs' = drop_temp dk fs4 tmp" "r \<noteq> None"
            by (auto simp: atomicWrite_def)
          then show ?thesis using drop_temp_files f3 f4 old tp by auto
        next
          case r4: None
          show ?thesis
          proof (cases "dk_rename dk fs4 tmp ?p")
            case (Inl x)
            with assms(1) m dir base None Inr ft w r3 ch r4 have "fs' = fs4" "r \<noteq> None"
              by (auto simp: atomicWrite_def)
            then show ?thesis using f3 f4 old tp by auto
          next
            case R: (Inr fs5)
            with assms(1) m dir base None Inr ft w r3 ch r4 have e: "fs' = fs5" "r = None"
              by (auto simp: atomicWrite_def)
            have "files fs4 tmp = Some c" using write_file [of fs2 tmp c] w r3 t f4 by auto
            from rename_files [OF R this tp(1)] show ?thesis
              using e f3 f4 old tp t(1) f1 has_prefix_append [of "?d @ ''/''" e] by auto
          qed
        qed
      qed
    qed
  qed
qed

text \<open>The directory of an asset under a plain root, and its files.\<close>

definition plain_asset :: "string \<Rightarrow> string \<Rightarrow> bool" where
  "plain_asset scope nm =
     ((\<exists>rs. root = rooted_path rs \<and> list_all plain_elem rs) \<and> (scope = [] \<or> plain_elem scope) \<and> plain_elem nm)"

lemma valid_key_plain: "validAssetKey k \<Longrightarrow> plain_elem k"
  by (auto simp: validAssetKey_def plain_elem_def list_all_iff ident_char_def ident_start_def)

lemma asset_dir:
  assumes "plain_asset scope nm"
  shows "\<exists>es. AssetDir root scope nm = rooted_path es \<and> list_all plain_elem es \<and> es \<noteq> []
    \<and> (\<forall>e. plain_elem e \<longrightarrow> path_join [AssetDir root scope nm, e] = rooted_path es @ ''/'' @ e)
    \<and> (\<forall>p. has_prefix p (rooted_path es @ ''/'') \<longrightarrow> has_prefix p (AssetsDir root @ ''/''))"
proof -
  from assms obtain rs where rs: "root = rooted_path rs" "list_all plain_elem rs"
    and sc: "scope = [] \<or> plain_elem scope" and nm: "plain_elem nm" by (auto simp: plain_asset_def)
  have pa: "plain_elem ''assets''" by (simp add: plain_elem_def)
  have as: "AssetsDir root = rooted_path (rs @ [''assets''])"
    unfolding AssetsDir_def rs(1) by (rule path_join_rooted [OF rs(2) pa])
  let ?es = "(rs @ [''assets'']) @ filter (\<lambda>e. e \<noteq> []) [scope, nm]"
  have d: "AssetDir root scope nm = rooted_path ?es"
    unfolding AssetDir_def as using rs(2) pa sc nm by (intro path_join_elems) auto
  have pl: "list_all plain_elem ?es" using rs(2) pa sc nm by auto
  have jn: "path_join [rooted_path ?es, e] = rooted_path ?es @ ''/'' @ e" if "plain_elem e" for e
    using path_join_elems [OF pl, of "[e]"] that rooted_snoc [of ?es e] by (simp add: plain_elem_def)
  have nmne: "nm \<noteq> []" using nm by (simp add: plain_elem_def)
  have "rooted_path ?es = rooted_path (rs @ [''assets'']) @ ''/'' @ (if scope = [] then nm else scope @ ''/'' @ nm)"
    using rooted_snoc [of "rs @ [''assets'']" nm] rooted_snoc [of "rs @ [''assets'']" scope]
      rooted_snoc [of "(rs @ [''assets'']) @ [scope]" nm] nmne by auto
  then have "has_prefix p (rooted_path ?es @ ''/'') \<Longrightarrow> has_prefix p (AssetsDir root @ ''/'')" for p
    unfolding as by (auto simp: has_prefix_iff split: if_splits)
  with d pl jn show ?thesis by (intro exI [of _ ?es]) auto
qed

lemma asset_file:
  assumes "plain_asset scope nm" "validAssetKey k"
  shows "AssetFile root scope nm k = AssetDir root scope nm @ ''/'' @ k"
  using asset_dir [OF assms(1)] valid_key_plain [OF assms(2)] by (auto simp: AssetFile_def)

lemma resolve_source_disk:
  "fst (resolve_source dk fs raw) = fs \<or> (\<exists>u t. fst (resolve_source dk fs raw) = fst (dk_fetch dk fs u t))"
proof -
  have fetched: "fst (case x of (fs', r) \<Rightarrow> (fs', o', r)) = fst x" for x :: "'f \<times> (string + string)" and o' :: string
    by (simp add: case_prod_unfold)
  consider s where "raw = JStr s" | e where "any_map id raw = Inl e" "\<forall>s. raw \<noteq> JStr s"
    | m where "any_map id raw = Inr m" "\<forall>s. raw \<noteq> JStr s"
    by (cases "any_map id raw") blast+
  then show ?thesis
  proof cases
    case (3 m)
    let ?o = "case m of None \<Rightarrow> [] | Some o' \<Rightarrow> o'"
    have eq: "resolve_source dk fs raw = (let obj = ?o; src = (case map_of obj ''_source'' of Some (JStr t) \<Rightarrow> t | _ \<Rightarrow> [])
      in if src = ''file'' then
           (case map_of obj ''content'' of
              Some (JStr c) \<Rightarrow> (case b64_decode c of None \<Rightarrow> (fs, [], Inl ''file source: invalid base64'') | Some bytes \<Rightarrow> (fs, [], Inr bytes))
            | _ \<Rightarrow> (fs, [], Inl ''file source missing content string''))
         else if src = ''url'' then
           (case map_of obj ''url'' of
              Some (JStr u) \<Rightarrow> (let opt = stringOr (map_of obj ''on_failure'') ''stale''
                 in case dk_fetch dk fs u (parseDurationOrZero (map_of obj ''timeout'')) of (fs', r) \<Rightarrow> (fs', opt, r))
            | _ \<Rightarrow> (fs, [], Inl ''url source missing url string''))
         else (fs, [], Inl (''unknown asset source '' @ src @ '' (want file|url|inline)'')))"
      using 3 by (cases raw) (simp_all add: resolve_source_def)
    show ?thesis unfolding eq Let_def
      by (cases "map_of ?o ''content''"; cases "map_of ?o ''url''") (auto simp: fetched split: json.split option.split)
  qed (auto simp: resolve_source_def split: json.split)
qed

lemma resolve_source_files:
  "has_prefix p (AssetsDir root @ ''/'') \<Longrightarrow> files (fst (resolve_source dk fs raw)) p = files fs p"
  using resolve_source_disk [of fs raw] fetch_files [of p fs] by auto

text \<open>The files that carry the digests computed so far.\<close>

definition backed :: "string \<Rightarrow> string \<Rightarrow> 'f \<Rightarrow> vars \<Rightarrow> bool" where
  "backed scope nm fs dg = (\<forall>k d. map_of dg k = Some d \<longrightarrow>
     (\<exists>c. files fs (AssetFile root scope nm k) = Some c \<and> d = dk_sha dk c))"

definition below :: "string \<Rightarrow> string \<Rightarrow> string \<Rightarrow> bool" where
  "below scope nm p = has_prefix p (AssetDir root scope nm @ ''/'')"

text \<open>Clearing and writing one key: the other keys of the asset keep their files.\<close>

lemma write_key_files:
  assumes pa: "plain_asset scope nm" and v: "validAssetKey key"
    and cl: "(if dk_is_dir dk fs (AssetFile root scope nm key) then dk_remove_all dk fs (AssetFile root scope nm key) else (fs, None)) = (fs2, None)"
    and w: "atomicWrite dk fs2 (AssetFile root scope nm key) c = (fs3, r)"
  shows "r = None \<Longrightarrow> files fs3 (AssetFile root scope nm key) = Some c"
    and "validAssetKey k \<Longrightarrow> k \<noteq> key \<Longrightarrow> files fs (AssetFile root scope nm k) \<noteq> None \<Longrightarrow>
      files fs3 (AssetFile root scope nm k) = files fs (AssetFile root scope nm k)"
    and "\<not> below scope nm p \<Longrightarrow> files fs3 p = files fs p"
proof -
  obtain es where es: "AssetDir root scope nm = rooted_path es" "list_all plain_elem es" "es \<noteq> []"
    using asset_dir [OF pa] by blast
  have f: "AssetFile root scope nm k = rooted_path es @ ''/'' @ k" if "validAssetKey k" for k
    using asset_file [OF pa that] es(1) by simp
  have w': "atomicWrite dk fs2 (rooted_path es @ ''/'' @ key) c = (fs3, r)" using w f [OF v] by simp
  note aw = atomicWrite_files [OF w' es(2,3) valid_key_plain [OF v]]
  have keep: "files fs2 p = files fs p" if "p \<noteq> rooted_path es @ ''/'' @ key" "\<not> has_prefix p (rooted_path es @ ''/'' @ key @ ''/'')" for p
    using cl that remove_all_files [of p "rooted_path es @ ''/'' @ key" fs] f [OF v] by (auto split: if_splits)
  show "r = None \<Longrightarrow> files fs3 (AssetFile root scope nm key) = Some c" using aw f [OF v] by simp
  show "files fs3 (AssetFile root scope nm k) = files fs (AssetFile root scope nm k)"
    if k: "validAssetKey k" "k \<noteq> key" "files fs (AssetFile root scope nm k) \<noteq> None"
  proof -
    have ns: "CHR ''/'' \<notin> set k" using valid_key_plain [OF k(1)] by (simp add: plain_elem_def)
    have "\<not> has_prefix (rooted_path es @ ''/'' @ k) (rooted_path es @ ''/'' @ key @ ''/'')"
      using ns by (auto simp: has_prefix_iff)
    with keep k f [OF k(1)] have "files fs2 (AssetFile root scope nm k) = files fs (AssetFile root scope nm k)" by simp
    with aw k f [OF k(1)] show ?thesis by simp
  qed
  show "files fs3 p = files fs p" if "\<not> below scope nm p"
  proof -
    have "\<not> has_prefix p (rooted_path es @ ''/'')" using that es(1) by (simp add: below_def)
    moreover from this have "p \<noteq> rooted_path es @ ''/'' @ key" "\<not> has_prefix p (rooted_path es @ ''/'' @ key @ ''/'')"
      by (auto simp: has_prefix_iff)
    ultimately show ?thesis using aw keep by simp
  qed
qed

definition valid_keys :: "vars \<Rightarrow> bool" where
  "valid_keys dg = (\<forall>k. map_of dg k \<noteq> None \<longrightarrow> validAssetKey k)"

definition kept :: "string \<Rightarrow> string \<Rightarrow> 'f \<Rightarrow> 'f \<Rightarrow> vars \<Rightarrow> bool" where
  "kept scope nm fs fs' dg =
     ((\<forall>k. map_of dg k \<noteq> None \<longrightarrow> files fs (AssetFile root scope nm k) \<noteq> None \<longrightarrow>
         files fs' (AssetFile root scope nm k) = files fs (AssetFile root scope nm k))
      \<and> (\<forall>p. has_prefix p (AssetsDir root @ ''/'') \<longrightarrow> \<not> below scope nm p \<longrightarrow> files fs' p = files fs p))"

lemma backed_kept: "backed scope nm fs dg \<Longrightarrow> kept scope nm fs fs' dg \<Longrightarrow> backed scope nm fs' dg"
  unfolding backed_def kept_def by (metis option.distinct(1))

lemma kept_refl: "kept scope nm fs fs dg"
  by (simp add: kept_def)

lemma kept_trans: "kept scope nm fs fs1 dg \<Longrightarrow> kept scope nm fs1 fs2 dg \<Longrightarrow> kept scope nm fs fs2 dg"
  unfolding kept_def by metis

lemma asset_file_prefix:
  assumes "plain_asset scope nm" "validAssetKey k"
  shows "has_prefix (AssetFile root scope nm k) (AssetsDir root @ ''/'')"
  using asset_dir [OF assms(1)] asset_file [OF assms] by (auto simp: has_prefix_iff)

lemma source_kept: "plain_asset scope nm \<Longrightarrow> valid_keys dg \<Longrightarrow> kept scope nm fs (fst (resolve_source dk fs raw)) dg"
  using resolve_source_files [of _ fs raw] asset_file_prefix by (auto simp: kept_def valid_keys_def)

lemma clear_kept:
  assumes "plain_asset scope nm" "valid_keys dg" "map_of dg key = None" "validAssetKey key"
  shows "kept scope nm fs (fst (if dk_is_dir dk fs (AssetFile root scope nm key)
    then dk_remove_all dk fs (AssetFile root scope nm key) else (fs, None))) dg"
proof -
  have f: "AssetFile root scope nm k = AssetDir root scope nm @ ''/'' @ k" if "validAssetKey k" for k
    by (rule asset_file [OF assms(1) that])
  have "files (fst (dk_remove_all dk fs (AssetFile root scope nm key))) (AssetFile root scope nm k) = files fs (AssetFile root scope nm k)"
    if k: "map_of dg k \<noteq> None" for k
  proof (rule remove_all_files)
    have v: "validAssetKey k" "k \<noteq> key" using assms(2,3) k by (auto simp: valid_keys_def)
    show "AssetFile root scope nm k \<noteq> AssetFile root scope nm key" using f [OF v(1)] f [OF assms(4)] v(2) by simp
    show "\<not> has_prefix (AssetFile root scope nm k) (AssetFile root scope nm key @ ''/'')"
      using f [OF v(1)] f [OF assms(4)] valid_key_plain [OF v(1)] by (auto simp: has_prefix_iff plain_elem_def)
  qed
  moreover have "files (fst (dk_remove_all dk fs (AssetFile root scope nm key))) p = files fs p" if "\<not> below scope nm p" for p
    using that by (intro remove_all_files) (auto simp: below_def f [OF assms(4)] has_prefix_iff)
  ultimately show ?thesis by (auto simp: kept_def)
qed

lemma write_kept:
  assumes "plain_asset scope nm" "valid_keys dg" "map_of dg key = None" "validAssetKey key"
    and "(if dk_is_dir dk fs (AssetFile root scope nm key) then dk_remove_all dk fs (AssetFile root scope nm key) else (fs, None)) = (fs2, None)"
    and "atomicWrite dk fs2 (AssetFile root scope nm key) c = (fs3, r)"
  shows "kept scope nm fs fs3 dg" "r = None \<Longrightarrow> files fs3 (AssetFile root scope nm key) = Some c"
  using write_key_files [OF assms(1,4,5,6)] assms(2,3) by (auto simp: kept_def valid_keys_def) (metis option.distinct(1))+

text \<open>The loop over the keys: what it has written stays, and every key ends in one of the two maps.\<close>

lemma write_keys_files:
  assumes "write_keys dk root scope nm fs kvs dg er = (fs', dg', er', None)"
    and "plain_asset scope nm" "distinct (map fst kvs)" "\<forall>k\<in>set (map fst kvs). map_of dg k = None"
    and "valid_keys dg" "backed scope nm fs dg"
  shows "backed scope nm fs' dg' \<and> valid_keys dg'
    \<and> (\<forall>k. k \<in> set (map fst kvs) \<or> map_of dg k \<noteq> None \<or> map_of er k \<noteq> None \<longrightarrow> map_of dg' k \<noteq> None \<or> map_of er' k \<noteq> None)
    \<and> (\<forall>k. map_of dg' k \<noteq> None \<longrightarrow> k \<in> set (map fst kvs) \<or> map_of dg k \<noteq> None)
    \<and> (\<forall>p. has_prefix p (AssetsDir root @ ''/'') \<longrightarrow> \<not> below scope nm p \<longrightarrow> files fs' p = files fs p)"
  using assms
proof (induction kvs arbitrary: fs dg er)
  case (Cons kv kvs)
  obtain key raw where kv: "kv = (key, raw)" by (cases kv)
  have new: "map_of dg key = None" using Cons.prems(4) by (simp add: kv)
  have again: ?case
    if wk: "write_keys dk root scope nm fs1 kvs dg (kv_set key e er) = (fs', dg', er', None)"
      and kp: "kept scope nm fs fs1 dg" for fs1 e
  proof -
    have "\<forall>k\<in>set (map fst kvs). map_of dg k = None" "distinct (map fst kvs)" using Cons.prems(3,4) by auto
    from Cons.IH [OF wk Cons.prems(2) this(2,1) Cons.prems(5) backed_kept [OF Cons.prems(6) kp]] kp
    show ?thesis by (auto simp: kv kept_def)
  qed
  show ?case
  proof (cases "validAssetKey key")
    case False
    with Cons.prems(1) show ?thesis by (intro again [OF _ kept_refl]) (simp add: kv)
  next
    case v: True
    obtain fs1 opt res where rs: "resolve_source dk fs raw = (fs1, opt, res)" by (cases "resolve_source dk fs raw")
    have k1: "kept scope nm fs fs1 dg" using source_kept [OF Cons.prems(2,5), of fs raw] rs by simp
    show ?thesis
    proof (cases res)
      case (Inl e)
      with Cons.prems(1) v rs show ?thesis by (intro again [OF _ k1]) (simp add: kv split: if_splits)
    next
      case (Inr bytes)
      let ?dst = "AssetFile root scope nm key"
      obtain fs2 r2 where cl: "(if dk_is_dir dk fs1 ?dst then dk_remove_all dk fs1 ?dst else (fs1, None)) = (fs2, r2)"
        by (cases "if dk_is_dir dk fs1 ?dst then dk_remove_all dk fs1 ?dst else (fs1, None)")
      have k2: "kept scope nm fs fs2 dg"
        using kept_trans [OF k1] clear_kept [OF Cons.prems(2,5) new v, of fs1] cl by simp
      show ?thesis
      proof (cases r2)
        case (Some e)
        with Cons.prems(1) v rs Inr cl show ?thesis by (intro again [OF _ k2]) (simp add: kv)
      next
        case r2: None
        obtain fs3 r3 where w: "atomicWrite dk fs2 ?dst bytes = (fs3, r3)" by (cases "atomicWrite dk fs2 ?dst bytes")
        note wk = write_kept [OF Cons.prems(2,5) new v cl [unfolded r2] w]
        have k3: "kept scope nm fs fs3 dg" by (rule kept_trans [OF k1 wk(1)])
        show ?thesis
        proof (cases r3)
          case (Some e)
          with Cons.prems(1) v rs Inr cl r2 w show ?thesis by (intro again [OF _ k3]) (simp add: kv)
        next
          case r3: None
          let ?dg = "kv_set key (dk_sha dk bytes) dg"
          from Cons.prems(1) v rs Inr cl r2 w r3
          have wr: "write_keys dk root scope nm fs3 kvs ?dg er = (fs', dg', er', None)" by (simp add: kv)
          have b: "backed scope nm fs3 ?dg"
            using backed_kept [OF Cons.prems(6) k3] wk(2) [OF r3] by (auto simp: backed_def)
          have vk: "valid_keys ?dg" using Cons.prems(5) v by (auto simp: valid_keys_def)
          have "\<forall>k\<in>set (map fst kvs). map_of ?dg k = None" "distinct (map fst kvs)"
            using Cons.prems(3,4) by (auto simp: kv)
          from Cons.IH [OF wr Cons.prems(2) this(2,1) vk b] k3 show ?thesis by (auto simp: kv kept_def)
        qed
      qed
    qed
  qed
qed (auto simp: valid_keys_def)

lemma sweep_files:
  assumes "plain_asset scope nm" "valid_keys dg" "\<forall>k. map_of dg k \<noteq> None \<longrightarrow> k \<in> set declared"
    and "\<forall>e\<in>set es. plain_elem (fst e)"
  shows "kept scope nm fs (sweep_entries dk (AssetDir root scope nm) declared fs es) dg"
  using assms(4)
proof (induction es arbitrary: fs)
  case (Cons e es)
  obtain n d where e: "e = (n, d)" by (cases e)
  from Cons.prems have pn: "plain_elem n" by (simp add: e)
  have path: "path_join [AssetDir root scope nm, n] = AssetDir root scope nm @ ''/'' @ n"
    using asset_dir [OF assms(1)] pn by auto
  show ?case
  proof (cases "d \<or> n \<in> set declared")
    case False
    have "kept scope nm fs fs1 dg" if "dk_remove dk fs (AssetDir root scope nm @ ''/'' @ n) = Inr fs1" for fs1
      using remove_files [OF that] assms(2,3) False asset_file [OF assms(1)]
      by (auto simp: kept_def valid_keys_def below_def has_prefix_iff)
    then have "kept scope nm fs (case dk_remove dk fs (AssetDir root scope nm @ ''/'' @ n) of Inl _ \<Rightarrow> fs | Inr fs1 \<Rightarrow> fs1) dg"
      by (auto simp: kept_refl split: sum.split)
    with Cons False show ?thesis by (auto simp: e path intro: kept_trans)
  qed (use Cons e in auto)
qed (simp add: kept_refl)

lemma recover_files:
  "backed scope nm fs dg \<Longrightarrow> backed scope nm fs (recover_stale dk root scope nm fs er dg)"
  "map_of dg k \<noteq> None \<Longrightarrow> map_of (recover_stale dk root scope nm fs er dg) k \<noteq> None"
proof (induction er arbitrary: dg)
  case (Cons e er)
  obtain key t where e: "e = (key, t)" by (cases e)
  {
    case 1
    then have "backed scope nm fs (case dk_read dk fs (AssetFile root scope nm key) of Inl _ \<Rightarrow> dg
        | Inr c \<Rightarrow> kv_set key (dk_sha dk c) dg)"
      using read_file by (auto simp: backed_def split: sum.split)
    then show ?case using Cons.IH(1) by (simp add: e)
  next
    case 2
    then show ?case using Cons.IH(2) by (simp add: e split: sum.split)
  }
qed auto

lemma asset_files_distinct: "asset_files spec = Inr kvs \<Longrightarrow> distinct (map fst kvs)"
  by (auto simp: asset_files_def bind_ok_Inr intro: first_entries_distinct)

lemma materialized:
  assumes "etcd_api cl kview" "plain_asset (m_scope m) (m_name m)"
    and mat: "materializeAssetSpec cl dk root s fs m = (s', fs', Inr (dg, er))"
    and decl: "asset_files (m_spec m) = Inr kvs"
  shows "(\<exists>at. kview s' = (kview s)(StatusKey ''asset'' (AppID (m_scope m) (m_name m)) \<mapsto>
            DAssetStatus \<lparr>as_files = dg, as_errors = er, as_at = at\<rparr>))
    \<and> backed (m_scope m) (m_name m) fs' dg
    \<and> (\<forall>k\<in>set (map fst kvs). map_of dg k \<noteq> None \<or> map_of er k \<noteq> None)
    \<and> (\<forall>p. has_prefix p (AssetsDir root @ ''/'') \<longrightarrow> \<not> below (m_scope m) (m_name m) p \<longrightarrow> files fs' p = files fs p)"
proof -
  let ?dir = "AssetDir root (m_scope m) (m_name m)"
  obtain fs1 o1 where mk1: "dk_mkdir dk fs ?dir = (fs1, o1)" by (cases "dk_mkdir dk fs ?dir")
  then have mk: "dk_mkdir dk fs ?dir = (fs1, None)"
    using mat decl by (cases o1) (auto simp: materializeAssetSpec_def Let_def split: if_splits)
  obtain fs2 dg2 er2 o2 where w: "write_keys dk root (m_scope m) (m_name m) fs1 kvs [] [] = (fs2, dg2, er2, o2)"
    by (cases "write_keys dk root (m_scope m) (m_name m) fs1 kvs [] []")
  have o2: "o2 = None"
    using mat decl mk w by (cases o2) (auto simp: materializeAssetSpec_def Let_def split: if_splits)
  let ?fs3 = "case dk_read_dir dk fs2 ?dir of Inl _ \<Rightarrow> fs2 | Inr es \<Rightarrow> sweep_entries dk ?dir (map fst kvs) fs2 es"
  have rest: "fs' = ?fs3" "er = er2" "dg = recover_stale dk root (m_scope m) (m_name m) ?fs3 er2 dg2"
    "PutStatus cl s ''asset'' (AppID (m_scope m) (m_name m))
       (DAssetStatus \<lparr>as_files = dg, as_errors = er, as_at = dk_clock dk ?fs3\<rparr>) = Inr s'"
    using mat decl mk w o2 by (auto simp: materializeAssetSpec_def Let_def split: if_splits sum.splits)
  have f1: "files fs1 = files fs" using mkdir_files [of fs ?dir] mk by simp
  have dist: "distinct (map fst kvs)" by (rule asset_files_distinct [OF decl])
  note wf = write_keys_files [OF w [unfolded o2] assms(2) dist]
  have bk: "backed (m_scope m) (m_name m) fs2 dg2" and vk: "valid_keys dg2"
    and cov: "\<forall>k\<in>set (map fst kvs). map_of dg2 k \<noteq> None \<or> map_of er2 k \<noteq> None"
    and dom: "\<forall>k. map_of dg2 k \<noteq> None \<longrightarrow> k \<in> set (map fst kvs)"
    and iso: "\<forall>p. has_prefix p (AssetsDir root @ ''/'') \<longrightarrow> \<not> below (m_scope m) (m_name m) p \<longrightarrow> files fs2 p = files fs p"
    using wf f1 by (auto simp: valid_keys_def backed_def)
  have "kept (m_scope m) (m_name m) fs2 ?fs3 dg2"
  proof (cases "dk_read_dir dk fs2 ?dir")
    case (Inr es)
    have "\<forall>e\<in>set es. plain_elem (fst e)" using read_dir_names [OF Inr] by auto
    from sweep_files [OF assms(2) vk dom this, of fs2] show ?thesis by (simp add: Inr)
  qed (simp add: kept_refl)
  then have k3: "kept (m_scope m) (m_name m) fs2 fs' dg2" by (simp only: rest(1))
  have "backed (m_scope m) (m_name m) fs' dg"
    using recover_files(1) [OF backed_kept [OF bk k3], of er2] rest by simp
  moreover have "\<forall>k\<in>set (map fst kvs). map_of dg k \<noteq> None \<or> map_of er k \<noteq> None"
    using cov recover_files(2) rest by blast
  moreover have "kview s' = (kview s)(StatusKey ''asset'' (AppID (m_scope m) (m_name m)) \<mapsto>
      DAssetStatus \<lparr>as_files = dg, as_errors = er, as_at = dk_clock dk ?fs3\<rparr>)"
    using rest(4) etcd_api.put_law [OF assms(1)] by (auto simp: PutStatus_def split: sum.splits)
  ultimately show ?thesis using iso k3 by (auto simp: kept_def)
qed

end

section \<open>A reference disk\<close>

text \<open>The files as an association list; a directory is what files are below.\<close>

type_synonym ref_disk = "(string \<times> string) list"

definition rd_fresh :: "ref_disk \<Rightarrow> string" where
  "rd_fresh fs = replicate (Suc (sum_list (map (length \<circ> fst) fs))) (CHR ''0'')"

definition rd_dir :: "ref_disk \<Rightarrow> string \<Rightarrow> bool" where
  "rd_dir fs p = (map_of fs p = None \<and> list_ex (\<lambda>e. has_prefix (fst e) (p @ ''/'')) fs)"

definition rd_entry :: "string \<Rightarrow> string \<Rightarrow> (string \<times> bool) option" where
  "rd_entry d p =
     (if \<not> has_prefix p (d @ ''/'') then None
      else case split_char (CHR ''/'') (drop (Suc (length d)) p) of
             n # r \<Rightarrow> if plain_elem n then Some (n, r \<noteq> []) else None
           | [] \<Rightarrow> None)"

definition ref_disk :: "ref_disk disk" where
  "ref_disk =
     \<lparr>dk_mkdir = (\<lambda>fs p. (fs, None)), dk_is_dir = rd_dir,
      dk_remove_all = (\<lambda>fs p. (filter (\<lambda>e. \<not> (fst e = p \<or> has_prefix (fst e) (p @ ''/''))) fs, None)),
      dk_create_temp = (\<lambda>fs d b. let tmp = d @ ''/'' @ butlast b @ rd_fresh fs in Inr (kv_set tmp [] fs, tmp)),
      dk_write = (\<lambda>fs p c. (kv_set p c fs, None)), dk_chmod = (\<lambda>fs p. (fs, None)),
      dk_rename = (\<lambda>fs p q. case map_of fs p of None \<Rightarrow> Inl ''no such file'' | Some c \<Rightarrow> Inr (kv_del p (kv_set q c fs))),
      dk_remove = (\<lambda>fs p. Inr (kv_del p fs)),
      dk_read_dir = (\<lambda>fs d. Inr (remdups (List.map_filter (\<lambda>e. rd_entry d (fst e)) fs))),
      dk_read = (\<lambda>fs p. case map_of fs p of None \<Rightarrow> Inl ''no such file'' | Some c \<Rightarrow> Inr c),
      dk_fetch = (\<lambda>fs u t. (fs, Inl (''fetch '' @ u))),
      dk_sha = (\<lambda>c. ''sha:'' @ c), dk_clock = (\<lambda>fs. 0)\<rparr>"

lemma rd_fresh_new: "map_of fs (d @ b @ rd_fresh fs) = None"
proof -
  have "length p \<le> sum_list (map (length \<circ> fst) fs)" if "p \<in> fst ` set fs" for p
    using that member_le_sum_list [of "length p" "map (length \<circ> fst) fs"] by auto
  moreover have "length (d @ b @ rd_fresh fs) > sum_list (map (length \<circ> fst) fs)" by (simp add: rd_fresh_def)
  ultimately show ?thesis by (metis leD map_of_eq_None_iff)
qed

lemma rd_entry_plain: "rd_entry d p = Some (n, b) \<Longrightarrow> plain_elem n"
  by (auto simp: rd_entry_def split: if_splits list.splits)

interpretation rd: asset_disk ref_disk map_of root for root
proof (unfold_locales, goal_cases)
  case (3 q p fs)
  then show ?case
    using map_of_filter_keys [where P = "\<lambda>x. \<not> (x = p \<or> has_prefix x (p @ ''/''))" and kvs = fs]
    by (simp add: ref_disk_def fun_eq_iff)
next
  case (4 fs d b fs' tmp)
  then show ?case
    using rd_fresh_new [of fs "d @ ''/''" b] by (auto simp: ref_disk_def Let_def)
next
  case (10 fs d es n isd)
  then show ?case using rd_entry_plain by (auto simp: ref_disk_def List.map_filter_def)
qed (auto simp: ref_disk_def rd_dir_def fun_eq_iff split: option.splits)

section \<open>Assets on disk\<close>


definition tls_asset :: manifest where
  "tls_asset = \<lparr>m_kind = ''asset'', m_scope = [], m_name = ''tls'',
     m_spec = JObj [(''files'', JObj [(''key'', JStr ''secret''), (''crt'', JObj [(''_source'', JStr ''url''), (''url'', JStr ''u'')])])],
     m_metadata = None\<rparr>"

definition tls_disk :: ref_disk where
  "tls_disk = [(''/opt/voodu/assets/tls/crt'', ''old''), (''/opt/voodu/assets/tls/gone'', ''x'')]"

lemma tls_plain: "rd.plain_asset ''/opt/voodu'' [] ''tls''"
proof -
  have "''/opt/voodu'' = rooted_path [''opt'', ''voodu'']" by (simp add: rooted_path_def)
  then show ?thesis unfolding rd.plain_asset_def by (intro conjI exI [of _ "[''opt'', ''voodu'']"]) (simp_all add: plain_elem_def)
qed


definition tls_consumer :: manifest where
  "tls_consumer = \<lparr>m_kind = ''deployment'', m_scope = ''prod'', m_name = ''web'',
     m_spec = JObj [(''volumes'', JList [JStr ''${asset.tls.key}:/k'']), (''image'', JStr ''web:1'')], m_metadata = None\<rparr>"

theorem stamping_exact_and_stable_witness:
  "\<exists>fs'. stampConsumerSpec kv_client ([], False) id [\<lparr>ar_scope = [], ar_name = ''tls'', ar_key = ''key''\<rparr> \<mapsto> ''d1''] tls_consumer
       = Inr (tls_consumer\<lparr>m_spec := JObj fs'\<rparr>)
     \<and> digests_of fs' ''tls.key'' = Some ''d1''"
proof -
  let ?b = "[\<lparr>ar_scope = [], ar_name = ''tls'', ar_key = ''key''\<rparr> \<mapsto> ''d1'']"
  let ?v = "JList [JStr ''${asset.tls.key}:/k'']"
  let ?fs' = "[(''_asset_digests'', JObj [(''tls.key'', JStr ''d1'')]), (''image'', JStr ''web:1''), (''volumes'', ?v)]"
  have n: "\<And>n :: int. id (id n) = id n" by simp
  have a: "any_map id (m_spec tls_consumer) = Inr (Some [(''image'', JStr ''web:1''), (''volumes'', ?v)])" by code_simp
  have r: "spec_refs (kv_del digests_field [(''image'', JStr ''web:1''), (''volumes'', ?v)]) =
      Inr [\<lparr>ar_scope = [], ar_name = ''tls'', ar_key = ''key''\<rparr>]" by code_simp
  have st: "stampConsumerSpec kv_client ([], False) id ?b tls_consumer = Inr (tls_consumer\<lparr>m_spec := JObj ?fs'\<rparr>)" by code_simp
  from stamping_exact_and_stable [OF n a r st]
  have "digests_of ?fs' (formatAssetRef \<lparr>ar_scope = [], ar_name = ''tls'', ar_key = ''key''\<rparr>) =
      asset_digest kv_client ([], False) ?b \<lparr>ar_scope = [], ar_name = ''tls'', ar_key = ''key''\<rparr>" by auto
  then show ?thesis using st by (intro exI [of _ ?fs']) (simp add: formatAssetRef_def asset_digest_def)
qed

section \<open>Where the paths meet\<close>

text \<open>The directory of a scoped asset is the file of a key of the unscoped asset named like its scope.\<close>

lemma scoped_asset_inside_unscoped:
  assumes "rd.plain_asset root scope nm" "plain_elem scope"
  shows "AssetFile root [] scope nm = AssetDir root scope nm"
proof -
  from assms obtain rs where rs: "root = rooted_path rs" "list_all plain_elem rs" and nm: "plain_elem nm"
    by (auto simp: rd.plain_asset_def)
  have pa: "plain_elem ''assets''" by (simp add: plain_elem_def)
  have as: "AssetsDir root = rooted_path (rs @ [''assets''])"
    unfolding AssetsDir_def rs(1) by (rule path_join_rooted [OF rs(2) pa])
  have ne: "scope \<noteq> []" "nm \<noteq> []" using assms(2) nm by (auto simp: plain_elem_def)
  have "AssetDir root [] scope = rooted_path (rs @ [''assets'', scope])"
    unfolding AssetDir_def as using path_join_elems [of "rs @ [''assets'']" "[[], scope]"] rs(2) pa assms(2) ne by simp
  then have "AssetFile root [] scope nm = rooted_path (rs @ [''assets'', scope, nm])"
    unfolding AssetFile_def using path_join_elems [of "rs @ [''assets'', scope]" "[nm]"] rs(2) pa assms(2) nm ne by simp
  moreover have "AssetDir root scope nm = rooted_path (rs @ [''assets'', scope, nm])"
    unfolding AssetDir_def as using path_join_elems [of "rs @ [''assets'']" "[scope, nm]"] rs(2) pa assms(2) nm ne by simp
  ultimately show ?thesis by simp
qed

text \<open>Removing the unscoped asset \<open>prod\<close> removes the files of every asset of the scope \<open>prod\<close>.\<close>

lemma asset_removal_crosses_scopes:
  "fst (snd (asset_remove kv_client ref_disk ''/opt/voodu'' ([], False)
     [(''/opt/voodu/assets/prod/tls/key'', ''k'')] [] ''prod'')) = []"
  by code_simp

text \<open>A name with \<open>..\<close> elements passes validation and leaves the directory of the assets.\<close>

lemma asset_name_escapes:
  "is_ok (Validate (tls_asset\<lparr>m_name := ''../../../etc/cron.d''\<rparr>))
   \<and> AssetFile ''/opt/voodu'' [] ''../../../etc/cron.d'' ''job'' = ''/etc/cron.d/job''"
  by code_simp

text \<open>An invalid key is not written, but its path is read: the status gets the digest of any file.\<close>

lemma invalid_key_digested:
  "snd (snd (materializeAssetSpec kv_client ref_disk ''/opt/voodu'' ([], False) [(''/etc/shadow'', ''root'')]
     (tls_asset\<lparr>m_spec := JObj [(''files'', JObj [(''../../../../etc/shadow'', JStr ''x'')])]\<rparr>)))
   = Inr ([(''../../../../etc/shadow'', ''sha:root'')],
          [(''../../../../etc/shadow'', ''invalid key: must be alphanumeric + underscore + hyphen (no dots, no whitespace)'')])"
  by code_simp

text \<open>A key that starts with an underscore is accepted, and a reference to it is left as it is.\<close>

lemma underscore_key_not_referable:
  "validAssetKey ''_conf'' \<and> InterpolateAssetRefs ''${asset.web._conf}'' (\<lambda>r. None) = Inr ''${asset.web._conf}''"
  by code_simp

end
