(* ===== verification/ApiProps.thy ===== *)
theory ApiProps
  imports Applied Stamping
begin

text \<open>
  The properties of the HTTP API's state-changing endpoints, with a reference environment for them: the
  reference etcd, the reference disk and a docker whose containers are the disk's entries.
\<close>

section \<open>A reference environment\<close>

definition ref_plugins :: "ref_disk plugin_host" where
  "ref_plugins = \<lparr>ph_configured = True, ph_lookup = (\<lambda>fs n. None), ph_installer = False,
     ph_install = (\<lambda>fs n r. (fs, Inl ''no installer'')), ph_default_repo = (\<lambda>n. []),
     ph_run = (\<lambda>fs p r. (fs, Inl ''no plugin'')), ph_jobs = False, ph_queue_job = (\<lambda>fs k r. fs),
     ph_images = False, ph_image_id = (\<lambda>fs i. []), ph_pull = (\<lambda>fs i. (fs, None)), ph_now = (\<lambda>fs. 0)\<rparr>"

text \<open>A container of the deployment \<open>prod/web\<close>, its entry's content the replica id.\<close>

definition ref_labels :: "string \<Rightarrow> (string \<rightharpoonup> string)" where
  "ref_labels r = map_of [(''createdby'', ''voodu''), (''voodu.kind'', ''deployment''), (''voodu.scope'', ''prod''),
     (''voodu.name'', ''web''), (''voodu.replica_id'', r)]"

definition ref_apic :: "kv_state etcd \<Rightarrow> (kv_state, ref_disk) api" where
  "ref_apic cl = \<lparr>ap_cl = cl, ap_ph = ref_plugins, ap_dk = ref_disk, ap_root = ''/opt/voodu'', ap_num = id,
     ap_time = (\<lambda>t. Some 0), ap_prune_volumes = None,
     ap_inspect = (\<lambda>fs n. case map_of fs n of None \<Rightarrow> Inl ''no such container'' | Some r \<Rightarrow> Inr (ref_labels r)),
     ap_stop = (\<lambda>fs n. (fs, None)), ap_start = (\<lambda>fs n. (fs, None)), ap_remove = (\<lambda>fs n. (kv_del n fs, None)),
     ap_restart = (\<lambda>k. None), ap_rollback = (\<lambda>k. None), ap_write_env = (\<lambda>fs n ps. fs)\<rparr>"

abbreviation ref_api :: "(kv_state, ref_disk) api" where
  "ref_api \<equiv> ref_apic kv_client"

definition dep :: "string \<Rightarrow> string \<Rightarrow> manifest" where
  "dep sc nm = \<lparr>m_kind = ''deployment'', m_scope = sc, m_name = nm, m_spec = JNull, m_metadata = None\<rparr>"

definition site :: "string \<Rightarrow> string \<Rightarrow> manifest" where
  "site nm h = \<lparr>m_kind = ''ingress'', m_scope = ''prod'', m_name = nm, m_spec = JObj [(''host'', JStr h)], m_metadata = None\<rparr>"

definition stored :: "manifest list \<Rightarrow> kv_state" where
  "stored ms = (map (\<lambda>m. (mkey m, DManifest m)) ms, False)"

lemma tidy_stored: "\<forall>m\<in>set ms. plain m \<Longrightarrow> tidy (kv_view (stored ms))"
  by (auto simp: tidy_def kv_view_def stored_def dest!: map_of_SomeD)

section \<open>Apply\<close>

text \<open>
  C2: An apply with prune that succeeds leaves, under every key of the batch, the manifest the batch
  declares there; every other key in a (kind, scope) bucket the batch touches is gone; every key outside
  is as it was; and the store still holds only valid manifests under their own keys.
\<close>

theorem apply_leaves_exactly_the_batch:
  assumes "etcd_api (ap_cl a) view" and "tidy (view s)" and "slash_free ms"
    and "apply_batch a s fs False True ms = (s', fs', Done r)"
  shows "(\<forall>m\<in>set ms. \<exists>m2\<in>set ms. mkey m2 = mkey m \<and>
            view s' (mkey m) = Some (DManifest (stamped (ap_now a fs) m2)))
    \<and> (\<forall>k. k \<notin> mkey ` set ms \<longrightarrow> view s' k = (if touched ms k then None else view s k))
    \<and> tidy (view s')"
  using etcd_api.apply_batch_exact(1-3) [OF assms(1) refl assms(2-4)] by blast

definition prod_store :: kv_state where
  "prod_store = stored [dep ''prod'' ''old'', dep ''dev'' ''x'', site ''w'' ''h'']"

lemma prod_tidy: "tidy (kv_view prod_store)"
  unfolding prod_store_def by (rule tidy_stored) code_simp

theorem apply_leaves_exactly_the_batch_witness:
  "case apply_batch ref_api prod_store [] False True [dep ''prod'' ''web''] of
     (s', fs', Done r) \<Rightarrow> kv_view s' (mkey (dep ''prod'' ''old'')) = None \<and>
       kv_view s' (mkey (dep ''dev'' ''x'')) = Some (DManifest (dep ''dev'' ''x'')) \<and> re_pruned r = [triple (dep ''prod'' ''old'')]
   | _ \<Rightarrow> False"
proof -
  let ?b = "[dep ''prod'' ''web'']"
  obtain s' fs' r where r: "apply_batch ref_api prod_store [] False True ?b = (s', fs', Done r)"
    and p: "re_pruned r = [triple (dep ''prod'' ''old'')]"
  proof -
    have "case apply_batch ref_api prod_store [] False True ?b of
        (s', fs', Done r) \<Rightarrow> re_pruned r = [triple (dep ''prod'' ''old'')] | _ \<Rightarrow> False" by code_simp
    then show ?thesis using that by (auto split: prod.splits response.splits)
  qed
  have cl: "etcd_api (ap_cl ref_api) kv_view" by (simp add: ref_apic_def kv.etcd_api_axioms)
  have sf: "slash_free ?b" by code_simp
  have k: "mkey (dep ''prod'' ''old'') \<notin> mkey ` set ?b" "mkey (dep ''dev'' ''x'') \<notin> mkey ` set ?b"
    "touched ?b (mkey (dep ''prod'' ''old''))" "\<not> touched ?b (mkey (dep ''dev'' ''x''))"
    "kv_view prod_store (mkey (dep ''dev'' ''x'')) = Some (DManifest (dep ''dev'' ''x''))"
    by (code_simp, code_simp, code_simp, code_simp, code_simp)
  from apply_leaves_exactly_the_batch [OF cl prod_tidy sf r] k show ?thesis by (simp add: r p)
qed





text \<open>
  C39: An apply is not atomic and its dry run does not validate: when a manifest of the batch is invalid,
  the apply is refused, but every manifest before it has been written and stays, and the dry run of the
  same batch is answered as if all of it had been accepted.
\<close>

theorem refused_apply_keeps_earlier_writes:
  assumes "answering_etcd (ap_cl a) view up" and "up s" and "tidy (view s)"
    and "\<forall>m\<in>set ms. plain m" and "Validate m0 = Inl e"
  shows "(\<exists>s' t. apply_batch a s fs False prune (ms @ m0 # ms') = (s', fs, Rejected 400 t) \<and>
            view s' = fold (\<lambda>m f. f(mkey m \<mapsto> DManifest (stamped (ap_now a fs) m))) ms (view s))
    \<and> (\<exists>r. apply_batch a s fs True False (ms @ m0 # ms') = (s, fs, Done r) \<and> re_applied r = ms @ m0 # ms')"
  using answering_etcd.apply_each_stops [OF assms, of "ap_now a fs" ms']
    answering_etcd.apply_each_dry_accepts [OF assms(1-3), of "ap_now a fs" "ms @ m0 # ms'"]
  by (auto simp: apply_batch_def)

theorem refused_apply_keeps_earlier_writes_witness:
  "\<exists>s' t r. apply_batch ref_api prod_store [] False True [dep ''prod'' ''web'', dep [] ''bad''] = (s', [], Rejected 400 t)
     \<and> kv_view s' (mkey (dep ''prod'' ''web'')) = Some (DManifest (stamped 0 (dep ''prod'' ''web'')))
     \<and> apply_batch ref_api prod_store [] True False [dep ''prod'' ''web'', dep [] ''bad''] = (prod_store, [], Done r)"
proof -
  have cl: "answering_etcd (ap_cl ref_api) kv_view (\<lambda>s. \<not> snd s)" by (simp add: ref_apic_def kv_up.answering_etcd_axioms)
  have up: "\<not> snd prod_store" by (simp add: prod_store_def stored_def)
  have pl: "\<forall>m\<in>set [dep ''prod'' ''web'']. plain m" by code_simp
  have bad: "Validate (dep [] ''bad'') = Inl ScopeRequired" by code_simp
  have now: "ap_now ref_api [] = 0" by code_simp
  from refused_apply_keeps_earlier_writes [OF cl up prod_tidy pl bad, of "[]" True "[]"] show ?thesis
    by (auto simp: now)
qed

section \<open>Wiping a scope\<close>



section \<open>Stop and start\<close>

lemma frozen_not_desired: "FrozenKey k sc nm \<noteq> DesiredKey k' sc' nm'"
  by (simp add: FrozenKey_def DesiredKey_def ScopedPrefix_def DesiredPrefix_def)

text \<open>
  C14: Stopping a pod with the freeze flag adds exactly its replica id to the frozen ids of its resource,
  and starting it takes exactly that id out again and writes the stored manifest back for the
  reconciler; nothing else in etcd changes. Both reads of the frozen ids must have been answered.
\<close>

theorem freeze_and_thaw:
  assumes "etcd_api (ap_cl a) view" and "tidy (view s)"
    and "ap_inspect a fs (trim_space nm) = Inr labels" and "ParseLabels labels = Some i"
    and "GetFrozenReplicaIDs (ap_cl a) s (id_kind i) (id_scope i) (id_name i) = Inr ids"
    and "handlePodStop a s fs nm True = (s1, fs1, Done x)"
    and "ap_inspect a fs1 (trim_space nm) = Inr labels"
    and "GetFrozenReplicaIDs (ap_cl a) s1 (id_kind i) (id_scope i) (id_name i) = Inr ids1"
    and "handlePodStart a s1 fs1 nm = (s2, fs2, Done y)"
  shows "set (frozen_ids (view s1) i) = insert (id_replica i) (set (frozen_ids (view s) i))
    \<and> (\<forall>k. k \<noteq> FrozenKey (id_kind i) (id_scope i) (id_name i) \<longrightarrow> view s1 k = view s k)
    \<and> y = (True, True) \<and> set (frozen_ids (view s2) i) = set (frozen_ids (view s) i) - {id_replica i}
    \<and> (\<exists>m md. view s (DesiredKey (id_kind i) (id_scope i) (id_name i)) = Some (DManifest m) \<and>
         (\<forall>k. k \<noteq> FrozenKey (id_kind i) (id_scope i) (id_name i) \<longrightarrow>
            view s2 k = ((view s)(mkey m \<mapsto> DManifest (m\<lparr>m_metadata := md\<rparr>))) k))"
proof -
  let ?fk = "FrozenKey (id_kind i) (id_scope i) (id_name i)" and ?dk = "DesiredKey (id_kind i) (id_scope i) (id_name i)"
  note stop = etcd_api.stop_view [OF assms(1) refl assms(3-6)]
  obtain s1' c m m' where t: "thaw (ap_cl a) s1 (Some i) = Inr (s1', c)" and y: "y = (True, c)"
    and g: "Get (ap_cl a) s1' (id_kind i) (id_scope i) (id_name i) = Inr (Some m)"
    and p: "Put (ap_cl a) s1' (ap_now a fs2) m = Inr (s2, m')"
    by (rule etcd_api.start_view [OF assms(1) refl assms(7,4,8) stop(3) assms(9)])
  note thawed = etcd_api.thaw_view [OF assms(1) assms(8) stop(3) t]
  have nd: "?dk \<noteq> ?fk" using frozen_not_desired by metis
  obtain m0 md where m0: "view s1' ?dk = Some (DManifest m0)" "m = m0\<lparr>m_metadata := md\<rparr>"
    by (rule etcd_api.Get_Some [OF assms(1) g])
  have d: "view s ?dk = Some (DManifest m0)" using m0(1) thawed(2) [OF nd] stop(2) [OF nd] by simp
  have mk: "mkey m = mkey m0" by (simp add: m0(2) mkey_def)
  have k0: "mkey m0 = ?dk" using tidyD [OF assms(2) d] by auto
  have st: "stamped (ap_now a fs2) m = m0\<lparr>m_metadata := m_metadata (stamped (ap_now a fs2) m)\<rparr>"
    by (simp add: stamped_def m0(2))
  have v: "view s2 = (view s1')(mkey m0 \<mapsto> DManifest (m0\<lparr>m_metadata := m_metadata (stamped (ap_now a fs2) m)\<rparr>))"
    using etcd_api.Put_view(1) [OF assms(1) p] unfolding mk by (subst st [symmetric])
  have "frozen_ids (view s2) i = frozen_ids (view s1') i" using nd by (simp add: v frozen_ids_def k0)
  then show ?thesis
    using stop thawed y d
    by (intro conjI exI [of _ m0] exI [of _ "m_metadata (stamped (ap_now a fs2) m)"]) (auto simp: v)
qed

definition web_store :: kv_state where
  "web_store = ((''/frozen/deployments/prod/web'', DFrozen [''a1'']) # fst (stored [dep ''prod'' ''web'']), False)"

theorem freeze_and_thaw_witness:
  "case handlePodStop ref_api web_store [(''prod-web.b2'', ''b2'')] ''prod-web.b2'' True of
     (s1, fs1, Done x) \<Rightarrow>
       (case handlePodStart ref_api s1 fs1 ''prod-web.b2'' of
          (s2, _, Done y) \<Rightarrow> y = (True, True) \<and> set (frozen_ids (kv_view s1) (the (ParseLabels (ref_labels ''b2'')))) = {''a1'', ''b2''} \<and>
            set (frozen_ids (kv_view s2) (the (ParseLabels (ref_labels ''b2'')))) = {''a1''}
        | _ \<Rightarrow> False)
   | _ \<Rightarrow> False"
proof -
  define i where "i = the (ParseLabels (ref_labels ''b2''))"
  let ?fs = "[(''prod-web.b2'', ''b2'')]" and ?nm = "''prod-web.b2''"
  define s1 where "s1 = (kv_set ''/frozen/deployments/prod/web'' (DFrozen [''a1'', ''b2'']) (fst web_store), False)"
  have i: "ParseLabels (ref_labels ''b2'') = Some i" unfolding i_def by code_simp
  have ik: "id_kind i = ''deployment''" "id_scope i = ''prod''" "id_name i = ''web''" "id_replica i = ''b2''"
    unfolding i_def by (code_simp, code_simp, code_simp, code_simp)
  have cl: "etcd_api (ap_cl ref_api) kv_view" by (simp add: ref_apic_def kv.etcd_api_axioms)
  have ty: "tidy (kv_view web_store)"
  proof -
    have "tidy (kv_view (stored [dep ''prod'' ''web'']))" by (rule tidy_stored) code_simp
    moreover have "\<not> has_prefix ''/frozen/deployments/prod/web'' AllDesiredPrefix" by code_simp
    ultimately show ?thesis by (auto simp: tidy_def web_store_def kv_view_def)
  qed
  have t: "trim_space ?nm = ?nm" by code_simp
  have ins: "ap_inspect ref_api ?fs (trim_space ?nm) = Inr (ref_labels ''b2'')"
    unfolding t by (simp add: ref_apic_def)
  have g: "GetFrozenReplicaIDs (ap_cl ref_api) web_store (id_kind i) (id_scope i) (id_name i) = Inr [''a1'']"
    unfolding ik by code_simp
  have st: "handlePodStop ref_api web_store ?fs ?nm True = (s1, ?fs, Done True)" unfolding s1_def by code_simp
  have g1: "GetFrozenReplicaIDs (ap_cl ref_api) s1 (id_kind i) (id_scope i) (id_name i) = Inr [''a1'', ''b2'']"
    unfolding ik s1_def by code_simp
  obtain s2 fs2 y where sa: "handlePodStart ref_api s1 ?fs ?nm = (s2, fs2, Done y)"
  proof -
    have "case handlePodStart ref_api s1 ?fs ?nm of (s2, fs2, Done y) \<Rightarrow> True | _ \<Rightarrow> False" unfolding s1_def by code_simp
    then show ?thesis using that by (auto split: prod.splits response.splits)
  qed
  have f0: "frozen_ids (kv_view web_store) i = [''a1'']" by (simp add: frozen_ids_def ik FrozenKey_def kv_view_def web_store_def)
  from freeze_and_thaw [OF cl ty ins i g st ins g1 sa] show ?thesis
    by (auto simp: st sa i_def [symmetric] f0 ik)
qed

text \<open>
  C40: When the read of the frozen ids fails, a stop that is answered as done leaves its own replica as the
  only frozen one: every other pod frozen before is no longer.
\<close>

theorem stop_with_failed_read_unfreezes_others:
  assumes "etcd_api (ap_cl a) view"
    and "ap_inspect a fs (trim_space nm) = Inr labels" and "ParseLabels labels = Some i"
    and "GetFrozenReplicaIDs (ap_cl a) s (id_kind i) (id_scope i) (id_name i) = Inl e"
    and "handlePodStop a s fs nm True = (s', fs', Done x)"
  shows "frozen_ids (view s') i = [id_replica i]"
proof -
  have "SetFrozenReplicaIDs (ap_cl a) s (id_kind i) (id_scope i) (id_name i) (addReplicaID [] (id_replica i)) = Inr s'"
    using assms(2-5)
    by (auto simp: handlePodStop_def Let_def frozen_or_none_def split: sum.splits prod.splits option.splits if_splits)
  from etcd_api.frozen_write(1) [OF assms(1) this] show ?thesis
    by (simp add: addReplicaID_def sort_strs_def)
qed

text \<open>An etcd whose reads time out and whose writes go through.\<close>

definition deaf_client :: "kv_state etcd" where
  "deaf_client = kv_client\<lparr>etcd_get := (\<lambda>s k. Inl ''context deadline exceeded'')\<rparr>"

lemma deaf_requests:
  "etcd_get deaf_client s k = Inl ''context deadline exceeded''" "etcd_list deaf_client = etcd_list kv_client"
  "etcd_put deaf_client = etcd_put kv_client" "etcd_delete deaf_client = etcd_delete kv_client"
  "etcd_delete_prefix deaf_client = etcd_delete_prefix kv_client" "etcd_txn deaf_client = etcd_txn kv_client"
  by (simp_all add: deaf_client_def)

interpretation deaf: etcd_api deaf_client kv_view
proof (unfold_locales, goal_cases)
  case (2 s p kvs k v)
  then show ?case unfolding deaf_requests by (rule kv.list_sound)
next
  case (3 s p kvs k v)
  then show ?case unfolding deaf_requests by (rule kv.list_complete)
next
  case (4 s p kvs)
  then show ?case unfolding deaf_requests by (rule kv.list_distinct)
next
  case (5 s k v s')
  then show ?case unfolding deaf_requests by (rule kv.put_law)
next
  case (6 s k s' n)
  then show ?case unfolding deaf_requests by (rule kv.delete_law)
next
  case (7 s p s' n)
  then show ?case unfolding deaf_requests by (rule kv.delete_prefix_law)
next
  case (8 s cs ts es s' ok)
  then show ?case unfolding deaf_requests by (rule kv.txn_law)
qed (simp add: deaf_requests)

theorem stop_with_failed_read_unfreezes_others_witness:
  "case handlePodStop (ref_apic deaf_client) web_store [(''prod-web.b2'', ''b2'')] ''prod-web.b2'' True of
     (s', _, Done x) \<Rightarrow> frozen_ids (kv_view web_store) (the (ParseLabels (ref_labels ''b2''))) = [''a1''] \<and>
       frozen_ids (kv_view s') (the (ParseLabels (ref_labels ''b2''))) = [''b2'']
   | _ \<Rightarrow> False"
proof -
  define i where "i = the (ParseLabels (ref_labels ''b2''))"
  let ?a = "ref_apic deaf_client" and ?fs = "[(''prod-web.b2'', ''b2'')]" and ?nm = "''prod-web.b2''"
  have i: "ParseLabels (ref_labels ''b2'') = Some i" unfolding i_def by code_simp
  have ik: "id_kind i = ''deployment''" "id_scope i = ''prod''" "id_name i = ''web''" "id_replica i = ''b2''"
    unfolding i_def by (code_simp, code_simp, code_simp, code_simp)
  have cl: "etcd_api (ap_cl ?a) kv_view" by (simp add: ref_apic_def deaf.etcd_api_axioms)
  have t: "trim_space ?nm = ?nm" by code_simp
  have ins: "ap_inspect ?a ?fs (trim_space ?nm) = Inr (ref_labels ''b2'')" unfolding t by (simp add: ref_apic_def)
  have g: "GetFrozenReplicaIDs (ap_cl ?a) web_store (id_kind i) (id_scope i) (id_name i) = Inl ''etcd get frozen: context deadline exceeded''"
    unfolding ik by code_simp
  obtain s' fs' x where st: "handlePodStop ?a web_store ?fs ?nm True = (s', fs', Done x)"
  proof -
    have "case handlePodStop ?a web_store ?fs ?nm True of (s2, fs2, Done y) \<Rightarrow> True | _ \<Rightarrow> False" by code_simp
    then show ?thesis using that by (auto split: prod.splits response.splits)
  qed
  have f0: "frozen_ids (kv_view web_store) i = [''a1'']" by (simp add: frozen_ids_def ik FrozenKey_def kv_view_def web_store_def)
  from stop_with_failed_read_unfreezes_others [OF cl ins i g st] show ?thesis
    by (simp add: st i_def [symmetric] f0 ik)
qed

end
