(* ===== verification/Spec2Isabelle.thy ===== *)
theory Spec2Isabelle
  imports Keys PodIPs Converge Reconciler Scheduler Ordinals Signed Readiness ApiProps
begin

text \<open>
  A model of the controller of voodu (\<open>src/internal/controller\<close>), the daemon that keeps the containers
  of one host in line with the manifests an operator has declared.

  How the parts interact. A declared manifest is a JSON document under a key of etcd. The reconciler
  gets every change as an event and calls the handler of the manifest's kind: a deployment handler
  creates, replaces and prunes replica containers, an ingress handler tells the router plugin which
  replicas to balance over, job and cron job handlers keep a status record with a run history. The
  handlers write a status document per resource, read configuration buckets and frozen replica ids,
  and drive docker through the container manager. The cron scheduler evaluates the declared
  schedules and starts ticks; statefulset pods get fixed addresses from a pool reserved in etcd.

  The theories, from the bottom:
  \<^item> \<open>Prelude\<close>: results and error texts, association lists, the string functions of Go's library.
  \<^item> \<open>Keys\<close> (\<open>keys.go\<close>, \<open>manifest.go\<close>): kinds, manifests, validation, the etcd key of everything.
  \<^item> \<open>Etcd\<close>: the client as a record of requests that may fail, its laws (locale \<open>etcd_api\<close>, and
    \<open>answering_etcd\<close> for one that serves every request), the stored documents, and a reference client.
  \<^item> \<open>NetIP\<close>, \<open>PodIPs\<close> (\<open>pod_ips.go\<close>, \<open>pod_ip_store.go\<close>): prefixes and addresses, the pool, reservations.
  \<^item> \<open>Json\<close>, \<open>Store\<close> (\<open>store.go\<close>): decoding, manifests, statuses, config buckets, frozen ids.
  \<^item> \<open>Cron\<close> (\<open>cron.go\<close>): schedules on machine words, the search for the next tick.
  \<^item> \<open>Containers\<close>, \<open>Docker\<close> (\<open>labels.go\<close>, \<open>container.go\<close>): the identity labels, the container manager and
    its laws (locale \<open>container_api\<close>), proved for \<open>DockerContainerManager\<close> over the docker commands
    (locale \<open>docker_api\<close>), which a reference daemon implements.
  \<^item> \<open>Workload\<close> (\<open>handlers.go\<close>, \<open>surge.go\<close>, \<open>resources.go\<close>, \<open>aliases.go\<close>, \<open>k8svalues.go\<close>): the deployment
    spec with its defaults, ports, limits, spec hash and host port bindings.
  \<^item> \<open>Replicas\<close> (\<open>pod_env.go\<close>, \<open>env_from.go\<close>, \<open>init_containers.go\<close>): the environment of the handlers
    (record \<open>henv\<close>, locale \<open>host\<close>), the environment of a pod, init containers with their retries.
  \<^item> \<open>History\<close> (\<open>handlers.go\<close>, \<open>release.go\<close>): the status record with its bounded lists, the release
    history, rollback targets, garbage collection of run containers and image tags.
  \<^item> \<open>Deployment\<close>, \<open>Apply\<close> (\<open>handlers.go\<close>): replica count, pruning, draining, rolling replacement, then
    the whole of apply, remove and restart.
  \<^item> \<open>Rolling\<close>, \<open>Converge\<close>: what these do to the containers and to etcd.
  \<^item> \<open>Ingress\<close> (\<open>handlers_service.go\<close>): upstreams, the plugin's environment, apply, remove, republish;
    its republish discharges what the rolling replacement assumes of its hook (locale \<open>ingress_provider\<close>,
    interpretation \<open>wired\<close>).
  \<^item> \<open>Reconciler\<close> (\<open>reconciler.go\<close>, \<open>retry.go\<close>, \<open>reconcile_status.go\<close>): dispatch, retries, outcomes, as
    a step relation in which delayed retries fire in any order between other events.
  \<^item> \<open>Stateful\<close>, \<open>TopDown\<close>, \<open>Ordinals\<close> (\<open>handlers_statefulset.go\<close>): the statefulset handler; the laws its
    proofs share (locales \<open>ordinal_host\<close>, \<open>volume_api\<close> and \<open>sts_host\<close>, which extends both), the frames of each
    step, and what an apply, a prune, a restart and a removal do to the ordinals and their volumes.
  \<^item> \<open>Tokens\<close>, \<open>Signed\<close> (\<open>pat*.go\<close>, \<open>handlers_pat.go\<close>): access tokens, signed requests, nonces, the rate limiter.
  \<^item> \<open>Probes\<close>, \<open>Readiness\<close> (\<open>probe.go\<close>, \<open>runner.go\<close>, \<open>probes.go\<close>): the runners of the probes, the registry
    with its buffers and drains as a step function on events, the readiness records it writes through the
    handlers' status (locale \<open>readiness_recorder\<close>, for both kinds of workload).
  \<^item> \<open>Jobs\<close> (\<open>handlers_job.go\<close>, \<open>handlers_cronjob.go\<close>): runs, histories, the Forbid policy as a step relation.
  \<^item> \<open>Scheduler\<close> (\<open>scheduler.go\<close>): one evaluation over the declared cron jobs.
  \<^item> \<open>Paths\<close>, \<open>JsonAny\<close>, \<open>Assets\<close>, \<open>Stamping\<close> (\<open>paths.go\<close>, \<open>asset_refs.go\<close>, \<open>asset_stamp.go\<close>, \<open>handlers_asset.go\<close>):
    asset references in text, the digests stamped on their consumers, the files on disk (record \<open>disk\<close>, locale
    \<open>asset_disk\<close>, a reference disk).
  \<^item> \<open>Expand\<close> (\<open>plugin_expand.go\<close>, \<open>plugin_nested.go\<close>, the actions of \<open>handlers_plugin_dispatch.go\<close>, \<open>image_pull.go\<close>):
    the expansion of plugin blocks over a record of plugin runs.
  \<^item> \<open>Api\<close>, \<open>Applied\<close>, \<open>ApiProps\<close> (\<open>api.go\<close>): the endpoints that change state, composed of all of these, and what
    they do to the stored manifests (invariant \<open>tidy\<close>) and freeze annotations.

  How state and effects correspond to the code. A handler's method takes the pair of the etcd state
  and the host state and returns it updated, with an optional error; an early return of the code is
  a branch, an error that the code logs and ignores is dropped at the same place. A request to etcd
  or docker that fails may have had no effect on the rest of the state, and the laws say nothing
  else about it. Go maps whose order reaches the result are association lists in iteration order.
  The random ids, the clock, the attempt of a probe and its waiting, drains, webhooks, the router plugin, SHA-256 and the float
  functions are fields of records that stand for them; the laws the properties need of them are the
  assumptions of the locales, each interpreted on a reference environment in the model.

  What the lemmas show: keys and labels round trip and identify what they should; reservations of
  addresses are exclusive and complete; configuration writes are exact; a parsed schedule has bounded
  non-empty masks and its next tick is the first match; the histories are bounded and keep the newest
  entries; scaling reaches the wanted count, a rolling restart with surge never lowers the number of
  running replicas, a converged deployment is left alone, removal leaves nothing; an ingress gets
  exactly the running replicas; a statefulset apply brings every ordinal to its spec and fixed address, a restart
  goes from the highest ordinal down and waits for each, volumes outlive everything but a removal that
  asks for it; a signature binds method, path, query, body, timestamp and nonce, a request can replay
  only with a timestamp from the future, the rate limiter keeps the most recent clients; a probe's
  runner counts as its thresholds say, a failing container is restarted once, recoveries answer failures and
  a planned teardown is silent, under any interleaving of the drains; retries are bounded and end; a run is recorded and its container
  kept while it is in the history; a Forbid tick never overlaps another; the scheduler fires once per
  due interval; stamped digests are those of the references and of the files on disk; an apply with prune leaves exactly
  its batch and its dry run says what it would delete; hosts of ingresses stay unique; a scope wipe stays in its scope;
  a stop and a start freeze and thaw one pod. Properties of the kind error state what the code does where it does not do what its
  comments say: they are the theorems of the manifest's findings.

  Bounds and fuel. \<open>Cron.range_loop\<close> runs on fuel 200, proved enough for every range of at most 64
  values, the wrapped step included; all other recursion is structural or has a termination proof.
  The retry limit, the history limits and the search window are the constants of the code.

  Not modelled: the release commands (the steps they share with the
  deployment handler are), autoscaling, the reading and streaming endpoints of the HTTP API, the subprocesses of plugins, the
  mesh network, webhooks, the HCL parser, the build pipeline and the command line client. They are
  network, process or file access, or code of third parties; cancellation of contexts, logging, the activity trail and
  panics (but the one of an apply) are left out everywhere. A \<open>json.RawMessage\<close> holding \<open>null\<close> is treated as an absent one.
\<close>

end
